(* ===== verification/GoBase.thy ===== *)
theory GoBase
  imports Complex_Main "HOL-Library.Word" "HOL-Library.AList" "HOL-Library.Multiset"
begin

text \<open>
  The prelude of the development: what every component model shares.

  \<^item> \<open>go_error\<close> and \<open>res\<close>: a Go call returns a value, returns an \<open>error\<close>, or panics. The
    three outcomes are values of the sum type \<open>'a res\<close>; \<open>rbind\<close> sequences two calls and
    \<open>rfold\<close> is a \<open>for range\<close> loop whose body may fail.
  \<^item> \<open>i64\<close>: Go's \<open>int\<close> and \<open>int64\<close> on the 64-bit targets the project ships: 64-bit words
    read in two's complement, arithmetic wraps around.
  \<^item> \<open>gomap\<close>: a Go map as an association list. The order of the list stands for one of the
    iteration orders a \<open>range\<close> over the map may take; lookups are \<open>map_of\<close>, a store is
    \<open>AList.update\<close>.
  \<^item> the locale \<open>group_loop\<close>: the contract of the "one accumulator per key" loops that the
    aggregation functions are built from.
\<close>

named_theorems res_simps
named_theorems gomap_simps

section \<open>Results\<close>

datatype go_error = GoPanic string | GoErr string

type_synonym 'a res = "go_error + 'a"

definition rbind :: "'a res \<Rightarrow> ('a \<Rightarrow> 'b res) \<Rightarrow> 'b res" where
  "rbind m f = (case m of Inl e \<Rightarrow> Inl e | Inr x \<Rightarrow> f x)"

lemma rbind_simps [simp, res_simps]:
  "rbind (Inl e) f = Inl e"
  "rbind (Inr x) f = f x"
  by (simp_all add: rbind_def)

lemma rbind_eq_Inr [res_simps]: "rbind m f = Inr y \<longleftrightarrow> (\<exists>x. m = Inr x \<and> f x = Inr y)"
  by (cases m) auto

lemma rbind_eq_Inl [res_simps]:
  "rbind m f = Inl e \<longleftrightarrow> m = Inl e \<or> (\<exists>x. m = Inr x \<and> f x = Inl e)"
  by (cases m) auto

lemma rbind_cong [fundef_cong]:
  "m = m' \<Longrightarrow> (\<And>x. m' = Inr x \<Longrightarrow> f x = g x) \<Longrightarrow> rbind m f = rbind m' g"
  by (cases m') auto

text \<open>Sequencing steps that cannot fail under an invariant.\<close>

lemma rbind_okI:
  "\<exists>x. m = Inr x \<and> P x \<Longrightarrow> (\<And>x. P x \<Longrightarrow> \<exists>y. f x = Inr y \<and> Q y) \<Longrightarrow> \<exists>y. rbind m f = Inr y \<and> Q y"
  by fastforce

text \<open>Code whose only failures are panics: it has no \<open>error\<close> to return.\<close>

named_theorems panics_intros

definition panics_only :: "'a res \<Rightarrow> bool" where
  "panics_only m \<longleftrightarrow> (\<forall>e. m \<noteq> Inl (GoErr e))"

lemma panics_only_simps [simp]: "panics_only (Inr x)" "panics_only (Inl (GoPanic p))" "\<not> panics_only (Inl (GoErr e))"
  by (simp_all add: panics_only_def)

lemma panics_only_bind [panics_intros]:
  "panics_only m \<Longrightarrow> (\<And>x. panics_only (f x)) \<Longrightarrow> panics_only (rbind m f)"
  by (cases m) (auto simp: panics_only_def)

definition is_ok :: "'a res \<Rightarrow> bool" where
  "is_ok m = (case m of Inl _ \<Rightarrow> False | Inr _ \<Rightarrow> True)"

lemma is_ok_simps [simp]: "\<not> is_ok (Inl e)" "is_ok (Inr x)"
  by (simp_all add: is_ok_def)

lemma is_ok_conv: "is_ok m \<longleftrightarrow> (\<exists>x. m = Inr x)"
  by (cases m) auto

fun rfold :: "('s \<Rightarrow> 'a \<Rightarrow> 's res) \<Rightarrow> 's \<Rightarrow> 'a list \<Rightarrow> 's res" where
  "rfold f s [] = Inr s"
| "rfold f s (x # xs) = rbind (f s x) (\<lambda>s'. rfold f s' xs)"

lemma panics_only_rfold [panics_intros]: "(\<And>s x. panics_only (f s x)) \<Longrightarrow> panics_only (rfold f s xs)"
  by (induction xs arbitrary: s) (auto intro: panics_only_bind)

lemma rfold_append: "rfold f s (xs @ ys) = rbind (rfold f s xs) (\<lambda>s'. rfold f s' ys)"
proof (induction xs arbitrary: s)
  case Nil
  then show ?case by simp
next
  case (Cons x xs)
  then show ?case by (cases "f s x") auto
qed

lemma rfold_invariant:
  assumes "rfold f s xs = Inr t" and "P s"
    and "\<And>s x s'. x \<in> set xs \<Longrightarrow> P s \<Longrightarrow> f s x = Inr s' \<Longrightarrow> P s'"
  shows "P t"
  using assms
proof (induction xs arbitrary: s)
  case Nil
  then show ?case by simp
next
  case (Cons x xs)
  then show ?case by (auto simp: rbind_eq_Inr)
qed

lemma rfold_ok:
  assumes "P s"
    and "\<And>s x. x \<in> set xs \<Longrightarrow> P s \<Longrightarrow> \<exists>s'. f s x = Inr s' \<and> P s'"
  shows "\<exists>t. rfold f s xs = Inr t \<and> P t"
  using assms
proof (induction xs arbitrary: s)
  case Nil
  then show ?case by simp
next
  case (Cons x xs)
  from Cons.prems obtain s' where s': "f s x = Inr s'" "P s'" by fastforce
  then obtain t where "rfold f s' xs = Inr t \<and> P t"
    using Cons.IH Cons.prems(2) by (metis list.set_intros(2))
  with s' show ?case by auto
qed

text \<open>A quantity to which every step adds its own amount adds up over the loop.\<close>

lemma rfold_sum:
  fixes F :: "'s \<Rightarrow> 'n :: comm_monoid_add"
  assumes "rfold f s xs = Inr t"
    and "\<And>x s s'. x \<in> set xs \<Longrightarrow> f s x = Inr s' \<Longrightarrow> F s' = F s + d x"
  shows "F t = F s + sum_list (map d xs)"
  using assms
proof (induction xs arbitrary: s)
  case Nil
  then show ?case by simp
next
  case (Cons x xs)
  from Cons.prems(1) obtain s' where s': "f s x = Inr s'" "rfold f s' xs = Inr t"
    by (auto simp: rbind_eq_Inr)
  with Cons.prems(2) have "F s' = F s + d x" by simp
  moreover have "F t = F s' + sum_list (map d xs)"
    using s'(2) Cons.prems(2) by (intro Cons.IH) auto
  ultimately show ?case by (simp add: ac_simps)
qed

section \<open>Integers\<close>

type_synonym i64 = "64 word"

definition i64_lt :: "i64 \<Rightarrow> i64 \<Rightarrow> bool" where
  "i64_lt a b \<longleftrightarrow> sint a < sint b"

definition i64_max :: "i64 \<Rightarrow> i64 \<Rightarrow> i64" where
  "i64_max a b = (if i64_lt a b then b else a)"

text \<open>No wrap-around within the range of the type.\<close>

lemma sint_of_int64: "- (2 ^ 63) \<le> i \<Longrightarrow> i < 2 ^ 63 \<Longrightarrow> sint (word_of_int i :: i64) = i"
  by (simp add: sint_sbintrunc' signed_take_bit_int_eq_self)

lemma sint_of_nat64: "n < 2 ^ 63 \<Longrightarrow> sint (of_nat n :: i64) = int n"
  using sint_of_int64 [of "int n"] by simp

lemma sint_i64_max: "sint (i64_max a b) = max (sint a) (sint b)"
  by (simp add: i64_max_def i64_lt_def max_def)

section \<open>Maps\<close>

type_synonym ('k, 'v) gomap = "('k \<times> 'v) list"

abbreviation gomap_get :: "('k, 'v) gomap \<Rightarrow> 'k \<Rightarrow> 'v option" where
  "gomap_get m k \<equiv> map_of m k"

abbreviation gomap_set :: "('k, 'v) gomap \<Rightarrow> 'k \<Rightarrow> 'v \<Rightarrow> ('k, 'v) gomap" where
  "gomap_set m k v \<equiv> AList.update k v m"

definition gomap_keys :: "('k, 'v) gomap \<Rightarrow> 'k list" where
  "gomap_keys m = map fst m"

definition gomap_ok :: "('k, 'v) gomap \<Rightarrow> bool" where
  "gomap_ok m = distinct (map fst m)"

lemma gomap_get_set [gomap_simps]:
  "gomap_get (gomap_set m k v) k' = (if k' = k then Some v else gomap_get m k')"
  by (simp add: update_conv')

lemma gomap_ok_Nil [simp]: "gomap_ok []"
  by (simp add: gomap_ok_def)

lemma gomap_ok_set [simp]: "gomap_ok m \<Longrightarrow> gomap_ok (gomap_set m k v)"
  by (simp add: gomap_ok_def distinct_update)

lemma gomap_keys_set [gomap_simps]: "set (gomap_keys (gomap_set m k v)) = insert k (set (gomap_keys m))"
  by (induction m) (auto simp: gomap_keys_def)

lemma gomap_keys_get: "k \<in> set (gomap_keys m) \<longleftrightarrow> gomap_get m k \<noteq> None"
  by (simp add: gomap_keys_def map_of_eq_None_iff)

text \<open>\<open>m[k] += v\<close> on a map of integers: a missing key reads as zero.\<close>

definition gomap_add :: "('k, i64) gomap \<Rightarrow> 'k \<Rightarrow> i64 \<Rightarrow> ('k, i64) gomap" where
  "gomap_add m k v = gomap_set m k ((case gomap_get m k of None \<Rightarrow> 0 | Some n \<Rightarrow> n) + v)"

definition gomap_val :: "('k, i64) gomap \<Rightarrow> 'k \<Rightarrow> i64" where
  "gomap_val m k = (case gomap_get m k of None \<Rightarrow> 0 | Some n \<Rightarrow> n)"

lemma gomap_val_add [gomap_simps]:
  "gomap_val (gomap_add m k v) k' = gomap_val m k' + (if k' = k then v else 0)"
  by (simp add: gomap_val_def gomap_add_def update_conv' split: option.splits)

lemma gomap_ok_add [simp]: "gomap_ok m \<Longrightarrow> gomap_ok (gomap_add m k v)"
  by (simp add: gomap_add_def)

lemma gomap_val_Nil [simp]: "gomap_val [] k = 0"
  by (simp add: gomap_val_def)

section \<open>Grouping loops\<close>

text \<open>
  The aggregation functions of the project all have the shape

  \<^verbatim>\<open>
  for _, v := range data {
      if skip(v) { continue }
      acc, found := m[key(v)]
      if !found { acc = init(v) }
      acc = step(acc, v)
      m[key(v)] = acc
  }
  \<close>

  \<open>init\<close> may read and write package state (the last document timestamps), and \<open>step\<close> may
  panic. A client needs of such a loop only its two unfolding laws; the lemmas below hold for
  every function that satisfies them.
\<close>

locale group_loop =
  fixes key :: "'a \<Rightarrow> 'k option"
    and init :: "'g \<Rightarrow> 'a \<Rightarrow> 's \<times> 'g"
    and step :: "'s \<Rightarrow> 'a \<Rightarrow> 's res"
    and run :: "'g \<Rightarrow> ('k, 's) gomap \<Rightarrow> 'a list \<Rightarrow> (('k, 's) gomap \<times> 'g) res"
  assumes run_Nil: "run g m [] = Inr (m, g)"
    and run_skip: "key x = None \<Longrightarrow> run g m (x # xs) = run g m xs"
    and run_found: "key x = Some k \<Longrightarrow> gomap_get m k = Some s \<Longrightarrow>
      run g m (x # xs) = rbind (step s x) (\<lambda>s'. run g (gomap_set m k s') xs)"
    and run_new: "key x = Some k \<Longrightarrow> gomap_get m k = None \<Longrightarrow> init g x = (s, g') \<Longrightarrow>
      run g m (x # xs) = rbind (step s x) (\<lambda>s'. run g' (gomap_set m k s') xs)"
begin

text \<open>The records of one group.\<close>

definition members :: "'k \<Rightarrow> 'a list \<Rightarrow> 'a list" where
  "members k xs = filter (\<lambda>x. key x = Some k) xs"

lemma members_simps [simp]:
  "members k [] = []"
  "members k (x # xs) = (if key x = Some k then x # members k xs else members k xs)"
  by (simp_all add: members_def)

text \<open>An existing group sees exactly its own records, in order.\<close>

lemma run_get_found:
  assumes "run g m xs = Inr (m', g')" and "gomap_get m k = Some s"
  shows "\<exists>s'. rfold step s (members k xs) = Inr s' \<and> gomap_get m' k = Some s'"
  using assms
proof (induction xs arbitrary: g m s)
  case Nil
  then show ?case by (simp add: run_Nil)
next
  case (Cons x xs)
  show ?case
  proof (cases "key x")
    case None
    with Cons show ?thesis by (simp add: run_skip)
  next
    case (Some k')
    obtain g1 s1 t where t: "step s1 x = Inr t" "run g1 (gomap_set m k' t) xs = Inr (m', g')"
      and s1: "\<And>s'. gomap_get m k' = Some s' \<Longrightarrow> s1 = s'"
    proof (cases "gomap_get m k'")
      case None
      obtain s2 g2 where "init g x = (s2, g2)" by fastforce
      with Cons.prems(1) Some None that show ?thesis
        by (auto simp: run_new rbind_eq_Inr)
    next
      case (Some s2)
      with Cons.prems(1) \<open>key x = Some k'\<close> that show ?thesis
        by (auto simp: run_found rbind_eq_Inr)
    qed
    show ?thesis
    proof (cases "k' = k")
      case True
      with t s1 Cons.prems(2) Some Cons.IH [OF t(2), of t] show ?thesis
        by (auto simp: update_conv')
    next
      case False
      with Cons.IH [OF t(2), of s] Cons.prems(2) Some show ?thesis
        by (simp add: update_conv')
    qed
  qed
qed

text \<open>A group that does not exist yet is created from its first record.\<close>

lemma run_get_new:
  assumes "run g m xs = Inr (m', g')" and "gomap_get m k = None"
  shows "case members k xs of
      [] \<Rightarrow> gomap_get m' k = None
    | y # ys \<Rightarrow> \<exists>g1 s' . rfold step (fst (init g1 y)) (y # ys) = Inr s' \<and> gomap_get m' k = Some s'"
  using assms
proof (induction xs arbitrary: g m)
  case Nil
  then show ?case by (simp add: run_Nil)
next
  case (Cons x xs)
  show ?case
  proof (cases "key x")
    case None
    with Cons show ?thesis by (simp add: run_skip)
  next
    case (Some k')
    obtain g1 s1 t where t: "step s1 x = Inr t" "run g1 (gomap_set m k' t) xs = Inr (m', g')"
      and s1: "gomap_get m k' = None \<Longrightarrow> s1 = fst (init g x)"
    proof (cases "gomap_get m k'")
      case None
      obtain s2 g2 where "init g x = (s2, g2)" by fastforce
      with Cons.prems(1) Some None that show ?thesis
        by (auto simp: run_new rbind_eq_Inr)
    next
      case (Some s2)
      with Cons.prems(1) \<open>key x = Some k'\<close> that show ?thesis
        by (auto simp: run_found rbind_eq_Inr)
    qed
    show ?thesis
    proof (cases "k' = k")
      case True
      then have "gomap_get (gomap_set m k' t) k = Some t" by (simp add: update_conv')
      from run_get_found [OF t(2) this] obtain s' where
        "rfold step t (members k xs) = Inr s'" "gomap_get m' k = Some s'" by blast
      with True t s1 Cons.prems(2) Some show ?thesis by (auto intro!: exI [of _ g])
    next
      case False
      with Cons.IH [OF t(2)] Cons.prems(2) Some show ?thesis
        by (simp add: update_conv')
    qed
  qed
qed

text \<open>The keys of the result are the keys of the records that were not skipped.\<close>

lemma run_dom:
  assumes "run g m xs = Inr (m', g')"
  shows "set (gomap_keys m') = set (gomap_keys m) \<union> {k. \<exists>x \<in> set xs. key x = Some k}"
proof -
  have "gomap_get m' k \<noteq> None \<longleftrightarrow> gomap_get m k \<noteq> None \<or> members k xs \<noteq> []" for k
  proof (cases "gomap_get m k")
    case None
    with run_get_new [OF assms None] show ?thesis by (auto split: list.splits)
  next
    case (Some s)
    with run_get_found [OF assms Some] show ?thesis by auto
  qed
  then show ?thesis by (auto simp: gomap_keys_get members_def filter_empty_conv)
qed

lemma run_ok_map:
  assumes "run g m xs = Inr (m', g')" and "gomap_ok m"
  shows "gomap_ok m'"
  using assms
proof (induction xs arbitrary: g m)
  case Nil
  then show ?case by (simp add: run_Nil)
next
  case (Cons x xs)
  show ?case
  proof (cases "key x")
    case None
    with Cons show ?thesis by (simp add: run_skip)
  next
    case (Some k)
    obtain s1 g1 where i: "init g x = (s1, g1)" by fastforce
    show ?thesis
      using Cons Some i
      by (cases "gomap_get m k") (auto simp: run_found run_new rbind_eq_Inr)
  qed
qed

text \<open>If an invariant of the accumulators rules out a panic of \<open>step\<close>, the loop returns.\<close>

lemma run_total:
  assumes init: "\<And>g x k. x \<in> set xs \<Longrightarrow> key x = Some k \<Longrightarrow> P (fst (init g x))"
    and step: "\<And>s x k. x \<in> set xs \<Longrightarrow> key x = Some k \<Longrightarrow> P s \<Longrightarrow> \<exists>s'. step s x = Inr s' \<and> P s'"
    and m: "\<forall>s. s \<in> snd ` set m \<longrightarrow> P s"
  shows "\<exists>m' g'. run g m xs = Inr (m', g') \<and> (\<forall>s. s \<in> snd ` set m' \<longrightarrow> P s)"
  using assms
proof (induction xs arbitrary: g m)
  case Nil
  then show ?case by (simp add: run_Nil)
next
  case (Cons x xs)
  have IH: "\<forall>s. s \<in> snd ` set m1 \<longrightarrow> P s \<Longrightarrow>
      \<exists>m' g'. run g1 m1 xs = Inr (m', g') \<and> (\<forall>s. s \<in> snd ` set m' \<longrightarrow> P s)" for g1 m1
    using Cons.IH [of m1 g1] Cons.prems(1,2) by (metis list.set_intros(2))
  show ?case
  proof (cases "key x")
    case None
    with IH Cons.prems(3) show ?thesis by (simp add: run_skip)
  next
    case (Some k)
    have upd: "\<forall>s. s \<in> snd ` set (gomap_set m k t) \<longrightarrow> P s" if "P t" for t
    proof -
      have "snd ` set (gomap_set m k t) \<subseteq> insert t (snd ` set m)"
        by (induction m) auto
      with that Cons.prems(3) show ?thesis by blast
    qed
    obtain s1 g1 where i: "init g x = (s1, g1)" by fastforce
    show ?thesis
    proof (cases "gomap_get m k")
      case None
      have "P s1" using Cons.prems(1) [of x k g] Some i by simp
      then obtain t where "step s1 x = Inr t" "P t"
        using Cons.prems(2) [of x k s1] Some by auto
      with IH [OF upd, of t g1] Some None i show ?thesis by (auto simp: run_new)
    next
      case (Some s)
      then have "P s" using Cons.prems(3) by (metis map_of_SomeD image_eqI snd_conv)
      then obtain t where "step s x = Inr t" "P t"
        using Cons.prems(2) [of x k s] \<open>key x = Some k\<close> by auto
      with IH [OF upd, of t g] Some \<open>key x = Some k\<close> show ?thesis by (auto simp: run_found)
    qed
  qed
qed

end

end
