(* ===== verification/GoFloat.thy ===== *)
theory GoFloat
  imports GoBase "HOL-Library.Log_Nat"
begin

text \<open>
  Go's \<open>float64\<close>: a finite value is the rational number it denotes, together with the
  infinities and NaN. An operation is the exact rational operation followed by \<open>fl\<close>,
  rounding to 53 significant bits, ties to even. The project's floats are averages and sums of
  64-bit counters, so the model has no subnormal range and no overflow of the exponent, and it
  does not tell the two zeros apart. Integers below 2^53 are represented exactly.
\<close>

datatype f64 = Fin rat | Inf bool | NaN

text \<open>The exponent of the leading bit: \<open>2 ^ fl_exp x \<le> x < 2 ^ (fl_exp x + 1)\<close>.\<close>

definition fl_exp :: "rat \<Rightarrow> int" where
  "fl_exp x =
     (let (p, q) = quotient_of x;
          k = int (floorlog 2 (nat p)) - int (floorlog 2 (nat q))
      in if 2 powi k \<le> x then k else k - 1)"

definition round_even :: "rat \<Rightarrow> int" where
  "round_even x =
     (let f = \<lfloor>x\<rfloor>; d = x - of_int f
      in if d < 1 / 2 then f else if 1 / 2 < d then f + 1 else if even f then f else f + 1)"

definition fl :: "rat \<Rightarrow> rat" where
  "fl x = (if x = 0 then 0 else
     (let e = fl_exp \<bar>x\<bar> - 52 in of_int (round_even (x / 2 powi e)) * 2 powi e))"

definition f_of_int :: "i64 \<Rightarrow> f64" where
  "f_of_int w = Fin (fl (of_int (sint w)))"

definition f_zero :: f64 where
  "f_zero = Fin 0"

fun f_add :: "f64 \<Rightarrow> f64 \<Rightarrow> f64" where
  "f_add (Fin x) (Fin y) = Fin (fl (x + y))"
| "f_add (Inf a) (Inf b) = (if a = b then Inf a else NaN)"
| "f_add (Inf a) (Fin _) = Inf a"
| "f_add (Fin _) (Inf b) = Inf b"
| "f_add _ _ = NaN"

fun f_div :: "f64 \<Rightarrow> f64 \<Rightarrow> f64" where
  "f_div (Fin x) (Fin y) =
     (if y = 0 then (if x = 0 then NaN else Inf (x < 0)) else Fin (fl (x / y)))"
| "f_div (Inf a) (Fin y) = Inf (a \<noteq> (y < 0))"
| "f_div (Fin _) (Inf _) = Fin 0"
| "f_div _ _ = NaN"

text \<open>
  \<open>uint64(f)\<close> truncates towards zero; a result outside the range is implementation defined
  in Go, the model takes it modulo 2^64 as the amd64 code does for values above \<open>-2^63\<close>.
\<close>

definition f_to_u64 :: "f64 \<Rightarrow> i64" where
  "f_to_u64 v = (case v of
      Fin x \<Rightarrow> of_int (if x < 0 then - \<lfloor>- x\<rfloor> else \<lfloor>x\<rfloor>)
    | _ \<Rightarrow> of_int (2 ^ 63))"

text \<open>\<open>int(v)\<close>: towards zero; what does not fit is the least integer, as on amd64.\<close>

definition f_to_int :: "f64 \<Rightarrow> int" where
  "f_to_int v = (case v of
      Fin x \<Rightarrow> (let n = (if x < 0 then - \<lfloor>- x\<rfloor> else \<lfloor>x\<rfloor>) in if - (2 ^ 63) \<le> n \<and> n < 2 ^ 63 then n else - (2 ^ 63))
    | _ \<Rightarrow> - (2 ^ 63))"

definition f_finite :: "f64 \<Rightarrow> bool" where
  "f_finite v = (case v of Fin _ \<Rightarrow> True | _ \<Rightarrow> False)"

lemma round_even_of_int [simp]: "round_even (of_int i) = i"
  by (simp add: round_even_def)

lemma fl_0 [simp]: "fl 0 = 0"
  by (simp add: fl_def)

lemma fl_exp_of_int:
  assumes "0 < n" and "n < 2 ^ 53"
  shows "fl_exp (of_int n) \<le> 52"
proof -
  have "floorlog 2 (nat n) \<le> 53"
    using assms by (intro floorlog_leI) (auto simp: nat_less_iff)
  moreover have "floorlog 2 (nat 1) = 1"
    by (simp add: floorlog_def)
  ultimately show ?thesis
    by (simp add: fl_exp_def Let_def)
qed

text \<open>Integers of at most 53 bits are floats.\<close>

lemma fl_of_int:
  assumes "\<bar>n\<bar> < 2 ^ 53"
  shows "fl (of_int n) = of_int n"
proof (cases "n = 0")
  case True
  then show ?thesis by simp
next
  case False
  define e where "e = fl_exp \<bar>of_int n\<bar> - 52"
  have "fl_exp (of_int \<bar>n\<bar>) \<le> 52"
    using assms False by (intro fl_exp_of_int) auto
  then have e: "e \<le> 0" by (simp add: e_def)
  define k where "k = nat (- e)"
  have k: "(2 :: rat) powi e = 1 / 2 ^ k"
    using e by (simp add: k_def power_int_def field_simps)
  have "of_int n / (2 :: rat) powi e = of_int (n * 2 ^ k)"
    by (simp add: k)
  then have "round_even (of_int n / 2 powi e) = n * 2 ^ k"
    by (metis round_even_of_int)
  then show ?thesis using False by (simp add: fl_def Let_def k flip: e_def)
qed

lemma f_of_int_exact: "\<bar>sint w\<bar> < 2 ^ 53 \<Longrightarrow> f_of_int w = Fin (of_int (sint w))"
  by (simp only: f_of_int_def fl_of_int)

lemma f_add_int_exact:
  "\<bar>i + j\<bar> < 2 ^ 53 \<Longrightarrow> f_add (Fin (of_int i)) (Fin (of_int j)) = Fin (of_int (i + j))"
  using fl_of_int [of "i + j"] by simp

section \<open>The error of rounding\<close>

lemma fl_exp_le:
  assumes "0 < x"
  shows "2 powi (fl_exp x) \<le> x"
proof -
  obtain p q where pq: "quotient_of x = (p, q)" by fastforce
  then have q: "0 < q" and x: "x = of_int p / of_int q" by (auto simp: quotient_of_denom_pos quotient_of_div)
  with assms have p: "0 < p" by (simp add: zero_less_divide_iff)
  let ?a = "floorlog 2 (nat p)" and ?b = "floorlog 2 (nat q)"
  let ?k = "int ?a - int ?b"
  have "2 ^ (?a - 1) \<le> nat p" and "nat q < 2 ^ ?b" using floorlog_bounds [of "nat p" 2] floorlog_bounds [of "nat q" 2] p q by auto
  then have "2 ^ (?a - 1) \<le> p" and "q \<le> 2 ^ ?b" using p q by (simp_all add: le_nat_iff nat_less_iff)
  then have b: "(2 :: rat) ^ (?a - 1) \<le> of_int p" "of_int q \<le> (2 :: rat) ^ ?b"
    by (metis of_int_le_iff of_int_numeral of_int_power)+
  have "1 \<le> ?a" using p by (simp add: floorlog_def)
  then have k: "?k - 1 = int (?a - 1) - int ?b" by simp
  have "(2 :: rat) powi (?k - 1) = 2 powi int (?a - 1) / 2 powi int ?b"
    unfolding k by (rule power_int_diff) simp
  also have "\<dots> = 2 ^ (?a - 1) / 2 ^ ?b" by simp
  also have "\<dots> \<le> of_int p / of_int q" using b q p by (intro frac_le) auto
  finally show ?thesis using x pq by (auto simp: fl_exp_def Let_def)
qed

lemma round_even_error: "\<bar>of_int (round_even y) - y\<bar> \<le> 1 / 2"
proof -
  have "of_int \<lfloor>y\<rfloor> \<le> y" "y < of_int \<lfloor>y\<rfloor> + 1" by linarith+
  then show ?thesis unfolding round_even_def Let_def by (auto simp: abs_le_iff)
qed

lemma fl_error:
  assumes "0 < x"
  shows "\<bar>fl x - x\<bar> \<le> x / 2 ^ 53"
proof -
  define e where "e = fl_exp x - 52"
  have pos: "(0 :: rat) < 2 powi e" by simp
  have "fl x - x = (of_int (round_even (x / 2 powi e)) - x / 2 powi e) * 2 powi e"
    using assms by (simp add: fl_def Let_def e_def [symmetric] algebra_simps)
  then have "\<bar>fl x - x\<bar> = \<bar>of_int (round_even (x / 2 powi e)) - x / 2 powi e\<bar> * 2 powi e" by (simp add: abs_mult)
  also have "\<dots> \<le> 1 / 2 * 2 powi e" using round_even_error pos by (intro mult_right_mono) auto
  also have "\<dots> = 2 powi (fl_exp x) / 2 ^ 53"
    unfolding e_def by (simp add: power_int_diff)
  also have "\<dots> \<le> x / 2 ^ 53" using fl_exp_le [OF assms] by (simp add: divide_right_mono)
  finally show ?thesis .
qed

text \<open>The quotient of two integers is rounded to the right side of every integer.\<close>

lemma ceiling_fl_quotient:
  assumes "n < 2 ^ 53" and "0 < k"
  shows "\<lceil>fl (of_nat n / of_nat k)\<rceil> = \<lceil>(of_nat n :: rat) / of_nat k\<rceil>"
proof (cases "n = 0")
  case False
  define x where "x = (of_nat n :: rat) / of_nat k"
  define c where "c = \<lceil>x\<rceil>"
  have x: "0 < x" using False assms(2) by (simp add: x_def)
  have kx: "x * of_nat k = of_nat n" using assms(2) by (simp add: x_def)
  have "of_nat n < (2 :: rat) ^ 53" using assms(1) by (metis of_nat_less_iff of_nat_numeral of_nat_power)
  then have "x / 2 ^ 53 < 1 / of_nat k" using assms(2) by (simp add: x_def divide_simps)
  with fl_error [OF x] have err: "\<bar>fl x - x\<bar> < 1 / of_nat k" by linarith
  have bounds: "of_int c - 1 < x" "x \<le> of_int c" unfolding c_def by linarith+
  have "(c - 1) * int k < int n"
  proof -
    have "(of_int c - 1) * of_nat k < x * of_nat k" using bounds assms(2) by simp
    then have "of_int ((c - 1) * int k) < (of_int (int n) :: rat)" unfolding kx by simp
    then show ?thesis by (simp only: of_int_less_iff)
  qed
  then have "(c - 1) * int k + 1 \<le> int n" by simp
  then have "of_int ((c - 1) * int k + 1) \<le> (of_int (int n) :: rat)" by (simp only: of_int_le_iff)
  then have "(of_int c - 1) * of_nat k + 1 \<le> x * of_nat k" unfolding kx by simp
  then have "of_int c - 1 + 1 / of_nat k \<le> x" using assms(2) by (simp add: field_simps)
  with err have low: "of_int c - 1 < fl x" by linarith
  have up: "fl x \<le> of_int c"
  proof (cases "x = of_int c")
    case True
    have "x * 1 \<le> x * of_nat k" using assms(2) x by (intro mult_left_mono) auto
    then have "x \<le> of_nat n" unfolding kx by simp
    with \<open>of_nat n < (2 :: rat) ^ 53\<close> have "x < of_int (2 ^ 53)" by simp
    with True x have "\<bar>c\<bar> < 2 ^ 53" by simp
    then show ?thesis using fl_of_int [of c] True by simp
  next
    case ne: False
    with bounds(2) have "x < of_int c" by simp
    then have "x * of_nat k < of_int c * of_nat k" using assms(2) by simp
    then have "(of_int (int n) :: rat) < of_int (c * int k)" unfolding kx by simp
    then have "int n + 1 \<le> c * int k" by (simp only: of_int_less_iff)
    then have "of_int (int n + 1) \<le> (of_int (c * int k) :: rat)" by (simp only: of_int_le_iff)
    then have "x * of_nat k + 1 \<le> of_int c * of_nat k" unfolding kx by simp
    then have "x + 1 / of_nat k \<le> of_int c" using assms(2) by (simp add: field_simps)
    with err show ?thesis by linarith
  qed
  from low up have "\<lceil>fl x\<rceil> = c" by (intro ceiling_unique) auto
  then show ?thesis by (simp add: c_def x_def)
qed simp

end
