(* ===== verification/GoText.thy ===== *)
theory GoText
  imports GoBase
begin

text \<open>
  The parts of Go's standard library for text that the project uses, on Go strings as byte
  strings (\<open>string\<close>): \<open>strings\<close> (HasPrefix, Contains, TrimSpace, TrimRight, ReplaceAll,
  Join, Split), \<open>strconv\<close> (decimal formatting of 64-bit integers), \<open>encoding/hex\<close>
  and \<open>encoding/base64\<close> (standard alphabet, with padding). The lemmas are the ones the
  components need: formatting and the two encodings are injective, decoding inverts encoding.
\<close>

named_theorems text_simps

section \<open>Package strings\<close>

definition has_prefix :: "string \<Rightarrow> string \<Rightarrow> bool" where
  "has_prefix s p = (take (length p) s = p)"

lemma has_prefix_append [simp]: "has_prefix (p @ s) p"
  by (simp add: has_prefix_def)

lemma has_prefixE: "has_prefix s p \<Longrightarrow> (\<And>t. s = p @ t \<Longrightarrow> thesis) \<Longrightarrow> thesis"
  by (metis append_take_drop_id has_prefix_def)

fun str_contains :: "string \<Rightarrow> string \<Rightarrow> bool" where
  "str_contains [] p = (p = [])"
| "str_contains (c # s) p = (has_prefix (c # s) p \<or> str_contains s p)"

definition replace_char :: "char \<Rightarrow> string \<Rightarrow> string \<Rightarrow> string" where
  "replace_char c r s = concat (map (\<lambda>d. if d = c then r else [d]) s)"

lemma replace_char_append [simp]: "replace_char c r (s @ t) = replace_char c r s @ replace_char c r t"
  by (simp add: replace_char_def)

lemma replace_char_gone: "c \<notin> set r \<Longrightarrow> c \<notin> set (replace_char c r s)"
  by (auto simp: replace_char_def)

fun str_join :: "string \<Rightarrow> string list \<Rightarrow> string" where
  "str_join sep [] = []"
| "str_join sep [s] = s"
| "str_join sep (s # t # ts) = s @ sep @ str_join sep (t # ts)"

fun split_char :: "char \<Rightarrow> string \<Rightarrow> string list" where
  "split_char c [] = [[]]"
| "split_char c (d # s) =
     (if d = c then [] # split_char c s
      else (case split_char c s of [] \<Rightarrow> [[d]] | w # ws \<Rightarrow> (d # w) # ws))"

lemma split_char_not_Nil [simp]: "split_char c s \<noteq> []"
  by (induction s) (auto split: list.splits)

text \<open>\<open>strings.SplitN(s, sep, 2)\<close> and \<open>strings.Cut\<close>: the parts around the first \<open>sep\<close>, if there is one.\<close>

fun split_once :: "string \<Rightarrow> string \<Rightarrow> (string \<times> string) option" where
  "split_once sep [] = (if sep = [] then Some ([], []) else None)"
| "split_once sep (c # s) =
     (if has_prefix (c # s) sep then Some ([], drop (length sep) (c # s))
      else map_option (\<lambda>(a, b). (c # a, b)) (split_once sep s))"

lemma split_once_Some: "split_once sep s = Some (a, b) \<Longrightarrow> s = a @ sep @ b"
proof (induction s arbitrary: a)
  case (Cons c s)
  then show ?case by (auto elim!: has_prefixE split: if_splits)
qed (auto split: if_splits)

definition trim_right_char :: "char \<Rightarrow> string \<Rightarrow> string" where
  "trim_right_char c s = rev (dropWhile (\<lambda>d. d = c) (rev s))"

text \<open>ASCII lower case; every string the models lower is an ASCII keyword or is compared with one.\<close>

definition to_lower_char :: "char \<Rightarrow> char" where
  "to_lower_char c = (if 65 \<le> (of_char c :: nat) \<and> (of_char c :: nat) \<le> 90
     then char_of ((of_char c :: nat) + 32) else c)"

definition to_lower :: "string \<Rightarrow> string" where
  "to_lower s = map to_lower_char s"

text \<open>ASCII upper case, for names of pumps and of headers.\<close>

definition to_upper_char :: "char \<Rightarrow> char" where
  "to_upper_char c = (if 97 \<le> (of_char c :: nat) \<and> (of_char c :: nat) \<le> 122 then char_of ((of_char c :: nat) - 32) else c)"

definition to_upper :: "string \<Rightarrow> string" where
  "to_upper s = map to_upper_char s"

text \<open>
  \<open>unicode.IsSpace\<close> as UTF-8 byte sequences. \<open>strings.TrimSpace\<close> removes them at both ends.
\<close>

definition space_runes :: "string list" where
  "space_runes = map (map (char_of :: nat \<Rightarrow> char))
     ([[9], [10], [11], [12], [13], [32], [194, 133], [194, 160], [225, 154, 128],
       [226, 128, 168], [226, 128, 169], [226, 128, 175], [226, 129, 159], [227, 128, 128]]
      @ map (\<lambda>b. [226, 128, b]) [128..<139])"

function trim_left_runes :: "string list \<Rightarrow> string \<Rightarrow> string" where
  "trim_left_runes ws s =
     (case find (\<lambda>w. w \<noteq> [] \<and> has_prefix s w) ws of
        None \<Rightarrow> s
      | Some w \<Rightarrow> trim_left_runes ws (drop (length w) s))"
  by pat_completeness auto
termination
proof (relation "measure (\<lambda>(ws, s). length s)")
  fix ws :: "string list" and s w :: string
  assume "find (\<lambda>w. w \<noteq> [] \<and> has_prefix s w) ws = Some w"
  then have "w \<noteq> []" "has_prefix s w" by (auto simp: find_Some_iff)
  then show "((ws, drop (length w) s), ws, s) \<in> measure (\<lambda>(ws, s). length s)"
    by (auto elim: has_prefixE)
qed simp

declare trim_left_runes.simps [simp del]

definition trim_space :: "string \<Rightarrow> string" where
  "trim_space s = rev (trim_left_runes (map rev space_runes) (rev (trim_left_runes space_runes s)))"

text \<open>\<open>strings.Fields\<close>: the words between the white space; \<open>w\<close> is the word that is open, and the next \<open>k\<close> bytes belong to a space.\<close>

fun fields_from :: "string \<Rightarrow> nat \<Rightarrow> string \<Rightarrow> string list" where
  "fields_from w k [] = (if w = [] then [] else [w])"
| "fields_from w (Suc k) (c # s) = fields_from w k s"
| "fields_from w 0 (c # s) =
     (case find (\<lambda>x. x \<noteq> [] \<and> has_prefix (c # s) x) space_runes of
        None \<Rightarrow> fields_from (w @ [c]) 0 s
      | Some x \<Rightarrow> (if w = [] then [] else [w]) @ fields_from [] (length x - 1) s)"

definition str_fields :: "string \<Rightarrow> string list" where
  "str_fields s = fields_from [] 0 s"

text \<open>
  \<open>bufio.Scanner\<close> on lines: without the newline and one carriage return before it; a line of 64 KiB
  ends the scan.
\<close>

definition drop_cr :: "string \<Rightarrow> string" where
  "drop_cr s = (if s \<noteq> [] \<and> last s = CHR 0x0D then butlast s else s)"

definition scan_lines :: "string \<Rightarrow> string list" where
  "scan_lines s =
     (let ls = split_char CHR 0x0A s; ls = (if last ls = [] then butlast ls else ls)
      in map drop_cr (takeWhile (\<lambda>l. length l < 65536) ls))"

section \<open>Package strconv\<close>

fun dec_nat :: "nat \<Rightarrow> string" where
  "dec_nat n = (if n < 10 then [char_of (48 + n)] else dec_nat (n div 10) @ [char_of (48 + n mod 10)])"

declare dec_nat.simps [simp del]

definition dec_int :: "int \<Rightarrow> string" where
  "dec_int i = (if i < 0 then CHR ''-'' # dec_nat (nat (- i)) else dec_nat (nat i))"

text \<open>\<open>strconv.Itoa\<close> and \<open>strconv.FormatInt(x, 10)\<close>.\<close>

definition itoa :: "i64 \<Rightarrow> string" where
  "itoa w = dec_int (sint w)"

text \<open>\<open>strconv.FormatUint(uint64(x), 10)\<close>: the conversion reads the bits as unsigned.\<close>

definition utoa :: "i64 \<Rightarrow> string" where
  "utoa w = dec_nat (unat w)"

definition digit_val :: "char \<Rightarrow> nat" where
  "digit_val c = of_char c - 48"

lemma of_char_digit: "n < 10 \<Longrightarrow> (of_char (char_of (48 + n) :: char) :: nat) = 48 + n"
  by simp

definition dec_val :: "string \<Rightarrow> nat" where
  "dec_val s = foldl (\<lambda>a c. a * 10 + digit_val c) 0 s"

lemma dec_val_dec_nat: "dec_val (dec_nat n) = n"
proof (induction n rule: dec_nat.induct)
  case (1 n)
  then show ?case
    by (subst dec_nat.simps) (auto simp: dec_val_def digit_val_def)
qed

lemma dec_nat_inj [simp]: "dec_nat m = dec_nat n \<longleftrightarrow> m = n"
  by (metis dec_val_dec_nat)

lemma dec_nat_not_Nil [simp]: "dec_nat n \<noteq> []"
  by (subst dec_nat.simps) simp

lemma dec_nat_digits: "c \<in> set (dec_nat n) \<Longrightarrow> 48 \<le> (of_char c :: nat) \<and> (of_char c :: nat) \<le> 57"
proof (induction n rule: dec_nat.induct)
  case (1 n)
  show ?case
  proof (cases "n < 10")
    case True
    with 1(2) show ?thesis by (simp add: dec_nat.simps [of n])
  next
    case False
    with 1 show ?thesis by (auto simp: dec_nat.simps [of n])
  qed
qed

lemma dec_nat_no_minus: "CHR ''-'' \<notin> set (dec_nat n)"
  using dec_nat_digits by force

lemma dec_int_inj [simp]: "dec_int i = dec_int j \<longleftrightarrow> i = j"
proof
  assume eq: "dec_int i = dec_int j"
  have "\<And>n s. dec_nat n \<noteq> CHR ''-'' # s"
    using dec_nat_no_minus by (metis list.set_intros(1))
  with eq show "i = j"
    by (auto simp: dec_int_def split: if_splits dest: sym)
qed simp

lemma itoa_inj [simp]: "itoa a = itoa b \<longleftrightarrow> a = b"
  by (auto simp: itoa_def intro: signed_word_eqI)

lemma itoa_not_Nil [simp]: "itoa a \<noteq> []"
  by (simp add: itoa_def dec_int_def)

section \<open>Package encoding/hex\<close>

definition hex_digit :: "nat \<Rightarrow> char" where
  "hex_digit n = (if n < 10 then char_of (48 + n) else char_of (87 + n))"

definition hex_encode :: "string \<Rightarrow> string" where
  "hex_encode s = concat (map (\<lambda>c. [hex_digit (of_char c div 16), hex_digit (of_char c mod 16)]) s)"

lemma of_char_less: "(of_char (c :: char) :: nat) < 256"
  by (rule nat_of_char_less_256)

lemma hex_digit_inj: "m < 16 \<Longrightarrow> n < 16 \<Longrightarrow> hex_digit m = hex_digit n \<longleftrightarrow> m = n"
  by (auto simp: hex_digit_def char_of_eq_iff take_bit_eq_mod split: if_splits)

lemma hex_encode_inj: "hex_encode s = hex_encode t \<longleftrightarrow> s = t"
proof
  show "hex_encode s = hex_encode t \<Longrightarrow> s = t"
  proof (induction s arbitrary: t)
    case Nil
    then show ?case by (cases t) (auto simp: hex_encode_def)
  next
    case (Cons c s)
    from Cons.prems obtain d t' where t: "t = d # t'"
      by (cases t) (auto simp: hex_encode_def)
    with Cons.prems have h: "hex_digit (of_char c div 16) = hex_digit (of_char d div 16)"
      "hex_digit (of_char c mod 16) = hex_digit (of_char d mod 16)" "hex_encode s = hex_encode t'"
      by (auto simp: hex_encode_def)
    have "(of_char c :: nat) div 16 = of_char d div 16" "(of_char c :: nat) mod 16 = of_char d mod 16"
      using h(1,2) of_char_less [of c] of_char_less [of d]
      by (simp_all add: hex_digit_inj)
    then have "(of_char c :: nat) = of_char d"
      by (metis div_mult_mod_eq)
    with Cons.IH [OF h(3)] t show ?case by simp
  qed
qed simp

section \<open>Package encoding/base64\<close>

definition b64_alphabet :: string where
  "b64_alphabet = ''ABCDEFGHIJKLMNOPQRSTUVWXYZabcdefghijklmnopqrstuvwxyz0123456789+/''"

definition b64_char :: "nat \<Rightarrow> char" where
  "b64_char n = b64_alphabet ! n"

definition b64_index :: "char \<Rightarrow> nat option" where
  "b64_index c = map_option fst (find (\<lambda>(i, d). d = c) (enumerate 0 b64_alphabet))"

text \<open>\<open>StdEncoding.EncodeToString\<close>: three bytes make four digits, the last group is padded.\<close>

fun b64_encode :: "string \<Rightarrow> string" where
  "b64_encode [] = []"
| "b64_encode [a] =
     (let v = of_char a * 16 in [b64_char (v div 64), b64_char (v mod 64), CHR ''='', CHR ''=''])"
| "b64_encode [a, b] =
     (let v = (of_char a * 256 + of_char b) * 4
      in [b64_char (v div 4096), b64_char (v div 64 mod 64), b64_char (v mod 64), CHR ''=''])"
| "b64_encode (a # b # c # s) =
     (let v = (of_char a * 256 + of_char b) * 256 + of_char c
      in b64_char (v div 262144) # b64_char (v div 4096 mod 64) #
         b64_char (v div 64 mod 64) # b64_char (v mod 64) # b64_encode s)"

text \<open>
  \<open>StdEncoding.DecodeString\<close>, \<open>None\<close> for \<open>CorruptInputError\<close>: line breaks are
  ignored, padding is required, and bits left over in the last group are dropped (the encoding
  is not \<open>Strict\<close>).
\<close>

fun b64_quads :: "string \<Rightarrow> string option" where
  "b64_quads [] = Some []"
| "b64_quads (a # b # c # d # s) =
     (case (b64_index a, b64_index b) of
        (Some i, Some j) \<Rightarrow>
          (if c = CHR ''='' then
             (if d = CHR ''='' \<and> s = [] then Some [char_of ((i * 64 + j) div 16)] else None)
           else (case b64_index c of
               None \<Rightarrow> None
             | Some k \<Rightarrow>
                 (if d = CHR ''='' then
                    (if s = [] then
                       (let v = ((i * 64 + j) * 64 + k) div 4
                        in Some [char_of (v div 256), char_of (v mod 256)])
                     else None)
                  else (case (b64_index d, b64_quads s) of
                      (Some l, Some t) \<Rightarrow>
                        (let v = ((i * 64 + j) * 64 + k) * 64 + l
                         in Some (char_of (v div 65536) # char_of (v div 256 mod 256) #
                                  char_of (v mod 256) # t))
                    | _ \<Rightarrow> None))))
      | _ \<Rightarrow> None)"
| "b64_quads _ = None"

definition b64_decode :: "string \<Rightarrow> string option" where
  "b64_decode s = b64_quads (filter (\<lambda>c. c \<noteq> CHR 0x0A \<and> c \<noteq> CHR 0x0D) s)"

text \<open>\<open>base64.RawURLEncoding\<close>: the alphabet of URLs, without padding.\<close>

definition b64_url_decode :: "string \<Rightarrow> string option" where
  "b64_url_decode s =
     (let s = filter (\<lambda>c. c \<noteq> CHR 0x0A \<and> c \<noteq> CHR 0x0D) s;
          t = map (\<lambda>c. if c = CHR ''-'' then CHR ''+'' else if c = CHR ''_'' then CHR ''/'' else c) s
      in if set s \<inter> {CHR ''+'', CHR ''/'', CHR ''=''} \<noteq> {} then None
         else if length s mod 4 = 2 then b64_quads (t @ ''=='')
         else if length s mod 4 = 3 then b64_quads (t @ ''='')
         else b64_quads t)"

lemma b64_digit_facts:
  "n < 64 \<Longrightarrow> b64_index (b64_char n) = Some n \<and> b64_char n \<noteq> CHR ''='' \<and> b64_char n \<noteq> CHR ''.'' \<and>
     b64_char n \<noteq> CHR 0x0A \<and> b64_char n \<noteq> CHR 0x0D"
proof -
  assume "n < 64"
  have "list_all (\<lambda>n. b64_index (b64_char n) = Some n \<and> b64_char n \<noteq> CHR ''='' \<and>
      b64_char n \<noteq> CHR ''.'' \<and> b64_char n \<noteq> CHR 0x0A \<and> b64_char n \<noteq> CHR 0x0D) [0..<64]"
    by code_simp
  then show ?thesis using \<open>n < 64\<close> by (simp only: list_all_iff set_upt) simp
qed

lemma b64_index_char [simp]: "n < 64 \<Longrightarrow> b64_index (b64_char n) = Some n"
  using b64_digit_facts by blast

lemma b64_char_not_pad [simp]: "n < 64 \<Longrightarrow> b64_char n \<noteq> CHR ''=''"
  using b64_digit_facts by blast

lemma two_bytes_div_less: "m < 256 \<Longrightarrow> n < 256 \<Longrightarrow> (m * 256 + n) * 4 div 4096 < (64 :: nat)"
  by (rule less_mult_imp_div_less) simp

lemma three_bytes_div_less:
  "l < 256 \<Longrightarrow> m < 256 \<Longrightarrow> n < 256 \<Longrightarrow> ((l * 256 + m) * 256 + n) div 262144 < (64 :: nat)"
  by (rule less_mult_imp_div_less) simp

lemma three_digits: "(v div 4096 * 64 + v div 64 mod 64) * 64 + v mod 64 = (v :: nat)"
proof -
  have "v div 4096 = v div 64 div 64" by (simp flip: div_mult2_eq)
  then show ?thesis by (metis div_mult_mod_eq)
qed

lemma two_bytes: "n < 256 \<Longrightarrow> (m * 256 + n) div 256 = (m :: nat)" "n < 256 \<Longrightarrow> (m * 256 + n) mod 256 = n"
  by simp_all

lemma three_bytes:
  assumes "m < 256" "n < (256 :: nat)"
  shows "((l * 256 + m) * 256 + n) div 65536 = l" "((l * 256 + m) * 256 + n) div 256 mod 256 = m"
    "((l * 256 + m) * 256 + n) mod 256 = n"
proof -
  have "((l * 256 + m) * 256 + n) div 65536 = ((l * 256 + m) * 256 + n) div 256 div 256"
    by (simp flip: div_mult2_eq)
  then show "((l * 256 + m) * 256 + n) div 65536 = l"
    by (simp only: two_bytes [OF assms(1)] two_bytes [OF assms(2)])
  show "((l * 256 + m) * 256 + n) div 256 mod 256 = m" "((l * 256 + m) * 256 + n) mod 256 = n"
    by (simp_all only: two_bytes [OF assms(1)] two_bytes [OF assms(2)])
qed

lemma four_digits:
  "((v div 262144 * 64 + v div 4096 mod 64) * 64 + v div 64 mod 64) * 64 + v mod 64 = (v :: nat)"
proof -
  have "v div 262144 = v div 4096 div 64" "v div 4096 = v div 64 div 64"
    by (simp_all flip: div_mult2_eq)
  then show ?thesis by (metis div_mult_mod_eq)
qed

text \<open>An encoding is digits followed by at most two padding characters, four at a time.\<close>

lemma b64_encode_shape:
  "\<exists>h k. b64_encode s = h @ replicate k CHR ''='' \<and> k \<le> 2 \<and> (length h + k) mod 4 = 0 \<and>
     (\<forall>c \<in> set h. \<exists>n < 64. c = b64_char n)"
proof (induction s rule: b64_encode.induct)
  case 1
  show ?case by (intro exI [of _ "[]"] exI [of _ 0]) simp
next
  case (2 a)
  let ?v = "(of_char a :: nat) * 16"
  let ?ds = "[b64_char (?v div 64), b64_char (?v mod 64)]"
  have "?v div 64 < 64" using of_char_less [of a] by linarith
  moreover have "?v mod 64 < 64" by simp
  ultimately have "\<forall>c \<in> set ?ds. \<exists>n < 64. c = b64_char n"
    by (metis (no_types, lifting) empty_iff insert_iff list.set(1) list.set(2))
  moreover have "b64_encode [a] = ?ds @ replicate 2 CHR ''=''"
    by (simp only: b64_encode.simps Let_def numeral_2_eq_2 replicate.simps append_Cons append_Nil)
  moreover have "(length ?ds + 2) mod 4 = 0" by simp
  ultimately show ?case by (metis order_refl)
next
  case (3 a b)
  let ?v = "((of_char a :: nat) * 256 + of_char b) * 4"
  let ?ds = "[b64_char (?v div 4096), b64_char (?v div 64 mod 64), b64_char (?v mod 64)]"
  have "?v div 4096 < 64" by (rule two_bytes_div_less [OF of_char_less of_char_less])
  moreover have "?v div 64 mod 64 < 64" "?v mod 64 < 64" by simp_all
  ultimately have "\<forall>c \<in> set ?ds. \<exists>n < 64. c = b64_char n"
    by (metis (no_types, lifting) empty_iff insert_iff list.set(1) list.set(2))
  moreover have "b64_encode [a, b] = ?ds @ replicate 1 CHR ''=''"
    by (simp only: b64_encode.simps Let_def One_nat_def replicate.simps append_Cons append_Nil)
  moreover have "(length ?ds + 1) mod 4 = 0" by simp
  ultimately show ?case by (metis one_le_numeral)
next
  case (4 a b c s)
  let ?v = "((of_char a :: nat) * 256 + of_char b) * 256 + of_char c"
  have q: "?v div 262144 < 64" by (rule three_bytes_div_less [OF of_char_less of_char_less of_char_less])
  have "?v div 4096 mod 64 < 64" "?v div 64 mod 64 < 64" "?v mod 64 < 64" by simp_all
  note q = q this
  from 4 [OF refl] obtain h k where hk: "b64_encode s = h @ replicate k CHR ''=''" "k \<le> 2"
    "(length h + k) mod 4 = 0" "\<forall>c \<in> set h. \<exists>n < 64. c = b64_char n" by (elim exE conjE) (rule that)
  let ?ds = "[b64_char (?v div 262144), b64_char (?v div 4096 mod 64), b64_char (?v div 64 mod 64), b64_char (?v mod 64)]"
  have "\<forall>c \<in> set ?ds. \<exists>n < 64. c = b64_char n"
    using q by (metis (no_types, lifting) empty_iff insert_iff list.set(1) list.set(2))
  with hk(4) have "\<forall>c \<in> set (?ds @ h). \<exists>n < 64. c = b64_char n"
    by (simp only: set_append ball_Un)
  moreover have "b64_encode (a # b # c # s) = (?ds @ h) @ replicate k CHR ''=''"
    by (simp only: b64_encode.simps Let_def hk(1) append_Cons append_Nil append_assoc)
  moreover have "(length (?ds @ h) + k) mod 4 = 0"
    using hk(3) by simp
  ultimately show ?case using hk(2) by metis
qed

lemma b64_encode_no_newline:
  "filter (\<lambda>c. c \<noteq> CHR 0x0A \<and> c \<noteq> CHR 0x0D) (b64_encode s) = b64_encode s"
proof -
  obtain h k where hk: "b64_encode s = h @ replicate k CHR ''=''" "\<forall>c \<in> set h. \<exists>n < 64. c = b64_char n"
    using b64_encode_shape [of s] by (elim exE conjE) (rule that)
  have "c \<noteq> CHR 0x0A \<and> c \<noteq> CHR 0x0D" if "c \<in> set (b64_encode s)" for c
  proof (cases "c \<in> set h")
    case True
    with hk(2) obtain n where "n < 64" "c = b64_char n" by blast
    with b64_digit_facts [of n] show ?thesis by simp
  next
    case False
    with that hk(1) have "c = CHR ''=''" by (simp add: in_set_replicate)
    then show ?thesis by simp
  qed
  then show ?thesis by (intro filter_True) blast
qed

lemma b64_quads_encode: "b64_quads (b64_encode s) = Some s"
proof (induction s rule: b64_encode.induct)
  case 1
  show ?case by simp
next
  case (2 a)
  let ?v = "(of_char a :: nat) * 16"
  have q: "?v div 64 < 64" "?v mod 64 < 64" using of_char_less [of a] by - (rule less_mult_imp_div_less, simp, simp)
  have v: "?v div 64 * 64 + ?v mod 64 = ?v" by presburger
  have "?v div 16 = of_char a" by simp
  with q v show ?case
    by (simp only: b64_encode.simps b64_quads.simps Let_def b64_index_char
        simp_thms if_True option.case prod.case char_of_char)
next
  case (3 a b)
  let ?v = "((of_char a :: nat) * 256 + of_char b) * 4"
  have q: "?v div 4096 < 64" "?v div 64 mod 64 < 64" "?v mod 64 < 64"
    by (rule two_bytes_div_less [OF of_char_less of_char_less]) simp_all
  have v: "(?v div 4096 * 64 + ?v div 64 mod 64) * 64 + ?v mod 64 = ?v" by (rule three_digits)
  have "?v div 4 div 256 = of_char a" "?v div 4 mod 256 = of_char b"
    using of_char_less [of b] by simp_all
  with q v show ?case
    by (simp only: b64_encode.simps b64_quads.simps Let_def b64_index_char b64_char_not_pad
        simp_thms if_False if_True option.case prod.case char_of_char)
next
  case (4 a b c s)
  let ?v = "((of_char a :: nat) * 256 + of_char b) * 256 + of_char c"
  have q: "?v div 262144 < 64" "?v div 4096 mod 64 < 64" "?v div 64 mod 64 < 64" "?v mod 64 < 64"
    by (rule three_bytes_div_less [OF of_char_less of_char_less of_char_less]) simp_all
  have v: "((?v div 262144 * 64 + ?v div 4096 mod 64) * 64 + ?v div 64 mod 64) * 64 + ?v mod 64 = ?v"
    by (rule four_digits)
  have "?v div 65536 = of_char a" "?v div 256 mod 256 = of_char b" "?v mod 256 = of_char c"
    by (rule three_bytes [OF of_char_less of_char_less])+
  with q v 4 show ?case
    by (simp only: b64_encode.simps b64_quads.simps Let_def b64_index_char b64_char_not_pad
        if_False option.case prod.case char_of_char)
qed

lemma b64_decode_encode: "b64_decode (b64_encode s) = Some s"
  by (simp only: b64_decode_def b64_encode_no_newline b64_quads_encode)

lemma b64_trim_shape:
  "\<exists>k. k \<le> 2 \<and> b64_encode s = trim_right_char CHR ''='' (b64_encode s) @ replicate k CHR ''='' \<and>
     (length (trim_right_char CHR ''='' (b64_encode s)) + k) mod 4 = 0 \<and>
     (\<forall>c \<in> set (trim_right_char CHR ''='' (b64_encode s)). c \<noteq> CHR ''.'')"
proof -
  obtain h k where hk: "b64_encode s = h @ replicate k CHR ''=''" "k \<le> 2"
    "(length h + k) mod 4 = 0" "\<forall>c \<in> set h. \<exists>n < 64. c = b64_char n"
    using b64_encode_shape [of s] by (elim exE conjE) (rule that)
  have h: "\<forall>c \<in> set h. c \<noteq> CHR ''='' \<and> c \<noteq> CHR ''.''" using hk(4) b64_digit_facts by metis
  have "dropWhile (\<lambda>d. d = CHR ''='') (replicate k CHR ''='' @ rev h) = dropWhile (\<lambda>d. d = CHR ''='') (rev h)"
    by (simp add: dropWhile_append)
  also have "\<dots> = rev h"
    using h by (cases "rev h") (auto simp: rev_eq_Cons_iff)
  finally have "trim_right_char CHR ''='' (b64_encode s) = h"
    by (simp add: trim_right_char_def hk(1))
  with hk h show ?thesis by auto
qed

lemma b64_trim_inj:
  "trim_right_char CHR ''='' (b64_encode s) = trim_right_char CHR ''='' (b64_encode t) \<Longrightarrow> s = t"
proof -
  assume eq: "trim_right_char CHR ''='' (b64_encode s) = trim_right_char CHR ''='' (b64_encode t)"
  obtain j where j: "j \<le> (2::nat)" "b64_encode s = trim_right_char CHR ''='' (b64_encode s) @ replicate j CHR ''=''"
    "(length (trim_right_char CHR ''='' (b64_encode s)) + j) mod 4 = 0"
    using b64_trim_shape [of s] by (elim exE conjE) (rule that)
  obtain k where k: "k \<le> 2" "b64_encode t = trim_right_char CHR ''='' (b64_encode t) @ replicate k CHR ''=''"
    "(length (trim_right_char CHR ''='' (b64_encode t)) + k) mod 4 = 0"
    using b64_trim_shape [of t] by (elim exE conjE) (rule that)
  have pad: "a = b" if "a \<le> 2" "b \<le> 2" "(n + a) mod 4 = 0" "(n + b) mod 4 = 0" for a b n :: nat
    using that by presburger
  have "j = k" using pad [OF j(1) k(1) j(3)] k(3) by (simp only: eq)
  with j(2) k(2) eq have "b64_encode s = b64_encode t" by simp
  then show "s = t" by (metis b64_quads_encode option.inject)
qed

end
