(* ===== verification/GoTime.thy ===== *)
theory GoTime
  imports GoText
begin

text \<open>
  Package \<open>time\<close> as far as the project uses it. A \<open>time.Time\<close> is an instant
  (seconds and nanoseconds since the Unix epoch) with a location; a location is a zone of one
  fixed offset (UTC, or what \<open>time.FixedZone\<close> builds), so zones that change their
  offset during the year are outside the model. The calendar functions follow the library:
  cycles of 400, 100, 4 and 1 years, and a table of the days before each month. The lemmas:
  \<open>time.Date\<close> on the fields of an instant gives the instant back with the dropped fields
  zeroed, which is how the aggregation code truncates timestamps.
\<close>

named_theorems time_simps

section \<open>Instants\<close>

record gotime =
  t_sec :: int
  t_nsec :: int
  t_zone :: string
  t_off :: int

definition time_ok :: "gotime \<Rightarrow> bool" where
  "time_ok t \<longleftrightarrow> 0 \<le> t_nsec t \<and> t_nsec t < 1000000000"

definition time_zero :: gotime where
  "time_zero = \<lparr>t_sec = -62135596800, t_nsec = 0, t_zone = ''UTC'', t_off = 0\<rparr>"

definition time_unix :: "gotime \<Rightarrow> i64" where
  "time_unix t = of_int (t_sec t)"

text \<open>Durations are \<open>int64\<close> nanoseconds.\<close>

definition dur_second :: i64 where "dur_second = 1000000000"
definition dur_minute :: i64 where "dur_minute = 60000000000"
definition dur_hour :: i64 where "dur_hour = 3600000000000"

definition time_add :: "gotime \<Rightarrow> i64 \<Rightarrow> gotime" where
  "time_add t d =
     (let n = t_nsec t + sint d
      in t\<lparr>t_sec := t_sec t + n div 1000000000, t_nsec := n mod 1000000000\<rparr>)"

text \<open>\<open>Time.Sub\<close>; the library saturates at the ends of \<open>int64\<close>.\<close>

definition time_sub :: "gotime \<Rightarrow> gotime \<Rightarrow> i64" where
  "time_sub t u =
     (let d = (t_sec t - t_sec u) * 1000000000 + (t_nsec t - t_nsec u)
      in of_int (max (- (2 ^ 63)) (min (2 ^ 63 - 1) d)))"

definition time_after :: "gotime \<Rightarrow> gotime \<Rightarrow> bool" where
  "time_after t u \<longleftrightarrow> t_sec u < t_sec t \<or> t_sec u = t_sec t \<and> t_nsec u < t_nsec t"

definition time_before :: "gotime \<Rightarrow> gotime \<Rightarrow> bool" where
  "time_before t u = time_after u t"

text \<open>\<open>Time.In\<close> and \<open>Time.UTC\<close>.\<close>

definition time_in :: "gotime \<Rightarrow> string \<Rightarrow> int \<Rightarrow> gotime" where
  "time_in t z off = t\<lparr>t_zone := z, t_off := off\<rparr>"

section \<open>Calendar\<close>

definition is_leap :: "int \<Rightarrow> bool" where
  "is_leap y \<longleftrightarrow> y mod 4 = 0 \<and> (y mod 100 \<noteq> 0 \<or> y mod 400 = 0)"

text \<open>Days of the proleptic Gregorian calendar from 1 January of year 1.\<close>

definition days_before_year :: "int \<Rightarrow> int" where
  "days_before_year y = (y - 1) * 365 + (y - 1) div 4 - (y - 1) div 100 + (y - 1) div 400"

definition month_table :: "int list" where
  "month_table = [0, 31, 59, 90, 120, 151, 181, 212, 243, 273, 304, 334, 365]"

definition days_before_month :: "bool \<Rightarrow> nat \<Rightarrow> int" where
  "days_before_month leap m = month_table ! (m - 1) + (if leap \<and> 2 < m then 1 else 0)"

definition unix_to_days :: int where
  "unix_to_days = 719162"

definition year_of_days :: "int \<Rightarrow> int" where
  "year_of_days d =
     (let n = d div 146097; r = d mod 146097;
          c = min 3 (r div 36524); r1 = r - 36524 * c;
          q = r1 div 1461; r2 = r1 mod 1461;
          y = min 3 (r2 div 365)
      in 400 * n + 100 * c + 4 * q + y + 1)"

definition month_of_yday :: "bool \<Rightarrow> int \<Rightarrow> nat" where
  "month_of_yday leap yd =
     (case find (\<lambda>m. days_before_month leap m \<le> yd) (rev [2..<13]) of None \<Rightarrow> 1 | Some m \<Rightarrow> m)"

definition abs_days :: "gotime \<Rightarrow> int" where
  "abs_days t = (t_sec t + t_off t) div 86400 + unix_to_days"

definition day_sec :: "gotime \<Rightarrow> int" where
  "day_sec t = (t_sec t + t_off t) mod 86400"

definition time_year :: "gotime \<Rightarrow> int" where
  "time_year t = year_of_days (abs_days t)"

definition time_yday :: "gotime \<Rightarrow> int" where
  "time_yday t = abs_days t - days_before_year (time_year t)"

definition time_month :: "gotime \<Rightarrow> nat" where
  "time_month t = month_of_yday (is_leap (time_year t)) (time_yday t)"

definition time_day :: "gotime \<Rightarrow> int" where
  "time_day t = time_yday t - days_before_month (is_leap (time_year t)) (time_month t) + 1"

definition time_hour :: "gotime \<Rightarrow> int" where
  "time_hour t = day_sec t div 3600"

definition time_minute :: "gotime \<Rightarrow> int" where
  "time_minute t = day_sec t mod 3600 div 60"

definition time_second :: "gotime \<Rightarrow> int" where
  "time_second t = day_sec t mod 60"

text \<open>\<open>time.Date\<close> for a month in range; the other fields may overflow into the next.\<close>

definition time_date ::
  "int \<Rightarrow> nat \<Rightarrow> int \<Rightarrow> int \<Rightarrow> int \<Rightarrow> int \<Rightarrow> int \<Rightarrow> string \<Rightarrow> int \<Rightarrow> gotime" where
  "time_date y m d h mi s ns z off =
     (let days = days_before_year y + days_before_month (is_leap y) m + (d - 1);
          sec = (days - unix_to_days) * 86400 + h * 3600 + mi * 60 + s
      in \<lparr>t_sec = sec + ns div 1000000000 - off, t_nsec = ns mod 1000000000, t_zone = z, t_off = off\<rparr>)"

text \<open>The day found within the year is a day of the year.\<close>

lemma yday_bounds: "0 \<le> time_yday t \<and> time_yday t \<le> 365"
proof -
  define d where "d = abs_days t"
  define n where "n = d div 146097"
  define r where "r = d mod 146097"
  define c where "c = min 3 (r div 36524)"
  define r1 where "r1 = r - 36524 * c"
  define q where "q = r1 div 1461"
  define r2 where "r2 = r1 mod 1461"
  define y where "y = min 3 (r2 div 365)"
  have d: "d = 146097 * n + r" and r: "0 \<le> r" "r < 146097" by (simp_all add: n_def r_def)
  have c: "0 \<le> c" "c \<le> 3" "0 \<le> r1" "r1 < 36525"
    using r by (auto simp: c_def r1_def min_def)
  have r1: "r1 = 1461 * q + r2" and r2: "0 \<le> r2" "r2 < 1461" by (simp_all add: q_def r2_def)
  have q: "0 \<le> q" "q \<le> 24" using c(3,4) by (auto simp: q_def)
  have y: "0 \<le> y" "y \<le> 3" "0 \<le> r2 - 365 * y" "r2 - 365 * y \<le> 365"
    using r2 by (auto simp: y_def min_def)
  have dec: "d = 146097 * n + 36524 * c + 1461 * q + r2"
    using d r1 by (simp add: r1_def)
  have yr: "time_year t - 1 = 400 * n + 100 * c + 4 * q + y"
    by (simp add: time_year_def year_of_days_def Let_def d_def n_def r_def c_def r1_def q_def r2_def y_def)
  have "(400 * n + 100 * c + 4 * q + y) div 4 = 100 * n + 25 * c + q"
    by (rule int_div_pos_eq [where r = y]) (use y in auto)
  moreover have "(400 * n + 100 * c + 4 * q + y) div 100 = 4 * n + c"
    by (rule int_div_pos_eq [where r = "4 * q + y"]) (use y q in auto)
  moreover have "(400 * n + 100 * c + 4 * q + y) div 400 = n"
    by (rule int_div_pos_eq [where r = "100 * c + 4 * q + y"]) (use y q c in auto)
  ultimately have "days_before_year (time_year t) = 146097 * n + 36524 * c + 1461 * q + 365 * y"
    unfolding days_before_year_def yr by simp
  with y dec show ?thesis by (simp add: time_yday_def d_def)
qed

lemma time_month_bounds: "1 \<le> time_month t \<and> time_month t \<le> 12"
proof (cases "find (\<lambda>m. days_before_month (is_leap (time_year t)) m \<le> time_yday t) (rev [2..<13])")
  case None
  then show ?thesis by (simp add: time_month_def month_of_yday_def)
next
  case (Some m)
  then have "m \<in> set (rev [2..<13])" by (metis find_Some_iff nth_mem)
  with Some show ?thesis by (auto simp: time_month_def month_of_yday_def)
qed

text \<open>
  \<open>time.Date\<close> over the fields of \<open>t\<close>, in the location of \<open>t\<close>: the fields that are
  not passed on are cut off.
\<close>

lemma date_truncates:
  "time_date (time_year t) (time_month t) (time_day t) (time_hour t) mi s ns (t_zone t) (t_off t) =
     \<lparr>t_sec = t_sec t - day_sec t mod 3600 + mi * 60 + s + ns div 1000000000,
      t_nsec = ns mod 1000000000, t_zone = t_zone t, t_off = t_off t\<rparr>"
proof -
  have days: "days_before_year (time_year t) + days_before_month (is_leap (time_year t)) (time_month t)
      + (time_day t - 1) = abs_days t"
    by (simp add: time_day_def time_yday_def)
  have "t_sec t + t_off t = (abs_days t - unix_to_days) * 86400 + day_sec t"
    by (simp add: abs_days_def day_sec_def)
  moreover have "time_hour t * 3600 = day_sec t - day_sec t mod 3600"
    by (simp add: time_hour_def minus_mod_eq_div_mult)
  ultimately show ?thesis
    unfolding time_date_def Let_def days by simp
qed

definition trunc_hour :: "gotime \<Rightarrow> gotime" where
  "trunc_hour t = t\<lparr>t_sec := t_sec t - day_sec t mod 3600, t_nsec := 0\<rparr>"

definition trunc_minute :: "gotime \<Rightarrow> gotime" where
  "trunc_minute t = t\<lparr>t_sec := t_sec t - day_sec t mod 60, t_nsec := 0\<rparr>"

lemma date_hour [time_simps]:
  "time_date (time_year t) (time_month t) (time_day t) (time_hour t) 0 0 0 (t_zone t) (t_off t) =
     trunc_hour t"
  by (simp add: date_truncates trunc_hour_def)

lemma date_minute [time_simps]:
  "time_date (time_year t) (time_month t) (time_day t) (time_hour t) (time_minute t) 0 0
     (t_zone t) (t_off t) = trunc_minute t"
proof -
  have "time_minute t * 60 = day_sec t mod 3600 - day_sec t mod 3600 mod 60"
    by (simp add: time_minute_def minus_mod_eq_div_mult)
  moreover have "day_sec t mod 3600 mod 60 = day_sec t mod 60"
    by (simp add: mod_mod_cancel)
  ultimately show ?thesis by (simp add: date_truncates trunc_minute_def)
qed

section \<open>Formatting\<close>

text \<open>Decimal with leading zeros up to a width.\<close>

definition pad_zeros :: "nat \<Rightarrow> nat \<Rightarrow> string" where
  "pad_zeros w n = replicate (w - length (dec_nat n)) (CHR ''0'') @ dec_nat n"

definition month_name :: "nat \<Rightarrow> string" where
  "month_name m =
     (if 1 \<le> m \<and> m \<le> 12 then
        [''January'', ''February'', ''March'', ''April'', ''May'', ''June'', ''July'', ''August'',
         ''September'', ''October'', ''November'', ''December''] ! (m - 1)
      else ''%!Month('' @ dec_nat m @ '')'')"

text \<open>\<open>Format("20060102")\<close>, the shard suffix, and \<open>Format("2006-01-02")\<close> style dates.\<close>

definition fmt_date :: "string \<Rightarrow> gotime \<Rightarrow> string" where
  "fmt_date sep t =
     pad_zeros 4 (nat (time_year t)) @ sep @ pad_zeros 2 (time_month t) @ sep @ pad_zeros 2 (nat (time_day t))"

definition fmt_zone :: "int \<Rightarrow> string" where
  "fmt_zone off =
     (let a = nat \<bar>off\<bar> div 60
      in (if off < 0 then CHR ''-'' else CHR ''+'') # pad_zeros 2 (a div 60) @ pad_zeros 2 (a mod 60))"

text \<open>\<open>Time.String\<close>: \<open>2006-01-02 15:04:05.999999999 -0700 MST\<close>.\<close>

definition time_string :: "gotime \<Rightarrow> string" where
  "time_string t =
     fmt_date ''-'' t @ '' '' @
     pad_zeros 2 (nat (time_hour t)) @ '':'' @ pad_zeros 2 (nat (time_minute t)) @ '':'' @
     pad_zeros 2 (nat (time_second t)) @
     (let f = trim_right_char (CHR ''0'') (pad_zeros 9 (nat (t_nsec t)))
      in if f = [] then [] else CHR ''.'' # f) @
     '' '' @ fmt_zone (t_off t) @ '' '' @ t_zone t"

lemma fmt_date_inj_day:
  assumes "time_year t = time_year u" "time_month t = time_month u" "time_day t = time_day u"
  shows "fmt_date sep t = fmt_date sep u"
  by (simp add: fmt_date_def assms)

end
