(* ===== verification/Analytics_Record.thy ===== *)
theory Analytics_Record
  imports GoFloat GoTime "HOL-Library.Char_ord" "HOL-Library.List_Lexorder"
begin

text \<open>
  The data model of the pump, \<open>src/analytics/analytics.go\<close>, \<open>graph_record.go\<close>,
  \<open>mcp_record.go\<close> and \<open>analytics_filters.go\<close>: the analytics record with its
  nested structs, the filters of a pump, and the operations on one record (trimming, ignoring
  fields, expiry, the CSV header and line, conversion to graph and MCP records). The fields carry
  the prefix of their struct (\<open>r_\<close> for \<open>AnalyticsRecord\<close>). The lemmas: the header
  and the line of a record have the same columns, trimming keeps a prefix of bounded length and
  panics on a negative size, a filter is the allow lists and block lists it is made of, ignoring
  fields is idempotent and touches only the named fields.
\<close>

section \<open>Data\<close>

record network_stats =
  ns_OpenConnections :: i64
  ns_ClosedConnection :: i64
  ns_BytesIn :: i64
  ns_BytesOut :: i64

record latency =
  la_Total :: i64
  la_Upstream :: i64
  la_Gateway :: i64

datatype path_elem = PathKey string | PathIndex i64

record graph_error =
  ge_Message :: string
  ge_Path :: "path_elem list"

datatype graphql_operation = OperationUnknown | OperationQuery | OperationMutation | OperationSubscription

record graphql_stats =
  gq_Variables :: string
  gq_RootFields :: "string list"
  gq_Types :: "(string, string list) gomap"
  gq_Errors :: "graph_error list"
  gq_OperationType :: graphql_operation
  gq_HasErrors :: bool
  gq_IsGraphQL :: bool

record mcp_stats =
  mc_IsMCP :: bool
  mc_JSONRPCMethod :: string
  mc_PrimitiveType :: string
  mc_PrimitiveName :: string

record city =
  ci_GeoNameID :: i64
  ci_Names :: "(string, string) gomap"

record geo_location =
  lo_Latitude :: f64
  lo_Longitude :: f64
  lo_TimeZone :: string

record geo_data =
  geo_Country :: string
  geo_City :: city
  geo_Location :: geo_location

record analytics_record =
  r_id :: string
  r_Method :: string
  r_Host :: string
  r_Path :: string
  r_RawPath :: string
  r_ContentLength :: i64
  r_UserAgent :: string
  r_Day :: i64
  r_Month :: i64
  r_Year :: i64
  r_Hour :: i64
  r_ResponseCode :: i64
  r_APIKey :: string
  r_TimeStamp :: gotime
  r_APIVersion :: string
  r_APIName :: string
  r_APIID :: string
  r_OrgID :: string
  r_OauthID :: string
  r_RequestTime :: i64
  r_RawRequest :: string
  r_RawResponse :: string
  r_IPAddress :: string
  r_Geo :: geo_data
  r_Network :: network_stats
  r_Latency :: latency
  r_Tags :: "string list"
  r_Alias :: string
  r_TrackPath :: bool
  r_ExpireAt :: gotime
  r_ApiSchema :: string
  r_OriginalPath :: string
  r_ListenPath :: string
  r_GraphQLStats :: graphql_stats
  r_MCPStats :: mcp_stats
  r_CollectionName :: string

text \<open>The zero values of the structs.\<close>

definition network_zero :: network_stats where
  "network_zero = \<lparr>ns_OpenConnections = 0, ns_ClosedConnection = 0, ns_BytesIn = 0, ns_BytesOut = 0\<rparr>"

definition latency_zero :: latency where
  "latency_zero = \<lparr>la_Total = 0, la_Upstream = 0, la_Gateway = 0\<rparr>"

definition geo_zero :: geo_data where
  "geo_zero = \<lparr>geo_Country = [], geo_City = \<lparr>ci_GeoNameID = 0, ci_Names = []\<rparr>,
     geo_Location = \<lparr>lo_Latitude = f_zero, lo_Longitude = f_zero, lo_TimeZone = []\<rparr>\<rparr>"

definition graphql_zero :: graphql_stats where
  "graphql_zero = \<lparr>gq_Variables = [], gq_RootFields = [], gq_Types = [], gq_Errors = [],
     gq_OperationType = OperationUnknown, gq_HasErrors = False, gq_IsGraphQL = False\<rparr>"

definition mcp_zero :: mcp_stats where
  "mcp_zero = \<lparr>mc_IsMCP = False, mc_JSONRPCMethod = [], mc_PrimitiveType = [], mc_PrimitiveName = []\<rparr>"

definition record_zero :: analytics_record where
  "record_zero = \<lparr>r_id = [], r_Method = [], r_Host = [], r_Path = [], r_RawPath = [],
     r_ContentLength = 0, r_UserAgent = [], r_Day = 0, r_Month = 0, r_Year = 0, r_Hour = 0,
     r_ResponseCode = 0, r_APIKey = [], r_TimeStamp = time_zero, r_APIVersion = [], r_APIName = [],
     r_APIID = [], r_OrgID = [], r_OauthID = [], r_RequestTime = 0, r_RawRequest = [],
     r_RawResponse = [], r_IPAddress = [], r_Geo = geo_zero, r_Network = network_zero,
     r_Latency = latency_zero, r_Tags = [], r_Alias = [], r_TrackPath = False,
     r_ExpireAt = time_zero, r_ApiSchema = [], r_OriginalPath = [], r_ListenPath = [],
     r_GraphQLStats = graphql_zero, r_MCPStats = mcp_zero, r_CollectionName = []\<rparr>"

text \<open>
  The values of the \<open>[]interface{}\<close> slices handed to the pumps: a record, or the nil
  entry that \<open>PreprocessAnalyticsValues\<close> leaves behind for a value it cannot decode.
\<close>

datatype item = ItemRecord analytics_record | ItemNil

text \<open>\<open>v.(AnalyticsRecord)\<close> without the comma-ok form.\<close>

definition assert_record :: "item \<Rightarrow> analytics_record res" where
  "assert_record v = (case v of ItemRecord r \<Rightarrow> Inr r | ItemNil \<Rightarrow> Inl (GoPanic ''interface conversion''))"

lemma assert_record_simps [simp]:
  "assert_record (ItemRecord r) = Inr r"
  "assert_record ItemNil = Inl (GoPanic ''interface conversion'')"
  by (simp_all add: assert_record_def)

definition SQLTable :: string where
  "SQLTable = ''tyk_analytics''"

definition TableName :: "analytics_record \<Rightarrow> string" where
  "TableName r = (if r_CollectionName r \<noteq> [] then r_CollectionName r else SQLTable)"

definition IsMCPRecord :: "analytics_record \<Rightarrow> bool" where
  "IsMCPRecord r = mc_IsMCP (r_MCPStats r)"

definition IsGraphRecord :: "analytics_record \<Rightarrow> bool" where
  "IsGraphRecord r = gq_IsGraphQL (r_GraphQLStats r)"

section \<open>Trimming, flushing, expiry\<close>

text \<open>\<open>bytes.Buffer.Truncate\<close> panics on a negative length.\<close>

definition trimString :: "int \<Rightarrow> string \<Rightarrow> string res" where
  "trimString sz v =
     (let sz = (if int (length v) < sz then int (length v) else sz)
      in if sz < 0 then Inl (GoPanic ''bytes.Buffer: truncation out of range'')
         else Inr (take (nat sz) v))"

definition TrimRawData :: "int \<Rightarrow> analytics_record \<Rightarrow> analytics_record res" where
  "TrimRawData sz r =
     rbind (trimString sz (r_RawResponse r)) (\<lambda>resp.
     rbind (trimString sz (r_RawRequest r)) (\<lambda>req.
       Inr (r\<lparr>r_RawResponse := resp, r_RawRequest := req\<rparr>)))"

definition network_Flush :: "network_stats \<Rightarrow> network_stats \<times> network_stats" where
  "network_Flush n = (n, network_zero)"

definition SetExpiry :: "gotime \<Rightarrow> i64 \<Rightarrow> analytics_record \<Rightarrow> analytics_record" where
  "SetExpiry now secs r =
     (let expiry = (if secs = 0 then 24 * dur_hour * (365 * 100) else secs * dur_second)
      in r\<lparr>r_ExpireAt := time_add now expiry\<rparr>)"

lemma trimString_nonneg: "0 \<le> sz \<Longrightarrow> trimString sz v = Inr (take (nat sz) v)"
  by (auto simp: trimString_def Let_def)

lemma trimString_neg: "sz < 0 \<Longrightarrow> \<not> is_ok (trimString sz v)"
  by (auto simp: trimString_def Let_def)

lemma TrimRawData_nonneg:
  "0 \<le> sz \<Longrightarrow> TrimRawData sz r =
     Inr (r\<lparr>r_RawResponse := take (nat sz) (r_RawResponse r), r_RawRequest := take (nat sz) (r_RawRequest r)\<rparr>)"
  by (simp add: TrimRawData_def trimString_nonneg)

section \<open>The CSV header and line\<close>

definition network_field_names :: "string list" where
  "network_field_names = [''NetworkStats.OpenConnections'', ''NetworkStats.ClosedConnection'',
     ''NetworkStats.BytesIn'', ''NetworkStats.BytesOut'']"

definition latency_field_names :: "string list" where
  "latency_field_names = [''Latency.Total'', ''Latency.Upstream'', ''Latency.Gateway'']"

definition geo_field_names :: "string list" where
  "geo_field_names = [''GeoData.Country.ISOCode'', ''GeoData.City.GeoNameID'', ''GeoData.City.Names'',
     ''GeoData.Location.Latitude'', ''GeoData.Location.Longitude'', ''GeoData.Location.TimeZone'']"

definition GetFieldNames :: "string list" where
  "GetFieldNames =
     [''Method'', ''Host'', ''Path'', ''RawPath'', ''ContentLength'', ''UserAgent'', ''Day'', ''Month'',
      ''Year'', ''Hour'', ''ResponseCode'', ''APIKey'', ''TimeStamp'', ''APIVersion'', ''APIName'',
      ''APIID'', ''OrgID'', ''OauthID'', ''RequestTime'', ''RawRequest'', ''RawResponse'', ''IPAddress'']
     @ geo_field_names @ network_field_names @ latency_field_names
     @ [''Tags'', ''Alias'', ''TrackPath'', ''ExpireAt'', ''ApiSchema'', ''OriginalPath'', ''ListenPath'']"

definition network_line_values :: "network_stats \<Rightarrow> string list" where
  "network_line_values n = [utoa (ns_OpenConnections n), utoa (ns_ClosedConnection n),
     utoa (ns_BytesIn n), utoa (ns_BytesOut n)]"

definition latency_line_values :: "latency \<Rightarrow> string list" where
  "latency_line_values l = [itoa (la_Total l), itoa (la_Upstream l), itoa (la_Gateway l)]"

text \<open>The city names, ordered by their key: \<open>k1:v1;k2:v2\<close>.\<close>

definition city_names :: "(string, string) gomap \<Rightarrow> string" where
  "city_names m = str_join '';''
     (map (\<lambda>k. k @ '':'' @ (case gomap_get m k of None \<Rightarrow> [] | Some v \<Rightarrow> v)) (sort (gomap_keys m)))"

definition geo_line_values :: "geo_data \<Rightarrow> string list" where
  "geo_line_values g =
     [geo_Country g, utoa (ci_GeoNameID (geo_City g)), city_names (ci_Names (geo_City g)),
      utoa (f_to_u64 (lo_Latitude (geo_Location g))), utoa (f_to_u64 (lo_Longitude (geo_Location g))),
      lo_TimeZone (geo_Location g)]"

definition month_str :: "i64 \<Rightarrow> string" where
  "month_str m = (if 1 \<le> sint m \<and> sint m \<le> 12 then month_name (unat m)
     else ''%!Month('' @ utoa m @ '')'')"

definition fmt_bool :: "bool \<Rightarrow> string" where
  "fmt_bool b = (if b then ''true'' else ''false'')"

definition GetLineValues :: "analytics_record \<Rightarrow> string list" where
  "GetLineValues r =
     [r_Method r, r_Host r, r_Path r, r_RawPath r, utoa (r_ContentLength r), r_UserAgent r,
      utoa (r_Day r), month_str (r_Month r), utoa (r_Year r), utoa (r_Hour r), utoa (r_ResponseCode r),
      r_APIKey r, time_string (r_TimeStamp r), r_APIVersion r, r_APIName r, r_APIID r, r_OrgID r,
      r_OauthID r, utoa (r_RequestTime r), r_RawRequest r, r_RawResponse r, r_IPAddress r]
     @ geo_line_values (r_Geo r) @ network_line_values (r_Network r) @ latency_line_values (r_Latency r)
     @ [str_join '';'' (r_Tags r), r_Alias r, fmt_bool (r_TrackPath r), time_string (r_ExpireAt r),
        r_ApiSchema r, r_OriginalPath r, r_ListenPath r]"

lemmas line_defs = GetLineValues_def geo_line_values_def network_line_values_def latency_line_values_def
lemmas field_name_defs = GetFieldNames_def geo_field_names_def network_field_names_def latency_field_names_def

lemma length_field_names: "length GetFieldNames = 42"
  by (simp add: field_name_defs)

lemma length_line_values: "length (GetLineValues r) = 42"
  by (simp add: line_defs)

text \<open>The value of a column of the line, looked up by its header.\<close>

definition csv_column :: "analytics_record \<Rightarrow> string \<Rightarrow> string option" where
  "csv_column r name = map_of (zip GetFieldNames (GetLineValues r)) name"

section \<open>Ignoring fields\<close>

text \<open>
  The fields of \<open>AnalyticsRecord\<close> with their \<open>json\<close> tag and the update that
  zeroes them, in the order of the struct. Several of the tests of the code compare the whole
  tag, so \<open>-\<close> names \<open>CollectionName\<close>. The unexported \<open>id\<close> cannot be set.
\<close>

definition record_fields :: "(string \<times> (analytics_record \<Rightarrow> analytics_record)) list" where
  "record_fields =
     [(''method'', r_Method_update (\<lambda>_. [])), (''host'', r_Host_update (\<lambda>_. [])),
      (''path'', r_Path_update (\<lambda>_. [])), (''raw_path'', r_RawPath_update (\<lambda>_. [])),
      (''content_length'', r_ContentLength_update (\<lambda>_. 0)), (''user_agent'', r_UserAgent_update (\<lambda>_. [])),
      (''day'', r_Day_update (\<lambda>_. 0)), (''month'', r_Month_update (\<lambda>_. 0)),
      (''year'', r_Year_update (\<lambda>_. 0)), (''hour'', r_Hour_update (\<lambda>_. 0)),
      (''response_code'', r_ResponseCode_update (\<lambda>_. 0)), (''api_key'', r_APIKey_update (\<lambda>_. [])),
      (''timestamp'', r_TimeStamp_update (\<lambda>_. time_zero)), (''api_version'', r_APIVersion_update (\<lambda>_. [])),
      (''api_name'', r_APIName_update (\<lambda>_. [])), (''api_id'', r_APIID_update (\<lambda>_. [])),
      (''org_id'', r_OrgID_update (\<lambda>_. [])), (''oauth_id'', r_OauthID_update (\<lambda>_. [])),
      (''request_time'', r_RequestTime_update (\<lambda>_. 0)), (''raw_request'', r_RawRequest_update (\<lambda>_. [])),
      (''raw_response'', r_RawResponse_update (\<lambda>_. [])), (''ip_address'', r_IPAddress_update (\<lambda>_. [])),
      (''geo'', r_Geo_update (\<lambda>_. geo_zero)), (''network'', r_Network_update (\<lambda>_. network_zero)),
      (''latency'', r_Latency_update (\<lambda>_. latency_zero)), (''tags'', r_Tags_update (\<lambda>_. [])),
      (''alias'', r_Alias_update (\<lambda>_. [])), (''track_path'', r_TrackPath_update (\<lambda>_. False)),
      (''expireAt'', r_ExpireAt_update (\<lambda>_. time_zero)), (''api_schema'', r_ApiSchema_update (\<lambda>_. [])),
      (''original_path'', r_OriginalPath_update (\<lambda>_. [])), (''listen_path'', r_ListenPath_update (\<lambda>_. [])),
      (''graphql_stats'', r_GraphQLStats_update (\<lambda>_. graphql_zero)),
      (''mcp_stats'', r_MCPStats_update (\<lambda>_. mcp_zero)), (''-'', r_CollectionName_update (\<lambda>_. []))]"

definition zero_field :: "string \<Rightarrow> analytics_record \<Rightarrow> analytics_record" where
  "zero_field tag r = fold (\<lambda>(t, upd) r. if t = tag then upd r else r) record_fields r"

definition RemoveIgnoredFields :: "string list \<Rightarrow> analytics_record \<Rightarrow> analytics_record" where
  "RemoveIgnoredFields ignore r = fold zero_field ignore r"

lemma record_fields_distinct: "distinct (map fst record_fields)"
  by (simp add: record_fields_def)

lemma fold_tag_other:
  "tag \<notin> fst ` set fs \<Longrightarrow> fold (\<lambda>(t, upd) r. if t = tag then upd r else r) fs r = r"
  by (induction fs arbitrary: r) auto

lemma fold_tag_one:
  assumes "distinct (map fst fs)" and "(tag, upd) \<in> set fs"
  shows "fold (\<lambda>(t, upd) r. if t = tag then upd r else r) fs r = upd r"
  using assms
proof (induction fs arbitrary: r)
  case Nil
  then show ?case by simp
next
  case (Cons f fs)
  show ?case
  proof (cases "f = (tag, upd)")
    case True
    with Cons.prems show ?thesis by (simp add: fold_tag_other)
  next
    case False
    with Cons.prems have "(tag, upd) \<in> set fs" by auto
    moreover from this have "tag \<in> fst ` set fs" by (metis fst_conv image_eqI)
    with Cons.prems(1) have "fst f \<noteq> tag" by auto
    ultimately show ?thesis using Cons by (simp add: case_prod_beta)
  qed
qed

lemma zero_field_unknown: "tag \<notin> fst ` set record_fields \<Longrightarrow> zero_field tag r = r"
  unfolding zero_field_def by (rule fold_tag_other)

lemma zero_field_known: "(tag, upd) \<in> set record_fields \<Longrightarrow> zero_field tag r = upd r"
  unfolding zero_field_def by (rule fold_tag_one [OF record_fields_distinct])

lemma zero_field_cases:
  obtains (unknown) "zero_field tag = id" "tag \<notin> fst ` set record_fields"
  | (known) upd where "(tag, upd) \<in> set record_fields" "zero_field tag = upd"
proof (cases "tag \<in> fst ` set record_fields")
  case True
  then obtain upd where "(tag, upd) \<in> set record_fields" by force
  then show ?thesis using known zero_field_known by blast
next
  case False
  then have "zero_field tag = id" by (intro ext) (simp add: zero_field_unknown)
  with False show ?thesis by (intro unknown) auto
qed

text \<open>Every update of the table is idempotent.\<close>

lemma record_fields_idem:
  assumes "(t, f) \<in> set record_fields"
  shows "f (f r) = f r"
proof -
  have "list_all (\<lambda>(t, f). f (f r) = f r) record_fields"
    by (simp add: record_fields_def)
  with assms show ?thesis by (auto simp: list_all_iff)
qed

lemma zero_field_idem: "zero_field tag (zero_field tag r) = zero_field tag r"
  by (cases rule: zero_field_cases [of tag]) (auto simp: record_fields_idem)

text \<open>Ignoring other fields leaves the fields alone that aggregation and filtering group by.\<close>

lemma zero_field_preserves_key_fields:
  assumes "tag \<noteq> ''api_id''" "tag \<noteq> ''org_id''" "tag \<noteq> ''response_code''"
  shows "r_APIID (zero_field tag r) = r_APIID r" "r_OrgID (zero_field tag r) = r_OrgID r"
    "r_ResponseCode (zero_field tag r) = r_ResponseCode r"
proof -
  have "list_all (\<lambda>(t, f). t = ''api_id'' \<or> t = ''org_id'' \<or> t = ''response_code'' \<or>
      r_APIID (f r) = r_APIID r \<and> r_OrgID (f r) = r_OrgID r \<and> r_ResponseCode (f r) = r_ResponseCode r)
      record_fields"
    by (simp add: record_fields_def)
  with assms show "r_APIID (zero_field tag r) = r_APIID r" "r_OrgID (zero_field tag r) = r_OrgID r"
    "r_ResponseCode (zero_field tag r) = r_ResponseCode r"
    by (cases rule: zero_field_cases [of tag]; fastforce simp: list_all_iff)+
qed

section \<open>Graph and MCP records\<close>

record graph_record =
  g_Types :: "(string, string list) gomap"
  g_AnalyticsRecord :: analytics_record
  g_OperationType :: string
  g_Variables :: string
  g_RootFields :: "string list"
  g_Errors :: "graph_error list"
  g_HasErrors :: bool

record mcp_record =
  m_JSONRPCMethod :: string
  m_PrimitiveType :: string
  m_PrimitiveName :: string
  m_AnalyticsRecord :: analytics_record

text \<open>The package variables \<open>GraphSQLTableName\<close> and \<open>MCPSQLTableName\<close> are arguments.\<close>

definition graph_TableName :: "string \<Rightarrow> graph_record \<Rightarrow> string" where
  "graph_TableName GraphSQLTableName g =
     (if GraphSQLTableName = [] then TableName (g_AnalyticsRecord g) else GraphSQLTableName)"

definition mcp_TableName :: "string \<Rightarrow> mcp_record \<Rightarrow> string" where
  "mcp_TableName MCPSQLTableName m =
     (if MCPSQLTableName = [] then TableName (m_AnalyticsRecord m) else MCPSQLTableName)"

definition operation_name :: "graphql_operation \<Rightarrow> string" where
  "operation_name op = (case op of OperationQuery \<Rightarrow> ''Query'' | OperationMutation \<Rightarrow> ''Mutation''
     | OperationSubscription \<Rightarrow> ''Subscription'' | OperationUnknown \<Rightarrow> [])"

definition ToGraphRecord :: "analytics_record \<Rightarrow> graph_record" where
  "ToGraphRecord r =
     (if \<not> IsGraphRecord r then
        \<lparr>g_Types = [], g_AnalyticsRecord = record_zero, g_OperationType = [], g_Variables = [],
         g_RootFields = [], g_Errors = [], g_HasErrors = False\<rparr>
      else
        (let s = r_GraphQLStats r;
             g = \<lparr>g_Types = gq_Types s, g_AnalyticsRecord = r,
                  g_OperationType = operation_name (gq_OperationType s), g_Variables = gq_Variables s,
                  g_RootFields = gq_RootFields s, g_Errors = gq_Errors s, g_HasErrors = gq_HasErrors s\<rparr>
         in if 400 \<le> sint (r_ResponseCode r) then g\<lparr>g_HasErrors := True\<rparr> else g))"

definition ToMCPRecord :: "analytics_record \<Rightarrow> mcp_record" where
  "ToMCPRecord r =
     (if \<not> IsMCPRecord r then
        \<lparr>m_JSONRPCMethod = [], m_PrimitiveType = [], m_PrimitiveName = [], m_AnalyticsRecord = record_zero\<rparr>
      else
        \<lparr>m_JSONRPCMethod = mc_JSONRPCMethod (r_MCPStats r), m_PrimitiveType = mc_PrimitiveType (r_MCPStats r),
         m_PrimitiveName = mc_PrimitiveName (r_MCPStats r), m_AnalyticsRecord = r\<rparr>)"

lemma ToGraphRecord_record [simp]: "IsGraphRecord r \<Longrightarrow> g_AnalyticsRecord (ToGraphRecord r) = r"
  by (simp add: ToGraphRecord_def Let_def)

lemma ToMCPRecord_record [simp]: "IsMCPRecord r \<Longrightarrow> m_AnalyticsRecord (ToMCPRecord r) = r"
  by (simp add: ToMCPRecord_def)

section \<open>Filters\<close>

record analytics_filters =
  f_OrgsIDs :: "string list"
  f_APIIDs :: "string list"
  f_ResponseCodes :: "i64 list"
  f_SkippedOrgsIDs :: "string list"
  f_SkippedAPIIDs :: "string list"
  f_SkippedResponseCodes :: "i64 list"

fun stringInSlice :: "string \<Rightarrow> string list \<Rightarrow> bool" where
  "stringInSlice a [] = False"
| "stringInSlice a (b # bs) = (if b = a then True else stringInSlice a bs)"

fun intInSlice :: "i64 \<Rightarrow> i64 list \<Rightarrow> bool" where
  "intInSlice a [] = False"
| "intInSlice a (b # bs) = (if b = a then True else intInSlice a bs)"

definition ShouldFilter :: "analytics_filters \<Rightarrow> analytics_record \<Rightarrow> bool" where
  "ShouldFilter f r =
     (if 0 < length (f_SkippedAPIIDs f) \<and> stringInSlice (r_APIID r) (f_SkippedAPIIDs f) then True
      else if 0 < length (f_SkippedOrgsIDs f) \<and> stringInSlice (r_OrgID r) (f_SkippedOrgsIDs f) then True
      else if 0 < length (f_SkippedResponseCodes f) \<and> intInSlice (r_ResponseCode r) (f_SkippedResponseCodes f) then True
      else if 0 < length (f_APIIDs f) \<and> \<not> stringInSlice (r_APIID r) (f_APIIDs f) then True
      else if 0 < length (f_OrgsIDs f) \<and> \<not> stringInSlice (r_OrgID r) (f_OrgsIDs f) then True
      else if 0 < length (f_ResponseCodes f) \<and> \<not> intInSlice (r_ResponseCode r) (f_ResponseCodes f) then True
      else False)"

definition HasFilter :: "analytics_filters \<Rightarrow> bool" where
  "HasFilter f =
     (if length (f_SkippedAPIIDs f) = 0 \<and> length (f_SkippedOrgsIDs f) = 0 \<and> length (f_ResponseCodes f) = 0
         \<and> length (f_APIIDs f) = 0 \<and> length (f_OrgsIDs f) = 0 \<and> length (f_SkippedResponseCodes f) = 0
      then False else True)"

lemma stringInSlice_iff [simp]: "stringInSlice a bs \<longleftrightarrow> a \<in> set bs"
  by (induction bs) auto

lemma intInSlice_iff [simp]: "intInSlice a bs \<longleftrightarrow> a \<in> set bs"
  by (induction bs) auto

lemma no_filter_keeps_all: "\<not> HasFilter f \<Longrightarrow> \<not> ShouldFilter f r"
  by (simp add: HasFilter_def ShouldFilter_def split: if_splits)

lemma ShouldFilter_iff:
  "ShouldFilter f r \<longleftrightarrow>
     r_APIID r \<in> set (f_SkippedAPIIDs f) \<or> r_OrgID r \<in> set (f_SkippedOrgsIDs f) \<or>
     r_ResponseCode r \<in> set (f_SkippedResponseCodes f) \<or>
     f_APIIDs f \<noteq> [] \<and> r_APIID r \<notin> set (f_APIIDs f) \<or>
     f_OrgsIDs f \<noteq> [] \<and> r_OrgID r \<notin> set (f_OrgsIDs f) \<or>
     f_ResponseCodes f \<noteq> [] \<and> r_ResponseCode r \<notin> set (f_ResponseCodes f)"
  by (auto simp: ShouldFilter_def)

end
