(* ===== verification/GoIO.thy ===== *)
theory GoIO
  imports GoBase
begin

text \<open>
  Calls with a state. A Go method that reads and writes a receiver, package variables or a
  database is a function of type \<open>('s, 'a) io\<close>: it maps a state to a result and the state it
  leaves behind, also when the result is an error or a panic. \<open>io_bind\<close> is "call, and return
  on error", \<open>io_for\<close> a \<open>for range\<close> loop that returns at the first error, \<open>io_try\<close> a call
  whose error the caller inspects (a panic is not caught).
\<close>

named_theorems io_simps

type_synonym ('s, 'a) io = "'s \<Rightarrow> 'a res \<times> 's"

definition io_ret :: "'a \<Rightarrow> ('s, 'a) io" where
  "io_ret x s = (Inr x, s)"

definition io_fail :: "go_error \<Rightarrow> ('s, 'a) io" where
  "io_fail e s = (Inl e, s)"

definition io_bind :: "('s, 'a) io \<Rightarrow> ('a \<Rightarrow> ('s, 'b) io) \<Rightarrow> ('s, 'b) io" where
  "io_bind m f s = (case m s of (r, s') \<Rightarrow> (case r of Inl e \<Rightarrow> (Inl e, s') | Inr x \<Rightarrow> f x s'))"

definition io_upd :: "('s \<Rightarrow> 's) \<Rightarrow> ('s, unit) io" where
  "io_upd f s = (Inr (), f s)"

definition io_get :: "('s \<Rightarrow> 'a) \<Rightarrow> ('s, 'a) io" where
  "io_get f s = (Inr (f s), s)"

definition io_try :: "('s, 'a) io \<Rightarrow> ('s, string + 'a) io" where
  "io_try m s = (case m s of (r, s') \<Rightarrow>
     (case r of Inl (GoErr e) \<Rightarrow> (Inr (Inl e), s') | Inl (GoPanic p) \<Rightarrow> (Inl (GoPanic p), s')
      | Inr x \<Rightarrow> (Inr (Inr x), s')))"

fun io_for :: "'a list \<Rightarrow> ('a \<Rightarrow> ('s, unit) io) \<Rightarrow> ('s, unit) io" where
  "io_for [] f s = (Inr (), s)"
| "io_for (x # xs) f s = io_bind (f x) (\<lambda>_. io_for xs f) s"

lemma io_run [simp, io_simps]:
  "io_ret x s = (Inr x, s)" "io_fail e s = (Inl e, s)" "io_upd g s = (Inr (), g s)" "io_get h s = (Inr (h s), s)"
  by (simp_all add: io_ret_def io_fail_def io_upd_def io_get_def)

lemma io_bind_ok [io_simps]: "m s = (Inr x, s') \<Longrightarrow> io_bind m f s = f x s'"
  by (simp add: io_bind_def)

lemma io_bind_err [io_simps]: "m s = (Inl e, s') \<Longrightarrow> io_bind m f s = (Inl e, s')"
  by (simp add: io_bind_def)

lemma io_bind_run [simp, io_simps]:
  "io_bind (io_ret x) f s = f x s" "io_bind (io_upd g) k s = k () (g s)" "io_bind (io_get h) q s = q (h s) s"
  "io_bind (io_fail e) f s = (Inl e, s)"
  by (simp_all add: io_bind_def)

lemma io_bind_Inr:
  "io_bind m f s = (Inr y, t) \<longleftrightarrow> (\<exists>x s'. m s = (Inr x, s') \<and> f x s' = (Inr y, t))"
  by (auto simp: io_bind_def split: prod.splits sum.splits)

lemma io_bind_Inl:
  "io_bind m f s = (Inl e, t) \<longleftrightarrow> m s = (Inl e, t) \<or> (\<exists>x s'. m s = (Inr x, s') \<and> f x s' = (Inl e, t))"
  by (auto simp: io_bind_def split: prod.splits sum.splits)

lemma io_bind_cases:
  assumes "io_bind m f s = (r, t)"
  obtains e where "m s = (Inl e, t)" "r = Inl e" | x s' where "m s = (Inr x, s')" "f x s' = (r, t)"
  using assms by (auto simp: io_bind_def split: prod.splits sum.splits)

lemma io_try_run [io_simps]:
  "m s = (Inl (GoErr e), s') \<Longrightarrow> io_try m s = (Inr (Inl e), s')"
  "m s = (Inl (GoPanic p), s') \<Longrightarrow> io_try m s = (Inl (GoPanic p), s')"
  "m s = (Inr x, s') \<Longrightarrow> io_try m s = (Inr (Inr x), s')"
  by (simp_all add: io_try_def)

lemma io_bind_assoc: "io_bind (io_bind m f) g = io_bind m (\<lambda>x. io_bind (f x) g)"
  by (rule ext) (simp add: io_bind_def split: prod.splits sum.splits)

lemma io_bind_ret [simp]: "io_bind (io_ret x) f = f x" "io_bind m io_ret = m" "io_bind m' (\<lambda>_. io_ret ()) = m'"
  by (rule ext, simp add: io_bind_def split: prod.splits sum.splits)+

lemma io_for_eq: "io_for [] f = io_ret ()" "io_for (x # xs) f = io_bind (f x) (\<lambda>_. io_for xs f)"
  by (rule ext, simp)+

lemma io_for_append: "io_for (xs @ ys) f s = io_bind (io_for xs f) (\<lambda>_. io_for ys f) s"
proof (induction xs arbitrary: s)
  case Nil
  then show ?case by (simp add: io_bind_def)
next
  case (Cons x xs)
  then show ?case by (simp add: io_bind_def split: prod.splits sum.splits)
qed

text \<open>What every iteration keeps, the loop keeps, whether or not it fails.\<close>

lemma io_for_keeps:
  assumes "io_for xs f s = (r, t)" and "P s"
    and "\<And>x s r t. x \<in> set xs \<Longrightarrow> P s \<Longrightarrow> f x s = (r, t) \<Longrightarrow> P t"
  shows "P t"
  using assms
proof (induction xs arbitrary: s)
  case Nil
  then show ?case by simp
next
  case (Cons x xs)
  from Cons.prems(1) have "io_bind (f x) (\<lambda>_. io_for xs f) s = (r, t)" by simp
  then show ?case
  proof (cases rule: io_bind_cases)
    case (1 e)
    with Cons.prems(2,3) show ?thesis by (metis list.set_intros(1))
  next
    case (2 u s')
    with Cons.prems have "P s'" by (metis list.set_intros(1))
    with Cons.IH [of s'] 2 Cons.prems(3) show ?thesis by (metis list.set_intros(2))
  qed
qed

text \<open>A loop whose iterations cannot fail.\<close>

lemma io_for_ok:
  assumes "\<And>x s. x \<in> set xs \<Longrightarrow> f x s = (Inr (), g x s)"
  shows "io_for xs f s = (Inr (), fold g xs s)"
  using assms by (induction xs arbitrary: s) (simp_all add: io_bind_def)

text \<open>A loop that reaches its end went through every iteration without an error.\<close>

lemma io_for_Inr:
  "io_for (x # xs) f s = (Inr (), t) \<longleftrightarrow> (\<exists>s'. f x s = (Inr (), s') \<and> io_for xs f s' = (Inr (), t))"
  by (simp add: io_bind_Inr)

text \<open>A result of code without a state, and a call whose error is only logged.\<close>

definition io_res :: "'a res \<Rightarrow> ('s, 'a) io" where
  "io_res r s = (r, s)"

lemma io_res_simps [simp, io_simps]:
  "io_res (Inr x) = io_ret x" "io_res (Inl e) = io_fail e"
  by (rule ext, simp add: io_res_def)+

definition io_log :: "('s, unit) io \<Rightarrow> ('s, unit) io" where
  "io_log m = io_bind (io_try m) (\<lambda>_. io_ret ())"

lemma io_log_run [io_simps]:
  "m s = (Inr u, s') \<Longrightarrow> io_log m s = (Inr (), s')"
  "m s = (Inl (GoErr e), s') \<Longrightarrow> io_log m s = (Inr (), s')"
  "m s = (Inl (GoPanic p), s') \<Longrightarrow> io_log m s = (Inl (GoPanic p), s')"
  by (simp_all add: io_log_def io_bind_def io_try_def)

text \<open>A call that reads and writes one component of a larger state.\<close>

definition io_on :: "('s \<Rightarrow> 'w) \<Rightarrow> ('w \<Rightarrow> 's \<Rightarrow> 's) \<Rightarrow> ('w, 'a) io \<Rightarrow> ('s, 'a) io" where
  "io_on get put m s = (case m (get s) of (r, w) \<Rightarrow> (r, put w s))"

lemma io_on_run: "io_on get put m s = (r, t) \<longleftrightarrow> (\<exists>w. m (get s) = (r, w) \<and> t = put w s)"
  by (auto simp: io_on_def split: prod.splits)

text \<open>Calls that leave a part of the state alone, whether or not they fail.\<close>

named_theorems io_keeps_intros

definition io_keeps :: "('s \<Rightarrow> 'x) \<Rightarrow> ('s, 'a) io \<Rightarrow> bool" where
  "io_keeps f m \<longleftrightarrow> (\<forall>s. f (snd (m s)) = f s)"

lemma io_keepsD: "io_keeps f m \<Longrightarrow> m s = (r, t) \<Longrightarrow> f t = f s"
  by (metis io_keeps_def snd_conv)

lemma io_keeps_basic [io_keeps_intros]:
  "io_keeps f (io_ret x)" "io_keeps f (io_fail e)" "io_keeps f (io_get g)" "io_keeps f (io_res r)"
  by (simp_all add: io_keeps_def io_res_def)

lemma io_keeps_bind [io_keeps_intros]:
  assumes "io_keeps f m" and "\<And>x. io_keeps f (g x)"
  shows "io_keeps f (io_bind m g)"
  using assms by (simp add: io_keeps_def io_bind_def split: prod.splits sum.splits) (metis snd_conv)

lemma io_keeps_try [io_keeps_intros]: "io_keeps f m \<Longrightarrow> io_keeps f (io_try m)"
  by (simp add: io_keeps_def io_try_def split: prod.splits sum.splits go_error.splits) (metis snd_conv)

lemma io_keeps_log [io_keeps_intros]: "io_keeps f m \<Longrightarrow> io_keeps f (io_log m)"
  unfolding io_log_def by (intro io_keeps_intros)

lemma io_keeps_for [io_keeps_intros]: "(\<And>x. io_keeps f (g x)) \<Longrightarrow> io_keeps f (io_for xs g)"
  by (induction xs) (simp_all add: io_for_eq io_keeps_intros)

lemma io_keeps_on [io_keeps_intros]: "(\<And>w s. f (put w s) = f s) \<Longrightarrow> io_keeps f (io_on get put m)"
  by (simp add: io_keeps_def io_on_def split: prod.splits)

end
