(* ===== verification/Temporal_Storage.thy ===== *)
theory Temporal_Storage
  imports GoIO GoText
begin

text \<open>
  The temporal storage, \<open>src/storage/temporal_storage.go\<close> and \<open>src/storage/store.go\<close>, with the
  adapter for IAM authentication, \<open>src/storage/iam_auth.go\<close>: the life of the shared connection
  and \<open>GetAndDeleteSet\<close>, the call the purge loop drains the analytics lists with.

  The storage library, \<open>envconfig\<close> and \<open>backoff\<close> are outside: their calls are the fields of
  \<open>storage_lib\<close>. A call of the library works on a world \<open>'w\<close>, the contents of the store. The
  lemmas: where the key prefix comes from, when a connection is made, and which elements
  \<open>GetAndDeleteSet\<close> hands over, under the documented behaviour of \<open>Pop\<close> and \<open>Expire\<close>.
\<close>

section \<open>Configuration\<close>

definition KeyPrefix :: string where "KeyPrefix = ''analytics-''"
definition ANALYTICS_KEYNAME :: string where "ANALYTICS_KEYNAME = ''tyk-system-analytics''"
definition UptimeAnalytics_KEYNAME :: string where "UptimeAnalytics_KEYNAME = ''tyk-uptime-analytics''"

record iam_auth_config =
  iam_Provider :: string
  iam_ServiceAccount :: string
  iam_TokenRefreshBeforeExpiry :: string
  iam_Enabled :: bool

record temporal_config =
  tc_Type :: string
  tc_Host :: string
  tc_Port :: int
  tc_Hosts :: "(string, string) gomap"
  tc_Addrs :: "string list"
  tc_MasterName :: string
  tc_SentinelPassword :: string
  tc_Username :: string
  tc_Password :: string
  tc_Database :: int
  tc_Timeout :: int
  tc_MaxIdle :: int
  tc_MaxActive :: int
  tc_EnableCluster :: bool
  tc_RedisKeyPrefix :: string
  tc_KeyPrefix :: string
  tc_UseSSL :: bool
  tc_SSLInsecureSkipVerify :: bool
  tc_SSLCAFile :: string
  tc_SSLCertFile :: string
  tc_SSLKeyFile :: string
  tc_SSLMaxVersion :: string
  tc_SSLMinVersion :: string
  tc_RedisUseSSL :: bool
  tc_RedisSSLInsecureSkipVerify :: bool
  tc_IAMAuth :: iam_auth_config

definition temporal_config_zero :: temporal_config where
  "temporal_config_zero = \<lparr>tc_Type = [], tc_Host = [], tc_Port = 0, tc_Hosts = [], tc_Addrs = [],
     tc_MasterName = [], tc_SentinelPassword = [], tc_Username = [], tc_Password = [], tc_Database = 0,
     tc_Timeout = 0, tc_MaxIdle = 0, tc_MaxActive = 0, tc_EnableCluster = False, tc_RedisKeyPrefix = [],
     tc_KeyPrefix = [], tc_UseSSL = False, tc_SSLInsecureSkipVerify = False, tc_SSLCAFile = [],
     tc_SSLCertFile = [], tc_SSLKeyFile = [], tc_SSLMaxVersion = [], tc_SSLMinVersion = [],
     tc_RedisUseSSL = False, tc_RedisSSLInsecureSkipVerify = False,
     tc_IAMAuth = \<lparr>iam_Provider = [], iam_ServiceAccount = [], iam_TokenRefreshBeforeExpiry = [], iam_Enabled = False\<rparr>\<rparr>"

text \<open>\<open>EnvMapString.Decode\<close>: a map written as \<open>k:v,k:v\<close>; what has no colon is skipped.\<close>

definition EnvMapString_Decode :: "string \<Rightarrow> (string, string) gomap" where
  "EnvMapString_Decode s =
     fold (\<lambda>unit m. case split_char (CHR '':'') unit of k # v # _ \<Rightarrow> gomap_set m k v | _ \<Rightarrow> m)
       (split_char (CHR '','') s) []"

record redis_options =
  ro_MasterName :: string
  ro_SentinelPassword :: string
  ro_Addrs :: "string list"
  ro_Database :: int
  ro_Username :: string
  ro_Password :: string
  ro_MaxActive :: int
  ro_Timeout :: int
  ro_EnableCluster :: bool
  ro_Host :: string
  ro_Port :: int
  ro_Hosts :: "(string, string) gomap"

record tls_options =
  tls_Enable :: bool
  tls_InsecureSkipVerify :: bool
  tls_CAFile :: string
  tls_CertFile :: string
  tls_KeyFile :: string
  tls_MaxVersion :: string
  tls_MinVersion :: string

definition redis_options_of :: "temporal_config \<Rightarrow> redis_options" where
  "redis_options_of c =
     (let maxActive = (if tc_MaxActive c > 0 then tc_MaxActive c else 500);
          timeout = (if tc_Timeout c > 0 then tc_Timeout c else 5)
      in \<lparr>ro_MasterName = tc_MasterName c, ro_SentinelPassword = tc_SentinelPassword c, ro_Addrs = tc_Addrs c,
          ro_Database = tc_Database c, ro_Username = tc_Username c, ro_Password = tc_Password c,
          ro_MaxActive = maxActive, ro_Timeout = timeout, ro_EnableCluster = tc_EnableCluster c,
          ro_Host = tc_Host c, ro_Port = tc_Port c, ro_Hosts = tc_Hosts c\<rparr>)"

definition tls_options_of :: "temporal_config \<Rightarrow> tls_options" where
  "tls_options_of c =
     \<lparr>tls_Enable = (tc_UseSSL c \<or> tc_RedisUseSSL c),
      tls_InsecureSkipVerify = (tc_SSLInsecureSkipVerify c \<or> tc_RedisSSLInsecureSkipVerify c),
      tls_CAFile = tc_SSLCAFile c, tls_CertFile = tc_SSLCertFile c, tls_KeyFile = tc_SSLKeyFile c,
      tls_MaxVersion = tc_SSLMaxVersion c, tls_MinVersion = tc_SSLMinVersion c\<rparr>"

section \<open>The library, the handler and the connection\<close>

text \<open>\<open>'p\<close>: a credentials provider, \<open>'c\<close> a connector, \<open>'k\<close> a key-value client, \<open>'l\<close> a list client.\<close>

record iam_request =
  ir_Provider :: string
  ir_ServiceAccount :: string
  ir_RefreshBeforeExpiry :: string

record ('p, 'c, 'k, 'l, 'w) storage_lib =
  l_Process :: "string \<Rightarrow> temporal_config \<Rightarrow> temporal_config \<times> go_error option"
  l_NewProvider :: "iam_request \<Rightarrow> ('w, 'p) io"
  l_NewConnector :: "redis_options \<Rightarrow> tls_options \<Rightarrow> 'p option \<Rightarrow> ('w, 'c) io"
  l_NewKeyValue :: "'c \<Rightarrow> ('w, 'k) io"
  l_NewList :: "'c \<Rightarrow> ('w, 'l) io"
  l_Disconnect :: "'c \<Rightarrow> ('w, unit) io"
  l_Pop :: "'l \<Rightarrow> string \<Rightarrow> int \<Rightarrow> ('w, string list) io"
  l_Expire :: "'k \<Rightarrow> string \<Rightarrow> int \<Rightarrow> ('w, unit) io"
  l_Set :: "'k \<Rightarrow> string \<Rightarrow> string \<Rightarrow> int \<Rightarrow> ('w, unit) io"

text \<open>The package variable \<open>connectorSingleton\<close> together with one handler.\<close>

record ('c, 'k, 'l, 'w) storage =
  st_connector :: "'c option"
  st_Config :: "temporal_config option"
  st_kv :: "'k option"
  st_list :: "'l option"
  st_forceReconnect :: bool
  st_world :: 'w

abbreviation in_world :: "('w, 'a) io \<Rightarrow> (('c, 'k, 'l, 'w) storage, 'a) io" where
  "in_world \<equiv> io_on st_world (\<lambda>w s. s\<lparr>st_world := w\<rparr>)"

definition nil_pointer :: go_error where
  "nil_pointer = GoPanic ''invalid memory address or nil pointer dereference''"

definition the_config :: "(('c, 'k, 'l, 'w) storage, temporal_config) io" where
  "the_config s = (case st_Config s of None \<Rightarrow> (Inl nil_pointer, s) | Some c \<Rightarrow> (Inr c, s))"

text \<open>The argument of \<open>NewTemporalStorageHandler\<close>; \<open>mapstructure.Decode\<close> is a parameter.\<close>

datatype 'm config_arg = ConfigMap 'm | ConfigPtr "temporal_config option" | ConfigVal temporal_config | ConfigOther

definition NewTemporalStorageHandler ::
  "('m \<Rightarrow> temporal_config res) \<Rightarrow> 'm config_arg \<Rightarrow> bool \<Rightarrow> 'c option \<Rightarrow> 'w \<Rightarrow> ('c, 'k, 'l, 'w) storage res" where
  "NewTemporalStorageHandler mapstructure config force conn w =
     (let r = \<lparr>st_connector = conn, st_Config = None, st_kv = None, st_list = None,
               st_forceReconnect = force, st_world = w\<rparr>
      in case config of
           ConfigMap m \<Rightarrow> rbind (mapstructure m) (\<lambda>c. Inr (r\<lparr>st_Config := Some c\<rparr>))
         | ConfigPtr p \<Rightarrow> Inr (r\<lparr>st_Config := p\<rparr>)
         | ConfigVal c \<Rightarrow> Inr (r\<lparr>st_Config := Some c\<rparr>)
         | ConfigOther \<Rightarrow> Inl (GoErr ''unsupported config type''))"

definition buildIAMAuthOption ::
  "('p, 'c, 'k, 'l, 'w) storage_lib \<Rightarrow> iam_auth_config \<Rightarrow> ('w, 'p option) io" where
  "buildIAMAuthOption lib cfg =
     (if \<not> iam_Enabled cfg then io_ret None
      else io_bind (l_NewProvider lib
             \<lparr>ir_Provider = to_lower (trim_space (iam_Provider cfg)), ir_ServiceAccount = iam_ServiceAccount cfg,
              ir_RefreshBeforeExpiry = iam_TokenRefreshBeforeExpiry cfg\<rparr>)
           (\<lambda>p. io_ret (Some p)))"

definition createConnector ::
  "('p, 'c, 'k, 'l, 'w) storage_lib \<Rightarrow> temporal_config \<Rightarrow> redis_options \<Rightarrow> tls_options \<Rightarrow> ('w, 'c \<times> 'k \<times> 'l) io" where
  "createConnector lib config opts tlsOptions =
     io_bind (if iam_Enabled (tc_IAMAuth config) then buildIAMAuthOption lib (tc_IAMAuth config) else io_ret None) (\<lambda>iamOpt.
     io_bind (l_NewConnector lib opts tlsOptions iamOpt) (\<lambda>conn.
     io_bind (l_NewKeyValue lib conn) (\<lambda>kv.
     io_bind (l_NewList lib conn) (\<lambda>l. io_ret (conn, kv, l)))))"

definition resetConnection ::
  "('p, 'c, 'k, 'l, 'w) storage_lib \<Rightarrow> temporal_config \<Rightarrow> (('c, 'k, 'l, 'w) storage, unit) io" where
  "resetConnection lib config =
     io_bind (io_get st_connector) (\<lambda>con.
     io_bind (case con of None \<Rightarrow> io_ret () | Some c \<Rightarrow> in_world (l_Disconnect lib c)) (\<lambda>_.
     io_bind (in_world (createConnector lib config (redis_options_of config) (tls_options_of config))) (\<lambda>(conn, kv, l).
     io_upd (\<lambda>s. s\<lparr>st_connector := Some conn, st_kv := Some kv, st_list := Some l\<rparr>))))"

text \<open>
  \<open>r.kv, err = getKVFromConnector()\<close>: the helper returns nil with an error, so a failure clears
  the field before it is reported.
\<close>

definition getKVFromConnector :: "('p, 'c, 'k, 'l, 'w) storage_lib \<Rightarrow> 'c \<Rightarrow> (('c, 'k, 'l, 'w) storage, unit) io" where
  "getKVFromConnector lib c s =
     (case in_world (l_NewKeyValue lib c) s of
        (Inl e, s) \<Rightarrow> (Inl e, s\<lparr>st_kv := None\<rparr>) | (Inr kv, s) \<Rightarrow> (Inr (), s\<lparr>st_kv := Some kv\<rparr>))"

definition getListFromConnector :: "('p, 'c, 'k, 'l, 'w) storage_lib \<Rightarrow> 'c \<Rightarrow> (('c, 'k, 'l, 'w) storage, unit) io" where
  "getListFromConnector lib c s =
     (case in_world (l_NewList lib c) s of
        (Inl e, s) \<Rightarrow> (Inl e, s\<lparr>st_list := None\<rparr>) | (Inr l, s) \<Rightarrow> (Inr (), s\<lparr>st_list := Some l\<rparr>))"

definition connect :: "('p, 'c, 'k, 'l, 'w) storage_lib \<Rightarrow> (('c, 'k, 'l, 'w) storage, unit) io" where
  "connect lib s =
     (case st_connector s of
        Some c \<Rightarrow>
          if \<not> st_forceReconnect s then
            (if st_kv s = None \<or> st_list s = None
             then io_bind (getKVFromConnector lib c) (\<lambda>_. getListFromConnector lib c) s
             else (Inr (), s))
          else
            io_bind the_config (\<lambda>config.
              if tc_Type config \<noteq> ''redis'' \<and> tc_Type config \<noteq> [] then io_fail (GoErr ''unsupported database type'')
              else resetConnection lib config) s
      | None \<Rightarrow>
          io_bind the_config (\<lambda>config.
            if tc_Type config \<noteq> ''redis'' \<and> tc_Type config \<noteq> [] then io_fail (GoErr ''unsupported database type'')
            else resetConnection lib config) s)"

definition process_env ::
  "('p, 'c, 'k, 'l, 'w) storage_lib \<Rightarrow> string \<Rightarrow> (('c, 'k, 'l, 'w) storage, unit) io" where
  "process_env lib prefix =
     io_bind the_config (\<lambda>config s.
       case l_Process lib prefix config of
         (config', None) \<Rightarrow> (Inr (), s\<lparr>st_Config := Some config'\<rparr>)
       | (config', Some e) \<Rightarrow> (Inl e, s\<lparr>st_Config := Some config'\<rparr>))"

definition default_prefix :: "temporal_config \<Rightarrow> temporal_config" where
  "default_prefix c =
     (if tc_KeyPrefix c \<noteq> [] then c
      else if tc_RedisKeyPrefix c \<noteq> [] then c\<lparr>tc_KeyPrefix := tc_RedisKeyPrefix c\<rparr>
      else c\<lparr>tc_KeyPrefix := KeyPrefix\<rparr>)"

definition storage_Init :: "('p, 'c, 'k, 'l, 'w) storage_lib \<Rightarrow> (('c, 'k, 'l, 'w) storage, unit) io" where
  "storage_Init lib =
     io_bind (io_upd (\<lambda>s. if st_Config s = None then s\<lparr>st_Config := Some temporal_config_zero\<rparr> else s)) (\<lambda>_.
     io_bind (process_env lib ''TYK_PMP_REDIS'') (\<lambda>_.
     io_bind (process_env lib ''TYK_PMP_TEMPORAL_STORAGE'') (\<lambda>_.
     io_bind (io_upd (\<lambda>s. s\<lparr>st_Config := map_option default_prefix (st_Config s)\<rparr>)) (\<lambda>_.
     connect lib))))"

definition storage_GetName :: "(('c, 'k, 'l, 'w) storage, string) io" where
  "storage_GetName = io_bind the_config (\<lambda>c. io_ret (if tc_Type c \<noteq> [] then tc_Type c else ''redis''))"

definition fixKey :: "string \<Rightarrow> (('c, 'k, 'l, 'w) storage, string) io" where
  "fixKey keyName = io_bind the_config (\<lambda>c. io_ret (tc_KeyPrefix c @ keyName))"

section \<open>Draining and setting keys\<close>

text \<open>
  \<open>retry\<close> is \<open>backoff.Retry\<close> with the strategy of \<open>src/retry/storage-retry.go\<close>, which has no
  time limit: it calls the operation until it returns no error.
\<close>

definition reconnect_attempt :: "('p, 'c, 'k, 'l, 'w) storage_lib \<Rightarrow> (('c, 'k, 'l, 'w) storage, unit) io" where
  "reconnect_attempt lib =
     io_bind (connect lib) (\<lambda>_ s.
       if st_connector s = None then (Inl (GoErr ''connection failed''), s) else (Inr (), s))"

definition ensureConnection ::
  "('p, 'c, 'k, 'l, 'w) storage_lib \<Rightarrow> ((('c, 'k, 'l, 'w) storage, unit) io \<Rightarrow> (('c, 'k, 'l, 'w) storage, unit) io) \<Rightarrow>
   (('c, 'k, 'l, 'w) storage, unit) io" where
  "ensureConnection lib retry s =
     (if st_connector s \<noteq> None then (Inr (), s)
      else (case retry (reconnect_attempt lib) s of
              (Inl (GoErr e), s) \<Rightarrow> (Inl (GoErr (''failed to reconnect after several attempts: '' @ e)), s)
            | (r, s) \<Rightarrow> (r, s)))"

definition the_list :: "(('c, 'k, 'l, 'w) storage, 'l) io" where
  "the_list s = (case st_list s of None \<Rightarrow> (Inl nil_pointer, s) | Some l \<Rightarrow> (Inr l, s))"

definition the_kv :: "(('c, 'k, 'l, 'w) storage, 'k) io" where
  "the_kv s = (case st_kv s of None \<Rightarrow> (Inl nil_pointer, s) | Some k \<Rightarrow> (Inr k, s))"

definition GetAndDeleteSet ::
  "('p, 'c, 'k, 'l, 'w) storage_lib \<Rightarrow> ((('c, 'k, 'l, 'w) storage, unit) io \<Rightarrow> (('c, 'k, 'l, 'w) storage, unit) io) \<Rightarrow>
   string \<Rightarrow> int \<Rightarrow> int \<Rightarrow> (('c, 'k, 'l, 'w) storage, string list) io" where
  "GetAndDeleteSet lib retry keyName chunk expire =
     (let chunkSize = (if chunk = 0 then -1 else chunk)
      in io_bind (ensureConnection lib retry) (\<lambda>_.
         io_bind (fixKey keyName) (\<lambda>fixedKey.
         io_bind the_list (\<lambda>l.
         io_bind (in_world (l_Pop lib l fixedKey chunkSize)) (\<lambda>values.
         io_bind (if chunkSize \<noteq> -1 then io_bind the_kv (\<lambda>k. in_world (l_Expire lib k fixedKey expire)) else io_ret ()) (\<lambda>_.
         io_ret values))))))"

definition SetKey ::
  "('p, 'c, 'k, 'l, 'w) storage_lib \<Rightarrow> ((('c, 'k, 'l, 'w) storage, unit) io \<Rightarrow> (('c, 'k, 'l, 'w) storage, unit) io) \<Rightarrow>
   string \<Rightarrow> string \<Rightarrow> int \<Rightarrow> (('c, 'k, 'l, 'w) storage, unit) io" where
  "SetKey lib retry keyName session timeout =
     io_bind (fixKey keyName) (\<lambda>_.
     io_bind (ensureConnection lib retry) (\<lambda>_.
     io_bind (fixKey keyName) (\<lambda>key.
     io_bind the_kv (\<lambda>k. in_world (l_Set lib k key session (timeout * 1000000000))))))"

section \<open>The connection\<close>

text \<open>A handler that can serve calls: configured, connected, with both clients.\<close>

definition storage_ready :: "('c, 'k, 'l, 'w) storage \<Rightarrow> bool" where
  "storage_ready s \<longleftrightarrow> st_connector s \<noteq> None \<and> st_Config s \<noteq> None \<and> st_kv s \<noteq> None \<and> st_list s \<noteq> None"

lemma resetConnection_ready:
  assumes "resetConnection lib c s = (Inr (), t)"
  shows "st_connector t \<noteq> None \<and> st_kv t \<noteq> None \<and> st_list t \<noteq> None"
  using assms by (auto simp: resetConnection_def io_bind_Inr split: prod.splits)

lemma resetConnection_Config:
  assumes "resetConnection lib c s = (r, t)"
  shows "st_Config t = st_Config s"
  using assms unfolding resetConnection_def
  by (auto simp: io_bind_def io_on_def split: prod.splits sum.splits option.splits)

lemma connect_ready:
  assumes "connect lib s = (Inr (), t)" and "st_Config s \<noteq> None"
  shows "storage_ready t"
proof -
  have reset: "storage_ready t" if "resetConnection lib c s = (Inr (), t)" for c
    using resetConnection_ready [OF that] resetConnection_Config [OF that] assms(2)
    by (simp add: storage_ready_def)
  show ?thesis
  proof (cases "st_connector s = None \<or> st_forceReconnect s")
    case True
    with assms have "\<exists>c. resetConnection lib c s = (Inr (), t)"
      by (auto simp: connect_def the_config_def io_bind_Inr split: option.splits if_splits)
    with reset show ?thesis by blast
  next
    case False
    with assms show ?thesis
      by (auto simp: connect_def storage_ready_def io_bind_Inr getKVFromConnector_def getListFromConnector_def
          io_on_def split: option.splits if_splits prod.splits sum.splits)
  qed
qed

lemma connect_Config:
  assumes "connect lib s = (r, t)"
  shows "st_Config t = st_Config s"
  using assms
  by (auto simp: connect_def io_bind_def the_config_def getKVFromConnector_def getListFromConnector_def io_on_def
      resetConnection_Config split: option.splits if_splits prod.splits sum.splits)

lemma connect_once: "storage_ready s \<Longrightarrow> \<not> st_forceReconnect s \<Longrightarrow> connect lib s = (Inr (), s)"
  by (auto simp: connect_def storage_ready_def)

lemma process_env_Inr:
  "process_env lib prefix s = (Inr (), t) \<longleftrightarrow>
     (\<exists>c c'. st_Config s = Some c \<and> l_Process lib prefix c = (c', None) \<and> t = s\<lparr>st_Config := Some c'\<rparr>)"
  by (auto simp: process_env_def the_config_def io_bind_Inr split: option.splits prod.splits)

text \<open>
  A handler whose \<open>Init\<close> succeeds is connected and holds both clients, so later calls find
  no nil pointer; and its key prefix is the first one set among the key prefix, the deprecated
  Redis key prefix, both after the environment has been applied, and the default.
\<close>

theorem storage_Init_ready:
  assumes "storage_Init lib s = (Inr (), t)"
  shows "storage_ready t \<and>
    (\<exists>c c1 c2. (case st_Config s of None \<Rightarrow> temporal_config_zero | Some c \<Rightarrow> c) = c \<and>
      l_Process lib ''TYK_PMP_REDIS'' c = (c1, None) \<and> l_Process lib ''TYK_PMP_TEMPORAL_STORAGE'' c1 = (c2, None) \<and>
      st_Config t = Some (default_prefix c2) \<and>
      tc_KeyPrefix (default_prefix c2) = hd (filter (\<lambda>p. p \<noteq> []) [tc_KeyPrefix c2, tc_RedisKeyPrefix c2, ''analytics-'']))"
proof -
  let ?c = "case st_Config s of None \<Rightarrow> temporal_config_zero | Some c \<Rightarrow> c"
  let ?s = "s\<lparr>st_Config := Some ?c\<rparr>"
  have "(if st_Config s = None then s\<lparr>st_Config := Some temporal_config_zero\<rparr> else s) = ?s" by auto
  with assms obtain c1 c2 where c: "l_Process lib ''TYK_PMP_REDIS'' ?c = (c1, None)"
      "l_Process lib ''TYK_PMP_TEMPORAL_STORAGE'' c1 = (c2, None)"
    and con: "connect lib (s\<lparr>st_Config := Some (default_prefix c2)\<rparr>) = (Inr (), t)"
    by (auto simp: storage_Init_def io_bind_Inr process_env_Inr)
  have "storage_ready t" by (rule connect_ready [OF con]) simp
  moreover have "st_Config t = Some (default_prefix c2)" using connect_Config [OF con] by simp
  ultimately show ?thesis using c by (auto simp: default_prefix_def KeyPrefix_def)
qed

section \<open>What a drain hands over\<close>

text \<open>
  The documented behaviour of the lists: \<open>Pop\<close> removes the elements it returns from the head of
  the list, at most as many as asked for, all of them for \<open>-1\<close>; other lists stay as they are,
  and a list whose \<open>Pop\<close> fails is untouched. \<open>Expire\<close> sets the time to live and no element.
\<close>

definition pop_law :: "('p, 'c, 'k, 'l, 'w) storage_lib \<Rightarrow> ('w \<Rightarrow> string \<Rightarrow> string list) \<Rightarrow> bool" where
  "pop_law lib elems \<longleftrightarrow>
     (\<forall>l key n w r w'. l_Pop lib l key n w = (r, w') \<longrightarrow>
        (\<forall>k. k \<noteq> key \<longrightarrow> elems w' k = elems w k) \<and>
        (case r of Inl _ \<Rightarrow> elems w' key = elems w key
         | Inr vs \<Rightarrow> vs @ elems w' key = elems w key \<and> (n = -1 \<longrightarrow> elems w' key = []) \<and>
                    (0 \<le> n \<longrightarrow> int (length vs) \<le> n)))"

definition expire_law :: "('p, 'c, 'k, 'l, 'w) storage_lib \<Rightarrow> ('w \<Rightarrow> string \<Rightarrow> string list) \<Rightarrow> bool" where
  "expire_law lib elems \<longleftrightarrow> (\<forall>k key n w r w'. l_Expire lib k key n w = (r, w') \<longrightarrow> elems w' = elems w)"

abbreviation elems_of :: "('w \<Rightarrow> string \<Rightarrow> string list) \<Rightarrow> ('c, 'k, 'l, 'w) storage \<Rightarrow> string \<Rightarrow> string list" where
  "elems_of elems s \<equiv> elems (st_world s)"

definition full_key :: "('c, 'k, 'l, 'w) storage \<Rightarrow> string \<Rightarrow> string" where
  "full_key s key = (case st_Config s of None \<Rightarrow> key | Some c \<Rightarrow> tc_KeyPrefix c @ key)"

lemma storage_readyE:
  assumes "storage_ready s"
  obtains c cfg k l where "st_connector s = Some c" "st_Config s = Some cfg" "st_kv s = Some k" "st_list s = Some l"
  using assms by (auto simp: storage_ready_def)

text \<open>A call on a ready handler: \<open>Pop\<close>, and \<open>Expire\<close> after it if a chunk size is set.\<close>

lemma GetAndDeleteSet_run:
  assumes "storage_ready s" and "st_list s = Some l" and "st_kv s = Some k"
    and "l_Pop lib l (full_key s key) (if chunk = 0 then -1 else chunk) (st_world s) = (r, w)"
  shows "GetAndDeleteSet lib retry key chunk expire s =
    (case r of Inl e \<Rightarrow> (Inl e, s\<lparr>st_world := w\<rparr>)
     | Inr vs \<Rightarrow> if chunk = 0 \<or> chunk = -1 then (Inr vs, s\<lparr>st_world := w\<rparr>)
       else (case l_Expire lib k (full_key s key) expire w of
               (Inl e, w') \<Rightarrow> (Inl e, s\<lparr>st_world := w'\<rparr>) | (Inr _, w') \<Rightarrow> (Inr vs, s\<lparr>st_world := w'\<rparr>)))"
proof -
  obtain c cfg where s: "st_connector s = Some c" "st_Config s = Some cfg"
    using assms(1) by (rule storage_readyE)
  note defs = GetAndDeleteSet_def io_bind_def ensureConnection_def fixKey_def the_config_def the_list_def the_kv_def
    io_on_def full_key_def
  show ?thesis
  proof (cases "chunk = 0")
    case True
    with assms(2-) s show ?thesis by (auto simp: defs split: sum.splits)
  next
    case False
    with assms(2-) s show ?thesis by (auto simp: defs split: sum.splits prod.splits)
  qed
qed


text \<open>
  The values of a chunk are lost when setting the time to live fails: the elements have left
  the list, and the caller gets the error instead of them.
\<close>

theorem GetAndDeleteSet_expire_error:
  assumes "pop_law lib elems" and "expire_law lib elems" and "storage_ready s"
    and "chunk \<noteq> 0" "chunk \<noteq> -1" "st_list s = Some l" "st_kv s = Some k"
    and "l_Pop lib l (full_key s key) chunk (st_world s) = (Inr vs, w)"
    and "l_Expire lib k (full_key s key) expire w = (Inl e, w')"
  shows "fst (GetAndDeleteSet lib retry key chunk expire s) = Inl e \<and>
    vs @ elems_of elems (snd (GetAndDeleteSet lib retry key chunk expire s)) (full_key s key) =
      elems_of elems s (full_key s key)"
proof -
  from assms(1,8) have "vs @ elems w (full_key s key) = elems_of elems s (full_key s key)"
    unfolding pop_law_def by fastforce
  moreover have "elems w' = elems w" using assms(2,9) by (simp add: expire_law_def)
  ultimately show ?thesis
    using GetAndDeleteSet_run [OF assms(3,6,7), of lib key chunk "Inr vs" w retry expire] assms(4,5,8,9) by simp
qed

text \<open>A library that keeps its lists in a function, to apply the theorems to.\<close>

definition sample_pop :: "unit \<Rightarrow> string \<Rightarrow> int \<Rightarrow> (string \<Rightarrow> string list, string list) io" where
  "sample_pop l key n w =
     (if n < 0 then (Inr (w key), w(key := []))
      else (Inr (take (nat n) (w key)), w(key := drop (nat n) (w key))))"

definition sample_lib :: "bool \<Rightarrow> (unit, unit, unit, unit, string \<Rightarrow> string list) storage_lib" where
  "sample_lib fail_expire = \<lparr>l_Process = \<lambda>_ c. (c, None), l_NewProvider = \<lambda>_. io_ret (),
     l_NewConnector = \<lambda>_ _ _. io_ret (), l_NewKeyValue = \<lambda>_. io_ret (), l_NewList = \<lambda>_. io_ret (),
     l_Disconnect = \<lambda>_. io_ret (), l_Pop = sample_pop,
     l_Expire = \<lambda>_ _ _. if fail_expire then io_fail (GoErr ''expire'') else io_ret (),
     l_Set = \<lambda>_ _ _ _. io_ret ()\<rparr>"

definition sample_store :: "(string \<Rightarrow> string list) \<Rightarrow> (unit, unit, unit, string \<Rightarrow> string list) storage" where
  "sample_store w = \<lparr>st_connector = Some (), st_Config = Some (temporal_config_zero\<lparr>tc_KeyPrefix := ''p-''\<rparr>),
     st_kv = Some (), st_list = Some (), st_forceReconnect = False, st_world = w\<rparr>"

lemma sample_laws: "pop_law (sample_lib b) (\<lambda>w. w)" "expire_law (sample_lib b) (\<lambda>w. w)"
  by (auto simp: pop_law_def expire_law_def sample_lib_def sample_pop_def split: if_splits)

lemma sample_store_simps [simp]:
  "storage_ready (sample_store w)" "full_key (sample_store w) key = ''p-'' @ key" "st_world (sample_store w) = w"
  "st_list (sample_store w) = Some ()" "st_kv (sample_store w) = Some ()"
  by (simp_all add: sample_store_def storage_ready_def full_key_def)

lemma sample_lib_simps [simp]: "l_Pop (sample_lib b) = sample_pop"
  "l_Expire (sample_lib b) k key n = (if b then io_fail (GoErr ''expire'') else io_ret ())"
  by (simp_all add: sample_lib_def)

theorem storage_Init_ready_witness:
  "\<exists>t. storage_Init (sample_lib False) ((sample_store (\<lambda>_. []))\<lparr>st_Config := None, st_connector := None\<rparr>) = (Inr (), t) \<and>
     storage_ready t \<and> (\<exists>c. st_Config t = Some c \<and> tc_KeyPrefix c = ''analytics-'')"
proof -
  let ?s = "(sample_store (\<lambda>_. []))\<lparr>st_Config := None, st_connector := None\<rparr>"
  obtain t where t: "storage_Init (sample_lib False) ?s = (Inr (), t)"
    by (simp add: storage_Init_def process_env_def the_config_def sample_lib_def sample_store_def connect_def
        temporal_config_zero_def default_prefix_def resetConnection_def createConnector_def io_on_def io_bind_def)
  from storage_Init_ready [OF t] t show ?thesis
    by (auto simp: sample_lib_def temporal_config_zero_def)
qed


theorem GetAndDeleteSet_expire_error_witness:
  "\<exists>e. fst (GetAndDeleteSet (sample_lib True) id ''k'' 2 60 (sample_store (\<lambda>_. [''a'', ''b'', ''c'']))) = Inl e"
  using GetAndDeleteSet_expire_error [OF sample_laws [of True] sample_store_simps(1) [of "\<lambda>_. [''a'', ''b'', ''c'']"],
      of 2 "()" "()" "''k''" "[''a'', ''b'']" _ 60 "GoErr ''expire''" _ id]
  by (auto simp: sample_pop_def)

end
