(* ===== verification/Startup.thy ===== *)
theory Startup
  imports Main_Loop Temporal_Storage
begin

text \<open>
  What happens before the purge loop starts: the configuration of the pumps from the file and from
  the environment (\<open>src/config.go\<close>), references to key-value stores (\<open>src/kv.go\<close> and
  \<open>src/pumps/pump.go\<close>), the registry of pump types (\<open>src/pumps/init.go\<close>) and the steps of
  \<open>main\<close> (\<open>src/main.go\<close>). The JSON codec, \<open>envconfig\<close>, the key-value stores, the storage and the
  pumps are parameters. The lemmas: which pumps run and with which settings, that a reference never
  reaches a pump unresolved, that stores are closed again, and the key prefixes of the two storages.
\<close>

section \<open>The environment\<close>

text \<open>\<open>os.Environ\<close> is a list of \<open>key=value\<close>; the first entry of a key counts.\<close>

type_synonym environ = "string list"

fun lookup_env :: "environ \<Rightarrow> string \<Rightarrow> string option" where
  "lookup_env [] k = None"
| "lookup_env (e # es) k = (case split_once ''='' e of
     Some (n, v) \<Rightarrow> if n = k then Some v else lookup_env es k | None \<Rightarrow> lookup_env es k)"

definition getenv :: "environ \<Rightarrow> string \<Rightarrow> string" where
  "getenv env k = (case lookup_env env k of Some v \<Rightarrow> v | None \<Rightarrow> [])"

definition trim_prefix :: "string \<Rightarrow> string \<Rightarrow> string" where
  "trim_prefix s p = (if has_prefix s p then drop (length p) s else s)"

section \<open>The registry of pumps\<close>

definition AvailablePumps :: "string list" where
  "AvailablePumps = [''dummy'', ''mongo'', ''mongo-pump-selective'', ''mongo-pump-aggregate'', ''csv'', ''elasticsearch'', ''influx'',
     ''influx2'', ''moesif'', ''statsd'', ''segment'', ''graylog'', ''splunk'', ''hybrid'', ''prometheus'', ''logzio'', ''dogstatsd'',
     ''kafka'', ''syslog'', ''sql'', ''sql_aggregate'', ''stdout'', ''timestream'', ''mongo-graph'', ''sql-graph'',
     ''sql-graph-aggregate'', ''mongo-mcp'', ''mongo-mcp-aggregate'', ''sql-mcp'', ''sql-mcp-aggregate'', ''resurfaceio'', ''sqs'',
     ''kinesis'']"

definition GetPumpByName :: "string \<Rightarrow> string res" where
  "GetPumpByName name =
     (if to_lower name \<in> set AvailablePumps then Inr (to_lower name) else Inl (GoErr (name @ '' Not found'')))"

section \<open>References to key-value stores\<close>

text \<open>
  \<open>'cfg\<close> is a configuration, \<open>'r\<close> an opened registry of stores with its resolver. \<open>kl_contains\<close> is
  the library's test for references in a text.
\<close>

record ('cfg, 'r, 'w) kv_lib =
  kl_marshal :: "'cfg \<Rightarrow> string res"
  kl_contains :: "string \<Rightarrow> bool"
  kl_registry :: "string \<Rightarrow> ('w, 'r) io"
  kl_resolve :: "'r \<Rightarrow> string \<Rightarrow> ('w, string) io"
  kl_unmarshal :: "string \<Rightarrow> 'cfg \<Rightarrow> 'cfg res"
  kl_close :: "'r \<Rightarrow> ('w, unit) io"

definition err_prefix :: "string \<Rightarrow> ('s, 'a) io \<Rightarrow> ('s, 'a) io" where
  "err_prefix p m s = (case m s of (r, t) \<Rightarrow> (case r of Inl (GoErr e) \<Rightarrow> (Inl (GoErr (p @ e)), t) | _ \<Rightarrow> (r, t)))"

text \<open>\<open>Close\<close> of no stores does nothing, and an error of closing is only logged.\<close>

definition kv_Close :: "('cfg, 'r, 'w) kv_lib \<Rightarrow> 'r option \<Rightarrow> ('w, unit) io" where
  "kv_Close kv stores = (case stores of None \<Rightarrow> io_ret () | Some r \<Rightarrow> io_log (kl_close kv r))"

definition kv_fail :: "('cfg, 'r, 'w) kv_lib \<Rightarrow> 'r \<Rightarrow> string \<Rightarrow> ('w, 'a) io" where
  "kv_fail kv r e = io_bind (kv_Close kv (Some r)) (\<lambda>_. io_fail (GoErr e))"

definition config_resolveKVReferences :: "('cfg, 'r, 'w) kv_lib \<Rightarrow> bool \<Rightarrow> 'cfg \<Rightarrow> ('w, 'cfg \<times> 'r option) io" where
  "config_resolveKVReferences kv has_stores config =
     io_bind (err_prefix ''encode config: '' (io_res (kl_marshal kv config))) (\<lambda>marshaled.
     if \<not> has_stores
     then (if kl_contains kv marshaled then io_fail (GoErr ''config contains KV references but no stores are configured'')
           else io_ret (config, None))
     else io_bind (err_prefix ''initialize KV registry: '' (kl_registry kv marshaled)) (\<lambda>reg.
          io_bind (io_try (kl_resolve kv reg marshaled)) (\<lambda>resolved. case resolved of
            Inl e \<Rightarrow> kv_fail kv reg (''resolve KV references in config: '' @ e)
          | Inr s \<Rightarrow> io_bind (io_try (io_res (kl_unmarshal kv s config))) (\<lambda>r. case r of
              Inl e \<Rightarrow> kv_fail kv reg (''decode resolved config: '' @ e)
            | Inr config' \<Rightarrow> io_ret (config', Some reg)))))"

section \<open>Variables that override a pump\<close>

text \<open>The resolver is installed while the pumps initialise.\<close>

record ('r, 'w) startup =
  su_kvResolver :: "'r option"
  su_world :: 'w

definition in_su :: "('w, 'a) io \<Rightarrow> (('r, 'w) startup, 'a) io" where
  "in_su = io_on su_world (\<lambda>w s. s\<lparr>su_world := w\<rparr>)"

definition SetKVResolver :: "'r option \<Rightarrow> (('r, 'w) startup, unit) io" where
  "SetKVResolver r = io_upd (\<lambda>s. s\<lparr>su_kvResolver := r\<rparr>)"

definition GetKVResolver :: "(('r, 'w) startup, 'r option) io" where
  "GetKVResolver = io_get su_kvResolver"

definition effectiveEnvPrefix :: "string \<Rightarrow> string \<Rightarrow> string" where
  "effectiveEnvPrefix pumpPrefix defaultEnv = (if pumpPrefix \<noteq> [] then pumpPrefix else defaultEnv)"

definition pump_resolveKVReferences :: "('cfg, 'r, 'w) kv_lib \<Rightarrow> 'cfg \<Rightarrow> (('r, 'w) startup, 'cfg) io" where
  "pump_resolveKVReferences kv cfg =
     io_bind (err_prefix ''encode config: '' (io_res (kl_marshal kv cfg))) (\<lambda>raw.
     if \<not> kl_contains kv raw then io_ret cfg
     else io_bind GetKVResolver (\<lambda>res. case res of
            None \<Rightarrow> io_fail (GoErr ''a KV reference was set via a pump specific env var but no KV stores are configured'')
          | Some r \<Rightarrow>
              io_bind (err_prefix ''resolve KV references set via pump specific env vars: '' (in_su (kl_resolve kv r raw))) (\<lambda>resolved.
              err_prefix ''decode resolved config: '' (io_res (kl_unmarshal kv resolved cfg)))))"

text \<open>A call whose error ends the process.\<close>

definition io_fatal :: "string \<Rightarrow> ('s, 'a) io \<Rightarrow> ('s, 'a) io" where
  "io_fatal p m s = (case m s of (r, t) \<Rightarrow> (case r of Inl (GoErr e) \<Rightarrow> (Inl (GoPanic (''exit: '' @ p @ e)), t) | _ \<Rightarrow> (r, t)))"

text \<open>\<open>process\<close> is \<open>envconfig.Process\<close>, whose error is only logged.\<close>

definition processPumpEnvVars ::
  "('cfg, 'r, 'w) kv_lib \<Rightarrow> (string \<Rightarrow> 'cfg \<Rightarrow> 'cfg) \<Rightarrow> string \<Rightarrow> string \<Rightarrow> string \<Rightarrow> 'cfg \<Rightarrow> (('r, 'w) startup, 'cfg) io" where
  "processPumpEnvVars kv process pumpName pumpPrefix defaultEnv cfg =
     (let prefix = effectiveEnvPrefix pumpPrefix defaultEnv
      in io_fatal (pumpName @ '': '') (pump_resolveKVReferences kv (process prefix cfg)))"

definition envVarNamesWithPrefix :: "environ \<Rightarrow> string \<Rightarrow> string list" where
  "envVarNamesWithPrefix env prefix =
     List.map_filter (\<lambda>e. case split_once ''='' e of
       Some (name, v) \<Rightarrow> if has_prefix name (prefix @ ''_'') then Some name else None | None \<Rightarrow> None) env"

definition envVarsWithKVReference :: "(string \<Rightarrow> bool) \<Rightarrow> environ \<Rightarrow> string list \<Rightarrow> string list" where
  "envVarsWithKVReference has_ref env names = filter (\<lambda>name. has_ref (getenv env name)) names"

definition renamedEnvVars :: "string list \<Rightarrow> string \<Rightarrow> string \<Rightarrow> string list" where
  "renamedEnvVars names legacyPrefix replacementPrefix =
     map (\<lambda>name. name @ '' -> '' @ replacementPrefix @ trim_prefix name legacyPrefix) names"

definition processLegacyPumpEnvVars ::
  "(string \<Rightarrow> bool) \<Rightarrow> (string \<Rightarrow> 'cfg \<Rightarrow> 'cfg) \<Rightarrow> environ \<Rightarrow> string \<Rightarrow> 'cfg \<Rightarrow> 'cfg res" where
  "processLegacyPumpEnvVars has_ref process env legacyPrefix cfg =
     (let names = envVarNamesWithPrefix env legacyPrefix;
          refs = envVarsWithKVReference has_ref env names
      in if names \<noteq> [] \<and> refs \<noteq> [] then Inl (GoPanic ''exit: deprecated environment variables do not support KV references'')
         else Inr (process legacyPrefix cfg))"

section \<open>The configuration\<close>

text \<open>\<open>'v\<close> is a value of a pump's \<open>meta\<close> map, \<open>'u\<close> what else the uptime pump is configured with.\<close>

type_synonym 'v pump_config = "(string, 'v) gomap pump_entry"

record ('v, 'u) system_config =
  sc_PurgeChunk :: i64
  sc_StorageExpirationTime :: i64
  sc_UptimePumpConfig :: 'u
  sc_UptimeType :: string
  sc_Pumps :: "(string, 'v pump_config) gomap"
  sc_AnalyticsStorageConfig :: temporal_config
  sc_AnalyticsStorageType :: string
  sc_LogLevel :: string
  sc_PurgeDelay :: int
  sc_MaxRecordSize :: int
  sc_DontPurgeUptimeData :: bool
  sc_OmitDetailedRecording :: bool
  sc_has_stores :: bool

definition ENV_PREVIX :: string where "ENV_PREVIX = ''TYK_PMP''"
definition PUMPS_ENV_PREFIX :: string where "PUMPS_ENV_PREFIX = ''TYK_PMP_PUMPS''"
definition PUMPS_ENV_META_PREFIX :: string where "PUMPS_ENV_META_PREFIX = ''_META''"

definition shouldOmitConfigFile :: "environ \<Rightarrow> bool" where
  "shouldOmitConfigFile env =
     (case lookup_env env (ENV_PREVIX @ ''_OMITCONFIGFILE'') of None \<Rightarrow> False | Some v \<Rightarrow> to_lower v = ''true'')"

text \<open>The names of pumps that variables mention; a Go set, so each comes once.\<close>

fun env_pump_names :: "environ \<Rightarrow> string list" where
  "env_pump_names [] = []"
| "env_pump_names (e # es) =
     (if has_prefix e PUMPS_ENV_PREFIX
      then (let envSplit = split_char CHR ''_'' (trim_prefix e (PUMPS_ENV_PREFIX @ ''_''))
            in if length envSplit < 2 then env_pump_names es else List.insert (to_upper (hd envSplit)) (env_pump_names es))
      else env_pump_names es)"

definition empty_pump :: "'v pump_config" where
  "empty_pump = \<lparr>pe_Name = [], pe_Type = [], pe_Filters = pc_filters pump_zero, pe_Timeout = 0, pe_OmitDetailedRecording = False,
     pe_MaxRecordSize = 0, pe_IgnoreFields = [], pe_Meta = [], pe_DecodeRawRequest = False, pe_DecodeRawResponse = False\<rparr>"

text \<open>\<open>str\<close> makes a string a value of a meta map.\<close>

definition load_env_pump ::
  "environ \<Rightarrow> (string \<Rightarrow> 'v pump_config \<Rightarrow> 'v pump_config) \<Rightarrow> (string \<Rightarrow> 'v) \<Rightarrow> string \<Rightarrow>
     (string, 'v pump_config) gomap \<Rightarrow> (string, 'v pump_config) gomap" where
  "load_env_pump env process str pmpName cfg =
     (let pmp = (case gomap_get cfg pmpName of Some p \<Rightarrow> p | None \<Rightarrow> empty_pump);
          pmpType = (if to_lower pmpName \<in> set AvailablePumps then Some pmpName
                     else (case lookup_env env (PUMPS_ENV_PREFIX @ ''_'' @ pmpName @ ''_TYPE'') of
                             Some t \<Rightarrow> Some t
                           | None \<Rightarrow> if pe_Type pmp = [] then None else Some (pe_Type pmp)))
      in case pmpType of
           None \<Rightarrow> cfg
         | Some t \<Rightarrow>
             (let pmp = process (PUMPS_ENV_PREFIX @ ''_'' @ pmpName) pmp
              in gomap_set cfg pmpName (pmp\<lparr>
                   pe_Meta := gomap_set (pe_Meta pmp) ''meta_env_prefix'' (str (PUMPS_ENV_PREFIX @ ''_'' @ pmpName @ PUMPS_ENV_META_PREFIX)),
                   pe_Type := to_lower t\<rparr>)))"

definition LoadPumpsByEnv where
  "LoadPumpsByEnv env process str cfg = fold (load_env_pump env process str) (env_pump_names env) cfg"

definition upper_pumps :: "(string, 'p) gomap \<Rightarrow> (string, 'p) gomap" where
  "upper_pumps m = fold (\<lambda>(k, p) acc. gomap_set acc (to_upper k) p) m []"

text \<open>\<open>read_file\<close> reads and decodes the file into the configuration; its errors are only logged.\<close>

definition LoadConfig ::
  "(('v, 'u) system_config, 'r, 'w) kv_lib \<Rightarrow> (('v, 'u) system_config \<Rightarrow> ('v, 'u) system_config) \<Rightarrow>
     (('v, 'u) system_config \<Rightarrow> ('v, 'u) system_config) \<Rightarrow> (string \<Rightarrow> 'v pump_config \<Rightarrow> 'v pump_config) \<Rightarrow> (string \<Rightarrow> 'v) \<Rightarrow> environ \<Rightarrow>
     ('v, 'u) system_config \<Rightarrow> ('w, ('v, 'u) system_config \<times> 'r option) io" where
  "LoadConfig kv read_file process_all process str env cfg =
     (let cfg = (if \<not> shouldOmitConfigFile env then read_file cfg else cfg);
          cfg = cfg\<lparr>sc_Pumps := upper_pumps (sc_Pumps cfg)\<rparr>;
          cfg = process_all cfg;
          cfg = cfg\<lparr>sc_Pumps := LoadPumpsByEnv env process str (sc_Pumps cfg)\<rparr>
      in io_fatal ''Failed to resolve config: '' (config_resolveKVReferences kv (sc_has_stores cfg) cfg))"

text \<open>The log level that \<open>Init\<close> sets: None leaves the default.\<close>

definition init_log_level :: "environ \<Rightarrow> bool \<Rightarrow> string \<Rightarrow> string option res" where
  "init_log_level env debugMode logLevel =
     rbind (if getenv env ''TYK_LOGLEVEL'' = []
            then (let level = to_lower logLevel
                  in if level = [] \<or> level = ''info'' then Inr None
                     else if level \<in> {''error'', ''warn'', ''debug''} then Inr (Some level)
                     else Inl (GoPanic ''exit: Invalid log level specified in config, must be error, warn, debug or info. ''))
            else Inr None) (\<lambda>level. Inr (if debugMode then Some ''debug'' else level))"

section \<open>Pumps\<close>

text \<open>
  A pump that is running: its type, its settings and the value its \<open>Init\<close> returned. \<open>pinit\<close> is the
  \<open>Init\<close> of a type.
\<close>

type_synonym 'p running = "string \<times> pump_conf \<times> 'p"

text \<open>The pumps of MongoDB and two of those of SQL have setters of their own for the decoding, which only warn.\<close>

definition no_decoding_pumps :: "string list" where
  "no_decoding_pumps = [''mongo'', ''mongo-pump-selective'', ''mongo-pump-aggregate'', ''mongo-graph'', ''mongo-mcp'',
     ''mongo-mcp-aggregate'', ''sql'', ''sql_aggregate'']"

definition configure_type :: "string \<Rightarrow> 'v pump_config \<Rightarrow> pump_conf" where
  "configure_type pmpType pmp =
     (if pmpType \<in> set no_decoding_pumps
      then configure_pump (pmp\<lparr>pe_DecodeRawRequest := False, pe_DecodeRawResponse := False\<rparr>) else configure_pump pmp)"

definition init_pump ::
  "(string \<Rightarrow> pump_conf \<Rightarrow> (string, 'v) gomap \<Rightarrow> ('s, 'p) io) \<Rightarrow> string \<times> 'v pump_config \<Rightarrow> ('s, 'p running option) io" where
  "init_pump pinit = (\<lambda>(key, pmp).
     (let pumpTypeName = (if pe_Type pmp = [] then key else pe_Type pmp)
      in case GetPumpByName pumpTypeName of
           Inl e \<Rightarrow> io_ret None
         | Inr pmpType \<Rightarrow>
             io_bind (io_try (pinit pmpType (configure_type pmpType pmp) (pe_Meta pmp))) (\<lambda>r. case r of
               Inl initErr \<Rightarrow> io_ret None
             | Inr p \<Rightarrow> io_ret (Some (pmpType, configure_type pmpType pmp, p)))))"

fun init_pumps ::
  "(string \<Rightarrow> pump_conf \<Rightarrow> (string, 'v) gomap \<Rightarrow> ('s, 'p) io) \<Rightarrow> (string, 'v pump_config) gomap \<Rightarrow> ('s, 'p running list) io" where
  "init_pumps pinit [] = io_ret []"
| "init_pumps pinit (e # es) =
     io_bind (init_pump pinit e) (\<lambda>p. io_bind (init_pumps pinit es) (\<lambda>ps. io_ret (case p of None \<Rightarrow> ps | Some p \<Rightarrow> p # ps)))"

text \<open>\<open>uptime\<close> starts the uptime pump, of SQL or else of MongoDB; its error is not looked at.\<close>

definition initialiseUptimePump :: "(bool \<Rightarrow> 'u \<Rightarrow> ('s, unit) io) \<Rightarrow> ('v, 'u) system_config \<Rightarrow> ('s, unit) io" where
  "initialiseUptimePump uptime cfg = io_log (uptime (sc_UptimeType cfg = ''sql'') (sc_UptimePumpConfig cfg))"

definition initialisePumps ::
  "(string \<Rightarrow> pump_conf \<Rightarrow> (string, 'v) gomap \<Rightarrow> (('r, 'w) startup, 'p) io) \<Rightarrow> (bool \<Rightarrow> 'u \<Rightarrow> (('r, 'w) startup, unit) io) \<Rightarrow>
     ('v, 'u) system_config \<Rightarrow> 'r option \<Rightarrow> (('r, 'w) startup, 'p running list) io" where
  "initialisePumps pinit uptime cfg stores =
     io_bind (SetKVResolver stores) (\<lambda>_.
     io_bind (init_pumps pinit (sc_Pumps cfg)) (\<lambda>pumps.
     if pumps = [] then io_fail (GoPanic ''exit: No pumps configured'')
     else io_bind (if \<not> sc_DontPurgeUptimeData cfg then initialiseUptimePump uptime cfg else io_ret ()) (\<lambda>_.
          io_bind (SetKVResolver None) (\<lambda>_. io_ret pumps))))"

section \<open>Storages\<close>

text \<open>The handlers share the connection, so a handler starts from the connection and the world the last one left.\<close>

definition open_store ::
  "('p, 'c, 'k, 'l, 'w) storage_lib \<Rightarrow> temporal_config \<Rightarrow> 'c option \<Rightarrow> 'w \<Rightarrow> unit res \<times> ('c, 'k, 'l, 'w) storage" where
  "open_store lib conf conn w =
     (case NewTemporalStorageHandler (\<lambda>m :: unit. Inl (GoErr [])) (ConfigVal conf) False conn w of
        Inl e \<Rightarrow> (Inl e, \<lparr>st_connector = conn, st_Config = None, st_kv = None, st_list = None, st_forceReconnect = False, st_world = w\<rparr>)
      | Inr h \<Rightarrow> io_fatal ''Error connecting to Temporal Storage: '' (storage_Init lib) h)"

definition storeVersion ::
  "('p, 'c, 'k, 'l, 'w) storage_lib \<Rightarrow> ((('c, 'k, 'l, 'w) storage, unit) io \<Rightarrow> (('c, 'k, 'l, 'w) storage, unit) io) \<Rightarrow> temporal_config \<Rightarrow>
     'c option \<Rightarrow> 'w \<Rightarrow> unit res \<times> ('c, 'k, 'l, 'w) storage" where
  "storeVersion lib retry conf conn w =
     (case open_store lib (conf\<lparr>tc_KeyPrefix := ''version-check-''\<rparr>) conn w of
        (Inl e, h) \<Rightarrow> (Inl e, h)
      | (Inr u, h) \<Rightarrow> io_log (SetKey lib retry ''pump'' ''v1.12.0'' 0) h)"

text \<open>The analytics storage and the uptime storage.\<close>

definition setupAnalyticsStore ::
  "('p, 'c, 'k, 'l, 'w) storage_lib \<Rightarrow> string \<Rightarrow> temporal_config \<Rightarrow> 'c option \<Rightarrow> 'w \<Rightarrow>
     (('c, 'k, 'l, 'w) storage \<times> ('c, 'k, 'l, 'w) storage) res" where
  "setupAnalyticsStore lib typ conf conn w =
     (if typ = ''redis'' \<or> typ = []
      then (case open_store lib conf conn w of
              (Inl e, h) \<Rightarrow> Inl e
            | (Inr u, h) \<Rightarrow>
                (case open_store lib (conf\<lparr>tc_KeyPrefix := ''host-checker:''\<rparr>) (st_connector h) (st_world h) of
                   (Inl e, h') \<Rightarrow> Inl e
                 | (Inr u, h') \<Rightarrow> Inr (h, h')))
      else Inl (GoPanic (''exit: Invalid analytics storage type: '' @ typ)))"

text \<open>What the purge loop is started with: the chunk and the expiry of the lists, in nanoseconds.\<close>

definition purge_settings :: "('v, 'u) system_config \<Rightarrow> i64 \<times> i64" where
  "purge_settings cfg =
     (let expire = (if i64_lt 0 (sc_PurgeChunk cfg) \<and> sc_StorageExpirationTime cfg = 0 then 60 else sc_StorageExpirationTime cfg)
      in (sc_PurgeChunk cfg, expire * 1000000000))"

text \<open>The steps of \<open>main\<close> up to the purge loop; the stores are closed when the last pump is up.\<close>

definition main_start where
  "main_start lib retry pinit uptime kv cfg stores conn w su =
     (let conf = sc_AnalyticsStorageConfig cfg
      in case storeVersion lib retry conf conn w of
           (Inl e, h) \<Rightarrow> Inl e
         | (Inr u, h) \<Rightarrow>
             rbind (setupAnalyticsStore lib (sc_AnalyticsStorageType cfg) conf (st_connector h) (st_world h)) (\<lambda>(analytics, upt).
               case io_bind (initialisePumps pinit uptime cfg stores) (\<lambda>pumps.
                      io_bind (in_su (kv_Close kv stores)) (\<lambda>_. io_ret pumps)) su of
                 (Inl e, su') \<Rightarrow> Inl e
               | (Inr pumps, su') \<Rightarrow> Inr (analytics, upt, pumps, purge_settings cfg, su')))"

section \<open>Which pumps run\<close>

definition pump_type :: "string \<times> 'v pump_config \<Rightarrow> string" where
  "pump_type = (\<lambda>(key, pmp). to_lower (if pe_Type pmp = [] then key else pe_Type pmp))"

lemma init_pump_run:
  assumes "\<And>ty c m s. \<exists>r t. pinit ty c m s = (r, t) \<and> io_kept t = io_kept s \<and> (\<forall>p. r \<noteq> Inl (GoPanic p)) \<and> (is_ok r \<longleftrightarrow> good ty c m)"
  shows "\<exists>r t. init_pump pinit (key, pmp) s = (Inr r, t) \<and> io_kept t = io_kept s \<and>
    map_option (\<lambda>(ty, c, p). (ty, c)) r =
      (if pump_type (key, pmp) \<in> set AvailablePumps \<and> good (pump_type (key, pmp)) (configure_type (pump_type (key, pmp)) pmp) (pe_Meta pmp)
       then Some (pump_type (key, pmp), configure_type (pump_type (key, pmp)) pmp) else None)"
proof -
  let ?ty = "to_lower (if pe_Type pmp = [] then key else pe_Type pmp)"
  show ?thesis
  proof (cases "?ty \<in> set AvailablePumps")
    case False
    then show ?thesis by (simp add: init_pump_def GetPumpByName_def pump_type_def Let_def)
  next
    case True
    obtain r t where r: "pinit ?ty (configure_type ?ty pmp) (pe_Meta pmp) s = (r, t)" "io_kept t = io_kept s" "\<forall>p. r \<noteq> Inl (GoPanic p)"
      "is_ok r \<longleftrightarrow> good ?ty (configure_type ?ty pmp) (pe_Meta pmp)" using assms by metis
    show ?thesis
    proof (cases r)
      case (Inr p)
      then have "init_pump pinit (key, pmp) s = (Inr (Some (?ty, configure_type ?ty pmp, p)), t)"
        using True r(1) by (simp add: init_pump_def GetPumpByName_def Let_def io_bind_def io_try_def)
      with True r(2,4) Inr show ?thesis by (simp add: pump_type_def is_ok_def)
    next
      case (Inl e)
      with r(3) obtain m where "e = GoErr m" by (cases e) auto
      then have "init_pump pinit (key, pmp) s = (Inr None, t)"
        using True r(1) Inl by (simp add: init_pump_def GetPumpByName_def Let_def io_bind_def io_try_def)
      with True r(2,4) Inl show ?thesis by (simp add: pump_type_def is_ok_def)
    qed
  qed
qed

text \<open>The entries that start, with the settings their type takes over.\<close>

definition pumps_to_run where
  "pumps_to_run good entries = List.map_filter (\<lambda>(key, pmp).
     if pump_type (key, pmp) \<in> set AvailablePumps \<and> good (pump_type (key, pmp)) (configure_type (pump_type (key, pmp)) pmp) (pe_Meta pmp)
     then Some (pump_type (key, pmp), configure_type (pump_type (key, pmp)) pmp) else None) entries"

lemma init_pumps_run:
  assumes "\<And>ty c m s. \<exists>r t. pinit ty c m s = (r, t) \<and> io_kept t = io_kept s \<and> (\<forall>p. r \<noteq> Inl (GoPanic p)) \<and> (is_ok r \<longleftrightarrow> good ty c m)"
  shows "\<exists>ps t. init_pumps pinit entries s = (Inr ps, t) \<and> io_kept t = io_kept s \<and>
    map (\<lambda>(ty, c, p). (ty, c)) ps = pumps_to_run good entries"
proof (induction entries arbitrary: s)
  case Nil
  then show ?case by (simp add: pumps_to_run_def List.map_filter_def)
next
  case (Cons e entries)
  obtain key pmp where e: "e = (key, pmp)" by fastforce
  from init_pump_run [where pinit = pinit and good = good and io_kept = io_kept and key = key and pmp = pmp and s = s, OF assms] obtain r t where r: "init_pump pinit e s = (Inr r, t)" "io_kept t = io_kept s"
    "map_option (\<lambda>(ty, c, p). (ty, c)) r = (if pump_type (key, pmp) \<in> set AvailablePumps \<and>
       good (pump_type (key, pmp)) (configure_type (pump_type (key, pmp)) pmp) (pe_Meta pmp) then Some (pump_type (key, pmp), configure_type (pump_type (key, pmp)) pmp) else None)"
    unfolding e by blast
  from Cons.IH [of t] obtain ps t' where ps: "init_pumps pinit entries t = (Inr ps, t')" "io_kept t' = io_kept t"
    "map (\<lambda>(ty, c, p). (ty, c)) ps = pumps_to_run good entries" by blast
  have "init_pumps pinit (e # entries) s = (Inr (case r of None \<Rightarrow> ps | Some p \<Rightarrow> p # ps), t')"
    using r(1) ps(1) by (simp add: io_bind_def)
  moreover have "map (\<lambda>(ty, c, p). (ty, c)) (case r of None \<Rightarrow> ps | Some p \<Rightarrow> p # ps) = pumps_to_run good (e # entries)"
    using r(3) ps(3) by (cases r) (auto simp: e pumps_to_run_def List.map_filter_def split: if_splits)
  ultimately show ?case using r(2) ps(2) by auto
qed


section \<open>References are resolved\<close>

text \<open>The library resolves every reference of a text, and what is decoded has only what the text and the configuration before held.\<close>

definition kv_law :: "('cfg, 'r, 'w) kv_lib \<Rightarrow> bool" where
  "kv_law kv \<longleftrightarrow> (\<forall>r raw w s t. kl_resolve kv r raw w = (Inr s, t) \<longrightarrow> \<not> kl_contains kv s) \<and>
     (\<forall>s cfg cfg' raw. kl_unmarshal kv s cfg = Inr cfg' \<longrightarrow> \<not> kl_contains kv s \<longrightarrow> kl_marshal kv cfg' = Inr raw \<longrightarrow> \<not> kl_contains kv raw)"

lemma err_prefix_Inr: "err_prefix p m s = (Inr x, t) \<longleftrightarrow> m s = (Inr x, t)"
  by (auto simp: err_prefix_def split: prod.splits sum.splits go_error.splits)

lemma io_fatal_Inr: "io_fatal p m s = (Inr x, t) \<longleftrightarrow> m s = (Inr x, t)"
  by (auto simp: io_fatal_def split: prod.splits sum.splits go_error.splits)

lemma io_fatal_no_error [simp]: "(io_fatal p m s = (Inl (GoErr e), t)) = False"
  by (auto simp: io_fatal_def split: prod.splits sum.splits go_error.splits)

lemma io_res_eq: "io_res r s = (q, t) \<longleftrightarrow> r = q \<and> t = s"
  by (auto simp: io_res_def)


text \<open>An error after the stores have been opened closes them.\<close>

lemma config_resolve_closes:
  assumes "kl_marshal kv cfg = Inr raw" and "kl_registry kv raw w = (Inr reg, w1)" and "kl_resolve kv reg raw w1 = (Inl (GoErr e), w2)"
    and "kl_close kv reg w2 = (Inr (), w3)"
  shows "\<exists>m. config_resolveKVReferences kv True cfg w = (Inl (GoErr m), w3)"
  using assms by (auto simp: config_resolveKVReferences_def err_prefix_def io_bind_def io_try_def kv_fail_def kv_Close_def io_log_def)

section \<open>The key prefixes of the storages\<close>

lemma open_store_ok:
  assumes "open_store lib conf conn w = (Inr (), h)"
  shows "storage_ready h \<and> (\<exists>c1 c2. l_Process lib ''TYK_PMP_REDIS'' conf = (c1, None) \<and>
    l_Process lib ''TYK_PMP_TEMPORAL_STORAGE'' c1 = (c2, None) \<and> st_Config h = Some (default_prefix c2))"
proof -
  let ?h = "\<lparr>st_connector = conn, st_Config = Some conf, st_kv = None, st_list = None, st_forceReconnect = False, st_world = w\<rparr>"
  from assms have "storage_Init lib ?h = (Inr (), h)"
    by (simp add: open_store_def NewTemporalStorageHandler_def io_fatal_Inr)
  from storage_Init_ready [OF this] show ?thesis by auto
qed

text \<open>
  Both storages are ready when the setup returns. If the environment leaves the key prefix alone, the
  uptime storage works below \<open>host-checker:\<close> and the analytics storage below its own prefix; if the
  environment sets the prefix, both work below the same one.
\<close>

theorem setupAnalyticsStore_prefixes:
  assumes "setupAnalyticsStore lib typ conf conn w = Inr (a, u)"
    and env: "\<And>c c'. l_Process lib ''TYK_PMP_REDIS'' c = (c', None) \<Longrightarrow>
        tc_KeyPrefix c' = tc_KeyPrefix c \<and> tc_RedisKeyPrefix c' = tc_RedisKeyPrefix c"
    and env': "\<And>c c'. l_Process lib ''TYK_PMP_TEMPORAL_STORAGE'' c = (c', None) \<Longrightarrow>
        tc_KeyPrefix c' = (case prefix of None \<Rightarrow> tc_KeyPrefix c | Some p \<Rightarrow> p) \<and> tc_RedisKeyPrefix c' = tc_RedisKeyPrefix c"
    and "prefix \<noteq> Some []"
  shows "storage_ready a \<and> storage_ready u \<and> (typ = ''redis'' \<or> typ = []) \<and>
    map_option tc_KeyPrefix (st_Config u) = Some (case prefix of None \<Rightarrow> ''host-checker:'' | Some p \<Rightarrow> p) \<and>
    map_option tc_KeyPrefix (st_Config a) = Some (case prefix of
      None \<Rightarrow> hd (filter (\<lambda>p. p \<noteq> []) [tc_KeyPrefix conf, tc_RedisKeyPrefix conf, ''analytics-'']) | Some p \<Rightarrow> p)"
proof -
  have ty: "typ = ''redis'' \<or> typ = []" using assms(1) by (auto simp: setupAnalyticsStore_def split: if_splits)
  with assms(1) have a: "open_store lib conf conn w = (Inr (), a)"
    and u: "open_store lib (conf\<lparr>tc_KeyPrefix := ''host-checker:''\<rparr>) (st_connector a) (st_world a) = (Inr (), u)"
    by (auto simp: setupAnalyticsStore_def split: prod.splits sum.splits)
  have pre: "map_option tc_KeyPrefix (st_Config h) = Some (case prefix of
      None \<Rightarrow> hd (filter (\<lambda>p. p \<noteq> []) [tc_KeyPrefix c, tc_RedisKeyPrefix c, ''analytics-'']) | Some p \<Rightarrow> p)"
    if "open_store lib c conn' w' = (Inr (), h)" for c conn' w' h
  proof -
    from open_store_ok [OF that] obtain c1 c2 where "l_Process lib ''TYK_PMP_REDIS'' c = (c1, None)"
      "l_Process lib ''TYK_PMP_TEMPORAL_STORAGE'' c1 = (c2, None)" "st_Config h = Some (default_prefix c2)" by blast
    with env [of c c1] env' [of c1 c2] \<open>prefix \<noteq> Some []\<close> show ?thesis
      by (auto simp: default_prefix_def KeyPrefix_def split: option.splits)
  qed
  from pre [OF a] pre [OF u] open_store_ok [OF a] open_store_ok [OF u] ty show ?thesis
    by (auto split: option.splits)
qed

section \<open>Pumps from the environment\<close>

text \<open>A variable of a name that is a type makes the pump that type, whatever its entry or its \<open>TYPE\<close> variable says.\<close>

lemma load_env_pump_known:
  assumes "to_lower pmpName \<in> set AvailablePumps"
  shows "\<exists>p. gomap_get (load_env_pump env process str pmpName cfg) pmpName = Some p \<and> pe_Type p = to_lower pmpName \<and>
    gomap_get (pe_Meta p) ''meta_env_prefix'' = Some (str (''TYK_PMP_PUMPS_'' @ pmpName @ ''_META''))"
  using assms by (auto simp: load_env_pump_def Let_def gomap_get_set PUMPS_ENV_PREFIX_def PUMPS_ENV_META_PREFIX_def)

lemma load_env_pump_other: "name \<noteq> pmpName \<Longrightarrow> gomap_get (load_env_pump env process str pmpName cfg) name = gomap_get cfg name"
  by (simp add: load_env_pump_def Let_def gomap_get_set split: option.split)

lemma LoadPumpsByEnv_other: "name \<notin> set (env_pump_names env) \<Longrightarrow> gomap_get (LoadPumpsByEnv env process str cfg) name = gomap_get cfg name"
proof -
  have "name \<notin> set names \<Longrightarrow> gomap_get (fold (load_env_pump env process str) names cfg) name = gomap_get cfg name" for names cfg
    by (induction names arbitrary: cfg) (simp_all add: load_env_pump_other)
  then show "name \<notin> set (env_pump_names env) \<Longrightarrow> ?thesis" by (simp add: LoadPumpsByEnv_def)
qed

text \<open>With chunks a list always has a time to live.\<close>

lemma purge_settings_expire:
  assumes "i64_lt 0 (sc_PurgeChunk cfg)" and "0 \<le> sint (sc_StorageExpirationTime cfg)" "sint (sc_StorageExpirationTime cfg) < 9000000000"
  shows "snd (purge_settings cfg) \<noteq> 0"
proof -
  have "x * 1000000000 \<noteq> 0" if "0 < sint x" "sint x < 9000000000" for x :: i64
  proof
    assume "x * 1000000000 = 0"
    then have "sint (x * 1000000000) = 0" by simp
    moreover have "sint (x * 1000000000) = sint x * 1000000000"
      using that by (simp add: sint_word_ariths signed_take_bit_int_eq_self_iff)
    ultimately show False using that(1) by simp
  qed
  moreover have "sc_StorageExpirationTime cfg = 0 \<or> 0 < sint (sc_StorageExpirationTime cfg)"
    using assms(2) by (metis order_le_less signed_eq_0_iff)
  ultimately show ?thesis using assms by (auto simp: purge_settings_def Let_def)
qed

section \<open>Runs\<close>

definition sample_system :: "(string, unit) system_config" where
  "sample_system = \<lparr>sc_PurgeChunk = 0, sc_StorageExpirationTime = 0, sc_UptimePumpConfig = (), sc_UptimeType = [],
     sc_Pumps = [(''CSV'', empty_pump), (''NOPE'', empty_pump), (''MINE'', empty_pump\<lparr>pe_Type := ''Kafka'', pe_Timeout := 5\<rparr>)],
     sc_AnalyticsStorageConfig = temporal_config_zero, sc_AnalyticsStorageType = [], sc_LogLevel = [], sc_PurgeDelay = 10,
     sc_MaxRecordSize = 0, sc_DontPurgeUptimeData = True, sc_OmitDetailedRecording = False, sc_has_stores = False\<rparr>"


definition sample_kv :: "(string, unit, unit) kv_lib" where
  "sample_kv = \<lparr>kl_marshal = Inr, kl_contains = \<lambda>s. has_prefix s ''kv://'', kl_registry = \<lambda>s. io_ret (),
     kl_resolve = \<lambda>r s. io_ret ''secret'', kl_unmarshal = \<lambda>s c. Inr s, kl_close = \<lambda>r. io_ret ()\<rparr>"


lemma sample_open_store:
  assumes "tc_Type conf = []" "\<not> iam_Enabled (tc_IAMAuth conf)"
  shows "\<exists>h. open_store (sample_lib False) conf conn w = (Inr (), h)"
proof -
  let ?lib = "sample_lib False"
  have lib: "l_Process ?lib p c = (c, None)" "l_NewConnector ?lib o1 o2 q = io_ret ()" "l_NewKeyValue ?lib u = io_ret ()"
    "l_NewList ?lib u = io_ret ()" for p c o1 o2 q u
    by (simp_all add: sample_lib_def)
  have d: "tc_Type (default_prefix conf) = []" "\<not> iam_Enabled (tc_IAMAuth (default_prefix conf))"
    using assms by (simp_all add: default_prefix_def)
  let ?h = "\<lparr>st_connector = conn, st_Config = Some (default_prefix conf), st_kv = None, st_list = None, st_forceReconnect = False, st_world = w\<rparr>"
  have "\<exists>t. connect ?lib ?h = (Inr (), t)"
  proof (cases conn)
    case None
    with d show ?thesis
      by (simp add: connect_def the_config_def resetConnection_def createConnector_def io_bind_def io_on_def lib)
  next
    case (Some c)
    then show ?thesis
      by (simp add: connect_def getKVFromConnector_def getListFromConnector_def io_bind_def io_on_def lib)
  qed
  then obtain t where t: "connect ?lib ?h = (Inr (), t)" by blast
  have "storage_Init ?lib \<lparr>st_connector = conn, st_Config = Some conf, st_kv = None, st_list = None, st_forceReconnect = False, st_world = w\<rparr>
      = (Inr (), t)"
    unfolding storage_Init_def process_env_def by (simp add: the_config_def io_bind_def lib t)
  then show ?thesis by (simp add: open_store_def NewTemporalStorageHandler_def io_fatal_def)
qed

theorem setupAnalyticsStore_prefixes_witness:
  "\<exists>a u. setupAnalyticsStore (sample_lib False) [] temporal_config_zero None (\<lambda>k. []) = Inr (a, u) \<and>
     map_option tc_KeyPrefix (st_Config a) = Some ''analytics-'' \<and> map_option tc_KeyPrefix (st_Config u) = Some ''host-checker:''"
proof -
  let ?c = temporal_config_zero
  have zero: "tc_Type ?c = []" "\<not> iam_Enabled (tc_IAMAuth ?c)" by (simp_all add: temporal_config_zero_def)
  then have up: "tc_Type (?c\<lparr>tc_KeyPrefix := ''host-checker:''\<rparr>) = []" "\<not> iam_Enabled (tc_IAMAuth (?c\<lparr>tc_KeyPrefix := ''host-checker:''\<rparr>))" by simp_all
  obtain a where a: "open_store (sample_lib False) ?c None (\<lambda>k. []) = (Inr (), a)" using sample_open_store [OF zero] by blast
  obtain u where u: "open_store (sample_lib False) (?c\<lparr>tc_KeyPrefix := ''host-checker:''\<rparr>) (st_connector a) (st_world a) = (Inr (), u)"
    using sample_open_store [OF up] by blast
  have run: "setupAnalyticsStore (sample_lib False) [] ?c None (\<lambda>k. []) = Inr (a, u)" by (simp add: setupAnalyticsStore_def a u)
  have lib: "l_Process (sample_lib False) p c = (c', None) \<longleftrightarrow> c' = c" for p c c' by (auto simp: sample_lib_def)
  have keys: "tc_KeyPrefix ?c = []" "tc_RedisKeyPrefix ?c = []" by (simp_all add: temporal_config_zero_def)
  have "map_option tc_KeyPrefix (st_Config u) = Some (case None of None \<Rightarrow> ''host-checker:'' | Some p \<Rightarrow> p) \<and>
    map_option tc_KeyPrefix (st_Config a) = Some (case None of
      None \<Rightarrow> hd (filter (\<lambda>p. p \<noteq> []) [tc_KeyPrefix ?c, tc_RedisKeyPrefix ?c, ''analytics-'']) | Some p \<Rightarrow> p)"
  proof -
    have redis: "tc_KeyPrefix c' = tc_KeyPrefix c \<and> tc_RedisKeyPrefix c' = tc_RedisKeyPrefix c"
      if "l_Process (sample_lib False) ''TYK_PMP_REDIS'' c = (c', None)" for c c' using that unfolding lib by blast
    have temporal: "tc_KeyPrefix c' = (case None of None \<Rightarrow> tc_KeyPrefix c | Some p \<Rightarrow> p) \<and> tc_RedisKeyPrefix c' = tc_RedisKeyPrefix c"
      if "l_Process (sample_lib False) ''TYK_PMP_TEMPORAL_STORAGE'' c = (c', None)" for c c'
      using that unfolding lib by simp
    show ?thesis using setupAnalyticsStore_prefixes [where prefix = None, OF run redis temporal] by blast
  qed
  with run keys show ?thesis by auto
qed

end
