(* ===== verification/Purge_Loop.thy ===== *)
theory Purge_Loop
  imports Main_Loop Temporal_Storage
begin

text \<open>
  One tick of the purge loop, \<open>StartPurgeLoop\<close> and \<open>PreprocessAnalyticsValues\<close> of
  \<open>src/main.go\<close>, and the concurrent writes of a batch, \<open>writeToPumps\<close> and
  \<open>execPumpWriting\<close>. The state of a tick is a parameter with its storage calls; the decoders are
  parameters. The writes are a step relation over one automaton for each pump.
\<close>

section \<open>One tick\<close>

datatype serializer = MsgpSerializer | ProtobufSerializer

definition NewAnalyticsSerializer :: "string \<Rightarrow> serializer" where
  "NewAnalyticsSerializer serializerType = (if serializerType = ''protobuf'' then ProtobufSerializer else MsgpSerializer)"

fun GetSuffix :: "serializer \<Rightarrow> string" where
  "GetSuffix MsgpSerializer = []"
| "GetSuffix ProtobufSerializer = ''_protobuf''"

definition AnalyticsSerializers :: "serializer list" where
  "AnalyticsSerializers = [NewAnalyticsSerializer ''msgpack'', NewAnalyticsSerializer ''protobuf'']"

text \<open>\<open>decode\<close> answers with a record, an error or a panic; the slot of a value with an error stays nil.\<close>

fun preprocess :: "(serializer \<Rightarrow> string \<Rightarrow> analytics_record res) \<Rightarrow> serializer \<Rightarrow> string list \<Rightarrow> item list res" where
  "preprocess decode ser [] = Inr []"
| "preprocess decode ser (v # vs) =
     (case decode ser v of
        Inl (GoPanic p) \<Rightarrow> Inl (GoPanic p)
      | Inl (GoErr e) \<Rightarrow> rbind (preprocess decode ser vs) (\<lambda>keys. Inr (ItemNil # keys))
      | Inr r \<Rightarrow> rbind (preprocess decode ser vs) (\<lambda>keys. Inr (ItemRecord r # keys)))"

definition PreprocessAnalyticsValues ::
  "(serializer \<Rightarrow> string \<Rightarrow> analytics_record res) \<Rightarrow> (item list \<Rightarrow> ('s, unit) io) \<Rightarrow> string list \<Rightarrow> serializer \<Rightarrow> ('s, unit) io" where
  "PreprocessAnalyticsValues decode write values ser =
     (case preprocess decode ser values of Inl e \<Rightarrow> io_fail e | Inr keys \<Rightarrow> write keys)"

definition base_key :: "int \<Rightarrow> string" where
  "base_key i = (if i = -1 then ANALYTICS_KEYNAME else ANALYTICS_KEYNAME @ ''_'' @ dec_int i)"

text \<open>An error of the storage is logged; the values that came with it are none.\<close>

fun purge_serializers ::
  "(string \<Rightarrow> ('s, string list) io) \<Rightarrow> (serializer \<Rightarrow> string \<Rightarrow> analytics_record res) \<Rightarrow> (item list \<Rightarrow> ('s, unit) io) \<Rightarrow>
   serializer list \<Rightarrow> string \<Rightarrow> ('s, unit) io" where
  "purge_serializers get decode write [] key = io_ret ()"
| "purge_serializers get decode write (ser # sers) key =
     (let key = key @ GetSuffix ser
      in io_bind (io_try (get key)) (\<lambda>r.
         let values = (case r of Inl e \<Rightarrow> [] | Inr vs \<Rightarrow> vs)
         in io_bind (if 0 < length values then PreprocessAnalyticsValues decode write values ser else io_ret ()) (\<lambda>_.
            purge_serializers get decode write sers key)))"

definition purge_records ::
  "(string \<Rightarrow> ('s, string list) io) \<Rightarrow> (serializer \<Rightarrow> string \<Rightarrow> analytics_record res) \<Rightarrow> (item list \<Rightarrow> ('s, unit) io) \<Rightarrow>
   ('s, unit) io" where
  "purge_records get decode write =
     io_for [-1..9] (\<lambda>i. purge_serializers get decode write AnalyticsSerializers (base_key i))"

definition purge_tick ::
  "bool \<Rightarrow> (string \<Rightarrow> ('s, string list) io) \<Rightarrow> (string \<Rightarrow> ('s, string list) io) \<Rightarrow>
   (serializer \<Rightarrow> string \<Rightarrow> analytics_record res) \<Rightarrow> (item list \<Rightarrow> ('s, unit) io) \<Rightarrow> (string list \<Rightarrow> ('s, unit) io) \<Rightarrow>
   ('s, unit) io" where
  "purge_tick DontPurgeUptimeData get getUptime decode write writeUptime =
     io_bind (purge_records get decode write) (\<lambda>_.
       if \<not> DontPurgeUptimeData
       then io_bind (io_try (getUptime UptimeAnalytics_KEYNAME)) (\<lambda>r.
              writeUptime (case r of Inl e \<Rightarrow> [] | Inr vs \<Rightarrow> vs))
       else io_ret ())"

text \<open>
  The loop: after each tick, if the context is done, every pump is shut down, also after a pump
  that fails, and the goroutine reports to the wait group and ends. \<open>done\<close> lists what the check
  sees after each tick.
\<close>

definition checkShutdown :: "('p \<Rightarrow> ('s, unit) io) \<Rightarrow> 'p list \<Rightarrow> ('s, unit) io" where
  "checkShutdown Shutdown pumps = io_for pumps (\<lambda>p. io_bind (io_try (Shutdown p)) (\<lambda>_. io_ret ()))"

fun StartPurgeLoop :: "('s, unit) io \<Rightarrow> ('s, unit) io \<Rightarrow> bool list \<Rightarrow> ('s, bool) io" where
  "StartPurgeLoop tick shutdown [] = io_ret False"
| "StartPurgeLoop tick shutdown (d # ds) =
     io_bind tick (\<lambda>_. if d then io_bind shutdown (\<lambda>_. io_ret True) else StartPurgeLoop tick shutdown ds)"

section \<open>What a tick drains\<close>

definition purge_keys :: "(string \<times> serializer) list" where
  "purge_keys = concat (map (\<lambda>i. [(base_key i, MsgpSerializer), (base_key i @ ''_protobuf'', ProtobufSerializer)]) [-1..9])"

definition purge_key ::
  "(string \<Rightarrow> ('s, string list) io) \<Rightarrow> (serializer \<Rightarrow> string \<Rightarrow> analytics_record res) \<Rightarrow> (item list \<Rightarrow> ('s, unit) io) \<Rightarrow>
   string \<times> serializer \<Rightarrow> ('s, unit) io" where
  "purge_key get decode write ks =
     io_bind (io_try (get (fst ks))) (\<lambda>r.
       let values = (case r of Inl e \<Rightarrow> [] | Inr vs \<Rightarrow> vs)
       in if 0 < length values then PreprocessAnalyticsValues decode write values (snd ks) else io_ret ())"

lemma serializers [simp]: "AnalyticsSerializers = [MsgpSerializer, ProtobufSerializer]"
  by (simp add: AnalyticsSerializers_def NewAnalyticsSerializer_def)

lemma purge_serializers_keys:
  "purge_serializers get decode write AnalyticsSerializers key =
    io_for [(key, MsgpSerializer), (key @ ''_protobuf'', ProtobufSerializer)] (purge_key get decode write)"
  by (simp add: purge_key_def Let_def io_bind_assoc io_for_eq cong: if_cong)

lemma io_for_append_eq: "io_for (xs @ ys) f = io_bind (io_for xs f) (\<lambda>_. io_for ys f)"
  by (rule ext) (rule io_for_append)

lemma purge_records_keys: "purge_records get decode write = io_for purge_keys (purge_key get decode write)"
proof -
  have "io_for is (\<lambda>i. purge_serializers get decode write AnalyticsSerializers (base_key i)) =
      io_for (concat (map (\<lambda>i. [(base_key i, MsgpSerializer), (base_key i @ ''_protobuf'', ProtobufSerializer)]) is))
        (purge_key get decode write)" for "is"
  proof (induction "is")
    case Nil
    then show ?case by (simp add: io_for_eq)
  next
    case (Cons i "is")
    show ?case
      unfolding io_for_eq(2) [of i] list.map concat.simps io_for_append_eq [of "[_, _]"]
      using Cons.IH by (simp only: purge_serializers_keys)
  qed
  then show ?thesis unfolding purge_records_def purge_keys_def .
qed

lemma purge_keys_distinct: "distinct (map fst purge_keys)" "length purge_keys = 22"
  by code_simp+

text \<open>What becomes of a value, if no decoder panics.\<close>

definition item_of :: "(serializer \<Rightarrow> string \<Rightarrow> analytics_record res) \<Rightarrow> serializer \<Rightarrow> string \<Rightarrow> item" where
  "item_of decode ser v = (case decode ser v of Inl _ \<Rightarrow> ItemNil | Inr r \<Rightarrow> ItemRecord r)"

definition no_panic :: "(serializer \<Rightarrow> string \<Rightarrow> analytics_record res) \<Rightarrow> bool" where
  "no_panic decode \<longleftrightarrow> (\<forall>ser v p. decode ser v \<noteq> Inl (GoPanic p))"

lemma preprocess_items: "no_panic decode \<Longrightarrow> preprocess decode ser vs = Inr (map (item_of decode ser) vs)"
proof (induction vs)
  case Nil
  then show ?case by simp
next
  case (Cons v vs)
  then show ?case
    by (auto simp: item_of_def no_panic_def split: sum.splits go_error.splits)
qed

text \<open>The storage of the loop next to the batches handed to the pumps.\<close>

type_synonym 's drained = "'s \<times> item list list"

abbreviation drain_get :: "(string \<Rightarrow> ('s, string list) io) \<Rightarrow> string \<Rightarrow> ('s drained, string list) io" where
  "drain_get get k \<equiv> io_on fst (\<lambda>s x. (s, snd x)) (get k)"

definition drain_write :: "item list \<Rightarrow> ('s drained, unit) io" where
  "drain_write keys = io_upd (\<lambda>(s, out). (s, out @ [keys]))"

text \<open>A \<open>get\<close> that hands over the whole list of a key.\<close>

definition drains :: "(string \<Rightarrow> ('s, string list) io) \<Rightarrow> ('s \<Rightarrow> string \<Rightarrow> string list) \<Rightarrow> ('s \<Rightarrow> bool) \<Rightarrow> bool" where
  "drains get elems ready \<longleftrightarrow> (\<forall>s k. ready s \<longrightarrow> (\<exists>t. get k s = (Inr (elems s k), t) \<and> ready t \<and>
     elems t k = [] \<and> (\<forall>k'. k' \<noteq> k \<longrightarrow> elems t k' = elems s k')))"

definition batch_of :: "(serializer \<Rightarrow> string \<Rightarrow> analytics_record res) \<Rightarrow> ('s \<Rightarrow> string \<Rightarrow> string list) \<Rightarrow> 's \<Rightarrow>
    string \<times> serializer \<Rightarrow> item list" where
  "batch_of decode elems s ks = map (item_of decode (snd ks)) (elems s (fst ks))"

lemma drain_keys:
  assumes "drains get elems ready" and "no_panic decode" and "ready s" and "distinct (map fst keys)"
  shows "\<exists>t. io_for keys (purge_key (drain_get get) decode drain_write) (s, out) =
      (Inr (), t, out @ filter (\<lambda>b. b \<noteq> []) (map (batch_of decode elems s) keys)) \<and> ready t \<and>
    (\<forall>k. elems t k = (if k \<in> fst ` set keys then [] else elems s k))"
  using assms(3,4)
proof (induction keys arbitrary: s out)
  case Nil
  then show ?case by simp
next
  case (Cons ks keys)
  from assms(1) Cons.prems(1) obtain t where t: "get (fst ks) s = (Inr (elems s (fst ks)), t)" "ready t"
    "elems t (fst ks) = []" "\<And>k'. k' \<noteq> fst ks \<Longrightarrow> elems t k' = elems s k'" unfolding drains_def by metis
  let ?out = "out @ filter (\<lambda>b. b \<noteq> []) [batch_of decode elems s ks]"
  have head: "purge_key (drain_get get) decode drain_write ks (s, out) = (Inr (), t, ?out)"
    using t(1) by (simp add: purge_key_def io_bind_def io_try_def io_on_def PreprocessAnalyticsValues_def
        preprocess_items [OF assms(2)] drain_write_def batch_of_def Let_def)
  from Cons.prems have new: "fst ks \<notin> fst ` set keys" "distinct (map fst keys)" by auto
  then have same: "map (batch_of decode elems t) keys = map (batch_of decode elems s) keys"
    using t(4) by (intro map_cong refl) (metis batch_of_def image_eqI)
  from Cons.IH [OF t(2) new(2), of ?out] obtain u where
    u: "io_for keys (purge_key (drain_get get) decode drain_write) (t, ?out) =
        (Inr (), u, ?out @ filter (\<lambda>b. b \<noteq> []) (map (batch_of decode elems t) keys))" "ready u"
      "\<forall>k. elems u k = (if k \<in> fst ` set keys then [] else elems t k)" by blast
  then show ?case
    using head t(3,4) same by (auto simp: io_bind_def)
qed

text \<open>The storage handler is such a \<open>get\<close>, as long as its \<open>Pop\<close> answers.\<close>

definition pop_answers :: "('p, 'c, 'k, 'l, 'w) storage_lib \<Rightarrow> bool" where
  "pop_answers lib \<longleftrightarrow> (\<forall>l key w. is_ok (fst (l_Pop lib l key (-1) w)))"

definition handler_elems :: "('w \<Rightarrow> string \<Rightarrow> string list) \<Rightarrow> ('c, 'k, 'l, 'w) storage \<Rightarrow> string \<Rightarrow> string list" where
  "handler_elems elems s key = elems (st_world s) (full_key s key)"

lemma GetAndDeleteSet_drains:
  fixes lib :: "('p, 'c, 'k, 'l, 'w) storage_lib"
  assumes "pop_law lib elems" and "pop_answers lib"
  shows "drains (\<lambda>key. GetAndDeleteSet lib retry key 0 expire) (handler_elems elems) storage_ready"
  unfolding drains_def
proof (intro allI impI)
  fix s :: "('c, 'k, 'l, 'w) storage" and key
  assume s: "storage_ready s"
  then obtain c cfg k l where l: "st_list s = Some l" "st_kv s = Some k" "st_Config s = Some cfg" by (rule storage_readyE)
  obtain vs w where pop: "l_Pop lib l (full_key s key) (-1) (st_world s) = (Inr vs, w)"
    using assms(2) unfolding pop_answers_def by (metis is_ok_conv prod.collapse)
  from assms(1) pop have w: "vs = elems (st_world s) (full_key s key)" "elems w (full_key s key) = []"
    "\<forall>k. k \<noteq> full_key s key \<longrightarrow> elems w k = elems (st_world s) k"
    unfolding pop_law_def by fastforce+
  have "GetAndDeleteSet lib retry key 0 expire s = (Inr vs, s\<lparr>st_world := w\<rparr>)"
    using GetAndDeleteSet_run [OF s l(1,2), of lib key 0 "Inr vs" w retry expire] pop by simp
  moreover have "storage_ready (s\<lparr>st_world := w\<rparr>)" using s by (simp add: storage_ready_def)
  ultimately show "\<exists>t. GetAndDeleteSet lib retry key 0 expire s = (Inr (handler_elems elems s key), t) \<and> storage_ready t \<and>
      handler_elems elems t key = [] \<and> (\<forall>k'. k' \<noteq> key \<longrightarrow> handler_elems elems t k' = handler_elems elems s k')"
    using w l(3) by (auto simp: handler_elems_def full_key_def)
qed



end
