(* ===== verification/Serializer.thy ===== *)
theory Serializer
  imports Analytics_Record
begin

text \<open>
  The protobuf serializer, \<open>src/serializer/protobuf.go\<close>, with the conversion of the time stamps
  in \<open>src/analytics/analytics.go\<close>: a record is copied into a message with narrower integers and
  optional submessages, and back. The wire format (\<open>proto.Marshal\<close>) and the time zone database
  are parameters. The lemmas: what a record looks like after a round trip, and that messages
  without their submessages make the decoder panic.
\<close>

section \<open>Messages\<close>

type_synonym i32 = "32 word"

record pb_timestamp =
  pt_Seconds :: i64
  pt_Nanos :: i32

record pb_latency =
  pl_Total :: i64
  pl_Upstream :: i64

record pb_city =
  pc_Names :: "(string, string) gomap"
  pc_GeoNameID :: "32 word"

record pb_location =
  pl_Latitude :: f64
  pl_Longitude :: f64
  pl_TimeZone :: string

record pb_geo =
  pg_Country :: "string option"
  pg_City :: "pb_city option"
  pg_Location :: "pb_location option"

record pb_network =
  pn_OpenConnections :: i64
  pn_ClosedConnections :: i64
  pn_BytesIn :: i64
  pn_BytesOut :: i64

datatype pb_operation = PbUnknown | PbQuery | PbMutation | PbSubscription

record pb_graphql =
  pq_IsGraphQL :: bool
  pq_Types :: "(string, string list) gomap"
  pq_OperationType :: pb_operation
  pq_Variables :: string
  pq_RootFields :: "string list"
  pq_HasError :: bool
  pq_GraphErrors :: "string list"

record pb_mcp =
  pm_IsMCP :: bool
  pm_JSONRPCMethod :: string
  pm_PrimitiveType :: string
  pm_PrimitiveName :: string

record pb_record =
  p_Host :: string
  p_Method :: string
  p_Path :: string
  p_RawPath :: string
  p_ContentLength :: i64
  p_UserAgent :: string
  p_Day :: i32
  p_Month :: i32
  p_Year :: i32
  p_Hour :: i32
  p_ResponseCode :: i32
  p_APIKey :: string
  p_TimeStamp :: "pb_timestamp option"
  p_APIVersion :: string
  p_APIName :: string
  p_APIID :: string
  p_OrgID :: string
  p_RequestTime :: i64
  p_Latency :: "pb_latency option"
  p_RawRequest :: string
  p_RawResponse :: string
  p_IPAddress :: string
  p_Geo :: "pb_geo option"
  p_Network :: "pb_network option"
  p_Tags :: "string list"
  p_Alias :: string
  p_TrackPath :: bool
  p_ExpireAt :: "pb_timestamp option"
  p_OauthID :: string
  p_TimeZone :: string
  p_ApiSchema :: string
  p_GraphQLStats :: "pb_graphql option"
  p_MCPStats :: "pb_mcp option"
  p_OriginalPath :: string
  p_ListenPath :: string

section \<open>Time stamps\<close>

definition timestamp_New :: "gotime \<Rightarrow> pb_timestamp" where
  "timestamp_New t = \<lparr>pt_Seconds = time_unix t, pt_Nanos = word_of_int (t_nsec t)\<rparr>"

text \<open>\<open>AsTime\<close> reads a nil time stamp as the epoch; it is in UTC.\<close>

definition AsTime :: "pb_timestamp option \<Rightarrow> gotime" where
  "AsTime p = (case p of
      None \<Rightarrow> \<lparr>t_sec = 0, t_nsec = 0, t_zone = ''UTC'', t_off = 0\<rparr>
    | Some p \<Rightarrow> \<lparr>t_sec = sint (pt_Seconds p) + sint (pt_Nanos p) div 1000000000,
                 t_nsec = sint (pt_Nanos p) mod 1000000000, t_zone = ''UTC'', t_off = 0\<rparr>)"

text \<open>\<open>load\<close> is \<open>time.LoadLocation\<close>: the zone of a name, if the database has it.\<close>

definition TimestampToProto :: "analytics_record \<Rightarrow> pb_record \<Rightarrow> pb_record" where
  "TimestampToProto a p = p\<lparr>p_TimeStamp := Some (timestamp_New (r_TimeStamp a)),
     p_ExpireAt := Some (timestamp_New (r_ExpireAt a)), p_TimeZone := t_zone (r_TimeStamp a)\<rparr>"

definition TimeStampFromProto :: "(string \<Rightarrow> (string \<times> int) option) \<Rightarrow> pb_record \<Rightarrow> analytics_record \<Rightarrow> analytics_record" where
  "TimeStampFromProto load p a = (case load (p_TimeZone p) of
      None \<Rightarrow> a
    | Some (zone, off) \<Rightarrow> a\<lparr>r_TimeStamp := time_in (AsTime (p_TimeStamp p)) zone off,
                             r_ExpireAt := time_in (AsTime (p_ExpireAt p)) zone off\<rparr>)"

section \<open>Encoding\<close>

fun operation_to_proto :: "graphql_operation \<Rightarrow> pb_operation" where
  "operation_to_proto OperationQuery = PbQuery"
| "operation_to_proto OperationMutation = PbMutation"
| "operation_to_proto OperationSubscription = PbSubscription"
| "operation_to_proto OperationUnknown = PbUnknown"

fun operation_from_proto :: "pb_operation \<Rightarrow> graphql_operation" where
  "operation_from_proto PbQuery = OperationQuery"
| "operation_from_proto PbMutation = OperationMutation"
| "operation_from_proto PbSubscription = OperationSubscription"
| "operation_from_proto PbUnknown = OperationUnknown"

definition copy_types :: "(string, string list) gomap \<Rightarrow> (string, string list) gomap" where
  "copy_types m = fold (\<lambda>(k, v) acc. gomap_set acc k v) m []"

definition graphql_to_proto :: "graphql_stats \<Rightarrow> pb_graphql" where
  "graphql_to_proto g =
     \<lparr>pq_IsGraphQL = True, pq_Types = copy_types (gq_Types g), pq_OperationType = operation_to_proto (gq_OperationType g),
      pq_Variables = gq_Variables g, pq_RootFields = gq_RootFields g, pq_HasError = gq_HasErrors g,
      pq_GraphErrors = map ge_Message (gq_Errors g)\<rparr>"

definition geo_to_proto :: "geo_data \<Rightarrow> pb_geo" where
  "geo_to_proto g =
     \<lparr>pg_Country = Some (geo_Country g),
      pg_City = Some \<lparr>pc_Names = ci_Names (geo_City g), pc_GeoNameID = ucast (ci_GeoNameID (geo_City g))\<rparr>,
      pg_Location = Some \<lparr>pl_Latitude = lo_Latitude (geo_Location g), pl_Longitude = lo_Longitude (geo_Location g),
        pl_TimeZone = lo_TimeZone (geo_Location g)\<rparr>\<rparr>"

definition TransformSingleRecordToProto :: "analytics_record \<Rightarrow> pb_record" where
  "TransformSingleRecordToProto r =
     TimestampToProto r
       \<lparr>p_Host = r_Host r, p_Method = r_Method r, p_Path = r_Path r, p_RawPath = r_RawPath r,
        p_ContentLength = r_ContentLength r, p_UserAgent = r_UserAgent r,
        p_Day = ucast (r_Day r), p_Month = ucast (r_Month r), p_Year = ucast (r_Year r), p_Hour = ucast (r_Hour r),
        p_ResponseCode = ucast (r_ResponseCode r), p_APIKey = r_APIKey r, p_TimeStamp = None,
        p_APIVersion = r_APIVersion r, p_APIName = r_APIName r, p_APIID = r_APIID r, p_OrgID = r_OrgID r,
        p_RequestTime = r_RequestTime r,
        p_Latency = Some \<lparr>pl_Total = la_Total (r_Latency r), pl_Upstream = la_Upstream (r_Latency r)\<rparr>,
        p_RawRequest = r_RawRequest r, p_RawResponse = r_RawResponse r, p_IPAddress = r_IPAddress r,
        p_Geo = Some (geo_to_proto (r_Geo r)),
        p_Network = Some \<lparr>pn_OpenConnections = ns_OpenConnections (r_Network r),
          pn_ClosedConnections = ns_ClosedConnection (r_Network r), pn_BytesIn = ns_BytesIn (r_Network r),
          pn_BytesOut = ns_BytesOut (r_Network r)\<rparr>,
        p_Tags = r_Tags r, p_Alias = r_Alias r, p_TrackPath = r_TrackPath r, p_ExpireAt = None,
        p_OauthID = r_OauthID r, p_TimeZone = [], p_ApiSchema = r_ApiSchema r,
        p_GraphQLStats = (if gq_IsGraphQL (r_GraphQLStats r) then Some (graphql_to_proto (r_GraphQLStats r)) else None),
        p_MCPStats = (if mc_IsMCP (r_MCPStats r)
          then Some \<lparr>pm_IsMCP = True, pm_JSONRPCMethod = mc_JSONRPCMethod (r_MCPStats r),
            pm_PrimitiveType = mc_PrimitiveType (r_MCPStats r), pm_PrimitiveName = mc_PrimitiveName (r_MCPStats r)\<rparr>
          else None),
        p_OriginalPath = r_OriginalPath r, p_ListenPath = r_ListenPath r\<rparr>"

section \<open>Decoding\<close>

definition deref :: "'a option \<Rightarrow> 'a res" where
  "deref p = (case p of None \<Rightarrow> Inl (GoPanic ''invalid memory address or nil pointer dereference'') | Some x \<Rightarrow> Inr x)"

lemma deref_simps [simp]: "deref (Some x) = Inr x" "\<not> is_ok (deref None)"
  by (simp_all add: deref_def)

definition geo_from_proto :: "pb_geo \<Rightarrow> geo_data res" where
  "geo_from_proto g =
     rbind (deref (pg_Country g)) (\<lambda>country.
     rbind (deref (pg_City g)) (\<lambda>city.
     rbind (deref (pg_Location g)) (\<lambda>loc.
       Inr \<lparr>geo_Country = country, geo_City = \<lparr>ci_GeoNameID = ucast (pc_GeoNameID city), ci_Names = []\<rparr>,
            geo_Location = \<lparr>lo_Latitude = pl_Latitude loc, lo_Longitude = pl_Longitude loc,
              lo_TimeZone = pl_TimeZone loc\<rparr>\<rparr>)))"

definition graphql_from_proto :: "pb_graphql \<Rightarrow> graphql_stats" where
  "graphql_from_proto g =
     \<lparr>gq_Variables = pq_Variables g, gq_RootFields = pq_RootFields g, gq_Types = copy_types (pq_Types g),
      gq_Errors = map (\<lambda>m. \<lparr>ge_Message = m, ge_Path = []\<rparr>) (pq_GraphErrors g),
      gq_OperationType = operation_from_proto (pq_OperationType g), gq_HasErrors = pq_HasError g,
      gq_IsGraphQL = pq_IsGraphQL g\<rparr>"

definition mcp_from_proto :: "pb_mcp \<Rightarrow> mcp_stats" where
  "mcp_from_proto m = \<lparr>mc_IsMCP = pm_IsMCP m, mc_JSONRPCMethod = pm_JSONRPCMethod m,
     mc_PrimitiveType = pm_PrimitiveType m, mc_PrimitiveName = pm_PrimitiveName m\<rparr>"

definition TransformSingleProtoToAnalyticsRecord ::
  "(string \<Rightarrow> (string \<times> int) option) \<Rightarrow> pb_record \<Rightarrow> analytics_record res" where
  "TransformSingleProtoToAnalyticsRecord load p =
     rbind (deref (p_Geo p)) (\<lambda>geo.
     rbind (geo_from_proto geo) (\<lambda>geo.
     rbind (deref (p_Network p)) (\<lambda>net.
     rbind (deref (p_Latency p)) (\<lambda>lat.
       (let tmp = record_zero\<lparr>
              r_Method := p_Method p, r_Host := p_Host p, r_Path := p_Path p, r_RawPath := p_RawPath p,
              r_ContentLength := p_ContentLength p, r_UserAgent := p_UserAgent p,
              r_Day := scast (p_Day p), r_Month := scast (p_Month p), r_Year := scast (p_Year p),
              r_Hour := scast (p_Hour p), r_ResponseCode := scast (p_ResponseCode p),
              r_APIKey := p_APIKey p, r_APIVersion := p_APIVersion p, r_APIName := p_APIName p,
              r_APIID := p_APIID p, r_OrgID := p_OrgID p, r_OauthID := p_OauthID p,
              r_RequestTime := p_RequestTime p, r_RawRequest := p_RawRequest p, r_RawResponse := p_RawResponse p,
              r_IPAddress := p_IPAddress p, r_Geo := geo,
              r_Network := \<lparr>ns_OpenConnections = pn_OpenConnections net, ns_ClosedConnection = pn_ClosedConnections net,
                ns_BytesIn = pn_BytesIn net, ns_BytesOut = pn_BytesOut net\<rparr>,
              r_Latency := \<lparr>la_Total = pl_Total lat, la_Upstream = pl_Upstream lat, la_Gateway = 0\<rparr>,
              r_Tags := p_Tags p, r_Alias := p_Alias p, r_TrackPath := p_TrackPath p,
              r_ApiSchema := p_ApiSchema p, r_OriginalPath := p_OriginalPath p, r_ListenPath := p_ListenPath p\<rparr>;
            tmp = TimeStampFromProto load p tmp
        in Inr (tmp\<lparr>
             r_GraphQLStats := (case p_GraphQLStats p of None \<Rightarrow> graphql_zero | Some g \<Rightarrow> graphql_from_proto g),
             r_MCPStats := (case p_MCPStats p of None \<Rightarrow> mcp_zero | Some m \<Rightarrow> mcp_from_proto m)\<rparr>))))))"

definition pb_Encode :: "(pb_record \<Rightarrow> string res) \<Rightarrow> analytics_record \<Rightarrow> string res" where
  "pb_Encode marshal r = marshal (TransformSingleRecordToProto r)"

definition pb_Decode :: "(string \<Rightarrow> pb_record res) \<Rightarrow> (string \<Rightarrow> (string \<times> int) option) \<Rightarrow> string \<Rightarrow> analytics_record res" where
  "pb_Decode unmarshal load s = rbind (unmarshal s) (TransformSingleProtoToAnalyticsRecord load)"

section \<open>Round trips\<close>

lemma operation_round_trip [simp]: "operation_from_proto (operation_to_proto t) = t"
  by (cases t) simp_all

lemma update_new: "k \<notin> fst ` set acc \<Longrightarrow> AList.update k v acc = acc @ [(k, v)]"
  by (induction acc) auto

lemma copy_types_ok:
  assumes "gomap_ok m"
  shows "copy_types m = m"
proof -
  have "fold (\<lambda>(k, v) acc. gomap_set acc k v) m acc = acc @ m"
    if "gomap_ok m" "fst ` set m \<inter> fst ` set acc = {}" for acc :: "(string, string list) gomap"
    using that
  proof (induction m arbitrary: acc)
    case Nil
    then show ?case by simp
  next
    case (Cons kv m)
    obtain k v where kv: "kv = (k, v)" by fastforce
    have "gomap_set acc k v = acc @ [(k, v)]" using Cons.prems(2) by (intro update_new) (auto simp: kv)
    moreover have "gomap_ok m" "fst ` set m \<inter> fst ` set (acc @ [(k, v)]) = {}"
      using Cons.prems by (auto simp: kv gomap_ok_def)
    ultimately show ?case using Cons.IH [of "acc @ [(k, v)]"] by (simp add: kv)
  qed
  from this [of "[]"] assms show ?thesis by (simp add: copy_types_def)
qed

definition int32_ok :: "i64 \<Rightarrow> bool" where
  "int32_ok x \<longleftrightarrow> - (2 ^ 31) \<le> sint x \<and> sint x < 2 ^ 31"

lemma int32_round_trip: "int32_ok x \<Longrightarrow> scast (ucast x :: i32) = x"
proof -
  assume x: "int32_ok x"
  have "sint (ucast x :: i32) = signed_take_bit 31 (uint x)"
    by (simp add: signed_ucast_eq unsigned_ucast_eq)
  also have "\<dots> = signed_take_bit 31 (sint x)"
    unfolding signed_take_bit_eq_iff_take_bit_eq by (simp add: sint_uint take_bit_signed_take_bit)
  also have "\<dots> = sint x" using x by (simp add: signed_take_bit_int_eq_self int32_ok_def)
  finally have "sint (ucast x :: i32) = sint x" .
  then show ?thesis by (simp add: scast_eq)
qed

definition wire_ok :: "analytics_record \<Rightarrow> bool" where
  "wire_ok r \<longleftrightarrow> int32_ok (r_Day r) \<and> int32_ok (r_Month r) \<and> int32_ok (r_Year r) \<and> int32_ok (r_Hour r) \<and>
     int32_ok (r_ResponseCode r) \<and> uint (ci_GeoNameID (geo_City (r_Geo r))) < 2 ^ 32 \<and>
     time_ok (r_TimeStamp r) \<and> \<bar>t_sec (r_TimeStamp r)\<bar> < 2 ^ 63 \<and> time_ok (r_ExpireAt r) \<and> \<bar>t_sec (r_ExpireAt r)\<bar> < 2 ^ 63 \<and>
     gomap_ok (gq_Types (r_GraphQLStats r))"

text \<open>What the message does not carry.\<close>

definition wire_view :: "analytics_record \<Rightarrow> analytics_record" where
  "wire_view r = r\<lparr>r_id := [], r_CollectionName := [], r_Latency := (r_Latency r)\<lparr>la_Gateway := 0\<rparr>,
     r_Geo := (r_Geo r)\<lparr>geo_City := (geo_City (r_Geo r))\<lparr>ci_Names := []\<rparr>\<rparr>,
     r_ExpireAt := time_in (r_ExpireAt r) (t_zone (r_TimeStamp r)) (t_off (r_TimeStamp r)),
     r_GraphQLStats := (if gq_IsGraphQL (r_GraphQLStats r)
       then (r_GraphQLStats r)\<lparr>gq_Errors := map (\<lambda>e. e\<lparr>ge_Path := []\<rparr>) (gq_Errors (r_GraphQLStats r))\<rparr> else graphql_zero),
     r_MCPStats := (if mc_IsMCP (r_MCPStats r) then r_MCPStats r else mcp_zero)\<rparr>"


lemma nameid_round_trip: "uint x < 2 ^ 32 \<Longrightarrow> ucast (ucast x :: i32) = (x :: i64)"
proof -
  assume "uint x < 2 ^ 32"
  then have "uint (ucast x :: i32) = uint x" by (simp add: unsigned_ucast_eq take_bit_int_eq_self)
  then show ?thesis by (metis ucast_eq word_of_int_uint)
qed

lemma time_round_trip:
  assumes "time_ok t" and "\<bar>t_sec t\<bar> < 2 ^ 63"
  shows "time_in (AsTime (Some (timestamp_New t))) zone off = time_in t zone off"
proof -
  have "sint (word_of_int (t_sec t) :: i64) = t_sec t" using assms(2) by (intro sint_of_int64) auto
  moreover have "sint (word_of_int (t_nsec t) :: i32) = t_nsec t"
    using assms(1) by (simp add: time_ok_def sint_sbintrunc' signed_take_bit_int_eq_self)
  ultimately show ?thesis
    using assms(1) by (simp add: AsTime_def timestamp_New_def time_unix_def time_in_def time_ok_def)
qed

lemma geo_round_trip:
  "uint (ci_GeoNameID (geo_City g)) < 2 ^ 32 \<Longrightarrow>
    geo_from_proto (geo_to_proto g) = Inr (g\<lparr>geo_City := (geo_City g)\<lparr>ci_Names := []\<rparr>\<rparr>)"
  by (simp add: geo_from_proto_def geo_to_proto_def nameid_round_trip)

lemma graphql_round_trip:
  "gomap_ok (gq_Types g) \<Longrightarrow> gq_IsGraphQL g \<Longrightarrow>
    graphql_from_proto (graphql_to_proto g) = g\<lparr>gq_Errors := map (\<lambda>e. e\<lparr>ge_Path := []\<rparr>) (gq_Errors g)\<rparr>"
  by (simp add: graphql_from_proto_def graphql_to_proto_def copy_types_ok)

text \<open>
  C22. A record that fits the message survives encoding and decoding, if its time zone loads under
  its own name and the wire format is faithful, except for what the message does not carry: the
  gateway latency, the names of the city, the paths of GraphQL errors, the object id, the
  collection name, and the zone of the expiry, which becomes that of the time stamp; statistics
  of a record that is not a GraphQL or MCP record are dropped.
\<close>

theorem protobuf_round_trip:
  assumes "wire_ok r" and "load (t_zone (r_TimeStamp r)) = Some (t_zone (r_TimeStamp r), t_off (r_TimeStamp r))"
    and "pb_Encode marshal r = Inr s" and "\<And>p s. marshal p = Inr s \<Longrightarrow> unmarshal s = Inr p"
  shows "pb_Decode unmarshal load s = Inr (wire_view r)"
proof -
  let ?p = "TransformSingleRecordToProto r"
  have "unmarshal s = Inr ?p" using assms(3,4) by (simp add: pb_Encode_def)
  moreover have "TransformSingleProtoToAnalyticsRecord load ?p = Inr (wire_view r)"
  proof -
    have ts: "time_in (AsTime (Some (timestamp_New (r_TimeStamp r)))) (t_zone (r_TimeStamp r)) (t_off (r_TimeStamp r)) = r_TimeStamp r"
      using assms(1) by (simp add: time_round_trip wire_ok_def) (simp add: time_in_def)
    have ex: "time_in (AsTime (Some (timestamp_New (r_ExpireAt r)))) zone off = time_in (r_ExpireAt r) zone off" for zone off
      using assms(1) by (simp add: time_round_trip wire_ok_def)
    have gq: "gq_IsGraphQL (r_GraphQLStats r) \<Longrightarrow> graphql_from_proto (graphql_to_proto (r_GraphQLStats r)) =
        (r_GraphQLStats r)\<lparr>gq_Errors := map (\<lambda>e. e\<lparr>ge_Path := []\<rparr>) (gq_Errors (r_GraphQLStats r))\<rparr>"
      using assms(1) by (simp add: graphql_round_trip wire_ok_def)
    show ?thesis
      using assms(1,2) ts ex gq
      by (simp add: TransformSingleProtoToAnalyticsRecord_def TransformSingleRecordToProto_def TimestampToProto_def
          TimeStampFromProto_def geo_round_trip wire_ok_def int32_round_trip wire_view_def mcp_from_proto_def record_zero_def Let_def)
  qed
  ultimately show ?thesis by (simp add: pb_Decode_def)
qed

text \<open>
  A message without one of its submessages for geography, network or latency, which the wire
  format allows, makes the decoder panic instead of returning an error.
\<close>

theorem protobuf_missing_panics:
  assumes "unmarshal s = Inr p" and "p_Geo p = None \<or> p_Network p = None \<or> p_Latency p = None"
  shows "\<exists>m. pb_Decode unmarshal load s = Inl (GoPanic m)"
proof -
  have "\<exists>m. geo_from_proto g = Inl (GoPanic m)" if "\<not> is_ok (geo_from_proto g)" for g
    using that by (auto simp: geo_from_proto_def deref_def split: option.splits)
  then have "is_ok (geo_from_proto g) \<or> (\<exists>m. geo_from_proto g = Inl (GoPanic m))" for g by blast
  then show ?thesis
    using assms
    by (cases "p_Geo p"; cases "p_Network p"; cases "p_Latency p")
      (auto simp: pb_Decode_def TransformSingleProtoToAnalyticsRecord_def deref_def is_ok_conv, (metis rbind_simps)+)
qed

definition sample_wire :: analytics_record where
  "sample_wire = record_zero\<lparr>r_APIID := ''a'', r_ResponseCode := 404, r_Latency := \<lparr>la_Total = 5, la_Upstream = 3, la_Gateway = 2\<rparr>\<rparr>"

theorem protobuf_round_trip_witness:
  "\<exists>s :: string. pb_Decode (\<lambda>_. Inr (TransformSingleRecordToProto sample_wire)) (\<lambda>z. Some (z, 0)) s =
     Inr (sample_wire\<lparr>r_Latency := \<lparr>la_Total = 5, la_Upstream = 3, la_Gateway = 0\<rparr>\<rparr>)"
proof -
  let ?p = "TransformSingleRecordToProto sample_wire"
  let ?m = "\<lambda>p. if p = ?p then Inr [] else Inl (GoErr ''marshal'')"
  have "wire_ok sample_wire"
    by (simp add: wire_ok_def sample_wire_def record_zero_def int32_ok_def geo_zero_def time_ok_def time_zero_def graphql_zero_def)
  moreover have "Some (t_zone (r_TimeStamp sample_wire), 0) = Some (t_zone (r_TimeStamp sample_wire), t_off (r_TimeStamp sample_wire))"
    by (simp add: sample_wire_def record_zero_def time_zero_def)
  moreover have "pb_Encode ?m sample_wire = Inr []" by (simp add: pb_Encode_def)
  moreover have "Inr ?p = (Inr p :: pb_record res)" if "?m p = Inr s" for p s using that by (simp split: if_splits)
  ultimately have "pb_Decode (\<lambda>_. Inr ?p) (\<lambda>z. Some (z, 0)) [] = Inr (wire_view sample_wire)"
    by (rule protobuf_round_trip [where marshal = ?m and load = "\<lambda>z. Some (z, 0)"])
  moreover have "wire_view sample_wire = sample_wire\<lparr>r_Latency := \<lparr>la_Total = 5, la_Upstream = 3, la_Gateway = 0\<rparr>\<rparr>"
    by (simp add: sample_wire_def record_zero_def time_zero_def wire_view_def time_in_def geo_zero_def graphql_zero_def mcp_zero_def)
  ultimately show ?thesis by auto
qed

theorem protobuf_missing_panics_witness:
  "\<exists>m. pb_Decode (\<lambda>_. Inr ((TransformSingleRecordToProto sample_wire)\<lparr>p_Geo := None\<rparr>)) (\<lambda>_. None) [] = Inl (GoPanic m)"
  by (rule protobuf_missing_panics [of "\<lambda>_. Inr ((TransformSingleRecordToProto sample_wire)\<lparr>p_Geo := None\<rparr>)" "[]", OF refl]) simp

end
