(* ===== verification/Batching.thy ===== *)
theory Batching
  imports GoIO
begin

text \<open>
  Two loops many pumps share. \<open>slices\<close> is \<open>for i := 0; i < len(recs); i += batchSize\<close> over the
  sub-slices of a batch; the locale \<open>batching\<close> states what a pump needs of any way to cut a batch,
  and is interpreted on it here and on the other ways by the pumps that have them. \<open>shard_loop\<close>
  is the index loop of the SQL pumps that starts a new table whenever the date of the records
  changes; it is equal to a loop over the runs of records of the same date.
\<close>

text \<open>A loop whose iterations succeed and keep an invariant.\<close>

lemma io_for_invariant:
  assumes "\<And>x s. x \<in> set xs \<Longrightarrow> P s \<Longrightarrow> \<exists>s'. f x s = (Inr (), s') \<and> P s'" and "P s"
  shows "\<exists>s'. io_for xs f s = (Inr (), s') \<and> P s'"
  using assms
proof (induction xs arbitrary: s)
  case Nil
  then show ?case by simp
next
  case (Cons x xs)
  from Cons.prems(1) [of x s] Cons.prems(2) obtain s1 where s1: "f x s = (Inr (), s1)" "P s1" by auto
  from Cons.IH [OF _ s1(2)] Cons.prems(1) show ?case by (simp add: io_bind_def s1(1))
qed

section \<open>Cutting a batch\<close>

locale batching =
  fixes split :: "nat \<Rightarrow> 'a list \<Rightarrow> 'a list list"
  assumes split_concat: "0 < n \<Longrightarrow> concat (split n xs) = xs"
    and split_bound: "0 < n \<Longrightarrow> ys \<in> set (split n xs) \<Longrightarrow> length ys \<le> n"
begin

lemma split_set: "0 < n \<Longrightarrow> x \<in> set xs \<longleftrightarrow> (\<exists>ys \<in> set (split n xs). x \<in> set ys)"
  by (metis split_concat set_concat UN_iff)

lemma split_length: "0 < n \<Longrightarrow> sum_list (map length (split n xs)) = length xs"
  by (metis split_concat length_concat)

text \<open>
  Batches stored one after the other by a call that appends them: everything is stored in order,
  unless a call fails; then a prefix of the batches is stored, and the rest is not attempted.
\<close>

lemma stored_all:
  assumes "0 < n" and "\<And>ys s. ys \<in> set (split n xs) \<Longrightarrow> P s \<Longrightarrow> \<exists>t. f ys s = (Inr (), t) \<and> P t \<and> view t = view s @ map g ys"
    and "P s"
  shows "\<exists>t. io_for (split n xs) f s = (Inr (), t) \<and> P t \<and> view t = view s @ map g xs"
proof -
  have "\<exists>t. io_for bs f s = (Inr (), t) \<and> P t \<and> view t = view s @ map g (concat bs)"
    if "P s" "set bs \<subseteq> set (split n xs)" for bs s
    using that
  proof (induction bs arbitrary: s)
    case Nil
    then show ?case by simp
  next
    case (Cons b bs)
    from assms(2) [of b s] Cons.prems obtain t where t: "f b s = (Inr (), t)" "P t" "view t = view s @ map g b" by auto
    from Cons.IH [OF t(2)] Cons.prems obtain u where
      "io_for bs f t = (Inr (), u)" "P u" "view u = view t @ map g (concat bs)" by auto
    with t show ?case by (auto simp: io_bind_ok)
  qed
  from this [OF assms(3) subset_refl] show ?thesis by (simp add: split_concat [OF assms(1)])
qed

lemma stored_prefix:
  assumes "0 < n" and "\<And>ys s r t. ys \<in> set (split n xs) \<Longrightarrow> f ys s = (r, t) \<Longrightarrow>
      view t = view s @ (case r of Inl _ \<Rightarrow> [] | Inr _ \<Rightarrow> map g ys)"
    and "io_for (split n xs) f s = (r, t)"
  shows "\<exists>k. k \<le> length xs \<and> view t = view s @ map g (take k xs) \<and> (r = Inr () \<longrightarrow> k = length xs)"
proof -
  have "\<exists>k. k \<le> length (concat bs) \<and> view t = view s @ map g (take k (concat bs)) \<and> (r = Inr () \<longrightarrow> k = length (concat bs))"
    if "io_for bs f s = (r, t)" "set bs \<subseteq> set (split n xs)" for bs s
    using that
  proof (induction bs arbitrary: s)
    case Nil
    then show ?case by simp
  next
    case (Cons b bs)
    from Cons.prems(1) have "io_bind (f b) (\<lambda>_. io_for bs f) s = (r, t)" by simp
    then show ?case
    proof (cases rule: io_bind_cases)
      case (1 e)
      with assms(2) [of b s "Inl e" t] Cons.prems(2) have "view t = view s" by simp
      with 1 show ?thesis by (intro exI [of _ 0]) simp
    next
      case (2 u s')
      with assms(2) [of b s "Inr u" s'] Cons.prems(2) have v: "view s' = view s @ map g b" by simp
      from Cons.IH [OF 2(2)] Cons.prems(2) obtain k where k: "k \<le> length (concat bs)"
        "view t = view s' @ map g (take k (concat bs))" "r = Inr () \<longrightarrow> k = length (concat bs)" by auto
      then show ?thesis using v by (intro exI [of _ "length b + k"]) simp
    qed
  qed
  from this [OF assms(3) subset_refl] show ?thesis by (simp add: split_concat [OF assms(1)])
qed

end

section \<open>Slices by index\<close>

function slices_from :: "nat \<Rightarrow> 'a list \<Rightarrow> nat \<Rightarrow> 'a list list" where
  "slices_from batchSize recs i =
     (if batchSize = 0 \<or> length recs \<le> i then []
      else (let ends = i + batchSize;
                ends = (if ends > length recs then length recs else ends)
            in take (ends - i) (drop i recs) # slices_from batchSize recs (i + batchSize)))"
  by auto
termination by (relation "measure (\<lambda>(n, recs, i). length recs - i)") auto

declare slices_from.simps [simp del]

definition slices :: "nat \<Rightarrow> 'a list \<Rightarrow> 'a list list" where
  "slices batchSize recs = slices_from batchSize recs 0"

lemma slices_from_spec:
  "0 < n \<Longrightarrow> concat (slices_from n xs i) = drop i xs \<and> (\<forall>ys \<in> set (slices_from n xs i). length ys \<le> n \<and> ys \<noteq> [])"
proof (induction n xs i rule: slices_from.induct)
  case (1 n xs i)
  show ?case
  proof (cases "length xs \<le> i")
    case True
    then show ?thesis by (simp add: slices_from.simps)
  next
    case False
    then have rest: "concat (slices_from n xs (i + n)) = drop (i + n) xs"
      "\<forall>ys \<in> set (slices_from n xs (i + n)). length ys \<le> n \<and> ys \<noteq> []"
      using 1 by auto
    have head: "slices_from n xs i = take n (drop i xs) # slices_from n xs (i + n)"
      using 1(2) False by (subst slices_from.simps) (auto simp: Let_def)
    have "take n (drop i xs) @ drop (i + n) xs = drop i xs" by (metis append_take_drop_id add.commute drop_drop)
    with rest head 1(2) False show ?thesis by auto
  qed
qed

interpretation slices: batching slices
  using slices_from_spec by unfold_locales (auto simp: slices_def)

lemma slices_nonempty: "0 < n \<Longrightarrow> ys \<in> set (slices n xs) \<Longrightarrow> ys \<noteq> []"
  using slices_from_spec [of n xs 0] by (auto simp: slices_def)

section \<open>One table for each date\<close>

text \<open>
  The date of an element can panic (a failed type assertion). Some pumps take the date of the
  last table from the last element (\<open>relast\<close>).
\<close>

function shard_loop ::
  "bool \<Rightarrow> ('a \<Rightarrow> string res) \<Rightarrow> 'a list \<Rightarrow> (string \<Rightarrow> 'a list \<Rightarrow> ('s, unit) io) \<Rightarrow> nat \<Rightarrow> nat \<Rightarrow> ('s, unit) io" where
  "shard_loop relast date data write startIndex i =
     (if length data < i then io_ret ()
      else
        (case date (data ! startIndex) of Inl e \<Rightarrow> io_fail e | Inr recDate \<Rightarrow>
          (case date (if i = length data then data ! (length data - 1) else data ! i) of Inl e \<Rightarrow> io_fail e | Inr nextRecDate \<Rightarrow>
            (if i \<noteq> length data \<and> recDate = nextRecDate then shard_loop relast date data write startIndex (Suc i)
             else io_bind (write (if i = length data \<and> relast then nextRecDate else recDate)
                            (take (i - startIndex) (drop startIndex data)))
                    (\<lambda>_. shard_loop relast date data write i (Suc i))))))"
  by auto
termination by (relation "measure (\<lambda>(r, date, data, write, s, i). Suc (length data) - i)") auto

declare shard_loop.simps [simp del]

text \<open>The runs of records of the same date.\<close>

function date_runs :: "('a \<Rightarrow> string) \<Rightarrow> 'a list \<Rightarrow> (string \<times> 'a list) list" where
  "date_runs date [] = []"
| "date_runs date (x # xs) =
     (date x, x # takeWhile (\<lambda>y. date y = date x) xs) # date_runs date (dropWhile (\<lambda>y. date y = date x) xs)"
  by pat_completeness auto
termination by (relation "measure (\<lambda>(date, xs). length xs)") (auto simp: le_imp_less_Suc length_dropWhile_le)

lemma date_runs_concat: "concat (map snd (date_runs date xs)) = xs"
  by (induction date xs rule: date_runs.induct) simp_all

lemma date_runs_date: "(d, ys) \<in> set (date_runs date xs) \<Longrightarrow> y \<in> set ys \<Longrightarrow> date y = d"
  by (induction date xs rule: date_runs.induct) (auto dest: set_takeWhileD)

lemma date_runs_nonempty: "(d, ys) \<in> set (date_runs date xs) \<Longrightarrow> ys \<noteq> []"
  by (induction date xs rule: date_runs.induct) auto

lemma shard_loop_runs:
  assumes dates: "list_all (\<lambda>x. date x = Inr (d x)) data"
    and "s < length data" and "s \<le> i" and "i \<le> length data"
    and "\<forall>j. s \<le> j \<and> j < i \<longrightarrow> d (data ! j) = d (data ! s)"
  shows "shard_loop relast date data write s i = io_for (date_runs d (drop s data)) (\<lambda>(k, xs). write k xs)"
  using assms(2-)
proof (induction "Suc (length data) - i" arbitrary: s i rule: less_induct)
  case less
  let ?P = "\<lambda>y. d (y) = d (data ! s)"
  have nth: "date (data ! j) = Inr (d (data ! j))" if "j < length data" for j
    using dates that by (simp add: list_all_length)
  have drop_s: "drop s data = data ! s # drop (Suc s) data" using less.prems(1) by (simp add: Cons_nth_drop_Suc)
  have same: "take (i - s) (drop s data) = takeWhile ?P (drop s data) \<and> drop i data = dropWhile ?P (drop s data)"
    if stop: "i = length data \<or> d (data ! i) \<noteq> d (data ! s)"
  proof -
    have parts: "drop s data = take (i - s) (drop s data) @ drop i data"
      using less.prems(2) by (metis append_take_drop_id drop_drop le_add_diff_inverse2)
    have all: "\<And>y. y \<in> set (take (i - s) (drop s data)) \<Longrightarrow> ?P y"
    proof -
      fix y
      assume "y \<in> set (take (i - s) (drop s data))"
      then obtain j where "j < length (take (i - s) (drop s data))" "take (i - s) (drop s data) ! j = y"
        unfolding in_set_conv_nth by blast
      then have "j < i - s" "data ! (s + j) = y" using less.prems(1) by simp_all
      moreover have "s \<le> s + j \<and> s + j < i" using \<open>j < i - s\<close> by simp
      ultimately show "?P y" using less.prems(4) by blast
    qed
    have "drop i data = [] \<or> \<not> ?P (hd (drop i data))"
      using stop less.prems(3) by (cases "i = length data") (auto simp: hd_drop_conv_nth)
    then have rest: "takeWhile ?P (drop i data) = []" "dropWhile ?P (drop i data) = drop i data"
      by (cases "drop i data"; simp)+
    have "takeWhile ?P (take (i - s) (drop s data) @ drop i data) = take (i - s) (drop s data) @ takeWhile ?P (drop i data)"
      "dropWhile ?P (take (i - s) (drop s data) @ drop i data) = dropWhile ?P (drop i data)"
      by ((rule takeWhile_append2 dropWhile_append2, erule all)+)
    then show ?thesis unfolding rest by (simp only: parts [symmetric] append_Nil2)
  qed
  show ?case
  proof (cases "i \<noteq> length data \<and> d (data ! i) = d (data ! s)")
    case True
    then have "shard_loop relast date data write s i = shard_loop relast date data write s (Suc i)"
      using less.prems by (subst shard_loop.simps) (simp add: nth)
    also have "\<dots> = io_for (date_runs d (drop s data)) (\<lambda>(k, xs). write k xs)"
      by (rule less.hyps) (use less.prems True in \<open>auto simp: less_Suc_eq\<close>)
    finally show ?thesis .
  next
    case False
    then have stop: "i = length data \<or> d (data ! i) \<noteq> d (data ! s)" by blast
    have head: "date_runs d (drop s data) = (d (data ! s), take (i - s) (drop s data)) # date_runs d (drop i data)"
    proof -
      have runs: "date_runs d (drop s data) = (d (data ! s), data ! s # takeWhile ?P (drop (Suc s) data)) #
          date_runs d (dropWhile ?P (drop (Suc s) data))"
        by (subst drop_s) (rule date_runs.simps)
      have tw: "takeWhile ?P (drop s data) = data ! s # takeWhile ?P (drop (Suc s) data)"
        by (subst drop_s) simp
      have dw: "dropWhile ?P (drop s data) = dropWhile ?P (drop (Suc s) data)"
        by (subst drop_s) simp
      show ?thesis unfolding runs conjunct1 [OF same [OF stop]] conjunct2 [OF same [OF stop]] tw dw ..
    qed
    have step: "shard_loop relast date data write s i = io_bind (write (d (data ! s)) (take (i - s) (drop s data)))
        (\<lambda>_. shard_loop relast date data write i (Suc i))"
    proof (cases "i = length data")
      case True
      then have "s \<le> length data - 1 \<and> length data - 1 < i" using less.prems(1) by linarith
      then have "d (data ! (length data - 1)) = d (data ! s)" by (rule less.prems(4) [rule_format])
      then have l: "date (data ! (length data - 1)) = Inr (d (data ! s))" and f: "date (data ! s) = Inr (d (data ! s))"
        using nth less.prems(1) by simp_all
      show ?thesis by (subst shard_loop.simps) (simp only: True l f less_irrefl if_False if_True if_cancel sum.case simp_thms)
    next
      case ne: False
      with stop have "d (data ! s) \<noteq> d (data ! i)" by metis
      with ne less.prems(1,3) have f: "date (data ! s) = Inr (d (data ! s))" and l: "date (data ! i) = Inr (d (data ! i))"
        and n: "\<not> length data < i" "\<not> d (data ! s) = d (data ! i)" using nth by simp_all
      show ?thesis by (subst shard_loop.simps) (simp only: ne f l n if_False if_True sum.case simp_thms)
    qed
    have "shard_loop relast date data write i (Suc i) = io_for (date_runs d (drop i data)) (\<lambda>(k, xs). write k xs)"
    proof (cases "i = length data")
      case True
      then show ?thesis by (subst shard_loop.simps) (simp add: io_for_eq)
    next
      case False
      with less.prems show ?thesis
        by (intro less.hyps) (auto simp: less_Suc_eq_le)
    qed
    then show ?thesis unfolding step head io_for_eq by simp
  qed
qed

lemma shard_loop_eq:
  assumes "list_all (\<lambda>x. date x = Inr (d x)) data" and "data \<noteq> []"
  shows "shard_loop relast date data write 0 0 = io_for (date_runs d data) (\<lambda>(k, xs). write k xs)"
  using shard_loop_runs [OF assms(1), of 0 0] assms(2) by simp

text \<open>The first element decides before anything is written.\<close>

lemma shard_loop_first_panics:
  "date (data ! 0) = Inl e \<Longrightarrow> shard_loop relast date data write 0 0 s = (Inl e, s)"
  by (subst shard_loop.simps) simp

end
