(* ===== verification/Aggregate.thy ===== *)
theory Aggregate
  imports Analytics_Record
begin

text \<open>
  The aggregation of requests, \<open>src/analytics/aggregate.go\<close> up to the maps that are handed
  to the aggregate pumps: \<open>Counter\<close>, \<open>incrementOrSetUnit\<close>,
  \<open>incrementAggregate\<close>, \<open>setAggregateTimestamp\<close>, \<open>AggregateData\<close>. The
  pointers of the counter maps are values here: every map has counters of its own, and the one
  place where the code updates a counter in place before it decides whether to store it is
  \<open>unit_at\<close>. The package variable \<open>lastDocumentTimestamp\<close> is passed along.

  The lemmas: what one record adds to a counter and to the totals, when an aggregation panics,
  the group of an organisation as a fold over its own records (through the locale
  \<open>group_loop\<close>), and the window of an aggregate document.
\<close>

named_theorems agg_simps

section \<open>Counters\<close>

record error_data =
  ed_Code :: string
  ed_Count :: i64

record counter =
  c_Hits :: i64
  c_Success :: i64
  c_ErrorTotal :: i64
  c_RequestTime :: f64
  c_TotalRequestTime :: f64
  c_Identifier :: string
  c_HumanIdentifier :: string
  c_LastTime :: gotime
  c_OpenConnections :: i64
  c_ClosedConnections :: i64
  c_BytesIn :: i64
  c_BytesOut :: i64
  c_MaxUpstreamLatency :: i64
  c_MinUpstreamLatency :: i64
  c_TotalUpstreamLatency :: i64
  c_UpstreamLatency :: f64
  c_MaxLatency :: i64
  c_MinLatency :: i64
  c_TotalLatency :: i64
  c_Latency :: f64
  c_ErrorMap :: "(string, i64) gomap option"
  c_ErrorList :: "error_data list"

definition counter_zero :: counter where
  "counter_zero = \<lparr>c_Hits = 0, c_Success = 0, c_ErrorTotal = 0, c_RequestTime = f_zero,
     c_TotalRequestTime = f_zero, c_Identifier = [], c_HumanIdentifier = [], c_LastTime = time_zero,
     c_OpenConnections = 0, c_ClosedConnections = 0, c_BytesIn = 0, c_BytesOut = 0,
     c_MaxUpstreamLatency = 0, c_MinUpstreamLatency = 0, c_TotalUpstreamLatency = 0,
     c_UpstreamLatency = f_zero, c_MaxLatency = 0, c_MinLatency = 0, c_TotalLatency = 0,
     c_Latency = f_zero, c_ErrorMap = None, c_ErrorList = []\<rparr>"

text \<open>\<open>m[k] += v\<close> where \<open>m\<close> may be a nil map: reading it is fine, storing panics.\<close>

definition nilmap_add :: "(string, i64) gomap option \<Rightarrow> string \<Rightarrow> i64 \<Rightarrow> (string, i64) gomap option res" where
  "nilmap_add m k v = (case m of
      None \<Rightarrow> Inl (GoPanic ''assignment to entry in nil map'')
    | Some m \<Rightarrow> Inr (Some (gomap_add m k v)))"

definition errors_of :: "counter \<Rightarrow> (string, i64) gomap" where
  "errors_of c = (case c_ErrorMap c of None \<Rightarrow> [] | Some m \<Rightarrow> m)"

definition merge_errors :: "(string, i64) gomap option \<Rightarrow> (string, i64) gomap \<Rightarrow> (string, i64) gomap option res" where
  "merge_errors m es = rfold (\<lambda>m (k, v). nilmap_add m k v) m es"

definition copy_map :: "('k, 'v) gomap \<Rightarrow> ('k, 'v) gomap" where
  "copy_map m = fold (\<lambda>(k, v) acc. gomap_set acc k v) m []"

definition incrementOrSetUnit :: "counter \<Rightarrow> counter option \<Rightarrow> counter res" where
  "incrementOrSetUnit base c0 = (case c0 of
      None \<Rightarrow> Inr (base\<lparr>c_ErrorMap := Some (copy_map (errors_of base))\<rparr>)
    | Some c \<Rightarrow>
        (let c = c\<lparr>c_Hits := c_Hits c + c_Hits base, c_Success := c_Success c + c_Success base,
                   c_ErrorTotal := c_ErrorTotal c + c_ErrorTotal base\<rparr>
         in rbind (merge_errors (c_ErrorMap c) (errors_of base)) (\<lambda>em.
           (let c = c\<lparr>c_ErrorMap := em,
                      c_TotalRequestTime := f_add (c_TotalRequestTime c) (c_TotalRequestTime base)\<rparr>
            in Inr (c\<lparr>c_RequestTime := f_div (c_TotalRequestTime c) (f_of_int (c_Hits c)),
                 c_MaxLatency := (if i64_lt (c_MaxLatency c) (c_MaxLatency base)
                                  then c_MaxLatency base else c_MaxLatency c),
                 c_MinLatency := (if i64_lt (c_MinLatency base) (c_MinLatency c) \<and> c_ErrorTotal base = 0
                                  then c_MinLatency base else c_MinLatency c),
                 c_MaxUpstreamLatency := (if i64_lt (c_MaxUpstreamLatency c) (c_MaxUpstreamLatency base)
                                          then c_MaxUpstreamLatency base else c_MaxUpstreamLatency c),
                 c_MinUpstreamLatency :=
                   (if i64_lt (c_MinUpstreamLatency base) (c_MinUpstreamLatency c) \<and> c_ErrorTotal base = 0
                    then c_MinUpstreamLatency base else c_MinUpstreamLatency c),
                 c_TotalLatency := c_TotalLatency c + c_TotalLatency base,
                 c_TotalUpstreamLatency := c_TotalUpstreamLatency c + c_TotalUpstreamLatency base\<rparr>)))))"

type_synonym units = "(string, counter) gomap"

text \<open>
  \<open>c := incrementOrSetUnit(&base, m[k])\<close>: an entry that exists is updated in place, a new
  counter is not stored yet. \<open>store_unit\<close> is the assignment of the code together with the
  identifiers it sets through the map afterwards.
\<close>

definition unit_at :: "counter \<Rightarrow> units \<Rightarrow> string \<Rightarrow> (counter \<times> units) res" where
  "unit_at base m k =
     rbind (incrementOrSetUnit base (gomap_get m k)) (\<lambda>c.
       Inr (c, case gomap_get m k of None \<Rightarrow> m | Some _ \<Rightarrow> gomap_set m k c))"

definition store_unit :: "units \<Rightarrow> string \<Rightarrow> counter \<Rightarrow> string \<Rightarrow> string \<Rightarrow> units" where
  "store_unit m k c ident human = gomap_set m k (c\<lparr>c_Identifier := ident, c_HumanIdentifier := human\<rparr>)"

section \<open>Names of the units\<close>

definition doHash :: "string \<Rightarrow> string" where
  "doHash s = trim_right_char CHR ''='' (b64_encode s)"

definition ignoreTag :: "string \<Rightarrow> string list \<Rightarrow> bool" where
  "ignoreTag tag prefixes = (if has_prefix tag ''key-'' then True else list_ex (\<lambda>p. has_prefix tag p) prefixes)"

definition replaceUnsupportedChars :: "string \<Rightarrow> string" where
  "replaceUnsupportedChars path =
     (if str_contains path ''.'' then replace_char CHR ''.'' (CHR 0x5C # ''u2e'') path else path)"

definition TrimTag :: "string \<Rightarrow> string" where
  "TrimTag t = replace_char CHR ''.'' [] (trim_space t)"

lemma doHash_inj [simp]: "doHash s = doHash t \<longleftrightarrow> s = t"
  unfolding doHash_def using b64_trim_inj by blast

lemma doHash_no_dot: "CHR ''.'' \<notin> set (doHash s)"
  using b64_trim_shape [of s] by (auto simp: doHash_def)

lemma str_contains_char: "str_contains s [c] \<longleftrightarrow> c \<in> set s"
  by (induction s) (auto simp: has_prefix_def)

lemma replaceUnsupportedChars_no_dot: "CHR ''.'' \<notin> set (replaceUnsupportedChars p)"
  by (simp add: replaceUnsupportedChars_def str_contains_char replace_char_gone)

lemma TrimTag_no_dot: "CHR ''.'' \<notin> set (TrimTag t)"
  by (simp add: TrimTag_def replace_char_gone)

section \<open>Aggregates\<close>

record time_id =
  ti_Year :: int
  ti_Month :: int
  ti_Day :: int
  ti_Hour :: int

text \<open>The \<open>Lists\<close> of the struct are written by the database only and stay empty here.\<close>

record aggregate =
  ag_TimeStamp :: gotime
  ag_OrgID :: string
  ag_TimeID :: time_id
  ag_APIKeys :: units
  ag_Errors :: units
  ag_Versions :: units
  ag_APIID :: units
  ag_OauthIDs :: units
  ag_Geo :: units
  ag_Tags :: units
  ag_Endpoints :: units
  ag_KeyEndpoint :: "(string, units) gomap"
  ag_OauthEndpoint :: "(string, units) gomap"
  ag_ApiEndpoint :: units
  ag_Total :: counter
  ag_ExpireAt :: gotime
  ag_LastTime :: gotime
  ag_Mixed :: bool

definition AgggregateMixedCollectionName :: string where
  "AgggregateMixedCollectionName = ''tyk_analytics_aggregates''"

definition aggregate_TableName :: "aggregate \<Rightarrow> string" where
  "aggregate_TableName a = (if ag_Mixed a then AgggregateMixedCollectionName
     else ''z_tyk_analyticz_aggregate_'' @ ag_OrgID a)"

definition aggregate_New :: aggregate where
  "aggregate_New = \<lparr>ag_TimeStamp = time_zero, ag_OrgID = [],
     ag_TimeID = \<lparr>ti_Year = 0, ti_Month = 0, ti_Day = 0, ti_Hour = 0\<rparr>,
     ag_APIKeys = [], ag_Errors = [], ag_Versions = [], ag_APIID = [], ag_OauthIDs = [], ag_Geo = [],
     ag_Tags = [], ag_Endpoints = [], ag_KeyEndpoint = [], ag_OauthEndpoint = [], ag_ApiEndpoint = [],
     ag_Total = counter_zero, ag_ExpireAt = time_zero, ag_LastTime = time_zero, ag_Mixed = False\<rparr>"

section \<open>One record\<close>

text \<open>
  The counter of one record: a record with response code -1 carries network statistics only and
  its error map is the nil map; every other record is one hit.
\<close>

definition network_counter :: "analytics_record \<Rightarrow> counter" where
  "network_counter r = counter_zero\<lparr>c_LastTime := r_TimeStamp r,
     c_OpenConnections := ns_OpenConnections (r_Network r),
     c_ClosedConnections := ns_ClosedConnection (r_Network r),
     c_BytesIn := ns_BytesIn (r_Network r), c_BytesOut := ns_BytesOut (r_Network r)\<rparr>"

definition is_error :: "analytics_record \<Rightarrow> bool" where
  "is_error r \<longleftrightarrow> 400 \<le> sint (r_ResponseCode r)"

definition is_success :: "analytics_record \<Rightarrow> bool" where
  "is_success r \<longleftrightarrow> sint (r_ResponseCode r) < 300 \<and> 200 \<le> sint (r_ResponseCode r)"

definition request_counter :: "analytics_record \<Rightarrow> counter" where
  "request_counter r =
     counter_zero\<lparr>c_Hits := 1,
       c_Success := (if is_success r then 1 else 0), c_ErrorTotal := (if is_error r then 1 else 0),
       c_RequestTime := f_of_int (r_RequestTime r), c_TotalRequestTime := f_of_int (r_RequestTime r),
       c_LastTime := r_TimeStamp r,
       c_MaxUpstreamLatency := la_Upstream (r_Latency r),
       c_MinUpstreamLatency := la_Upstream (r_Latency r),
       c_TotalUpstreamLatency := la_Upstream (r_Latency r),
       c_MaxLatency := la_Total (r_Latency r), c_MinLatency := la_Total (r_Latency r),
       c_TotalLatency := la_Total (r_Latency r),
       c_ErrorMap := Some (if is_error r then gomap_add [] (itoa (r_ResponseCode r)) 1 else [])\<rparr>"

text \<open>The branch of code -1: the totals, and the counter of the API created without an error map.\<close>

definition increment_network :: "analytics_record \<Rightarrow> counter \<Rightarrow> aggregate \<Rightarrow> aggregate" where
  "increment_network r tc a =
     (let t = ag_Total a;
          t = t\<lparr>c_OpenConnections := c_OpenConnections t + c_OpenConnections tc,
                c_ClosedConnections := c_ClosedConnections t + c_ClosedConnections tc,
                c_BytesIn := c_BytesIn t + c_BytesIn tc, c_BytesOut := c_BytesOut t + c_BytesOut tc\<rparr>;
          a = a\<lparr>ag_Total := t\<rparr>
      in if r_APIID r \<noteq> [] then
           (let c = (case gomap_get (ag_APIID a) (r_APIID r) of
                  None \<Rightarrow> counter_zero\<lparr>c_Identifier := r_APIID r, c_HumanIdentifier := r_APIName r\<rparr>
                | Some c \<Rightarrow> c);
                c = c\<lparr>c_BytesIn := c_BytesIn c + c_BytesIn tc, c_BytesOut := c_BytesOut c + c_BytesOut tc\<rparr>
            in a\<lparr>ag_APIID := gomap_set (ag_APIID a) (r_APIID r) c\<rparr>)
         else a)"

text \<open>The totals of a request.\<close>

definition increment_total :: "analytics_record \<Rightarrow> counter \<Rightarrow> counter res" where
  "increment_total r t =
     (let hits = c_Hits t + 1;
          trt = f_add (c_TotalRequestTime t) (f_of_int (r_RequestTime r));
          t = t\<lparr>c_Hits := hits, c_TotalRequestTime := trt, c_RequestTime := f_div trt (f_of_int hits)\<rparr>;
          lat = la_Total (r_Latency r); up = la_Upstream (r_Latency r)
      in rbind (if is_error r then nilmap_add (c_ErrorMap t) (itoa (r_ResponseCode r)) 1
                else Inr (c_ErrorMap t)) (\<lambda>em.
         Inr (t\<lparr>c_ErrorMap := em,
                c_ErrorTotal := (if is_error r then c_ErrorTotal t + 1 else c_ErrorTotal t),
                c_Success := (if is_success r then c_Success t + 1 else c_Success t),
                c_TotalLatency := c_TotalLatency t + lat,
                c_TotalUpstreamLatency := c_TotalUpstreamLatency t + up,
                c_MaxLatency := (if i64_lt (c_MaxLatency t) lat then lat else c_MaxLatency t),
                c_MaxUpstreamLatency := (if i64_lt (c_MaxUpstreamLatency t) up then up else c_MaxUpstreamLatency t),
                c_MinLatency :=
                  (if hits = 1 then lat
                   else if i64_lt lat (c_MinLatency t) \<and> is_success r then lat else c_MinLatency t),
                c_MinUpstreamLatency :=
                  (if hits = 1 then up
                   else if i64_lt up (c_MinUpstreamLatency t) \<and> is_success r then up
                   else c_MinUpstreamLatency t)\<rparr>)))"

text \<open>
  The \<open>switch\<close> over the fields of the record, one definition per case. The code ranges over
  a map of the fields, so the cases run in some order; each writes maps of its own and reads only
  the record and its counter.
\<close>

definition case_APIID :: "analytics_record \<Rightarrow> counter \<Rightarrow> aggregate \<Rightarrow> aggregate res" where
  "case_APIID r tc a =
     rbind (unit_at tc (ag_APIID a) (r_APIID r)) (\<lambda>(c, m).
       Inr (a\<lparr>ag_APIID := if r_APIID r \<noteq> [] then store_unit m (r_APIID r) c (r_APIID r) (r_APIName r) else m\<rparr>))"

definition case_ResponseCode :: "analytics_record \<Rightarrow> counter \<Rightarrow> aggregate \<Rightarrow> aggregate res" where
  "case_ResponseCode r tc a =
     (let k = itoa (r_ResponseCode r)
      in if k \<noteq> [] then
           rbind (unit_at tc (ag_Errors a) k) (\<lambda>(c, m).
             Inr (a\<lparr>ag_Errors := if i64_lt 0 (c_ErrorTotal c)
                                 then store_unit m k c k (c_HumanIdentifier c) else m\<rparr>))
         else Inr a)"

definition case_APIVersion :: "analytics_record \<Rightarrow> counter \<Rightarrow> aggregate \<Rightarrow> aggregate res" where
  "case_APIVersion r tc a =
     (let k = doHash (r_APIID r @ '':'' @ r_APIVersion r)
      in rbind (unit_at tc (ag_Versions a) k) (\<lambda>(c, m).
           Inr (a\<lparr>ag_Versions := if r_APIVersion r \<noteq> []
                                 then store_unit m k c (r_APIVersion r) (r_APIVersion r) else m\<rparr>)))"

text \<open>The per-key endpoints: a nested map, created on first use.\<close>

definition endpoint_of ::
  "analytics_record \<Rightarrow> counter \<Rightarrow> (string, units) gomap \<Rightarrow> string \<Rightarrow> (string, units) gomap res" where
  "endpoint_of r tc mm k =
     (let ks = doHash (r_APIID r @ '':'' @ r_Path r);
          d = (case gomap_get mm k of None \<Rightarrow> [] | Some d \<Rightarrow> d)
      in rbind (unit_at tc d ks) (\<lambda>(c, d). Inr (gomap_set mm k (store_unit d ks c ks ks))))"

definition case_APIKey :: "analytics_record \<Rightarrow> counter \<Rightarrow> aggregate \<Rightarrow> aggregate res" where
  "case_APIKey r tc a =
     (let k = r_APIKey r
      in if k \<noteq> [] then
           rbind (unit_at tc (ag_APIKeys a) k) (\<lambda>(c, m).
             (let a = a\<lparr>ag_APIKeys := store_unit m k c k (r_Alias r)\<rparr>
              in if r_TrackPath r then
                   rbind (endpoint_of r tc (ag_KeyEndpoint a) k) (\<lambda>mm. Inr (a\<lparr>ag_KeyEndpoint := mm\<rparr>))
                 else Inr a))
         else Inr a)"

definition case_OauthID :: "analytics_record \<Rightarrow> counter \<Rightarrow> aggregate \<Rightarrow> aggregate res" where
  "case_OauthID r tc a =
     (let k = r_OauthID r
      in if k \<noteq> [] then
           rbind (unit_at tc (ag_OauthIDs a) k) (\<lambda>(c, m).
             (let a = a\<lparr>ag_OauthIDs := store_unit m k c k (c_HumanIdentifier c)\<rparr>
              in if r_TrackPath r then
                   rbind (endpoint_of r tc (ag_OauthEndpoint a) k) (\<lambda>mm. Inr (a\<lparr>ag_OauthEndpoint := mm\<rparr>))
                 else Inr a))
         else Inr a)"

definition case_Geo :: "analytics_record \<Rightarrow> counter \<Rightarrow> aggregate \<Rightarrow> aggregate res" where
  "case_Geo r tc a =
     (let k = geo_Country (r_Geo r)
      in rbind (unit_at tc (ag_Geo a) k) (\<lambda>(c, m).
           Inr (a\<lparr>ag_Geo := if k \<noteq> [] then store_unit m k c k k else m\<rparr>)))"

definition tag_step :: "string list \<Rightarrow> counter \<Rightarrow> aggregate \<Rightarrow> string \<Rightarrow> aggregate res" where
  "tag_step prefixes tc a tag =
     (let k = TrimTag tag
      in if k \<noteq> [] \<and> \<not> ignoreTag tag prefixes then
           rbind (unit_at tc (ag_Tags a) k) (\<lambda>(c, m). Inr (a\<lparr>ag_Tags := store_unit m k c k k\<rparr>))
         else Inr a)"

definition case_Tags :: "string list \<Rightarrow> analytics_record \<Rightarrow> counter \<Rightarrow> aggregate \<Rightarrow> aggregate res" where
  "case_Tags prefixes r tc a = rfold (tag_step prefixes tc) a (r_Tags r)"

definition api_endpoint_key :: "analytics_record \<Rightarrow> string" where
  "api_endpoint_key r = hex_encode (r_APIID r @ '':'' @ r_APIVersion r @ '':'' @ r_Path r)"

definition case_TrackPath :: "analytics_record \<Rightarrow> counter \<Rightarrow> aggregate \<Rightarrow> aggregate res" where
  "case_TrackPath r tc a =
     (if r_TrackPath r then
        (let p = replaceUnsupportedChars (r_Path r)
         in rbind (unit_at tc (ag_Endpoints a) p) (\<lambda>(c, m).
              (let a = a\<lparr>ag_Endpoints := store_unit m p c (r_Path r) (r_Path r)\<rparr>; k = api_endpoint_key r
               in rbind (unit_at tc (ag_ApiEndpoint a) k) (\<lambda>(c, m).
                    Inr (a\<lparr>ag_ApiEndpoint := store_unit m k c k (r_Path r)\<rparr>)))))
      else Inr a)"

definition increment_units :: "string list \<Rightarrow> analytics_record \<Rightarrow> counter \<Rightarrow> aggregate \<Rightarrow> aggregate res" where
  "increment_units prefixes r tc a =
     rbind (case_ResponseCode r tc a) (\<lambda>a.
     rbind (case_APIKey r tc a) (\<lambda>a.
     rbind (case_APIVersion r tc a) (\<lambda>a.
     rbind (case_APIID r tc a) (\<lambda>a.
     rbind (case_OauthID r tc a) (\<lambda>a.
     rbind (case_Geo r tc a) (\<lambda>a.
     rbind (case_Tags prefixes r tc a) (\<lambda>a.
       case_TrackPath r tc a)))))))"

definition incrementAggregate ::
  "bool \<Rightarrow> string list \<Rightarrow> aggregate \<Rightarrow> analytics_record \<Rightarrow> (aggregate \<times> counter) res" where
  "incrementAggregate trackAllPaths prefixes a r =
     (let a = a\<lparr>ag_LastTime := r_TimeStamp r, ag_Total := (ag_Total a)\<lparr>c_LastTime := r_TimeStamp r\<rparr>\<rparr>
      in if r_ResponseCode r = -1 then
           (let tc = network_counter r in Inr (increment_network r tc a, tc))
         else
           (let tc = request_counter r
            in rbind (increment_total r (ag_Total a)) (\<lambda>t.
                 (let r = (if trackAllPaths then r\<lparr>r_TrackPath := True\<rparr> else r)
                  in rbind (increment_units prefixes r tc (a\<lparr>ag_Total := t\<rparr>)) (\<lambda>a. Inr (a, tc))))))"

section \<open>The window of an aggregate\<close>

type_synonym last_ts = "(string, gotime) gomap"

definition setAggregateTimestamp :: "string \<Rightarrow> gotime \<Rightarrow> i64 \<Rightarrow> last_ts \<Rightarrow> gotime \<times> last_ts" where
  "setAggregateTimestamp dbIdentifier asTime aggregationTime ts =
     (if aggregationTime = 60 then
        (time_date (time_year asTime) (time_month asTime) (time_day asTime) (time_hour asTime) 0 0 0
           (t_zone asTime) (t_off asTime), ts)
      else
        (let newTime = time_date (time_year asTime) (time_month asTime) (time_day asTime)
               (time_hour asTime) (time_minute asTime) 0 0 (t_zone asTime) (t_off asTime);
             (lastDocumentTS, ts) = (case gomap_get ts dbIdentifier of
                 None \<Rightarrow> (newTime, gomap_set ts dbIdentifier newTime)
               | Some t \<Rightarrow> if t = time_zero then (newTime, gomap_set ts dbIdentifier newTime) else (t, ts))
         in if dbIdentifier \<noteq> [] then
              (if time_after (time_add lastDocumentTS (dur_minute * aggregationTime)) asTime
               then (lastDocumentTS, ts)
               else (newTime, gomap_set ts dbIdentifier newTime))
            else (newTime, ts)))"

section \<open>AggregateData\<close>

text \<open>A new aggregate, seeded from the first record of its group.\<close>

definition seed_aggregate :: "string \<Rightarrow> i64 \<Rightarrow> last_ts \<Rightarrow> analytics_record \<Rightarrow> aggregate \<times> last_ts" where
  "seed_aggregate dbIdentifier aggregationTime ts r =
     (let asTime = r_TimeStamp r;
          (stamp, ts) = setAggregateTimestamp dbIdentifier asTime aggregationTime ts
      in (aggregate_New\<lparr>ag_TimeStamp := stamp, ag_ExpireAt := r_ExpireAt r,
            ag_TimeID := \<lparr>ti_Year = time_year asTime, ti_Month = int (time_month asTime),
                          ti_Day = time_day asTime, ti_Hour = time_hour asTime\<rparr>,
            ag_OrgID := r_OrgID r, ag_LastTime := r_TimeStamp r,
            ag_Total := counter_zero\<lparr>c_ErrorMap := Some []\<rparr>\<rparr>, ts))"

fun aggregate_loop ::
  "bool \<Rightarrow> string list \<Rightarrow> string \<Rightarrow> i64 \<Rightarrow> last_ts \<Rightarrow> (string, aggregate) gomap \<Rightarrow> item list \<Rightarrow>
     ((string, aggregate) gomap \<times> last_ts) res" where
  "aggregate_loop tap pre db agg ts m [] = Inr (m, ts)"
| "aggregate_loop tap pre db agg ts m (v # vs) =
     rbind (assert_record v) (\<lambda>r.
       (let orgID = r_OrgID r
        in if orgID = [] then aggregate_loop tap pre db agg ts m vs
           else if IsGraphRecord r then aggregate_loop tap pre db agg ts m vs
           else if IsMCPRecord r then aggregate_loop tap pre db agg ts m vs
           else
             (let (a, ts) = (case gomap_get m orgID of
                  Some a \<Rightarrow> (a, ts) | None \<Rightarrow> seed_aggregate db agg ts r)
              in rbind (incrementAggregate tap pre a r) (\<lambda>(a, _).
                   aggregate_loop tap pre db agg ts (gomap_set m orgID a) vs))))"

definition AggregateData ::
  "item list \<Rightarrow> bool \<Rightarrow> string list \<Rightarrow> string \<Rightarrow> i64 \<Rightarrow> last_ts \<Rightarrow> ((string, aggregate) gomap \<times> last_ts) res" where
  "AggregateData data tap pre db agg ts = aggregate_loop tap pre db agg ts [] data"

section \<open>What a unit gains\<close>

lemma merge_errors_None: "merge_errors None es = (if es = [] then Inr None else Inl (GoPanic ''assignment to entry in nil map''))"
  by (cases es) (auto simp: merge_errors_def nilmap_add_def)

lemma merge_errors_Some: "merge_errors (Some m) es = Inr (Some (fold (\<lambda>(k, v) m. gomap_add m k v) es m))"
  unfolding merge_errors_def
  by (induction es arbitrary: m) (auto simp: nilmap_add_def)

text \<open>Incrementing panics exactly when errors are added to a counter without an error map.\<close>

lemma incrementOrSetUnit_ok_iff:
  "is_ok (incrementOrSetUnit b c0) \<longleftrightarrow>
     (case c0 of None \<Rightarrow> True | Some c \<Rightarrow> c_ErrorMap c \<noteq> None \<or> errors_of b = [])"
  by (cases c0; cases "c_ErrorMap (the c0)")
    (auto simp: incrementOrSetUnit_def Let_def merge_errors_None merge_errors_Some)

text \<open>The selectors of the counter that are sums over the records.\<close>

definition additive_sel :: "(counter \<Rightarrow> i64) \<Rightarrow> bool" where
  "additive_sel sel \<longleftrightarrow> sel \<in> {c_Hits, c_Success, c_ErrorTotal, c_TotalLatency, c_TotalUpstreamLatency}"

lemma additive_intros [simp, intro]:
  "additive_sel c_Hits" "additive_sel c_Success" "additive_sel c_ErrorTotal" "additive_sel c_TotalLatency"
  "additive_sel c_TotalUpstreamLatency"
  by (simp_all add: additive_sel_def)

lemma additive_frame:
  assumes "additive_sel sel"
  shows "sel (c\<lparr>c_Identifier := i\<rparr>) = sel c" "sel (c\<lparr>c_HumanIdentifier := h\<rparr>) = sel c"
    "sel (c\<lparr>c_BytesIn := x\<rparr>) = sel c" "sel (c\<lparr>c_BytesOut := y\<rparr>) = sel c" "sel counter_zero = 0"
    "sel (network_counter r) = 0" "sel (c\<lparr>c_LastTime := l\<rparr>) = sel c"
  using assms by (auto simp: additive_sel_def counter_zero_def network_counter_def)

lemma incrementOrSetUnit_additive:
  assumes "additive_sel sel" and "incrementOrSetUnit b c0 = Inr c"
  shows "sel c = (case c0 of None \<Rightarrow> 0 | Some c' \<Rightarrow> sel c') + sel b"
  using assms
  by (cases c0) (auto simp: additive_sel_def incrementOrSetUnit_def Let_def rbind_eq_Inr)

definition unit_val :: "(counter \<Rightarrow> i64) \<Rightarrow> units \<Rightarrow> string \<Rightarrow> i64" where
  "unit_val sel m k = (case gomap_get m k of None \<Rightarrow> 0 | Some c \<Rightarrow> sel c)"

lemma unit_val_Nil [simp]: "unit_val sel [] k = 0"
  by (simp add: unit_val_def)

lemma unit_at_get:
  "unit_at b m k = Inr (c, m') \<Longrightarrow> incrementOrSetUnit b (gomap_get m k) = Inr c \<and>
     (m' = (case gomap_get m k of None \<Rightarrow> m | Some _ \<Rightarrow> gomap_set m k c))"
  by (auto simp: unit_at_def rbind_eq_Inr)

lemma unit_at_store_val:
  assumes "additive_sel sel" and "unit_at b m k = Inr (c, m')"
  shows "unit_val sel (store_unit m' k c i h) k' = unit_val sel m k' + (if k' = k then sel b else 0)"
  using unit_at_get [OF assms(2)] incrementOrSetUnit_additive [OF assms(1), of b "gomap_get m k" c]
  by (auto simp: store_unit_def unit_val_def update_conv' additive_frame [OF assms(1)] split: option.splits)

lemma unit_at_absent: "unit_at b m k = Inr (c, m') \<Longrightarrow> gomap_get m k = None \<Longrightarrow> m' = m"
  by (auto dest: unit_at_get)

text \<open>A map whose counters all have an error map; such units never panic.\<close>

definition units_ok :: "units \<Rightarrow> bool" where
  "units_ok m \<longleftrightarrow> list_all (\<lambda>(k, c). c_ErrorMap c \<noteq> None) m"

lemma units_ok_Nil [simp]: "units_ok []"
  by (simp add: units_ok_def)

lemma units_ok_get: "units_ok m \<Longrightarrow> gomap_get m k = Some c \<Longrightarrow> c_ErrorMap c \<noteq> None"
  by (auto simp: units_ok_def list_all_iff dest: map_of_SomeD)

lemma units_ok_set: "units_ok m \<Longrightarrow> c_ErrorMap c \<noteq> None \<Longrightarrow> units_ok (gomap_set m k c)"
  by (induction m) (auto simp: units_ok_def)

lemma incrementOrSetUnit_ok:
  assumes "\<And>c. c0 = Some c \<Longrightarrow> c_ErrorMap c \<noteq> None"
  shows "\<exists>c. incrementOrSetUnit b c0 = Inr c \<and> c_ErrorMap c \<noteq> None"
proof (cases c0)
  case None
  then show ?thesis by (simp add: incrementOrSetUnit_def)
next
  case (Some c)
  with assms obtain m where "c_ErrorMap c = Some m" by auto
  with Some show ?thesis by (simp add: incrementOrSetUnit_def Let_def merge_errors_Some)
qed

lemma unit_at_ok:
  assumes "units_ok m"
  shows "\<exists>c m'. unit_at b m k = Inr (c, m') \<and> c_ErrorMap c \<noteq> None \<and> units_ok m'"
proof -
  obtain c where "incrementOrSetUnit b (gomap_get m k) = Inr c" "c_ErrorMap c \<noteq> None"
    using incrementOrSetUnit_ok [of "gomap_get m k" b] units_ok_get [OF assms] by blast
  with assms show ?thesis by (auto simp: unit_at_def units_ok_set split: option.splits)
qed

lemma store_unit_ok: "units_ok m \<Longrightarrow> c_ErrorMap c \<noteq> None \<Longrightarrow> units_ok (store_unit m k c i h)"
  by (simp add: store_unit_def units_ok_set)

lemma unit_at_other:
  "unit_at b m k = Inr (c, m') \<Longrightarrow> k' \<noteq> k \<Longrightarrow> unit_val sel m' k' = unit_val sel m k'"
  by (auto simp: unit_at_def rbind_eq_Inr unit_val_def update_conv' split: option.splits)

section \<open>What the cases of the switch add\<close>

lemma case_APIID_spec:
  assumes "case_APIID r tc a = Inr a'"
  shows "\<exists>m. a' = a\<lparr>ag_APIID := m\<rparr> \<and> (\<forall>sel k. additive_sel sel \<longrightarrow> k \<noteq> [] \<longrightarrow>
    unit_val sel m k = unit_val sel (ag_APIID a) k + (if r_APIID r = k then sel tc else 0))"
proof -
  obtain c m where m: "unit_at tc (ag_APIID a) (r_APIID r) = Inr (c, m)"
    and a': "a' = a\<lparr>ag_APIID := if r_APIID r \<noteq> [] then store_unit m (r_APIID r) c (r_APIID r) (r_APIName r) else m\<rparr>"
    using assms by (auto simp: case_APIID_def rbind_eq_Inr)
  show ?thesis
    by (rule exI, rule conjI, rule a')
      (auto simp: unit_at_store_val [OF _ m] unit_at_other [OF m])
qed

lemma case_Geo_spec:
  assumes "case_Geo r tc a = Inr a'"
  shows "\<exists>m. a' = a\<lparr>ag_Geo := m\<rparr> \<and> (\<forall>sel k. additive_sel sel \<longrightarrow> k \<noteq> [] \<longrightarrow>
    unit_val sel m k = unit_val sel (ag_Geo a) k + (if geo_Country (r_Geo r) = k then sel tc else 0))"
proof -
  let ?k = "geo_Country (r_Geo r)"
  obtain c m where m: "unit_at tc (ag_Geo a) ?k = Inr (c, m)"
    and a': "a' = a\<lparr>ag_Geo := if ?k \<noteq> [] then store_unit m ?k c ?k ?k else m\<rparr>"
    using assms by (auto simp: case_Geo_def rbind_eq_Inr Let_def)
  show ?thesis
    by (rule exI, rule conjI, rule a')
      (auto simp: unit_at_store_val [OF _ m] unit_at_other [OF m])
qed

text \<open>
  A response code below 400 leaves the error units alone: the map only ever holds codes of
  errors, which is an invariant of the aggregates.
\<close>

definition error_keys_ok :: "units \<Rightarrow> bool" where
  "error_keys_ok m \<longleftrightarrow> (\<forall>r. \<not> is_error r \<longrightarrow> gomap_get m (itoa (r_ResponseCode r)) = None)"

lemma error_keys_ok_set: "error_keys_ok m \<Longrightarrow> is_error r \<Longrightarrow> error_keys_ok (gomap_set m (itoa (r_ResponseCode r)) c)"
  by (auto simp: error_keys_ok_def update_conv' is_error_def)

lemma request_counter_error: "c_ErrorTotal (request_counter r) = (if is_error r then 1 else 0)"
  by (simp add: request_counter_def)

lemma case_ResponseCode_spec:
  assumes "case_ResponseCode r (request_counter r) a = Inr a'" and ok: "error_keys_ok (ag_Errors a)"
  shows "\<exists>m. a' = a\<lparr>ag_Errors := m\<rparr> \<and> error_keys_ok m \<and> (\<forall>sel k. additive_sel sel \<longrightarrow>
    unit_val sel m k = unit_val sel (ag_Errors a) k +
      (if is_error r \<and> itoa (r_ResponseCode r) = k then sel (request_counter r) else 0))"
proof -
  let ?k = "itoa (r_ResponseCode r)" and ?tc = "request_counter r"
  obtain c m where m: "unit_at ?tc (ag_Errors a) ?k = Inr (c, m)"
    and a': "a' = a\<lparr>ag_Errors := if i64_lt 0 (c_ErrorTotal c) then store_unit m ?k c ?k (c_HumanIdentifier c) else m\<rparr>"
    using assms by (auto simp: case_ResponseCode_def rbind_eq_Inr Let_def)
  have c: "incrementOrSetUnit ?tc (gomap_get (ag_Errors a) ?k) = Inr c"
    and m': "m = (case gomap_get (ag_Errors a) ?k of None \<Rightarrow> ag_Errors a | Some _ \<Rightarrow> gomap_set (ag_Errors a) ?k c)"
    using unit_at_get [OF m] by auto
  have tot: "c_ErrorTotal c = unit_val c_ErrorTotal (ag_Errors a) ?k + c_ErrorTotal ?tc"
    using incrementOrSetUnit_additive [OF _ c, of c_ErrorTotal] by (simp add: unit_val_def)
  show ?thesis
  proof (cases "is_error r")
    case False
    with ok have none: "gomap_get (ag_Errors a) ?k = None" by (auto simp: error_keys_ok_def)
    with tot False have "c_ErrorTotal c = 0" by (simp add: unit_val_def request_counter_error)
    with a' m' none False ok show ?thesis by (auto simp: i64_lt_def intro!: exI [of _ m])
  next
    case True
    show ?thesis
    proof (cases "i64_lt 0 (c_ErrorTotal c)")
      case lt: True
      have "error_keys_ok (store_unit m ?k c ?k (c_HumanIdentifier c))"
        using ok True m' by (auto simp: store_unit_def error_keys_ok_set split: option.splits)
      with lt True a' show ?thesis
        by (auto simp: unit_at_store_val [OF _ m])
    next
      case False
      then have "gomap_get (ag_Errors a) ?k \<noteq> None"
        using tot True by (cases "gomap_get (ag_Errors a) ?k") (auto simp: unit_val_def request_counter_error i64_lt_def)
      then obtain c1 where c1: "gomap_get (ag_Errors a) ?k = Some c1" by blast
      have "unit_val sel m k = unit_val sel (ag_Errors a) k + (if ?k = k then sel ?tc else 0)"
        if "additive_sel sel" for sel k
        using incrementOrSetUnit_additive [OF that c] c1 m' by (auto simp: unit_val_def update_conv')
      moreover have "error_keys_ok m" using m' c1 ok True by (simp add: error_keys_ok_set)
      ultimately show ?thesis using False a' True by auto
    qed
  qed
qed

lemma case_APIVersion_spec: "case_APIVersion r tc a = Inr a' \<Longrightarrow> \<exists>m. a' = a\<lparr>ag_Versions := m\<rparr>"
  by (auto simp: case_APIVersion_def rbind_eq_Inr Let_def)

lemma case_APIKey_spec:
  assumes "case_APIKey r tc a = Inr a'"
  shows "\<exists>m mm. a' = a\<lparr>ag_APIKeys := m, ag_KeyEndpoint := mm\<rparr> \<and> (\<forall>sel k. additive_sel sel \<longrightarrow> k \<noteq> [] \<longrightarrow>
    unit_val sel m k = unit_val sel (ag_APIKeys a) k + (if r_APIKey r = k then sel tc else 0))"
proof (cases "r_APIKey r = []")
  case True
  with assms show ?thesis
    by (auto simp: case_APIKey_def intro!: exI [of _ "ag_APIKeys a"] exI [of _ "ag_KeyEndpoint a"])
next
  case False
  then obtain c m where m: "unit_at tc (ag_APIKeys a) (r_APIKey r) = Inr (c, m)"
    using assms by (auto simp: case_APIKey_def rbind_eq_Inr Let_def)
  define m' where "m' = store_unit m (r_APIKey r) c (r_APIKey r) (r_Alias r)"
  obtain mm where "a' = a\<lparr>ag_APIKeys := m', ag_KeyEndpoint := mm\<rparr>"
  proof (cases "r_TrackPath r")
    case True
    with assms False m that show ?thesis
      by (auto simp: case_APIKey_def rbind_eq_Inr Let_def m'_def)
  next
    case False
    with assms m \<open>r_APIKey r \<noteq> []\<close> have "a' = a\<lparr>ag_APIKeys := m'\<rparr>"
      by (auto simp: case_APIKey_def rbind_eq_Inr Let_def m'_def)
    then show ?thesis using that [of "ag_KeyEndpoint a"] by simp
  qed
  then show ?thesis
    by (auto simp: m'_def unit_at_store_val [OF _ m] intro!: exI [of _ m'])
qed

lemma case_OauthID_spec:
  assumes "case_OauthID r tc a = Inr a'"
  shows "\<exists>m mm. a' = a\<lparr>ag_OauthIDs := m, ag_OauthEndpoint := mm\<rparr> \<and> (\<forall>sel k. additive_sel sel \<longrightarrow> k \<noteq> [] \<longrightarrow>
    unit_val sel m k = unit_val sel (ag_OauthIDs a) k + (if r_OauthID r = k then sel tc else 0))"
proof (cases "r_OauthID r = []")
  case True
  with assms show ?thesis
    by (auto simp: case_OauthID_def intro!: exI [of _ "ag_OauthIDs a"] exI [of _ "ag_OauthEndpoint a"])
next
  case False
  then obtain c m where m: "unit_at tc (ag_OauthIDs a) (r_OauthID r) = Inr (c, m)"
    using assms by (auto simp: case_OauthID_def rbind_eq_Inr Let_def)
  define m' where "m' = store_unit m (r_OauthID r) c (r_OauthID r) (c_HumanIdentifier c)"
  obtain mm where "a' = a\<lparr>ag_OauthIDs := m', ag_OauthEndpoint := mm\<rparr>"
  proof (cases "r_TrackPath r")
    case True
    with assms False m that show ?thesis
      by (auto simp: case_OauthID_def rbind_eq_Inr Let_def m'_def)
  next
    case False
    with assms m \<open>r_OauthID r \<noteq> []\<close> have "a' = a\<lparr>ag_OauthIDs := m'\<rparr>"
      by (auto simp: case_OauthID_def rbind_eq_Inr Let_def m'_def)
    then show ?thesis using that [of "ag_OauthEndpoint a"] by simp
  qed
  then show ?thesis
    by (auto simp: m'_def unit_at_store_val [OF _ m] intro!: exI [of _ m'])
qed

text \<open>How often a record counts for a tag: once per occurrence in its list of tags.\<close>

definition tag_counts :: "string list \<Rightarrow> string \<Rightarrow> string \<Rightarrow> bool" where
  "tag_counts prefixes k tag \<longleftrightarrow> TrimTag tag = k \<and> TrimTag tag \<noteq> [] \<and> \<not> ignoreTag tag prefixes"

lemma tag_step_spec:
  assumes "tag_step prefixes tc a tag = Inr a'"
  shows "\<exists>m. a' = a\<lparr>ag_Tags := m\<rparr> \<and> (\<forall>sel k. additive_sel sel \<longrightarrow>
    unit_val sel m k = unit_val sel (ag_Tags a) k + (if tag_counts prefixes k tag then sel tc else 0))"
proof (cases "TrimTag tag \<noteq> [] \<and> \<not> ignoreTag tag prefixes")
  case True
  let ?k = "TrimTag tag"
  obtain c m where m: "unit_at tc (ag_Tags a) ?k = Inr (c, m)" and a': "a' = a\<lparr>ag_Tags := store_unit m ?k c ?k ?k\<rparr>"
    using assms True by (auto simp: tag_step_def rbind_eq_Inr Let_def)
  show ?thesis
    by (rule exI, rule conjI, rule a') (use True in \<open>auto simp: unit_at_store_val [OF _ m] tag_counts_def\<close>)
next
  case False
  with assms have "a' = a" by (auto simp: tag_step_def Let_def split: if_splits)
  with False show ?thesis by (intro exI [of _ "ag_Tags a"]) (auto simp: tag_counts_def)
qed

lemma case_Tags_spec:
  assumes "case_Tags prefixes r tc a = Inr a'"
  shows "\<exists>m. a' = a\<lparr>ag_Tags := m\<rparr> \<and> (\<forall>sel k. additive_sel sel \<longrightarrow>
    unit_val sel m k = unit_val sel (ag_Tags a) k +
      sum_list (map (\<lambda>t. if tag_counts prefixes k t then sel tc else 0) (r_Tags r)))"
proof -
  have fold: "rfold (tag_step prefixes tc) a (r_Tags r) = Inr a'"
    using assms by (simp add: case_Tags_def)
  have "\<exists>m. a' = a\<lparr>ag_Tags := m\<rparr>"
    using fold by (rule rfold_invariant [where P = "\<lambda>a'. \<exists>m. a' = a\<lparr>ag_Tags := m\<rparr>"])
      (auto dest!: tag_step_spec intro: exI [of _ "ag_Tags a"])
  then obtain m where a': "a' = a\<lparr>ag_Tags := m\<rparr>" by blast
  have "unit_val sel (ag_Tags a') k = unit_val sel (ag_Tags a) k +
      sum_list (map (\<lambda>t. if tag_counts prefixes k t then sel tc else 0) (r_Tags r))"
    if "additive_sel sel" for sel k
    using fold by (rule rfold_sum [where F = "\<lambda>a. unit_val sel (ag_Tags a) k"]) (use that in \<open>auto dest: tag_step_spec\<close>)
  then have v: "unit_val sel m k = unit_val sel (ag_Tags a) k +
      sum_list (map (\<lambda>t. if tag_counts prefixes k t then sel tc else 0) (r_Tags r))"
    if "additive_sel sel" for sel k
    using that a' by simp
  show ?thesis by (intro exI [of _ m] conjI a') (use v in blast)
qed

lemma case_TrackPath_spec:
  assumes "case_TrackPath r tc a = Inr a'"
  shows "\<exists>m m2. a' = a\<lparr>ag_Endpoints := m, ag_ApiEndpoint := m2\<rparr> \<and> (\<forall>sel k. additive_sel sel \<longrightarrow>
    unit_val sel m k = unit_val sel (ag_Endpoints a) k +
      (if r_TrackPath r \<and> replaceUnsupportedChars (r_Path r) = k then sel tc else 0) \<and>
    unit_val sel m2 k = unit_val sel (ag_ApiEndpoint a) k +
      (if r_TrackPath r \<and> api_endpoint_key r = k then sel tc else 0))"
proof (cases "r_TrackPath r")
  case False
  with assms have "a' = a" by (simp add: case_TrackPath_def)
  with False show ?thesis
    by (intro exI [of _ "ag_Endpoints a"] exI [of _ "ag_ApiEndpoint a"]) auto
next
  case True
  let ?p = "replaceUnsupportedChars (r_Path r)" and ?k = "api_endpoint_key r"
  obtain c m where m: "unit_at tc (ag_Endpoints a) ?p = Inr (c, m)"
    using assms True by (auto simp: case_TrackPath_def rbind_eq_Inr Let_def)
  obtain c2 m2 where m2: "unit_at tc (ag_ApiEndpoint a) ?k = Inr (c2, m2)"
    and a': "a' = a\<lparr>ag_Endpoints := store_unit m ?p c (r_Path r) (r_Path r),
                   ag_ApiEndpoint := store_unit m2 ?k c2 ?k (r_Path r)\<rparr>"
    using assms True m by (auto simp: case_TrackPath_def rbind_eq_Inr Let_def)
  show ?thesis
    by (rule exI, rule exI, rule conjI, rule a')
      (use True in \<open>auto simp: unit_at_store_val [OF _ m] unit_at_store_val [OF _ m2]\<close>)
qed

lemmas case_specs =
  case_APIID_spec case_Geo_spec case_APIVersion_spec case_APIKey_spec case_OauthID_spec
  case_Tags_spec case_TrackPath_spec

text \<open>All cases together, for a request of its own counter.\<close>

definition unit_gain :: "bool \<Rightarrow> i64 \<Rightarrow> i64" where
  "unit_gain b n = (if b then n else 0)"

lemma increment_units_spec:
  assumes "increment_units prefixes r (request_counter r) a = Inr a'" and ok: "error_keys_ok (ag_Errors a)"
  shows "ag_Total a' = ag_Total a \<and> ag_TimeStamp a' = ag_TimeStamp a \<and> ag_OrgID a' = ag_OrgID a \<and>
      ag_ExpireAt a' = ag_ExpireAt a \<and> ag_LastTime a' = ag_LastTime a \<and> error_keys_ok (ag_Errors a')"
    and "additive_sel sel \<Longrightarrow> k \<noteq> [] \<Longrightarrow> unit_val sel (ag_APIID a') k =
      unit_val sel (ag_APIID a) k + unit_gain (r_APIID r = k) (sel (request_counter r))"
    and "additive_sel sel \<Longrightarrow> k \<noteq> [] \<Longrightarrow> unit_val sel (ag_APIKeys a') k =
      unit_val sel (ag_APIKeys a) k + unit_gain (r_APIKey r = k) (sel (request_counter r))"
    and "additive_sel sel \<Longrightarrow> k \<noteq> [] \<Longrightarrow> unit_val sel (ag_OauthIDs a') k =
      unit_val sel (ag_OauthIDs a) k + unit_gain (r_OauthID r = k) (sel (request_counter r))"
    and "additive_sel sel \<Longrightarrow> k \<noteq> [] \<Longrightarrow> unit_val sel (ag_Geo a') k =
      unit_val sel (ag_Geo a) k + unit_gain (geo_Country (r_Geo r) = k) (sel (request_counter r))"
    and "additive_sel sel \<Longrightarrow> unit_val sel (ag_Errors a') k = unit_val sel (ag_Errors a) k +
      unit_gain (is_error r \<and> itoa (r_ResponseCode r) = k) (sel (request_counter r))"
    and "additive_sel sel \<Longrightarrow> unit_val sel (ag_Tags a') k = unit_val sel (ag_Tags a) k +
      sum_list (map (\<lambda>t. unit_gain (tag_counts prefixes k t) (sel (request_counter r))) (r_Tags r))"
    and "additive_sel sel \<Longrightarrow> unit_val sel (ag_Endpoints a') k = unit_val sel (ag_Endpoints a) k +
      unit_gain (r_TrackPath r \<and> replaceUnsupportedChars (r_Path r) = k) (sel (request_counter r))"
    and "additive_sel sel \<Longrightarrow> unit_val sel (ag_ApiEndpoint a') k = unit_val sel (ag_ApiEndpoint a) k +
      unit_gain (r_TrackPath r \<and> api_endpoint_key r = k) (sel (request_counter r))"
proof -
  let ?tc = "request_counter r"
  obtain a1 a2 a3 a4 a5 a6 a7 where steps: "case_ResponseCode r ?tc a = Inr a1" "case_APIKey r ?tc a1 = Inr a2"
    "case_APIVersion r ?tc a2 = Inr a3" "case_APIID r ?tc a3 = Inr a4" "case_OauthID r ?tc a4 = Inr a5"
    "case_Geo r ?tc a5 = Inr a6" "case_Tags prefixes r ?tc a6 = Inr a7" "case_TrackPath r ?tc a7 = Inr a'"
    using assms(1) unfolding increment_units_def rbind_eq_Inr by blast
  note sp = case_ResponseCode_spec [OF steps(1) ok] case_APIKey_spec [OF steps(2)]
    case_APIVersion_spec [OF steps(3)] case_APIID_spec [OF steps(4)] case_OauthID_spec [OF steps(5)]
    case_Geo_spec [OF steps(6)] case_Tags_spec [OF steps(7)] case_TrackPath_spec [OF steps(8)]
  show "ag_Total a' = ag_Total a \<and> ag_TimeStamp a' = ag_TimeStamp a \<and> ag_OrgID a' = ag_OrgID a \<and>
      ag_ExpireAt a' = ag_ExpireAt a \<and> ag_LastTime a' = ag_LastTime a \<and> error_keys_ok (ag_Errors a')"
    using sp by auto
  show "additive_sel sel \<Longrightarrow> k \<noteq> [] \<Longrightarrow> unit_val sel (ag_APIID a') k =
      unit_val sel (ag_APIID a) k + unit_gain (r_APIID r = k) (sel ?tc)"
    using sp unfolding unit_gain_def by auto
  show "additive_sel sel \<Longrightarrow> k \<noteq> [] \<Longrightarrow> unit_val sel (ag_APIKeys a') k =
      unit_val sel (ag_APIKeys a) k + unit_gain (r_APIKey r = k) (sel ?tc)"
    using sp unfolding unit_gain_def by auto
  show "additive_sel sel \<Longrightarrow> k \<noteq> [] \<Longrightarrow> unit_val sel (ag_OauthIDs a') k =
      unit_val sel (ag_OauthIDs a) k + unit_gain (r_OauthID r = k) (sel ?tc)"
    using sp unfolding unit_gain_def by auto
  show "additive_sel sel \<Longrightarrow> k \<noteq> [] \<Longrightarrow> unit_val sel (ag_Geo a') k =
      unit_val sel (ag_Geo a) k + unit_gain (geo_Country (r_Geo r) = k) (sel ?tc)"
    using sp unfolding unit_gain_def by auto
  show "additive_sel sel \<Longrightarrow> unit_val sel (ag_Errors a') k = unit_val sel (ag_Errors a) k +
      unit_gain (is_error r \<and> itoa (r_ResponseCode r) = k) (sel ?tc)"
    using sp unfolding unit_gain_def by auto
  show "additive_sel sel \<Longrightarrow> unit_val sel (ag_Tags a') k = unit_val sel (ag_Tags a) k +
      sum_list (map (\<lambda>t. unit_gain (tag_counts prefixes k t) (sel ?tc)) (r_Tags r))"
    using sp unfolding unit_gain_def by auto
  show "additive_sel sel \<Longrightarrow> unit_val sel (ag_Endpoints a') k = unit_val sel (ag_Endpoints a) k +
      unit_gain (r_TrackPath r \<and> replaceUnsupportedChars (r_Path r) = k) (sel ?tc)"
    using sp unfolding unit_gain_def by auto
  show "additive_sel sel \<Longrightarrow> unit_val sel (ag_ApiEndpoint a') k = unit_val sel (ag_ApiEndpoint a) k +
      unit_gain (r_TrackPath r \<and> api_endpoint_key r = k) (sel ?tc)"
    using sp unfolding unit_gain_def by auto
qed

section \<open>What one record adds to an aggregate\<close>

definition is_request :: "analytics_record \<Rightarrow> bool" where
  "is_request r \<longleftrightarrow> r_ResponseCode r \<noteq> -1"

definition tracked :: "bool \<Rightarrow> analytics_record \<Rightarrow> analytics_record" where
  "tracked tap r = (if tap then r\<lparr>r_TrackPath := True\<rparr> else r)"

lemma tracked_simps [simp]:
  "request_counter (tracked tap r) = request_counter r" "is_error (tracked tap r) = is_error r"
  "r_APIID (tracked tap r) = r_APIID r" "r_APIKey (tracked tap r) = r_APIKey r"
  "r_OauthID (tracked tap r) = r_OauthID r" "r_Geo (tracked tap r) = r_Geo r"
  "r_ResponseCode (tracked tap r) = r_ResponseCode r" "r_Tags (tracked tap r) = r_Tags r"
  "r_Path (tracked tap r) = r_Path r" "r_TrackPath (tracked tap r) \<longleftrightarrow> tap \<or> r_TrackPath r"
  "api_endpoint_key (tracked tap r) = api_endpoint_key r"
  by (simp_all add: tracked_def request_counter_def is_error_def is_success_def api_endpoint_key_def)

text \<open>The aggregate after the first lines of \<open>incrementAggregate\<close>.\<close>

definition touched :: "analytics_record \<Rightarrow> aggregate \<Rightarrow> aggregate" where
  "touched r a = a\<lparr>ag_LastTime := r_TimeStamp r, ag_Total := (ag_Total a)\<lparr>c_LastTime := r_TimeStamp r\<rparr>\<rparr>"

lemma incrementAggregate_network:
  "\<not> is_request r \<Longrightarrow> incrementAggregate tap pre a r =
     Inr (increment_network r (network_counter r) (touched r a), network_counter r)"
  by (simp add: incrementAggregate_def is_request_def touched_def Let_def)

lemma incrementAggregate_request:
  "is_request r \<Longrightarrow> incrementAggregate tap pre a r =
     rbind (increment_total r (ag_Total (touched r a))) (\<lambda>t.
       rbind (increment_units pre (tracked tap r) (request_counter r) ((touched r a)\<lparr>ag_Total := t\<rparr>))
         (\<lambda>a. Inr (a, request_counter r)))"
  by (simp add: incrementAggregate_def is_request_def touched_def tracked_def Let_def)

lemma increment_total_additive:
  assumes "additive_sel sel" and "increment_total r t = Inr t'"
  shows "sel t' = sel t + sel (request_counter r)"
  using assms
  by (auto simp: additive_sel_def increment_total_def request_counter_def Let_def rbind_eq_Inr counter_zero_def)

lemma increment_network_unit:
  assumes "additive_sel sel"
  shows "unit_val sel (ag_APIID (increment_network r (network_counter r) a)) k = unit_val sel (ag_APIID a) k"
  using assms by (auto simp: increment_network_def unit_val_def update_conv' additive_frame Let_def split: option.splits)

lemma increment_network_frame:
  assumes "additive_sel sel"
  shows "sel (ag_Total (increment_network r tc a)) = sel (ag_Total a)"
    "ag_TimeStamp (increment_network r tc a) = ag_TimeStamp a" "ag_OrgID (increment_network r tc a) = ag_OrgID a"
    "ag_APIKeys (increment_network r tc a) = ag_APIKeys a" "ag_OauthIDs (increment_network r tc a) = ag_OauthIDs a"
    "ag_Geo (increment_network r tc a) = ag_Geo a" "ag_Errors (increment_network r tc a) = ag_Errors a"
    "ag_Tags (increment_network r tc a) = ag_Tags a" "ag_Endpoints (increment_network r tc a) = ag_Endpoints a"
    "ag_ApiEndpoint (increment_network r tc a) = ag_ApiEndpoint a"
    "ag_ExpireAt (increment_network r tc a) = ag_ExpireAt a" "ag_LastTime (increment_network r tc a) = ag_LastTime a"
  using assms by (auto simp: increment_network_def Let_def additive_sel_def)

lemma touched_simps [simp]:
  "ag_APIID (touched r a) = ag_APIID a" "ag_APIKeys (touched r a) = ag_APIKeys a"
  "ag_OauthIDs (touched r a) = ag_OauthIDs a" "ag_Geo (touched r a) = ag_Geo a"
  "ag_Errors (touched r a) = ag_Errors a" "ag_Tags (touched r a) = ag_Tags a"
  "ag_Endpoints (touched r a) = ag_Endpoints a" "ag_ApiEndpoint (touched r a) = ag_ApiEndpoint a"
  "ag_TimeStamp (touched r a) = ag_TimeStamp a" "ag_OrgID (touched r a) = ag_OrgID a"
  "ag_ExpireAt (touched r a) = ag_ExpireAt a" "ag_LastTime (touched r a) = r_TimeStamp r"
  by (simp_all add: touched_def)

lemma touched_total: "additive_sel sel \<Longrightarrow> sel (ag_Total (touched r a)) = sel (ag_Total a)"
  by (simp add: touched_def additive_frame)

text \<open>
  The units of an aggregate by the name of their dimension, and what a record adds to them.
\<close>

datatype dim = DimAPIID | DimAPIKeys | DimOauthIDs | DimGeo | DimErrors | DimTags | DimEndpoints | DimApiEndpoint

fun dim_units :: "dim \<Rightarrow> aggregate \<Rightarrow> units" where
  "dim_units DimAPIID a = ag_APIID a"
| "dim_units DimAPIKeys a = ag_APIKeys a"
| "dim_units DimOauthIDs a = ag_OauthIDs a"
| "dim_units DimGeo a = ag_Geo a"
| "dim_units DimErrors a = ag_Errors a"
| "dim_units DimTags a = ag_Tags a"
| "dim_units DimEndpoints a = ag_Endpoints a"
| "dim_units DimApiEndpoint a = ag_ApiEndpoint a"

text \<open>How often a record counts for the unit \<open>k\<close> of a dimension.\<close>

fun dim_count :: "bool \<Rightarrow> string list \<Rightarrow> dim \<Rightarrow> string \<Rightarrow> analytics_record \<Rightarrow> nat" where
  "dim_count tap pre DimAPIID k r = of_bool (r_APIID r = k)"
| "dim_count tap pre DimAPIKeys k r = of_bool (r_APIKey r = k)"
| "dim_count tap pre DimOauthIDs k r = of_bool (r_OauthID r = k)"
| "dim_count tap pre DimGeo k r = of_bool (geo_Country (r_Geo r) = k)"
| "dim_count tap pre DimErrors k r = of_bool (is_error r \<and> itoa (r_ResponseCode r) = k)"
| "dim_count tap pre DimTags k r = length (filter (tag_counts pre k) (r_Tags r))"
| "dim_count tap pre DimEndpoints k r = of_bool ((tap \<or> r_TrackPath r) \<and> replaceUnsupportedChars (r_Path r) = k)"
| "dim_count tap pre DimApiEndpoint k r = of_bool ((tap \<or> r_TrackPath r) \<and> api_endpoint_key r = k)"

definition gain :: "(counter \<Rightarrow> i64) \<Rightarrow> analytics_record \<Rightarrow> i64" where
  "gain sel r = (if is_request r then sel (request_counter r) else 0)"

lemma unit_gain_of_bool: "unit_gain b n = of_nat (of_bool b) * n"
  by (simp add: unit_gain_def)

lemma sum_of_bool_gain:
  "sum_list (map (\<lambda>t. of_bool (P t) * n) ts) = of_nat (length (filter P ts)) * (n :: i64)"
  by (induction ts) (auto simp: algebra_simps)

lemma incrementAggregate_spec:
  assumes "incrementAggregate tap pre a r = Inr (a', tc)" and ok: "error_keys_ok (ag_Errors a)"
  shows "error_keys_ok (ag_Errors a') \<and> ag_TimeStamp a' = ag_TimeStamp a \<and> ag_OrgID a' = ag_OrgID a \<and>
      ag_ExpireAt a' = ag_ExpireAt a \<and> ag_LastTime a' = r_TimeStamp r"
    and "additive_sel sel \<Longrightarrow> sel (ag_Total a') = sel (ag_Total a) + gain sel r"
    and "additive_sel sel \<Longrightarrow> k \<noteq> [] \<Longrightarrow>
      unit_val sel (dim_units d a') k = unit_val sel (dim_units d a) k + of_nat (dim_count tap pre d k r) * gain sel r"
proof (atomize (full), cases "is_request r")
  case False
  then have a': "a' = increment_network r (network_counter r) (touched r a)"
    using assms(1) by (auto simp: incrementAggregate_network)
  have g: "gain sel r = 0" using False by (simp add: gain_def)
  have f: "error_keys_ok (ag_Errors a') \<and> ag_TimeStamp a' = ag_TimeStamp a \<and> ag_OrgID a' = ag_OrgID a \<and>
      ag_ExpireAt a' = ag_ExpireAt a \<and> ag_LastTime a' = r_TimeStamp r"
    using ok by (simp add: a' increment_network_frame [of c_Hits])
  have t: "additive_sel sel \<Longrightarrow> sel (ag_Total a') = sel (ag_Total a)"
    by (simp add: a' increment_network_frame(1) touched_total)
  have u: "additive_sel sel \<Longrightarrow> unit_val sel (dim_units d a') k = unit_val sel (dim_units d a) k"
    by (cases d) (simp_all add: a' increment_network_unit increment_network_frame [of c_Hits])
  from f t u show "(error_keys_ok (ag_Errors a') \<and> ag_TimeStamp a' = ag_TimeStamp a \<and> ag_OrgID a' = ag_OrgID a \<and>
      ag_ExpireAt a' = ag_ExpireAt a \<and> ag_LastTime a' = r_TimeStamp r) \<and>
    (additive_sel sel \<longrightarrow> sel (ag_Total a') = sel (ag_Total a) + gain sel r) \<and>
    (additive_sel sel \<longrightarrow> k \<noteq> [] \<longrightarrow>
      unit_val sel (dim_units d a') k = unit_val sel (dim_units d a) k + of_nat (dim_count tap pre d k r) * gain sel r)"
    by (simp add: g)
next
  case True
  obtain t where t: "increment_total r (ag_Total (touched r a)) = Inr t"
    and u: "increment_units pre (tracked tap r) (request_counter (tracked tap r)) ((touched r a)\<lparr>ag_Total := t\<rparr>) = Inr a'"
    using assms(1) True by (auto simp: incrementAggregate_request rbind_eq_Inr)
  have ok': "error_keys_ok (ag_Errors ((touched r a)\<lparr>ag_Total := t\<rparr>))" using ok by simp
  note sp = increment_units_spec [OF u ok']
  have f: "error_keys_ok (ag_Errors a') \<and> ag_TimeStamp a' = ag_TimeStamp a \<and> ag_OrgID a' = ag_OrgID a \<and>
      ag_ExpireAt a' = ag_ExpireAt a \<and> ag_LastTime a' = r_TimeStamp r"
    using sp(1) by simp
  have tt: "additive_sel sel \<Longrightarrow> sel (ag_Total a') = sel (ag_Total a) + gain sel r"
    using sp(1) increment_total_additive [OF _ t, of sel] True by (simp add: gain_def touched_total)
  have uu: "unit_val sel (dim_units d a') k = unit_val sel (dim_units d a) k + of_nat (dim_count tap pre d k r) * gain sel r"
    if "additive_sel sel" "k \<noteq> []"
    using sp(2-) [OF that(1)] that(2) True
    by (cases d) (simp_all add: gain_def unit_gain_of_bool sum_of_bool_gain)
  from f tt uu show "(error_keys_ok (ag_Errors a') \<and> ag_TimeStamp a' = ag_TimeStamp a \<and> ag_OrgID a' = ag_OrgID a \<and>
      ag_ExpireAt a' = ag_ExpireAt a \<and> ag_LastTime a' = r_TimeStamp r) \<and>
    (additive_sel sel \<longrightarrow> sel (ag_Total a') = sel (ag_Total a) + gain sel r) \<and>
    (additive_sel sel \<longrightarrow> k \<noteq> [] \<longrightarrow>
      unit_val sel (dim_units d a') k = unit_val sel (dim_units d a) k + of_nat (dim_count tap pre d k r) * gain sel r)"
    by blast
qed

section \<open>When an aggregation panics\<close>

definition units2_ok :: "(string, units) gomap \<Rightarrow> bool" where
  "units2_ok mm \<longleftrightarrow> list_all (\<lambda>(k, m). units_ok m) mm"

lemma units2_ok_get: "units2_ok mm \<Longrightarrow> units_ok (case gomap_get mm k of None \<Rightarrow> [] | Some d \<Rightarrow> d)"
  by (auto simp: units2_ok_def list_all_iff dest: map_of_SomeD split: option.splits)

lemma units2_ok_set: "units2_ok mm \<Longrightarrow> units_ok m \<Longrightarrow> units2_ok (gomap_set mm k m)"
  by (induction mm) (auto simp: units2_ok_def)

text \<open>Every counter of the aggregate has an error map.\<close>

definition agg_ok :: "aggregate \<Rightarrow> bool" where
  "agg_ok a \<longleftrightarrow> c_ErrorMap (ag_Total a) \<noteq> None \<and> units_ok (ag_APIKeys a) \<and> units_ok (ag_Errors a) \<and>
     units_ok (ag_Versions a) \<and> units_ok (ag_APIID a) \<and> units_ok (ag_OauthIDs a) \<and> units_ok (ag_Geo a) \<and>
     units_ok (ag_Tags a) \<and> units_ok (ag_Endpoints a) \<and> units2_ok (ag_KeyEndpoint a) \<and>
     units2_ok (ag_OauthEndpoint a) \<and> units_ok (ag_ApiEndpoint a)"

lemma unit_at_okE:
  assumes "units_ok m"
  obtains c m' where "unit_at b m k = Inr (c, m')" "c_ErrorMap c \<noteq> None" "units_ok m'"
  using unit_at_ok [OF assms] by blast

lemma case_APIID_ok: "agg_ok a \<Longrightarrow> \<exists>a'. case_APIID r tc a = Inr a' \<and> agg_ok a'"
  by (rule unit_at_okE [of "ag_APIID a" tc "r_APIID r"]) (auto simp: agg_ok_def case_APIID_def store_unit_ok)

lemma case_Geo_ok: "agg_ok a \<Longrightarrow> \<exists>a'. case_Geo r tc a = Inr a' \<and> agg_ok a'"
  by (rule unit_at_okE [of "ag_Geo a" tc "geo_Country (r_Geo r)"]) (auto simp: agg_ok_def case_Geo_def store_unit_ok Let_def)

lemma case_ResponseCode_ok: "agg_ok a \<Longrightarrow> \<exists>a'. case_ResponseCode r tc a = Inr a' \<and> agg_ok a'"
  by (rule unit_at_okE [of "ag_Errors a" tc "itoa (r_ResponseCode r)"])
    (auto simp: agg_ok_def case_ResponseCode_def store_unit_ok Let_def)

lemma case_APIVersion_ok: "agg_ok a \<Longrightarrow> \<exists>a'. case_APIVersion r tc a = Inr a' \<and> agg_ok a'"
  by (rule unit_at_okE [of "ag_Versions a" tc "doHash (r_APIID r @ '':'' @ r_APIVersion r)"])
    (auto simp: agg_ok_def case_APIVersion_def store_unit_ok Let_def)

lemma endpoint_of_ok: "units2_ok mm \<Longrightarrow> \<exists>mm'. endpoint_of r tc mm k = Inr mm' \<and> units2_ok mm'"
  by (rule unit_at_okE [of "case gomap_get mm k of None \<Rightarrow> [] | Some d \<Rightarrow> d" tc "doHash (r_APIID r @ '':'' @ r_Path r)"])
    (auto simp: units2_ok_get endpoint_of_def Let_def units2_ok_set store_unit_ok)

lemma case_APIKey_ok:
  assumes "agg_ok a"
  shows "\<exists>a'. case_APIKey r tc a = Inr a' \<and> agg_ok a'"
proof -
  obtain c m where "unit_at tc (ag_APIKeys a) (r_APIKey r) = Inr (c, m)" "c_ErrorMap c \<noteq> None" "units_ok m"
    using unit_at_ok [of "ag_APIKeys a" tc "r_APIKey r"] assms unfolding agg_ok_def by blast
  moreover obtain mm where "endpoint_of r tc (ag_KeyEndpoint a) (r_APIKey r) = Inr mm" "units2_ok mm"
    using endpoint_of_ok assms unfolding agg_ok_def by blast
  ultimately show ?thesis
    using assms by (auto simp: agg_ok_def case_APIKey_def store_unit_ok Let_def)
qed

lemma case_OauthID_ok:
  assumes "agg_ok a"
  shows "\<exists>a'. case_OauthID r tc a = Inr a' \<and> agg_ok a'"
proof -
  obtain c m where "unit_at tc (ag_OauthIDs a) (r_OauthID r) = Inr (c, m)" "c_ErrorMap c \<noteq> None" "units_ok m"
    using unit_at_ok [of "ag_OauthIDs a" tc "r_OauthID r"] assms unfolding agg_ok_def by blast
  moreover obtain mm where "endpoint_of r tc (ag_OauthEndpoint a) (r_OauthID r) = Inr mm" "units2_ok mm"
    using endpoint_of_ok assms unfolding agg_ok_def by blast
  ultimately show ?thesis
    using assms by (auto simp: agg_ok_def case_OauthID_def store_unit_ok Let_def)
qed

lemma tag_step_ok: "agg_ok a \<Longrightarrow> \<exists>a'. tag_step pre tc a tag = Inr a' \<and> agg_ok a'"
  by (rule unit_at_okE [of "ag_Tags a" tc "TrimTag tag"])
    (auto simp: agg_ok_def tag_step_def store_unit_ok Let_def)

lemma case_Tags_ok: "agg_ok a \<Longrightarrow> \<exists>a'. case_Tags pre r tc a = Inr a' \<and> agg_ok a'"
  unfolding case_Tags_def by (rule rfold_ok) (auto intro: tag_step_ok)

lemma case_TrackPath_ok: "agg_ok a \<Longrightarrow> \<exists>a'. case_TrackPath r tc a = Inr a' \<and> agg_ok a'"
  by (rule unit_at_okE [of "ag_Endpoints a" tc "replaceUnsupportedChars (r_Path r)"], simp add: agg_ok_def,
      rule unit_at_okE [of "ag_ApiEndpoint a" tc "api_endpoint_key r"], simp add: agg_ok_def)
    (auto simp: agg_ok_def case_TrackPath_def store_unit_ok Let_def)

lemma increment_units_ok: "agg_ok a \<Longrightarrow> \<exists>a'. increment_units pre r tc a = Inr a' \<and> agg_ok a'"
  unfolding increment_units_def
  by (intro rbind_okI [where P = agg_ok] case_ResponseCode_ok case_APIKey_ok case_APIVersion_ok case_APIID_ok
      case_OauthID_ok case_Geo_ok case_Tags_ok case_TrackPath_ok)

lemma increment_total_ok:
  "c_ErrorMap t \<noteq> None \<Longrightarrow> \<exists>t'. increment_total r t = Inr t' \<and> c_ErrorMap t' \<noteq> None"
  by (auto simp: increment_total_def nilmap_add_def Let_def)

text \<open>A request, and a network record without an API, keep an aggregate free of panics.\<close>

lemma incrementAggregate_ok:
  assumes "agg_ok a" and "is_request r \<or> r_APIID r = []"
  shows "\<exists>a' tc. incrementAggregate tap pre a r = Inr (a', tc) \<and> agg_ok a'"
proof (cases "is_request r")
  case True
  have "c_ErrorMap (ag_Total (touched r a)) \<noteq> None" using assms(1) by (simp add: touched_def agg_ok_def)
  then obtain t where t: "increment_total r (ag_Total (touched r a)) = Inr t" "c_ErrorMap t \<noteq> None"
    using increment_total_ok by blast
  then have "agg_ok ((touched r a)\<lparr>ag_Total := t\<rparr>)" using assms(1) by (auto simp: agg_ok_def touched_def)
  from increment_units_ok [OF this, of pre "tracked tap r" "request_counter r"] t True
  show ?thesis by (auto simp: incrementAggregate_request)
next
  case False
  with assms show ?thesis
    by (auto simp: incrementAggregate_network increment_network_def agg_ok_def touched_def Let_def)
qed

end
