(* ===== verification/Aggregate_Groups.thy ===== *)
theory Aggregate_Groups
  imports Aggregate
begin

text \<open>
  What \<open>AggregateData\<close> of \<open>src/analytics/aggregate.go\<close> promises: the result has
  one aggregate per organisation of the batch, each one the fold of the records of that
  organisation (\<open>group_loop\<close> interpreted on the loop of the code), so that the totals and
  the units of the dimensions count exactly those records; when the call returns at all; and the
  window \<open>setAggregateTimestamp\<close> assigns to a document.
\<close>

section \<open>The loop as an instance of \<open>group_loop\<close>\<close>

definition is_rest :: "analytics_record \<Rightarrow> bool" where
  "is_rest r \<longleftrightarrow> r_OrgID r \<noteq> [] \<and> \<not> IsGraphRecord r \<and> \<not> IsMCPRecord r"

text \<open>A nil item panics whatever its group; the model puts it into the group without a name.\<close>

definition rest_key :: "item \<Rightarrow> string option" where
  "rest_key v = (case v of ItemNil \<Rightarrow> Some [] | ItemRecord r \<Rightarrow> if is_rest r then Some (r_OrgID r) else None)"

definition rest_init :: "string \<Rightarrow> i64 \<Rightarrow> last_ts \<Rightarrow> item \<Rightarrow> aggregate \<times> last_ts" where
  "rest_init db agg ts v = (case v of ItemNil \<Rightarrow> (aggregate_New, ts) | ItemRecord r \<Rightarrow> seed_aggregate db agg ts r)"

definition agg_step :: "bool \<Rightarrow> string list \<Rightarrow> aggregate \<Rightarrow> analytics_record \<Rightarrow> aggregate res" where
  "agg_step tap pre a r = rbind (incrementAggregate tap pre a r) (\<lambda>(a, _). Inr a)"

definition rest_step :: "bool \<Rightarrow> string list \<Rightarrow> aggregate \<Rightarrow> item \<Rightarrow> aggregate res" where
  "rest_step tap pre a v = rbind (assert_record v) (agg_step tap pre a)"

interpretation rest: group_loop rest_key "rest_init db agg" "rest_step tap pre" "aggregate_loop tap pre db agg"
  for tap pre db agg
proof
  fix ts and m :: "(string, aggregate) gomap"
  show "aggregate_loop tap pre db agg ts m [] = Inr (m, ts)" by simp
next
  fix v ts vs and m :: "(string, aggregate) gomap"
  assume "rest_key v = None"
  then show "aggregate_loop tap pre db agg ts m (v # vs) = aggregate_loop tap pre db agg ts m vs"
    by (cases v) (auto simp: rest_key_def is_rest_def Let_def split: if_splits)
next
  fix v k a ts vs and m :: "(string, aggregate) gomap"
  assume "rest_key v = Some k" and "gomap_get m k = Some a"
  then show "aggregate_loop tap pre db agg ts m (v # vs) =
      rbind (rest_step tap pre a v) (\<lambda>a'. aggregate_loop tap pre db agg ts (gomap_set m k a') vs)"
    by (cases v) (auto simp: rest_key_def is_rest_def rest_step_def agg_step_def rbind_def Let_def
        split: if_splits sum.splits)
next
  fix v k a ts ts' vs and m :: "(string, aggregate) gomap"
  assume "rest_key v = Some k" and "gomap_get m k = None" and "rest_init db agg ts v = (a, ts')"
  then show "aggregate_loop tap pre db agg ts m (v # vs) =
      rbind (rest_step tap pre a v) (\<lambda>a'. aggregate_loop tap pre db agg ts' (gomap_set m k a') vs)"
    by (cases v) (auto simp: rest_key_def rest_init_def is_rest_def rest_step_def agg_step_def rbind_def Let_def
        split: if_splits sum.splits)
qed

text \<open>The records of an organisation that are aggregated, in the order of the batch.\<close>

fun rest_records :: "string \<Rightarrow> item list \<Rightarrow> analytics_record list" where
  "rest_records org [] = []"
| "rest_records org (ItemNil # vs) = rest_records org vs"
| "rest_records org (ItemRecord r # vs) =
     (if is_rest r \<and> r_OrgID r = org then r # rest_records org vs else rest_records org vs)"

lemma rest_members: "org \<noteq> [] \<Longrightarrow> rest.members org vs = map ItemRecord (rest_records org vs)"
  by (induction org vs rule: rest_records.induct) (auto simp: rest_key_def)

lemma rest_step_record: "rest_step tap pre a (ItemRecord r) = agg_step tap pre a r"
  by (simp add: rest_step_def)

lemma rfold_rest_step: "rfold (rest_step tap pre) a (map ItemRecord rs) = rfold (agg_step tap pre) a rs"
  by (induction rs arbitrary: a) (simp_all add: rest_step_record)

text \<open>An organisation of the result is the fold over its records, from a seed of the first one.\<close>

lemma AggregateData_group:
  assumes "AggregateData data tap pre db agg ts = Inr (m, ts')" and "org \<noteq> []"
  shows "case rest_records org data of
      [] \<Rightarrow> gomap_get m org = None
    | r # rs \<Rightarrow> \<exists>ts0 a. rfold (agg_step tap pre) (fst (seed_aggregate db agg ts0 r)) (r # rs) = Inr a \<and>
        gomap_get m org = Some a"
proof -
  have "aggregate_loop tap pre db agg ts [] data = Inr (m, ts')"
    using assms(1) by (simp add: AggregateData_def)
  note g = rest.run_get_new [OF this, of org]
  show ?thesis
  proof (cases "rest_records org data")
    case Nil
    with g assms(2) show ?thesis by (simp add: rest_members)
  next
    case (Cons r rs)
    then have mem: "rest.members org data = ItemRecord r # map ItemRecord rs"
      using assms(2) by (simp add: rest_members)
    from g obtain ts0 a where "rfold (rest_step tap pre) (fst (rest_init db agg ts0 (ItemRecord r)))
        (map ItemRecord (r # rs)) = Inr a" "gomap_get m org = Some a"
      unfolding mem list.case list.map by auto
    with Cons show ?thesis
      unfolding rfold_rest_step by (auto simp: rest_init_def simp del: rfold.simps)
  qed
qed

lemma seed_simps [simp]:
  "ag_Total (fst (seed_aggregate db agg ts r)) = counter_zero\<lparr>c_ErrorMap := Some []\<rparr>"
  "dim_units d (fst (seed_aggregate db agg ts r)) = []"
  "ag_OrgID (fst (seed_aggregate db agg ts r)) = r_OrgID r"
  "ag_ExpireAt (fst (seed_aggregate db agg ts r)) = r_ExpireAt r"
  "ag_Errors (fst (seed_aggregate db agg ts r)) = []"
  "ag_TimeStamp (fst (seed_aggregate db agg ts r)) = fst (setAggregateTimestamp db (r_TimeStamp r) agg ts)"
  by (cases d; simp add: seed_aggregate_def aggregate_New_def Let_def case_prod_beta)+

lemma seed_total_zero: "additive_sel sel \<Longrightarrow> sel (counter_zero\<lparr>c_ErrorMap := Some []\<rparr>) = 0"
  by (auto simp: additive_sel_def counter_zero_def)

lemma seed_ok: "agg_ok (fst (seed_aggregate db agg ts r))"
  by (simp add: seed_aggregate_def aggregate_New_def agg_ok_def units2_ok_def Let_def case_prod_beta)

lemma error_keys_ok_Nil [simp]: "error_keys_ok []"
  by (simp add: error_keys_ok_def)

section \<open>What the fold adds up to\<close>

lemma agg_step_spec:
  assumes "agg_step tap pre a r = Inr a'" and "error_keys_ok (ag_Errors a)"
  shows "error_keys_ok (ag_Errors a') \<and> ag_TimeStamp a' = ag_TimeStamp a \<and> ag_OrgID a' = ag_OrgID a \<and>
      ag_ExpireAt a' = ag_ExpireAt a \<and> ag_LastTime a' = r_TimeStamp r"
    and "additive_sel sel \<Longrightarrow> sel (ag_Total a') = sel (ag_Total a) + gain sel r"
    and "additive_sel sel \<Longrightarrow> k \<noteq> [] \<Longrightarrow>
      unit_val sel (dim_units d a') k = unit_val sel (dim_units d a) k + of_nat (dim_count tap pre d k r) * gain sel r"
  using assms incrementAggregate_spec [OF _ assms(2)] by (auto simp: agg_step_def rbind_eq_Inr)

text \<open>The sums of \<open>rfold_sum\<close> under an invariant of the state.\<close>

lemma rfold_sum_inv:
  fixes F :: "'s \<Rightarrow> 'n :: comm_monoid_add"
  assumes "rfold f s xs = Inr t" and "P s"
    and "\<And>x s s'. x \<in> set xs \<Longrightarrow> f s x = Inr s' \<Longrightarrow> P s \<Longrightarrow> P s' \<and> F s' = F s + d x"
  shows "P t \<and> F t = F s + sum_list (map d xs)"
  using assms
proof (induction xs arbitrary: s)
  case Nil
  then show ?case by simp
next
  case (Cons x xs)
  from Cons.prems(1) obtain s' where s': "f s x = Inr s'" "rfold f s' xs = Inr t"
    by (auto simp: rbind_eq_Inr)
  with Cons.prems(2,3) have s2: "P s'" "F s' = F s + d x" by auto
  have "P t \<and> F t = F s' + sum_list (map d xs)"
    using s'(2) s2(1) Cons.prems(3) by (intro Cons.IH) auto
  with s2(2) show ?case by (simp add: ac_simps)
qed

lemma agg_fold_total:
  assumes "rfold (agg_step tap pre) a rs = Inr a'" and "error_keys_ok (ag_Errors a)" and "additive_sel sel"
  shows "sel (ag_Total a') = sel (ag_Total a) + sum_list (map (gain sel) rs)"
  using rfold_sum_inv [OF assms(1), where P = "\<lambda>a. error_keys_ok (ag_Errors a)" and F = "\<lambda>a. sel (ag_Total a)" and d = "gain sel"]
    agg_step_spec assms(2,3) by blast

lemma agg_fold_units:
  assumes "rfold (agg_step tap pre) a rs = Inr a'" and "error_keys_ok (ag_Errors a)" and "additive_sel sel"
    and "k \<noteq> []"
  shows "unit_val sel (dim_units d a') k = unit_val sel (dim_units d a) k +
    sum_list (map (\<lambda>r. of_nat (dim_count tap pre d k r) * gain sel r) rs)"
  using rfold_sum_inv [OF assms(1), where P = "\<lambda>a. error_keys_ok (ag_Errors a)"
      and F = "\<lambda>a. unit_val sel (dim_units d a) k" and d = "\<lambda>r. of_nat (dim_count tap pre d k r) * gain sel r"]
    agg_step_spec assms(2,3,4) by blast

lemma agg_fold_frame:
  assumes "rfold (agg_step tap pre) a rs = Inr a'" and "error_keys_ok (ag_Errors a)"
  shows "ag_TimeStamp a' = ag_TimeStamp a \<and> ag_OrgID a' = ag_OrgID a \<and> ag_ExpireAt a' = ag_ExpireAt a"
  using rfold_invariant [OF assms(1), where P = "\<lambda>b. error_keys_ok (ag_Errors b) \<and>
      ag_TimeStamp b = ag_TimeStamp a \<and> ag_OrgID b = ag_OrgID a \<and> ag_ExpireAt b = ag_ExpireAt a"]
    agg_step_spec(1) assms(2) by (metis (no_types, lifting))

lemma agg_fold_ok:
  assumes "agg_ok a" and "\<And>r. r \<in> set rs \<Longrightarrow> is_request r \<or> r_APIID r = []"
  shows "\<exists>a'. rfold (agg_step tap pre) a rs = Inr a' \<and> agg_ok a'"
  using assms(1)
proof (rule rfold_ok [where P = agg_ok])
  fix a r
  assume "r \<in> set rs" and "agg_ok a"
  from incrementAggregate_ok [OF this(2) assms(2) [OF this(1)], of tap pre]
  show "\<exists>a'. agg_step tap pre a r = Inr a' \<and> agg_ok a'" by (auto simp: agg_step_def)
qed

lemma AggregateData_get:
  assumes "AggregateData data tap pre db agg ts = Inr (m, ts')" and "org \<noteq> []" and "gomap_get m org = Some a"
  obtains r rs ts0 where "rest_records org data = r # rs"
    and "rfold (agg_step tap pre) (fst (seed_aggregate db agg ts0 r)) (rest_records org data) = Inr a"
  using AggregateData_group [OF assms(1,2)] assms(3) that
  by (cases "rest_records org data") (auto simp del: rfold.simps)

lemma gain_simps:
  "gain c_Hits r = of_bool (is_request r)"
  "gain c_Success r = of_bool (is_success r)"
  "gain c_ErrorTotal r = of_bool (is_error r)"
  "gain c_TotalLatency r = (if is_request r then la_Total (r_Latency r) else 0)"
  "gain c_TotalUpstreamLatency r = (if is_request r then la_Upstream (r_Latency r) else 0)"
  by (auto simp: gain_def request_counter_def is_request_def is_success_def is_error_def)

lemma sum_of_bool: "sum_list (map (\<lambda>x. of_bool (P x)) xs) = (of_nat (length (filter P xs)) :: i64)"
  by (induction xs) auto

lemma sum_gain:
  "sum_list (map (gain c_Hits) rs) = of_nat (length (filter is_request rs))"
  "sum_list (map (gain c_Success) rs) = of_nat (length (filter is_success rs))"
  "sum_list (map (gain c_ErrorTotal) rs) = of_nat (length (filter is_error rs))"
  by (simp_all add: gain_simps sum_of_bool cong: map_cong)

lemma sum_count:
  "sum_list (map (\<lambda>r. of_nat (f r) * of_bool (P r)) rs) = (of_nat (\<Sum>r\<leftarrow>filter P rs. f r) :: i64)"
  by (induction rs) auto

lemma AggregateData_defined:
  assumes "ItemNil \<notin> set data"
    and "\<And>r. ItemRecord r \<in> set data \<Longrightarrow> is_rest r \<Longrightarrow> r_ResponseCode r = -1 \<Longrightarrow> r_APIID r = []"
  shows "\<exists>m ts'. AggregateData data tap pre db agg ts = Inr (m, ts')"
proof -
  have "\<exists>m ts'. aggregate_loop tap pre db agg ts [] data = Inr (m, ts') \<and> (\<forall>a. a \<in> snd ` set m \<longrightarrow> agg_ok a)"
  proof (rule rest.run_total [where P = agg_ok])
    fix g v k
    assume "v \<in> set data"
    with assms(1) show "agg_ok (fst (rest_init db agg g v))"
      by (cases v) (auto simp: rest_init_def seed_ok)
  next
    fix a v k
    assume v: "v \<in> set data" "rest_key v = Some k" "agg_ok a"
    with assms(1) obtain r where r: "v = ItemRecord r" by (cases v) auto
    with v have "is_rest r" by (auto simp: rest_key_def split: if_splits)
    with assms(2) v r have "is_request r \<or> r_APIID r = []" by (auto simp: is_request_def)
    from incrementAggregate_ok [OF v(3) this, of tap pre] r
    show "\<exists>a'. rest_step tap pre a v = Inr a' \<and> agg_ok a'" by (auto simp: rest_step_record agg_step_def)
  qed simp
  then show ?thesis by (auto simp: AggregateData_def)
qed

lemma AggregateData_defined_get:
  assumes "ItemNil \<notin> set data"
    and "\<And>r. ItemRecord r \<in> set data \<Longrightarrow> is_rest r \<Longrightarrow> r_ResponseCode r = -1 \<Longrightarrow> r_APIID r = []"
    and "org \<noteq> []" and "rest_records org data \<noteq> []"
  obtains m ts' a where "AggregateData data tap pre db agg ts = Inr (m, ts')" "gomap_get m org = Some a"
proof -
  obtain m ts' where m: "AggregateData data tap pre db agg ts = Inr (m, ts')"
    using AggregateData_defined [OF assms(1,2)] by blast
  moreover obtain a where "gomap_get m org = Some a"
    using AggregateData_group [OF m assms(3)] assms(4) by (auto split: list.splits simp del: rfold.simps)
  ultimately show ?thesis by (rule that)
qed

text \<open>Concrete batches for the examples below.\<close>

definition sample_request :: "string \<Rightarrow> string \<Rightarrow> i64 \<Rightarrow> i64 \<Rightarrow> analytics_record" where
  "sample_request org api code lat = record_zero\<lparr>r_OrgID := org, r_APIID := api, r_ResponseCode := code,
     r_Latency := \<lparr>la_Total = lat, la_Upstream = lat, la_Gateway = 0\<rparr>\<rparr>"

definition sample_batch :: "item list" where
  "sample_batch = [ItemRecord (sample_request ''o'' ''a'' 200 3), ItemRecord (sample_request ''p'' ''a'' 200 9),
     ItemRecord (sample_request ''o'' ''b'' 500 4), ItemRecord (sample_request ''o'' ''a'' 302 5)]"

lemma sample_request_simps [simp]:
  "r_OrgID (sample_request org api code lat) = org" "r_APIID (sample_request org api code lat) = api"
  "r_ResponseCode (sample_request org api code lat) = code"
  "la_Total (r_Latency (sample_request org api code lat)) = lat"
  "la_Upstream (r_Latency (sample_request org api code lat)) = lat"
  "r_ExpireAt (sample_request org api code lat) = time_zero"
  "is_rest (sample_request org api code lat) \<longleftrightarrow> org \<noteq> []"
  by (simp_all add: sample_request_def record_zero_def is_rest_def IsGraphRecord_def IsMCPRecord_def
      graphql_zero_def mcp_zero_def)

lemmas sample_defs = sample_batch_def is_request_def is_success_def is_error_def

lemma sample_batch_ok:
  "ItemNil \<notin> set sample_batch"
  "ItemRecord r \<in> set sample_batch \<Longrightarrow> is_rest r \<Longrightarrow> r_ResponseCode r = -1 \<Longrightarrow> r_APIID r = []"
  by (auto simp: sample_batch_def)

lemma sample_batch_get:
  obtains m ts' a where "AggregateData sample_batch tap pre db agg ts = Inr (m, ts')" "gomap_get m ''o'' = Some a"
  by (rule AggregateData_defined_get [OF sample_batch_ok, of "''o''" tap pre db agg ts])
    (auto simp: sample_batch_def)

section \<open>Properties of AggregateData\<close>

text \<open>
  C1. The totals of an organisation in the result of \<open>AggregateData\<close> count the records of
  that organisation in the batch that are neither graph nor MCP records and not mere network
  statistics (code -1): hits, successes (200 to 299), errors (400 and above), and the sums of
  the two latencies, in 64-bit arithmetic.
\<close>

theorem AggregateData_totals:
  assumes "AggregateData data tap pre db agg ts = Inr (m, ts')" and "org \<noteq> []" and "gomap_get m org = Some a"
  shows "c_Hits (ag_Total a) = of_nat (length (filter is_request (rest_records org data))) \<and>
    c_Success (ag_Total a) = of_nat (length (filter is_success (rest_records org data))) \<and>
    c_ErrorTotal (ag_Total a) = of_nat (length (filter is_error (rest_records org data))) \<and>
    c_TotalLatency (ag_Total a) =
      (\<Sum>r\<leftarrow>rest_records org data. if is_request r then la_Total (r_Latency r) else 0) \<and>
    c_TotalUpstreamLatency (ag_Total a) =
      (\<Sum>r\<leftarrow>rest_records org data. if is_request r then la_Upstream (r_Latency r) else 0)"
proof -
  obtain r ts0 where "rfold (agg_step tap pre) (fst (seed_aggregate db agg ts0 r)) (rest_records org data) = Inr a"
    using AggregateData_get [OF assms] by blast
  from agg_fold_total [OF this] have g: "sel (ag_Total a) = sum_list (map (gain sel) (rest_records org data))"
    if "additive_sel sel" for sel
    using that by (simp add: seed_total_zero)
  show ?thesis
    using g [of c_Hits] g [of c_Success] g [of c_ErrorTotal] g [of c_TotalLatency] g [of c_TotalUpstreamLatency]
    by (simp add: gain_simps sum_of_bool cong: map_cong)
qed

theorem AggregateData_totals_witness:
  "\<exists>m ts' a. AggregateData sample_batch False [] [] 60 [] = Inr (m, ts') \<and> gomap_get m ''o'' = Some a \<and>
     c_Hits (ag_Total a) = 3 \<and> c_Success (ag_Total a) = 1 \<and> c_ErrorTotal (ag_Total a) = 1 \<and>
     c_TotalLatency (ag_Total a) = 12"
proof -
  obtain m ts' a where m: "AggregateData sample_batch False [] [] 60 [] = Inr (m, ts')" "gomap_get m ''o'' = Some a"
    by (rule sample_batch_get)
  from AggregateData_totals [OF m(1) _ m(2)] m show ?thesis by (simp add: sample_defs)
qed

text \<open>
  C2. The unit of a dimension in the result of \<open>AggregateData\<close> counts exactly the requests
  of the organisation that belong to it: by API, key, OAuth client, country, error code, tag
  (once per occurrence), endpoint and API endpoint, with the hits, successes, errors and
  latencies of those requests.
\<close>

theorem AggregateData_units:
  assumes "AggregateData data tap pre db agg ts = Inr (m, ts')" and "org \<noteq> []" and "gomap_get m org = Some a"
    and "k \<noteq> []"
  shows "unit_val c_Hits (dim_units d a) k =
      of_nat (\<Sum>r\<leftarrow>filter is_request (rest_records org data). dim_count tap pre d k r) \<and>
    unit_val c_Success (dim_units d a) k =
      of_nat (\<Sum>r\<leftarrow>filter is_success (rest_records org data). dim_count tap pre d k r) \<and>
    unit_val c_ErrorTotal (dim_units d a) k =
      of_nat (\<Sum>r\<leftarrow>filter is_error (rest_records org data). dim_count tap pre d k r) \<and>
    unit_val c_TotalLatency (dim_units d a) k = (\<Sum>r\<leftarrow>rest_records org data.
      of_nat (dim_count tap pre d k r) * (if is_request r then la_Total (r_Latency r) else 0))"
proof -
  obtain r ts0 where "rfold (agg_step tap pre) (fst (seed_aggregate db agg ts0 r)) (rest_records org data) = Inr a"
    using AggregateData_get [OF assms(1-3)] by blast
  from agg_fold_units [OF this] have u: "unit_val sel (dim_units d a) k =
      sum_list (map (\<lambda>r. of_nat (dim_count tap pre d k r) * gain sel r) (rest_records org data))"
    if "additive_sel sel" for sel
    using that assms(4) by simp
  show ?thesis
    using u [of c_Hits] u [of c_Success] u [of c_ErrorTotal] u [of c_TotalLatency]
    by (simp only: gain_simps sum_count additive_intros)
qed

theorem AggregateData_units_witness:
  "\<exists>m ts' a. AggregateData sample_batch False [] [] 60 [] = Inr (m, ts') \<and> gomap_get m ''o'' = Some a \<and>
     unit_val c_Hits (ag_APIID a) ''a'' = 2 \<and> unit_val c_ErrorTotal (ag_APIID a) ''b'' = 1"
proof -
  obtain m ts' a where m: "AggregateData sample_batch False [] [] 60 [] = Inr (m, ts')" "gomap_get m ''o'' = Some a"
    by (rule sample_batch_get)
  from AggregateData_units [OF m(1) _ m(2), of "''a''" DimAPIID]
    AggregateData_units [OF m(1) _ m(2), of "''b''" DimAPIID] m
  show ?thesis by (simp add: sample_defs)
qed

text \<open>
  The result of \<open>AggregateData\<close> has one aggregate for every organisation with at
  least one record to aggregate, and no other key; the aggregate carries the organisation and
  the expiry of its first record.
\<close>

theorem AggregateData_orgs:
  assumes "AggregateData data tap pre db agg ts = Inr (m, ts')" and "ItemNil \<notin> set data"
  shows "gomap_ok m \<and> set (gomap_keys m) = {org. rest_records org data \<noteq> [] \<and> org \<noteq> []} \<and>
    (\<forall>org a. org \<noteq> [] \<and> gomap_get m org = Some a \<longrightarrow>
       ag_OrgID a = org \<and> ag_ExpireAt a = r_ExpireAt (hd (rest_records org data)))"
proof -
  have run: "aggregate_loop tap pre db agg ts [] data = Inr (m, ts')"
    using assms(1) by (simp add: AggregateData_def)
  have key: "rest_key v = Some org \<longleftrightarrow> (\<exists>r. v = ItemRecord r \<and> is_rest r \<and> r_OrgID r = org)"
    if "v \<in> set data" for v org
  proof -
    have "v \<noteq> ItemNil" using that assms(2) by metis
    then show ?thesis by (cases v) (simp_all add: rest_key_def)
  qed
  have rec: "rest_records org vs \<noteq> [] \<longleftrightarrow> (\<exists>r. ItemRecord r \<in> set vs \<and> is_rest r \<and> r_OrgID r = org)" for org vs
    by (induction org vs rule: rest_records.induct) auto
  have "set (gomap_keys m) = {org. \<exists>v \<in> set data. rest_key v = Some org}"
    using rest.run_dom [OF run] by (simp add: gomap_keys_def)
  also have "\<dots> = {org. rest_records org data \<noteq> [] \<and> org \<noteq> []}"
    unfolding rec using key by (auto simp: is_rest_def)
  finally have "set (gomap_keys m) = {org. rest_records org data \<noteq> [] \<and> org \<noteq> []}" .
  moreover have "gomap_ok m" using rest.run_ok_map [OF run] by simp
  moreover have "ag_OrgID a = org \<and> ag_ExpireAt a = r_ExpireAt (hd (rest_records org data))"
    if get: "org \<noteq> []" "gomap_get m org = Some a" for org a
  proof -
    obtain r rs ts0 where r: "rest_records org data = r # rs"
      and f: "rfold (agg_step tap pre) (fst (seed_aggregate db agg ts0 r)) (rest_records org data) = Inr a"
      using AggregateData_get [OF assms(1) get] by blast
    have "r_OrgID r = org" using r
      by (induction org data rule: rest_records.induct) (auto split: if_splits)
    with agg_fold_frame [OF f] r show ?thesis by simp
  qed
  ultimately show ?thesis by blast
qed

theorem AggregateData_orgs_witness:
  "\<exists>m ts' a. AggregateData sample_batch False [] [] 60 [] = Inr (m, ts') \<and> gomap_get m ''o'' = Some a \<and>
     ''q'' \<notin> set (gomap_keys m) \<and> ag_OrgID a = ''o''"
proof -
  obtain m ts' a where m: "AggregateData sample_batch False [] [] 60 [] = Inr (m, ts')" "gomap_get m ''o'' = Some a"
    by (rule sample_batch_get)
  from AggregateData_orgs [OF m(1) sample_batch_ok(1)] m show ?thesis by (auto simp: sample_batch_def)
qed

text \<open>
  C13. \<open>AggregateData\<close> returns, without a panic, for every batch without nil items in which
  no record of network statistics (code -1) names an API.
\<close>

theorem AggregateData_returns:
  assumes "ItemNil \<notin> set data"
    and "\<And>r. ItemRecord r \<in> set data \<Longrightarrow> is_rest r \<Longrightarrow> r_ResponseCode r = -1 \<Longrightarrow> r_APIID r = []"
  shows "\<exists>m ts'. AggregateData data tap pre db agg ts = Inr (m, ts')"
  using assms by (rule AggregateData_defined)

theorem AggregateData_returns_witness:
  "\<exists>m ts'. AggregateData sample_batch True [''x''] ''db'' 5 [] = Inr (m, ts')"
  by (rule AggregateData_returns [OF sample_batch_ok])

text \<open>
  C14. The batch that makes \<open>AggregateData\<close> panic: the counter that network statistics
  create for an API has no error map, and the first error of that API in the same batch stores
  into the nil map.
\<close>

theorem AggregateData_nil_map_panic:
  assumes "is_rest r1" "is_rest r2" "r_OrgID r1 = r_OrgID r2"
    and "r_ResponseCode r1 = -1" "r_APIID r1 \<noteq> []"
    and "400 \<le> sint (r_ResponseCode r2)" "r_APIID r2 = r_APIID r1"
  shows "\<not> is_ok (AggregateData [ItemRecord r1, ItemRecord r2] tap pre db agg ts)"
proof
  assume "is_ok (AggregateData [ItemRecord r1, ItemRecord r2] tap pre db agg ts)"
  then obtain m ts' where m: "AggregateData [ItemRecord r1, ItemRecord r2] tap pre db agg ts = Inr (m, ts')"
    by (auto simp: is_ok_conv)
  let ?org = "r_OrgID r1"
  have org: "?org \<noteq> []" using assms(1) by (simp add: is_rest_def)
  have rs: "rest_records ?org [ItemRecord r1, ItemRecord r2] = [r1, r2]"
    using assms(1-3) by simp
  obtain ts0 a where f: "rfold (agg_step tap pre) (fst (seed_aggregate db agg ts0 r1)) [r1, r2] = Inr a"
    using AggregateData_group [OF m org] unfolding rs list.case by blast
  define a0 where "a0 = fst (seed_aggregate db agg ts0 r1)"
  define a1 where "a1 = increment_network r1 (network_counter r1) (touched r1 a0)"
  have "agg_step tap pre a0 r1 = Inr a1"
    using assms(4) by (simp add: agg_step_def incrementAggregate_network is_request_def a1_def)
  with f have a: "agg_step tap pre a1 r2 = Inr a" by (simp add: a0_def rbind_eq_Inr)
  have "ag_APIID a0 = []" using seed_simps(2) [of DimAPIID db agg ts0 r1] unfolding a0_def dim_units.simps .
  then obtain c where c: "gomap_get (ag_APIID a1) (r_APIID r1) = Some c" "c_ErrorMap c = None"
    using assms(5) by (auto simp: a1_def increment_network_def counter_zero_def Let_def)
  have req: "is_request r2" "is_error r2" using assms(6) by (auto simp: is_request_def is_error_def)
  from a obtain t a2 where "increment_units pre (tracked tap r2) (request_counter r2) ((touched r2 a1)\<lparr>ag_Total := t\<rparr>) = Inr a2"
    by (auto simp: agg_step_def incrementAggregate_request [OF req(1)] rbind_eq_Inr)
  then obtain b1 b2 b3 b4 where b:
    "case_ResponseCode (tracked tap r2) (request_counter r2) ((touched r2 a1)\<lparr>ag_Total := t\<rparr>) = Inr b1"
    "case_APIKey (tracked tap r2) (request_counter r2) b1 = Inr b2"
    "case_APIVersion (tracked tap r2) (request_counter r2) b2 = Inr b3"
    "case_APIID (tracked tap r2) (request_counter r2) b3 = Inr b4"
    unfolding increment_units_def rbind_eq_Inr by blast
  have "ag_APIID b1 = ag_APIID a1"
    using b(1) by (auto simp: case_ResponseCode_def rbind_eq_Inr Let_def split: if_splits)
  with case_APIKey_spec [OF b(2)] case_APIVersion_spec [OF b(3)] have "ag_APIID b3 = ag_APIID a1" by auto
  with b(4) have "is_ok (incrementOrSetUnit (request_counter r2) (gomap_get (ag_APIID a1) (r_APIID r2)))"
    by (auto simp: case_APIID_def unit_at_def rbind_eq_Inr)
  with c req(2) assms(7) show False
    by (auto simp: incrementOrSetUnit_ok_iff request_counter_def errors_of_def gomap_add_def)
qed

theorem AggregateData_nil_map_panic_witness:
  "\<not> is_ok (AggregateData [ItemRecord (sample_request ''o'' ''a'' (-1) 0),
     ItemRecord (sample_request ''o'' ''a'' 500 4)] False [] [] 60 [])"
  by (rule AggregateData_nil_map_panic) simp_all

section \<open>The window of a document\<close>

lemma setAggregateTimestamp_simps:
  "setAggregateTimestamp db t agg ts =
     (if agg = 60 then (trunc_hour t, ts)
      else (let (last, ts) = (case gomap_get ts db of
                 None \<Rightarrow> (trunc_minute t, gomap_set ts db (trunc_minute t))
               | Some u \<Rightarrow> if u = time_zero then (trunc_minute t, gomap_set ts db (trunc_minute t)) else (u, ts))
            in if db \<noteq> [] then
                 (if time_after (time_add last (dur_minute * agg)) t then (last, ts)
                  else (trunc_minute t, gomap_set ts db (trunc_minute t)))
               else (trunc_minute t, ts)))"
  by (simp only: setAggregateTimestamp_def date_hour date_minute Let_def)

lemma minutes_exact:
  assumes "1 \<le> sint agg" and "sint agg \<le> 60"
  shows "sint (dur_minute * agg) = 60000000000 * sint agg"
proof -
  have "dur_minute * agg = word_of_int (60000000000 * sint agg)" by (simp add: dur_minute_def)
  with assms show ?thesis by (simp only:) (rule sint_of_int64; simp)
qed

lemma time_after_add_minutes:
  assumes "1 \<le> sint agg" and "sint agg \<le> 60" and "time_ok u"
  shows "time_after (time_add u (dur_minute * agg)) t \<longleftrightarrow>
    t_sec t < t_sec u + 60 * sint agg \<or> t_sec t = t_sec u + 60 * sint agg \<and> t_nsec t < t_nsec u"
proof -
  have "t_nsec u + 60000000000 * sint agg = (60 * sint agg) * 1000000000 + t_nsec u" by simp
  then have "(t_nsec u + 60000000000 * sint agg) div 1000000000 = 60 * sint agg"
    "(t_nsec u + 60000000000 * sint agg) mod 1000000000 = t_nsec u"
    using assms(3) by (simp_all only: div_mult_self3 mod_mult_self3 time_ok_def) simp_all
  with assms(1,2) show ?thesis
    by (auto simp: time_after_def time_add_def minutes_exact Let_def)
qed

lemma trunc_minute_window:
  assumes "time_ok t"
  shows "t_sec (trunc_minute t) \<le> t_sec t \<and> t_sec t < t_sec (trunc_minute t) + 60 \<and> t_nsec (trunc_minute t) = 0"
  by (simp add: trunc_minute_def)

text \<open>
  The hourly window: with an aggregation time of 60 the document of a record starts at the
  full hour of the record's own location, at most one hour before the record, and the
  timestamps remembered for other windows are left alone.
\<close>

theorem setAggregateTimestamp_hour:
  assumes "time_ok t"
  shows "case setAggregateTimestamp db t 60 ts of (stamp, ts') \<Rightarrow> ts' = ts \<and>
    (t_sec stamp + t_off stamp) mod 3600 = 0 \<and> t_nsec stamp = 0 \<and> t_zone stamp = t_zone t \<and>
    t_off stamp = t_off t \<and> t_sec stamp \<le> t_sec t \<and> t_sec t < t_sec stamp + 3600"
proof -
  have "(t_sec t - day_sec t mod 3600 + t_off t) mod 3600 = 0"
  proof -
    have "(t_sec t + t_off t) mod 3600 = day_sec t mod 3600"
      unfolding day_sec_def by (simp add: mod_mod_cancel)
    then show ?thesis by (metis add.commute add_diff_eq diff_add_eq mod_diff_right_eq cancel_comm_monoid_add_class.diff_cancel
        mod_0 mod_diff_eq diff_diff_eq2)
  qed
  then show ?thesis by (simp add: setAggregateTimestamp_simps trunc_hour_def)
qed

text \<open>
  The sliding window of the Mongo pumps: for an aggregation time of 1 to 59 minutes the
  record falls before the end of the window it is given, the window is the one remembered for
  the database afterwards, and it is either the remembered one or a new one that starts at the
  minute of the record.
\<close>

theorem setAggregateTimestamp_window:
  assumes "db \<noteq> []" and "1 \<le> sint agg" and "sint agg < 60" and "time_ok t"
    and "\<And>u. gomap_get ts db = Some u \<Longrightarrow> time_ok u"
    and "setAggregateTimestamp db t agg ts = (stamp, ts')"
  shows "time_after (time_add stamp (dur_minute * agg)) t \<and> gomap_get ts' db = Some stamp \<and>
    (stamp = trunc_minute t \<or> gomap_get ts db = Some stamp \<and> ts' = ts)"
proof -
  have agg: "agg \<noteq> 60" using assms(3) by auto
  have ok: "time_ok (trunc_minute t)" by (simp add: trunc_minute_def time_ok_def)
  have new: "time_after (time_add (trunc_minute t) (dur_minute * agg)) t"
    using assms(2,3) trunc_minute_window [OF assms(4)] by (subst time_after_add_minutes [OF _ _ ok]) auto
  show ?thesis
    using assms(1,6) agg new
    by (auto simp: setAggregateTimestamp_simps update_conv' Let_def split: option.splits if_splits)
qed

definition sample_time :: gotime where
  "sample_time = \<lparr>t_sec = 1700000123, t_nsec = 5, t_zone = ''UTC'', t_off = 0\<rparr>"

theorem setAggregateTimestamp_hour_witness:
  "time_ok sample_time \<and> (case setAggregateTimestamp [] sample_time 60 [] of (stamp, ts') \<Rightarrow>
     t_sec stamp \<le> 1700000123 \<and> 1700000123 < t_sec stamp + 3600)"
  using setAggregateTimestamp_hour [of sample_time "[]" "[]"]
  by (auto simp: sample_time_def time_ok_def)

theorem setAggregateTimestamp_window_witness:
  "\<exists>stamp ts'. setAggregateTimestamp ''mongo'' sample_time 5 [] = (stamp, ts') \<and>
     gomap_get ts' ''mongo'' = Some stamp \<and> stamp = trunc_minute sample_time"
proof -
  obtain stamp ts' where r: "setAggregateTimestamp ''mongo'' sample_time 5 [] = (stamp, ts')" by fastforce
  have "time_ok sample_time" by (simp add: sample_time_def time_ok_def)
  from setAggregateTimestamp_window [OF _ _ _ this _ r] r show ?thesis by simp
qed

end
