(* ===== verification/Aggregate_Graph.thy ===== *)
theory Aggregate_Graph
  imports Aggregate_Groups
begin

text \<open>
  The aggregation of GraphQL records, \<open>AggregateGraphData\<close> of
  \<open>src/analytics/aggregate.go\<close>: it groups by API, reuses \<open>incrementAggregate\<close> for the
  common dimensions and adds dimensions of its own with the counter that call returns. The loop
  is an instance of \<open>group_loop\<close>. The lemmas: the operations count the records of the API,
  a graph error counts as an error even with a successful response, and when the call returns.
\<close>

text \<open>\<open>m[k] = incrementOrSetUnit(&base, m[k])\<close> with the identifiers set afterwards.\<close>

definition put_unit :: "counter \<Rightarrow> units \<Rightarrow> string \<Rightarrow> string \<Rightarrow> string \<Rightarrow> units res" where
  "put_unit b m k ident human =
     rbind (incrementOrSetUnit b (gomap_get m k)) (\<lambda>c. Inr (store_unit m k c ident human))"

lemma put_unit_val:
  assumes "additive_sel sel" and "put_unit b m k i h = Inr m'"
  shows "unit_val sel m' k' = unit_val sel m k' + (if k' = k then sel b else 0)"
proof -
  obtain c where c: "incrementOrSetUnit b (gomap_get m k) = Inr c" and m': "m' = store_unit m k c i h"
    using assms(2) by (auto simp: put_unit_def rbind_eq_Inr)
  from incrementOrSetUnit_additive [OF assms(1) c] m' show ?thesis
    by (auto simp: store_unit_def unit_val_def update_conv' additive_frame [OF assms(1)] split: option.splits)
qed

lemma put_unit_ok: "units_ok m \<Longrightarrow> \<exists>m'. put_unit b m k i h = Inr m' \<and> units_ok m'"
  unfolding put_unit_def
  by (rule rbind_okI [OF incrementOrSetUnit_ok]) (auto dest: units_ok_get intro: store_unit_ok)

section \<open>Graph records\<close>

record graph_aggregate =
  ga_Aggregate :: aggregate
  ga_Types :: units
  ga_Fields :: units
  ga_Operation :: units
  ga_RootFields :: units

definition NewGraphRecordAggregate :: graph_aggregate where
  "NewGraphRecordAggregate = \<lparr>ga_Aggregate = aggregate_New, ga_Types = [], ga_Fields = [],
     ga_Operation = [], ga_RootFields = []\<rparr>"

definition seed_graph :: "string \<Rightarrow> i64 \<Rightarrow> last_ts \<Rightarrow> analytics_record \<Rightarrow> graph_aggregate \<times> last_ts" where
  "seed_graph db agg ts r =
     (let (a, ts) = seed_aggregate db agg ts r in (NewGraphRecordAggregate\<lparr>ga_Aggregate := a\<rparr>, ts))"

text \<open>Graph errors can come with a successful response.\<close>

definition graph_counter :: "graph_record \<Rightarrow> counter \<Rightarrow> counter" where
  "graph_counter g c =
     (if g_HasErrors g \<and> i64_lt (c_ErrorTotal c) 1
      then c\<lparr>c_ErrorTotal := c_ErrorTotal c + 1, c_Success := c_Success c - 1\<rparr> else c)"

definition field_label :: "string \<Rightarrow> string \<Rightarrow> string" where
  "field_label t f = t @ ''_'' @ f"

definition graph_type_step :: "counter \<Rightarrow> units \<times> units \<Rightarrow> string \<times> string list \<Rightarrow> (units \<times> units) res" where
  "graph_type_step c st tf =
     (case (st, tf) of ((tys, flds), (t, fs)) \<Rightarrow>
        rbind (put_unit c tys t t t) (\<lambda>tys.
        rbind (rfold (\<lambda>flds f. put_unit c flds (field_label t f) (field_label t f) (field_label t f)) flds fs)
          (\<lambda>flds. Inr (tys, flds))))"

definition graph_step :: "graph_aggregate \<Rightarrow> analytics_record \<Rightarrow> graph_aggregate res" where
  "graph_step a r =
     (let g = ToGraphRecord r
      in rbind (incrementAggregate False [] (ga_Aggregate a) (g_AnalyticsRecord g)) (\<lambda>(b, c).
         (let c = graph_counter g c; op = g_OperationType g
          in rbind (put_unit c (ga_Operation a) op op op) (\<lambda>ops.
             rbind (rfold (graph_type_step c) (ga_Types a, ga_Fields a) (g_Types g)) (\<lambda>(tys, flds).
             rbind (rfold (\<lambda>m f. put_unit c m f f f) (ga_RootFields a) (g_RootFields g)) (\<lambda>roots.
               Inr \<lparr>ga_Aggregate = b, ga_Types = tys, ga_Fields = flds, ga_Operation = ops,
                    ga_RootFields = roots\<rparr>))))))"

fun graph_loop ::
  "string \<Rightarrow> i64 \<Rightarrow> last_ts \<Rightarrow> (string, graph_aggregate) gomap \<Rightarrow> item list \<Rightarrow>
     ((string, graph_aggregate) gomap \<times> last_ts) res" where
  "graph_loop db agg ts m [] = Inr (m, ts)"
| "graph_loop db agg ts m (ItemNil # vs) = graph_loop db agg ts m vs"
| "graph_loop db agg ts m (ItemRecord r # vs) =
     (if \<not> IsGraphRecord r then graph_loop db agg ts m vs
      else
        (let (a, ts) = (case gomap_get m (r_APIID r) of Some a \<Rightarrow> (a, ts) | None \<Rightarrow> seed_graph db agg ts r)
         in rbind (graph_step a r) (\<lambda>a. graph_loop db agg ts (gomap_set m (r_APIID r) a) vs)))"

definition AggregateGraphData ::
  "item list \<Rightarrow> string \<Rightarrow> i64 \<Rightarrow> last_ts \<Rightarrow> ((string, graph_aggregate) gomap \<times> last_ts) res" where
  "AggregateGraphData data db agg ts = graph_loop db agg ts [] data"

definition graph_key :: "item \<Rightarrow> string option" where
  "graph_key v = (case v of ItemNil \<Rightarrow> None | ItemRecord r \<Rightarrow> if IsGraphRecord r then Some (r_APIID r) else None)"

lemma graph_key_simps [simp]:
  "graph_key ItemNil = None" "graph_key (ItemRecord r) = (if IsGraphRecord r then Some (r_APIID r) else None)"
  by (simp_all add: graph_key_def)

definition on_record :: "'b \<Rightarrow> (analytics_record \<Rightarrow> 'b) \<Rightarrow> item \<Rightarrow> 'b" where
  "on_record d f v = (case v of ItemNil \<Rightarrow> d | ItemRecord r \<Rightarrow> f r)"

lemma on_record_simps [simp]: "on_record d f (ItemRecord r) = f r" "on_record d f ItemNil = d"
  by (simp_all add: on_record_def)

interpretation graph: group_loop graph_key
  "\<lambda>ts. on_record (NewGraphRecordAggregate, ts) (seed_graph db agg ts)"
  "\<lambda>a. on_record (Inr a) (graph_step a)" "graph_loop db agg"
  for db agg
proof
  fix ts and m :: "(string, graph_aggregate) gomap"
  show "graph_loop db agg ts m [] = Inr (m, ts)" by simp
next
  fix v ts vs and m :: "(string, graph_aggregate) gomap"
  assume "graph_key v = None"
  then show "graph_loop db agg ts m (v # vs) = graph_loop db agg ts m vs"
    by (cases v) (auto split: if_splits)
next
  fix v k a ts vs and m :: "(string, graph_aggregate) gomap"
  assume "graph_key v = Some k" and "gomap_get m k = Some a"
  then show "graph_loop db agg ts m (v # vs) = rbind (on_record (Inr a) (graph_step a) v)
      (\<lambda>a'. graph_loop db agg ts (gomap_set m k a') vs)"
    by (cases v) (auto split: if_splits)
next
  fix v k a ts ts' vs and m :: "(string, graph_aggregate) gomap"
  assume "graph_key v = Some k" and "gomap_get m k = None"
    and "on_record (NewGraphRecordAggregate, ts) (seed_graph db agg ts) v = (a, ts')"
  then show "graph_loop db agg ts m (v # vs) = rbind (on_record (Inr a) (graph_step a) v)
      (\<lambda>a'. graph_loop db agg ts' (gomap_set m k a') vs)"
    by (cases v) (auto split: if_splits)
qed

text \<open>The graph records of an API in a batch.\<close>

fun graph_records :: "string \<Rightarrow> item list \<Rightarrow> analytics_record list" where
  "graph_records api [] = []"
| "graph_records api (ItemNil # vs) = graph_records api vs"
| "graph_records api (ItemRecord r # vs) =
     (if IsGraphRecord r \<and> r_APIID r = api then r # graph_records api vs else graph_records api vs)"

lemma graph_members: "graph.members api vs = map ItemRecord (graph_records api vs)"
  by (induction api vs rule: graph_records.induct) auto

lemma graph_records_graph: "r \<in> set (graph_records api vs) \<Longrightarrow> IsGraphRecord r \<and> r_APIID r = api"
  by (induction api vs rule: graph_records.induct) (auto split: if_splits)

lemma rfold_on_record: "rfold (\<lambda>a. on_record (Inr a) (f a)) a (map ItemRecord rs) = rfold f a rs"
  by (induction rs arbitrary: a) simp_all

lemma AggregateGraphData_get:
  assumes "AggregateGraphData data db agg ts = Inr (m, ts')" and "gomap_get m api = Some a"
  obtains r rs ts0 where "graph_records api data = r # rs"
    and "rfold graph_step (fst (seed_graph db agg ts0 r)) (graph_records api data) = Inr a"
proof -
  have "graph_loop db agg ts [] data = Inr (m, ts')" using assms(1) by (simp add: AggregateGraphData_def)
  note g = graph.run_get_new [OF this, of api]
  show ?thesis
  proof (cases "graph_records api data")
    case Nil
    with g assms(2) show ?thesis by (simp add: graph_members)
  next
    case (Cons r rs)
    then have mem: "graph.members api data = ItemRecord r # map ItemRecord rs" by (simp add: graph_members)
    from g obtain ts0 where "rfold (\<lambda>a. on_record (Inr a) (graph_step a))
        (fst (seed_graph db agg ts0 r)) (map ItemRecord (r # rs)) = Inr a"
      using assms(2) unfolding mem list.case list.map by auto
    with that Cons show ?thesis unfolding rfold_on_record by metis
  qed
qed

lemma rfold_put_unit_val:
  assumes "additive_sel sel" and "rfold (\<lambda>m f. put_unit c m f f f) m fs = Inr m'"
  shows "unit_val sel m' k = unit_val sel m k + of_nat (count_list fs k) * sel c"
  using assms(2)
proof (induction fs arbitrary: m)
  case Nil
  then show ?case by simp
next
  case (Cons f fs)
  then obtain m1 where m1: "put_unit c m f f f = Inr m1" "rfold (\<lambda>m f. put_unit c m f f f) m1 fs = Inr m'"
    by (auto simp: rbind_eq_Inr)
  from Cons.IH [OF m1(2)] put_unit_val [OF assms(1) m1(1), of k] show ?case
    by (auto simp: algebra_simps)
qed

text \<open>What a graph record adds to its operation and root fields.\<close>

definition graph_gain :: "(counter \<Rightarrow> i64) \<Rightarrow> analytics_record \<Rightarrow> i64" where
  "graph_gain sel r = sel (graph_counter (ToGraphRecord r) (if is_request r then request_counter r else network_counter r))"

lemma incrementAggregate_counter:
  "incrementAggregate tap pre a r = Inr (b, c) \<Longrightarrow> c = (if is_request r then request_counter r else network_counter r)"
  by (cases "is_request r") (auto simp: incrementAggregate_network incrementAggregate_request rbind_eq_Inr)

lemma graph_error_code: "IsGraphRecord r \<Longrightarrow> is_error r \<Longrightarrow> g_HasErrors (ToGraphRecord r)"
  by (simp add: ToGraphRecord_def is_error_def Let_def)

lemma graph_gain_simps:
  assumes "IsGraphRecord r"
  shows "graph_gain c_Hits r = of_bool (is_request r)"
    and "graph_gain c_ErrorTotal r = of_bool (g_HasErrors (ToGraphRecord r))"
    and "graph_gain c_Success r = of_bool (is_success r) - of_bool (g_HasErrors (ToGraphRecord r) \<and> \<not> is_error r)"
  using graph_error_code [OF assms]
  by (auto simp: graph_gain_def graph_counter_def request_counter_def network_counter_def counter_zero_def i64_lt_def
      is_request_def is_error_def is_success_def)

lemma graph_step_spec:
  assumes "graph_step a r = Inr a'" and "IsGraphRecord r" and "error_keys_ok (ag_Errors (ga_Aggregate a))"
  shows "error_keys_ok (ag_Errors (ga_Aggregate a'))"
    and "additive_sel sel \<Longrightarrow> sel (ag_Total (ga_Aggregate a')) = sel (ag_Total (ga_Aggregate a)) + gain sel r"
    and "additive_sel sel \<Longrightarrow> unit_val sel (ga_Operation a') k = unit_val sel (ga_Operation a) k +
      of_bool (g_OperationType (ToGraphRecord r) = k) * graph_gain sel r"
    and "additive_sel sel \<Longrightarrow> unit_val sel (ga_RootFields a') k = unit_val sel (ga_RootFields a) k +
      of_nat (count_list (g_RootFields (ToGraphRecord r)) k) * graph_gain sel r"
proof -
  let ?g = "ToGraphRecord r"
  obtain b c ops st roots where b: "incrementAggregate False [] (ga_Aggregate a) r = Inr (b, c)"
    and ops: "put_unit (graph_counter ?g c) (ga_Operation a) (g_OperationType ?g) (g_OperationType ?g) (g_OperationType ?g) = Inr ops"
    and roots: "rfold (\<lambda>m f. put_unit (graph_counter ?g c) m f f f) (ga_RootFields a) (g_RootFields ?g) = Inr roots"
    and a': "a' = \<lparr>ga_Aggregate = b, ga_Types = fst st, ga_Fields = snd st, ga_Operation = ops, ga_RootFields = roots\<rparr>"
    using assms(1,2) by (auto simp: graph_step_def rbind_eq_Inr Let_def)
  have c: "sel (graph_counter ?g c) = graph_gain sel r" for sel
    using incrementAggregate_counter [OF b] by (simp add: graph_gain_def)
  note sp = incrementAggregate_spec [OF b assms(3)]
  show "error_keys_ok (ag_Errors (ga_Aggregate a'))" using sp(1) a' by simp
  show "additive_sel sel \<Longrightarrow> sel (ag_Total (ga_Aggregate a')) = sel (ag_Total (ga_Aggregate a)) + gain sel r"
    using sp(2) a' by simp
  show "additive_sel sel \<Longrightarrow> unit_val sel (ga_Operation a') k = unit_val sel (ga_Operation a) k +
      of_bool (g_OperationType ?g = k) * graph_gain sel r"
    using put_unit_val [OF _ ops, of sel k] a' c by simp
  show "additive_sel sel \<Longrightarrow> unit_val sel (ga_RootFields a') k = unit_val sel (ga_RootFields a) k +
      of_nat (count_list (g_RootFields ?g) k) * graph_gain sel r"
    using rfold_put_unit_val [OF _ roots, of sel k] a' c by simp
qed

lemma seed_graph_simps [simp]:
  "ga_Aggregate (fst (seed_graph db agg ts r)) = fst (seed_aggregate db agg ts r)"
  "ga_Operation (fst (seed_graph db agg ts r)) = []" "ga_RootFields (fst (seed_graph db agg ts r)) = []"
  "ga_Types (fst (seed_graph db agg ts r)) = []" "ga_Fields (fst (seed_graph db agg ts r)) = []"
  by (simp_all add: seed_graph_def NewGraphRecordAggregate_def case_prod_beta)

lemma graph_fold:
  fixes F :: "graph_aggregate \<Rightarrow> i64"
  assumes "rfold graph_step (fst (seed_graph db agg ts r0)) (graph_records api data) = Inr a"
    and "\<And>a r a'. graph_step a r = Inr a' \<Longrightarrow> IsGraphRecord r \<Longrightarrow> error_keys_ok (ag_Errors (ga_Aggregate a)) \<Longrightarrow> F a' = F a + d r"
    and "F (fst (seed_graph db agg ts r0)) = 0"
  shows "F a = sum_list (map d (graph_records api data))"
proof -
  have "error_keys_ok (ag_Errors (ga_Aggregate a)) \<and>
      F a = F (fst (seed_graph db agg ts r0)) + sum_list (map d (graph_records api data))"
    by (rule rfold_sum_inv [OF assms(1)])
      (use assms(2) graph_step_spec(1) graph_records_graph [of _ api data] in \<open>simp, blast\<close>)
  with assms(3) show ?thesis by simp
qed

text \<open>Graph aggregates that cannot panic.\<close>

definition graph_ok :: "graph_aggregate \<Rightarrow> bool" where
  "graph_ok a \<longleftrightarrow> agg_ok (ga_Aggregate a) \<and> units_ok (ga_Types a) \<and> units_ok (ga_Fields a) \<and>
     units_ok (ga_Operation a) \<and> units_ok (ga_RootFields a)"

lemma rfold_put_unit_ok:
  "units_ok m \<Longrightarrow> \<exists>m'. rfold (\<lambda>m f. put_unit c m (g f) (g f) (g f)) m fs = Inr m' \<and> units_ok m'"
  by (rule rfold_ok) (auto intro: put_unit_ok)

lemma graph_type_step_ok:
  assumes "units_ok (fst st) \<and> units_ok (snd st)"
  shows "\<exists>st'. graph_type_step c st tf = Inr st' \<and> units_ok (fst st') \<and> units_ok (snd st')"
proof -
  obtain tys flds t fs where st: "st = (tys, flds)" "tf = (t, fs)" by (cases st, cases tf)
  obtain tys' where "put_unit c tys t t t = Inr tys'" "units_ok tys'"
    using put_unit_ok assms st by (metis fst_conv)
  moreover obtain flds' where
    "rfold (\<lambda>m f. put_unit c m (field_label t f) (field_label t f) (field_label t f)) flds fs = Inr flds'" "units_ok flds'"
    using rfold_put_unit_ok [of flds c "field_label t" fs] assms st by auto
  ultimately show ?thesis by (simp add: st graph_type_step_def)
qed

lemma graph_step_ok:
  assumes "graph_ok a" and "IsGraphRecord r" and "is_request r \<or> r_APIID r = []"
  shows "\<exists>a'. graph_step a r = Inr a' \<and> graph_ok a'"
proof -
  let ?g = "ToGraphRecord r"
  obtain b c where b: "incrementAggregate False [] (ga_Aggregate a) r = Inr (b, c)" "agg_ok b"
    using incrementAggregate_ok assms(1,3) unfolding graph_ok_def by blast
  obtain ops where ops: "put_unit (graph_counter ?g c) (ga_Operation a) (g_OperationType ?g) (g_OperationType ?g) (g_OperationType ?g) = Inr ops"
    "units_ok ops"
    using put_unit_ok assms(1) unfolding graph_ok_def by blast
  obtain st where st: "rfold (graph_type_step (graph_counter ?g c)) (ga_Types a, ga_Fields a) (g_Types ?g) = Inr st"
    "units_ok (fst st) \<and> units_ok (snd st)"
    using rfold_ok [of "\<lambda>st. units_ok (fst st) \<and> units_ok (snd st)" "(ga_Types a, ga_Fields a)" "g_Types ?g"
        "graph_type_step (graph_counter ?g c)"] graph_type_step_ok assms(1) unfolding graph_ok_def by auto
  obtain roots where roots: "rfold (\<lambda>m f. put_unit (graph_counter ?g c) m f f f) (ga_RootFields a) (g_RootFields ?g) = Inr roots"
    "units_ok roots"
    using rfold_put_unit_ok [of "ga_RootFields a" _ "\<lambda>f. f"] assms(1) unfolding graph_ok_def by blast
  from b ops st roots assms(2) show ?thesis
    by (auto simp: graph_step_def graph_ok_def Let_def case_prod_beta)
qed

lemma seed_graph_ok: "graph_ok (fst (seed_graph db agg ts r))"
  by (simp add: graph_ok_def seed_ok)

lemma AggregateGraphData_defined:
  assumes "\<And>r. ItemRecord r \<in> set data \<Longrightarrow> IsGraphRecord r \<Longrightarrow> r_ResponseCode r = -1 \<Longrightarrow> r_APIID r = []"
  shows "\<exists>m ts'. AggregateGraphData data db agg ts = Inr (m, ts')"
proof -
  have "\<exists>m ts'. graph_loop db agg ts [] data = Inr (m, ts') \<and> (\<forall>a. a \<in> snd ` set m \<longrightarrow> graph_ok a)"
  proof (rule graph.run_total [where P = graph_ok])
    fix g v k
    assume "graph_key v = Some k"
    then show "graph_ok (fst (on_record (NewGraphRecordAggregate, g) (seed_graph db agg g) v))"
      by (cases v) (auto simp: seed_graph_ok)
  next
    fix a v k
    assume v: "v \<in> set data" "graph_key v = Some k" "graph_ok a"
    from v(2) obtain r where r: "v = ItemRecord r" "IsGraphRecord r" by (cases v) (auto split: if_splits)
    with assms v have "is_request r \<or> r_APIID r = []" by (auto simp: is_request_def)
    from graph_step_ok [OF v(3) r(2) this] r
    show "\<exists>a'. on_record (Inr a) (graph_step a) v = Inr a' \<and> graph_ok a'" by simp
  qed simp
  then show ?thesis by (auto simp: AggregateGraphData_def)
qed

lemma AggregateGraphData_defined_get:
  assumes "\<And>r. ItemRecord r \<in> set data \<Longrightarrow> IsGraphRecord r \<Longrightarrow> r_ResponseCode r = -1 \<Longrightarrow> r_APIID r = []"
    and "graph_records api data \<noteq> []"
  obtains m ts' a where "AggregateGraphData data db agg ts = Inr (m, ts')" "gomap_get m api = Some a"
proof -
  obtain m ts' where m: "AggregateGraphData data db agg ts = Inr (m, ts')"
    using AggregateGraphData_defined [OF assms(1)] by blast
  then have "graph_loop db agg ts [] data = Inr (m, ts')" by (simp add: AggregateGraphData_def)
  from graph.run_get_new [OF this, of api] assms(2) obtain a where "gomap_get m api = Some a"
    by (auto simp: graph_members neq_Nil_conv simp del: rfold.simps)
  with m show ?thesis by (rule that)
qed

definition sample_graph :: "string \<Rightarrow> graphql_operation \<Rightarrow> bool \<Rightarrow> i64 \<Rightarrow> analytics_record" where
  "sample_graph api op err code = (sample_request ''o'' api code 7)\<lparr>r_GraphQLStats :=
     graphql_zero\<lparr>gq_IsGraphQL := True, gq_OperationType := op, gq_HasErrors := err, gq_RootFields := [''f'']\<rparr>\<rparr>"

definition sample_graph_batch :: "item list" where
  "sample_graph_batch = [ItemRecord (sample_graph ''a'' OperationQuery True 200), ItemNil,
     ItemRecord (sample_graph ''a'' OperationQuery False 200), ItemRecord (sample_graph ''a'' OperationMutation False 500)]"

lemma sample_graph_simps [simp]:
  "IsGraphRecord (sample_graph api op err code)" "r_APIID (sample_graph api op err code) = api"
  "r_ResponseCode (sample_graph api op err code) = code"
  "g_OperationType (ToGraphRecord (sample_graph api op err code)) = operation_name op"
  "g_HasErrors (ToGraphRecord (sample_graph api op err code)) \<longleftrightarrow> err \<or> 400 \<le> sint code"
  by (simp_all add: sample_graph_def IsGraphRecord_def ToGraphRecord_def Let_def)

lemma sum_of_bool_and: "sum_list (map (\<lambda>r. of_bool (P r) * of_bool (Q r)) rs) = (of_nat (length (filter (\<lambda>r. P r \<and> Q r) rs)) :: i64)"
  by (induction rs) auto

lemma graph_sum_cong:
  "(\<And>r. IsGraphRecord r \<Longrightarrow> f r = g r) \<Longrightarrow>
    sum_list (map f (graph_records api data)) = sum_list (map g (graph_records api data))"
  using graph_records_graph [of _ api data] by (metis map_cong)

text \<open>
  C15. In the graph aggregate of an API the totals count its requests by HTTP status, while the
  unit of an operation counts as errors all records with a graph error or a failure status, and
  takes one success back for every graph error whose status is below 400.
\<close>

theorem AggregateGraphData_operations:
  assumes "AggregateGraphData data db agg ts = Inr (m, ts')" and "gomap_get m api = Some a"
  shows "c_Hits (ag_Total (ga_Aggregate a)) = of_nat (length (filter is_request (graph_records api data))) \<and>
    c_ErrorTotal (ag_Total (ga_Aggregate a)) = of_nat (length (filter is_error (graph_records api data))) \<and>
    unit_val c_Hits (ga_Operation a) op = of_nat (length (filter
      (\<lambda>r. g_OperationType (ToGraphRecord r) = op \<and> is_request r) (graph_records api data))) \<and>
    unit_val c_ErrorTotal (ga_Operation a) op = of_nat (length (filter
      (\<lambda>r. g_OperationType (ToGraphRecord r) = op \<and> g_HasErrors (ToGraphRecord r)) (graph_records api data))) \<and>
    unit_val c_Success (ga_Operation a) op =
      (\<Sum>r\<leftarrow>graph_records api data. of_bool (g_OperationType (ToGraphRecord r) = op) *
        (of_bool (is_success r) - of_bool (g_HasErrors (ToGraphRecord r) \<and> \<not> is_error r)))"
proof -
  obtain r0 ts0 where f: "rfold graph_step (fst (seed_graph db agg ts0 r0)) (graph_records api data) = Inr a"
    using AggregateGraphData_get [OF assms] by blast
  have tot: "sel (ag_Total (ga_Aggregate a)) = sum_list (map (gain sel) (graph_records api data))" if "additive_sel sel" for sel
    by (rule graph_fold [OF f, where F = "\<lambda>a. sel (ag_Total (ga_Aggregate a))"])
      (use that graph_step_spec(2) in \<open>auto simp: seed_total_zero\<close>)
  have op: "unit_val sel (ga_Operation a) op =
      sum_list (map (\<lambda>r. of_bool (g_OperationType (ToGraphRecord r) = op) * graph_gain sel r) (graph_records api data))"
    if "additive_sel sel" for sel
    by (rule graph_fold [OF f, where F = "\<lambda>a. unit_val sel (ga_Operation a) op"])
      (use that graph_step_spec(3) in auto)
  have "unit_val c_Hits (ga_Operation a) op = of_nat (length (filter
      (\<lambda>r. g_OperationType (ToGraphRecord r) = op \<and> is_request r) (graph_records api data)))"
    by (subst op, simp, subst sum_of_bool_and [symmetric], rule graph_sum_cong) (simp add: graph_gain_simps)
  moreover have "unit_val c_ErrorTotal (ga_Operation a) op = of_nat (length (filter
      (\<lambda>r. g_OperationType (ToGraphRecord r) = op \<and> g_HasErrors (ToGraphRecord r)) (graph_records api data)))"
    by (subst op, simp, subst sum_of_bool_and [symmetric], rule graph_sum_cong) (simp add: graph_gain_simps)
  moreover have "unit_val c_Success (ga_Operation a) op =
      (\<Sum>r\<leftarrow>graph_records api data. of_bool (g_OperationType (ToGraphRecord r) = op) *
        (of_bool (is_success r) - of_bool (g_HasErrors (ToGraphRecord r) \<and> \<not> is_error r)))"
    by (subst op, simp, rule graph_sum_cong) (simp add: graph_gain_simps)
  ultimately show ?thesis
    using tot [of c_Hits] tot [of c_ErrorTotal] by (simp add: sum_gain)
qed

theorem AggregateGraphData_operations_witness:
  "\<exists>m ts' a. AggregateGraphData sample_graph_batch [] 60 [] = Inr (m, ts') \<and> gomap_get m ''a'' = Some a \<and>
     c_Hits (ag_Total (ga_Aggregate a)) = 3 \<and> c_ErrorTotal (ag_Total (ga_Aggregate a)) = 1 \<and>
     unit_val c_ErrorTotal (ga_Operation a) ''Query'' = 1 \<and> unit_val c_Success (ga_Operation a) ''Query'' = 1"
proof -
  obtain m ts' a where m: "AggregateGraphData sample_graph_batch [] 60 [] = Inr (m, ts')" "gomap_get m ''a'' = Some a"
    by (rule AggregateGraphData_defined_get [of sample_graph_batch "''a''" "[]" 60 "[]"])
      (auto simp: sample_graph_batch_def)
  from AggregateGraphData_operations [OF m, of "''Query''"] m
  show ?thesis by (simp add: sample_graph_batch_def sample_defs operation_name_def)
qed

end
