(* ===== verification/Aggregate_MCP.thy ===== *)
theory Aggregate_MCP
  imports Aggregate_Graph
begin

text \<open>
  The aggregation of MCP records, \<open>src/analytics/aggregate_mcp.go\<close>: one aggregate per API
  with the common dimensions and the counters by JSON-RPC method, primitive type and primitive
  name. The loop is an instance of \<open>group_loop\<close>. The lemmas: the dimensions count the
  requests of the API, and when the call returns.
\<close>

record mcp_aggregate =
  ma_Aggregate :: aggregate
  ma_OwnerAPIID :: string
  ma_Methods :: units
  ma_Primitives :: units
  ma_Names :: units

definition MCPAggregateMixedCollectionName :: string where
  "MCPAggregateMixedCollectionName = ''tyk_mcp_analytics_aggregate''"

definition mcp_aggregate_TableName :: "mcp_aggregate \<Rightarrow> string" where
  "mcp_aggregate_TableName a =
     (if ag_Mixed (ma_Aggregate a) then MCPAggregateMixedCollectionName
      else ''z_tyk_mcp_analyticz_aggregate_'' @ ag_OrgID (ma_Aggregate a))"

definition NewMCPRecordAggregate :: mcp_aggregate where
  "NewMCPRecordAggregate = \<lparr>ma_Aggregate = aggregate_New, ma_OwnerAPIID = [], ma_Methods = [],
     ma_Primitives = [], ma_Names = []\<rparr>"

definition initMCPAggregateForRecord ::
  "string \<Rightarrow> i64 \<Rightarrow> last_ts \<Rightarrow> analytics_record \<Rightarrow> mcp_aggregate \<times> last_ts" where
  "initMCPAggregateForRecord db agg ts r =
     (let (a, ts) = seed_aggregate db agg ts r
      in (NewMCPRecordAggregate\<lparr>ma_Aggregate := a, ma_OwnerAPIID := r_APIID r\<rparr>, ts))"

definition put_named :: "counter \<Rightarrow> units \<Rightarrow> string \<Rightarrow> units res" where
  "put_named c m k = (if k \<noteq> [] then put_unit c m k k k else Inr m)"

definition name_label :: "mcp_record \<Rightarrow> string" where
  "name_label rec =
     (if m_PrimitiveType rec \<noteq> [] then m_PrimitiveType rec @ ''_'' @ m_PrimitiveName rec else m_PrimitiveName rec)"

definition put_name :: "counter \<Rightarrow> units \<Rightarrow> mcp_record \<Rightarrow> units res" where
  "put_name c m rec =
     (if m_PrimitiveName rec \<noteq> [] then put_unit c m (name_label rec) (name_label rec) (m_PrimitiveName rec)
      else Inr m)"

definition incrementMCPDimensions :: "counter \<Rightarrow> mcp_record \<Rightarrow> mcp_aggregate \<Rightarrow> mcp_aggregate res" where
  "incrementMCPDimensions c rec a =
     rbind (put_named c (ma_Methods a) (m_JSONRPCMethod rec)) (\<lambda>methods.
     rbind (put_named c (ma_Primitives a) (m_PrimitiveType rec)) (\<lambda>prims.
     rbind (put_name c (ma_Names a) rec) (\<lambda>names.
       Inr (a\<lparr>ma_Methods := methods, ma_Primitives := prims, ma_Names := names\<rparr>))))"

definition mcp_step :: "mcp_aggregate \<Rightarrow> analytics_record \<Rightarrow> mcp_aggregate res" where
  "mcp_step a r =
     (let rec = ToMCPRecord r
      in rbind (incrementAggregate False [] (ma_Aggregate a) (m_AnalyticsRecord rec)) (\<lambda>(b, c).
           incrementMCPDimensions c rec (a\<lparr>ma_Aggregate := b\<rparr>)))"

fun mcp_loop ::
  "string \<Rightarrow> i64 \<Rightarrow> last_ts \<Rightarrow> (string, mcp_aggregate) gomap \<Rightarrow> item list \<Rightarrow>
     ((string, mcp_aggregate) gomap \<times> last_ts) res" where
  "mcp_loop db agg ts m [] = Inr (m, ts)"
| "mcp_loop db agg ts m (ItemNil # vs) = mcp_loop db agg ts m vs"
| "mcp_loop db agg ts m (ItemRecord r # vs) =
     (if \<not> IsMCPRecord r then mcp_loop db agg ts m vs
      else
        (let (a, ts) = (case gomap_get m (r_APIID r) of
             Some a \<Rightarrow> (a, ts) | None \<Rightarrow> initMCPAggregateForRecord db agg ts r)
         in rbind (mcp_step a r) (\<lambda>a. mcp_loop db agg ts (gomap_set m (r_APIID r) a) vs)))"

definition AggregateMCPData ::
  "item list \<Rightarrow> string \<Rightarrow> i64 \<Rightarrow> last_ts \<Rightarrow> ((string, mcp_aggregate) gomap \<times> last_ts) res" where
  "AggregateMCPData data db agg ts = mcp_loop db agg ts [] data"

definition mcp_key :: "item \<Rightarrow> string option" where
  "mcp_key v = (case v of ItemNil \<Rightarrow> None | ItemRecord r \<Rightarrow> if IsMCPRecord r then Some (r_APIID r) else None)"

lemma mcp_key_simps [simp]:
  "mcp_key ItemNil = None" "mcp_key (ItemRecord r) = (if IsMCPRecord r then Some (r_APIID r) else None)"
  by (simp_all add: mcp_key_def)

interpretation mcp: group_loop mcp_key
  "\<lambda>ts. on_record (NewMCPRecordAggregate, ts) (initMCPAggregateForRecord db agg ts)"
  "\<lambda>a. on_record (Inr a) (mcp_step a)" "mcp_loop db agg"
  for db agg
proof
  fix ts and m :: "(string, mcp_aggregate) gomap"
  show "mcp_loop db agg ts m [] = Inr (m, ts)" by simp
next
  fix v ts vs and m :: "(string, mcp_aggregate) gomap"
  assume "mcp_key v = None"
  then show "mcp_loop db agg ts m (v # vs) = mcp_loop db agg ts m vs"
    by (cases v) (auto split: if_splits)
next
  fix v k a ts vs and m :: "(string, mcp_aggregate) gomap"
  assume "mcp_key v = Some k" and "gomap_get m k = Some a"
  then show "mcp_loop db agg ts m (v # vs) = rbind (on_record (Inr a) (mcp_step a) v)
      (\<lambda>a'. mcp_loop db agg ts (gomap_set m k a') vs)"
    by (cases v) (auto split: if_splits)
next
  fix v k a ts ts' vs and m :: "(string, mcp_aggregate) gomap"
  assume "mcp_key v = Some k" and "gomap_get m k = None"
    and "on_record (NewMCPRecordAggregate, ts) (initMCPAggregateForRecord db agg ts) v = (a, ts')"
  then show "mcp_loop db agg ts m (v # vs) = rbind (on_record (Inr a) (mcp_step a) v)
      (\<lambda>a'. mcp_loop db agg ts' (gomap_set m k a') vs)"
    by (cases v) (auto split: if_splits)
qed

text \<open>The MCP records of an API in a batch.\<close>

fun mcp_records :: "string \<Rightarrow> item list \<Rightarrow> analytics_record list" where
  "mcp_records api [] = []"
| "mcp_records api (ItemNil # vs) = mcp_records api vs"
| "mcp_records api (ItemRecord r # vs) =
     (if IsMCPRecord r \<and> r_APIID r = api then r # mcp_records api vs else mcp_records api vs)"

lemma mcp_members: "mcp.members api vs = map ItemRecord (mcp_records api vs)"
  by (induction api vs rule: mcp_records.induct) auto

lemma mcp_records_mcp: "r \<in> set (mcp_records api vs) \<Longrightarrow> IsMCPRecord r \<and> r_APIID r = api"
  by (induction api vs rule: mcp_records.induct) (auto split: if_splits)

lemma AggregateMCPData_get:
  assumes "AggregateMCPData data db agg ts = Inr (m, ts')" and "gomap_get m api = Some a"
  obtains r rs ts0 where "mcp_records api data = r # rs"
    and "rfold mcp_step (fst (initMCPAggregateForRecord db agg ts0 r)) (mcp_records api data) = Inr a"
proof -
  have "mcp_loop db agg ts [] data = Inr (m, ts')" using assms(1) by (simp add: AggregateMCPData_def)
  note g = mcp.run_get_new [OF this, of api]
  show ?thesis
  proof (cases "mcp_records api data")
    case Nil
    with g assms(2) show ?thesis by (simp add: mcp_members)
  next
    case (Cons r rs)
    then have mem: "mcp.members api data = ItemRecord r # map ItemRecord rs" by (simp add: mcp_members)
    from g obtain ts0 where "rfold (\<lambda>a. on_record (Inr a) (mcp_step a))
        (fst (initMCPAggregateForRecord db agg ts0 r)) (map ItemRecord (r # rs)) = Inr a"
      using assms(2) unfolding mem list.case list.map by auto
    with that Cons show ?thesis unfolding rfold_on_record by metis
  qed
qed

lemma put_named_val:
  assumes "additive_sel sel" and "put_named b m k = Inr m'" and "k' \<noteq> []"
  shows "unit_val sel m' k' = unit_val sel m k' + of_bool (k = k') * sel b"
  using assms put_unit_val [OF assms(1), of b m k k k m' k'] by (auto simp: put_named_def split: if_splits)

definition counter_of :: "analytics_record \<Rightarrow> counter" where
  "counter_of r = (if is_request r then request_counter r else network_counter r)"

lemma counter_of_gain: "additive_sel sel \<Longrightarrow> sel (counter_of r) = gain sel r"
  by (simp add: counter_of_def gain_def additive_frame)

text \<open>What a record adds to the units of a name: it must have one.\<close>

definition mcp_named :: "string \<Rightarrow> analytics_record \<Rightarrow> bool" where
  "mcp_named k r \<longleftrightarrow> mc_PrimitiveName (r_MCPStats r) \<noteq> [] \<and> name_label (ToMCPRecord r) = k"

lemma mcp_step_spec:
  assumes "mcp_step a r = Inr a'" and "IsMCPRecord r" and "error_keys_ok (ag_Errors (ma_Aggregate a))"
  shows "error_keys_ok (ag_Errors (ma_Aggregate a'))"
    and "ma_OwnerAPIID a' = ma_OwnerAPIID a"
    and "additive_sel sel \<Longrightarrow> sel (ag_Total (ma_Aggregate a')) = sel (ag_Total (ma_Aggregate a)) + gain sel r"
    and "additive_sel sel \<Longrightarrow> k \<noteq> [] \<Longrightarrow> unit_val sel (ma_Methods a') k = unit_val sel (ma_Methods a) k +
      of_bool (mc_JSONRPCMethod (r_MCPStats r) = k) * gain sel r"
    and "additive_sel sel \<Longrightarrow> k \<noteq> [] \<Longrightarrow> unit_val sel (ma_Primitives a') k = unit_val sel (ma_Primitives a) k +
      of_bool (mc_PrimitiveType (r_MCPStats r) = k) * gain sel r"
    and "additive_sel sel \<Longrightarrow> unit_val sel (ma_Names a') k = unit_val sel (ma_Names a) k +
      of_bool (mcp_named k r) * gain sel r"
proof -
  let ?m = "ToMCPRecord r"
  obtain b c where b: "incrementAggregate False [] (ma_Aggregate a) r = Inr (b, c)"
    and d: "incrementMCPDimensions c ?m (a\<lparr>ma_Aggregate := b\<rparr>) = Inr a'"
    using assms(1,2) by (auto simp: mcp_step_def rbind_eq_Inr Let_def)
  obtain me pr na where me: "put_named c (ma_Methods a) (m_JSONRPCMethod ?m) = Inr me"
    and pr: "put_named c (ma_Primitives a) (m_PrimitiveType ?m) = Inr pr"
    and na: "put_name c (ma_Names a) ?m = Inr na"
    and a': "a' = a\<lparr>ma_Aggregate := b, ma_Methods := me, ma_Primitives := pr, ma_Names := na\<rparr>"
    using d by (auto simp: incrementMCPDimensions_def rbind_eq_Inr)
  have m: "m_JSONRPCMethod ?m = mc_JSONRPCMethod (r_MCPStats r)" "m_PrimitiveType ?m = mc_PrimitiveType (r_MCPStats r)"
    "m_PrimitiveName ?m = mc_PrimitiveName (r_MCPStats r)"
    using assms(2) by (simp_all add: ToMCPRecord_def)
  have c: "c = counter_of r" using incrementAggregate_counter [OF b] by (simp add: counter_of_def)
  note sp = incrementAggregate_spec [OF b assms(3)]
  show "error_keys_ok (ag_Errors (ma_Aggregate a'))" "ma_OwnerAPIID a' = ma_OwnerAPIID a" using sp(1) a' by simp_all
  show "additive_sel sel \<Longrightarrow> sel (ag_Total (ma_Aggregate a')) = sel (ag_Total (ma_Aggregate a)) + gain sel r"
    using sp(2) a' by simp
  show "additive_sel sel \<Longrightarrow> k \<noteq> [] \<Longrightarrow> unit_val sel (ma_Methods a') k = unit_val sel (ma_Methods a) k +
      of_bool (mc_JSONRPCMethod (r_MCPStats r) = k) * gain sel r"
    using put_named_val [OF _ me, of sel k] a' m c by (simp add: counter_of_gain)
  show "additive_sel sel \<Longrightarrow> k \<noteq> [] \<Longrightarrow> unit_val sel (ma_Primitives a') k = unit_val sel (ma_Primitives a) k +
      of_bool (mc_PrimitiveType (r_MCPStats r) = k) * gain sel r"
    using put_named_val [OF _ pr, of sel k] a' m c by (simp add: counter_of_gain)
  show "additive_sel sel \<Longrightarrow> unit_val sel (ma_Names a') k = unit_val sel (ma_Names a) k +
      of_bool (mcp_named k r) * gain sel r"
    using na put_unit_val [of sel c "ma_Names a" "name_label ?m" "name_label ?m" "m_PrimitiveName ?m" na k] a' m c
    by (auto simp: mcp_named_def put_name_def counter_of_gain split: if_splits)
qed

lemma seed_mcp_simps [simp]:
  "ma_Aggregate (fst (initMCPAggregateForRecord db agg ts r)) = fst (seed_aggregate db agg ts r)"
  "ma_Methods (fst (initMCPAggregateForRecord db agg ts r)) = []"
  "ma_Primitives (fst (initMCPAggregateForRecord db agg ts r)) = []"
  "ma_Names (fst (initMCPAggregateForRecord db agg ts r)) = []"
  "ma_OwnerAPIID (fst (initMCPAggregateForRecord db agg ts r)) = r_APIID r"
  by (simp_all add: initMCPAggregateForRecord_def NewMCPRecordAggregate_def case_prod_beta)

lemma mcp_fold:
  fixes F :: "mcp_aggregate \<Rightarrow> i64"
  assumes "rfold mcp_step (fst (initMCPAggregateForRecord db agg ts r0)) (mcp_records api data) = Inr a"
    and "\<And>a r a'. mcp_step a r = Inr a' \<Longrightarrow> IsMCPRecord r \<Longrightarrow> error_keys_ok (ag_Errors (ma_Aggregate a)) \<Longrightarrow> F a' = F a + d r"
    and "F (fst (initMCPAggregateForRecord db agg ts r0)) = 0"
  shows "F a = sum_list (map d (mcp_records api data))"
proof -
  have "error_keys_ok (ag_Errors (ma_Aggregate a)) \<and>
      F a = F (fst (initMCPAggregateForRecord db agg ts r0)) + sum_list (map d (mcp_records api data))"
    by (rule rfold_sum_inv [OF assms(1)])
      (use assms(2) mcp_step_spec(1) mcp_records_mcp [of _ api data] in \<open>simp, blast\<close>)
  with assms(3) show ?thesis by simp
qed

text \<open>MCP aggregates that cannot panic.\<close>

definition mcp_ok :: "mcp_aggregate \<Rightarrow> bool" where
  "mcp_ok a \<longleftrightarrow> agg_ok (ma_Aggregate a) \<and> units_ok (ma_Methods a) \<and> units_ok (ma_Primitives a) \<and> units_ok (ma_Names a)"

lemma put_named_ok: "units_ok m \<Longrightarrow> \<exists>m'. put_named c m k = Inr m' \<and> units_ok m'"
  by (auto simp: put_named_def intro: put_unit_ok)

lemma put_name_ok: "units_ok m \<Longrightarrow> \<exists>m'. put_name c m rec = Inr m' \<and> units_ok m'"
  by (auto simp: put_name_def intro: put_unit_ok)

lemma mcp_step_ok:
  assumes "mcp_ok a" and "IsMCPRecord r" and "is_request r \<or> r_APIID r = []"
  shows "\<exists>a'. mcp_step a r = Inr a' \<and> mcp_ok a'"
proof -
  let ?m = "ToMCPRecord r"
  obtain b c where b: "incrementAggregate False [] (ma_Aggregate a) r = Inr (b, c)" "agg_ok b"
    using incrementAggregate_ok assms(1,3) unfolding mcp_ok_def by blast
  obtain me pr na where "put_named c (ma_Methods a) (m_JSONRPCMethod ?m) = Inr me" "units_ok me"
    "put_named c (ma_Primitives a) (m_PrimitiveType ?m) = Inr pr" "units_ok pr"
    "put_name c (ma_Names a) ?m = Inr na" "units_ok na"
    using put_named_ok put_name_ok assms(1) unfolding mcp_ok_def by metis
  with b assms(2) show ?thesis
    by (auto simp: mcp_step_def incrementMCPDimensions_def mcp_ok_def Let_def)
qed

lemma AggregateMCPData_defined:
  assumes "\<And>r. ItemRecord r \<in> set data \<Longrightarrow> IsMCPRecord r \<Longrightarrow> r_ResponseCode r = -1 \<Longrightarrow> r_APIID r = []"
  shows "\<exists>m ts'. AggregateMCPData data db agg ts = Inr (m, ts')"
proof -
  have "\<exists>m ts'. mcp_loop db agg ts [] data = Inr (m, ts') \<and> (\<forall>a. a \<in> snd ` set m \<longrightarrow> mcp_ok a)"
  proof (rule mcp.run_total [where P = mcp_ok])
    fix g v k
    assume "mcp_key v = Some k"
    then show "mcp_ok (fst (on_record (NewMCPRecordAggregate, g) (initMCPAggregateForRecord db agg g) v))"
      by (cases v) (auto simp: mcp_ok_def seed_ok)
  next
    fix a v k
    assume v: "v \<in> set data" "mcp_key v = Some k" "mcp_ok a"
    from v(2) obtain r where r: "v = ItemRecord r" "IsMCPRecord r" by (cases v) (auto split: if_splits)
    with assms v have "is_request r \<or> r_APIID r = []" by (auto simp: is_request_def)
    from mcp_step_ok [OF v(3) r(2) this] r
    show "\<exists>a'. on_record (Inr a) (mcp_step a) v = Inr a' \<and> mcp_ok a'" by simp
  qed simp
  then show ?thesis by (auto simp: AggregateMCPData_def)
qed

text \<open>
  C16. The MCP aggregate of an API belongs to that API, and its totals and its units by method,
  primitive type and primitive name count the requests of the API with that method, type and
  name; names are counted under the type and the name together.
\<close>

theorem AggregateMCPData_units:
  assumes "AggregateMCPData data db agg ts = Inr (m, ts')" and "gomap_get m api = Some a" and "k \<noteq> []"
  shows "ma_OwnerAPIID a = api \<and>
    c_Hits (ag_Total (ma_Aggregate a)) = of_nat (length (filter is_request (mcp_records api data))) \<and>
    unit_val c_Hits (ma_Methods a) k = of_nat (length (filter
      (\<lambda>r. mc_JSONRPCMethod (r_MCPStats r) = k \<and> is_request r) (mcp_records api data))) \<and>
    unit_val c_Hits (ma_Primitives a) k = of_nat (length (filter
      (\<lambda>r. mc_PrimitiveType (r_MCPStats r) = k \<and> is_request r) (mcp_records api data))) \<and>
    unit_val c_ErrorTotal (ma_Names a) k = of_nat (length (filter
      (\<lambda>r. mcp_named k r \<and> is_error r) (mcp_records api data)))"
proof -
  obtain r0 rs ts0 where r0: "mcp_records api data = r0 # rs"
    and f: "rfold mcp_step (fst (initMCPAggregateForRecord db agg ts0 r0)) (mcp_records api data) = Inr a"
    using AggregateMCPData_get [OF assms(1,2)] by blast
  have "ma_OwnerAPIID a = r_APIID r0 \<and> error_keys_ok (ag_Errors (ma_Aggregate a))"
    using f by (rule rfold_invariant [where P = "\<lambda>a. ma_OwnerAPIID a = r_APIID r0 \<and> error_keys_ok (ag_Errors (ma_Aggregate a))"])
      (auto dest: mcp_records_mcp mcp_step_spec(1,2))
  moreover have "r_APIID r0 = api" using mcp_records_mcp [of r0 api data] r0 by simp
  moreover have "c_Hits (ag_Total (ma_Aggregate a)) = sum_list (map (gain c_Hits) (mcp_records api data))"
    by (rule mcp_fold [OF f, where F = "\<lambda>a. c_Hits (ag_Total (ma_Aggregate a))"])
      (use mcp_step_spec(3) in \<open>auto simp: seed_total_zero\<close>)
  moreover have "unit_val c_Hits (ma_Methods a) k =
      sum_list (map (\<lambda>r. of_bool (mc_JSONRPCMethod (r_MCPStats r) = k) * gain c_Hits r) (mcp_records api data))"
    by (rule mcp_fold [OF f, where F = "\<lambda>a. unit_val c_Hits (ma_Methods a) k"])
      (use mcp_step_spec(4) assms(3) in auto)
  moreover have "unit_val c_Hits (ma_Primitives a) k =
      sum_list (map (\<lambda>r. of_bool (mc_PrimitiveType (r_MCPStats r) = k) * gain c_Hits r) (mcp_records api data))"
    by (rule mcp_fold [OF f, where F = "\<lambda>a. unit_val c_Hits (ma_Primitives a) k"])
      (use mcp_step_spec(5) assms(3) in auto)
  moreover have "unit_val c_ErrorTotal (ma_Names a) k =
      sum_list (map (\<lambda>r. of_bool (mcp_named k r) * gain c_ErrorTotal r) (mcp_records api data))"
    by (rule mcp_fold [OF f, where F = "\<lambda>a. unit_val c_ErrorTotal (ma_Names a) k"])
      (use mcp_step_spec(6) in auto)
  ultimately show ?thesis by (simp add: sum_gain gain_simps sum_of_bool_and)
qed

definition sample_mcp :: "string \<Rightarrow> string \<Rightarrow> string \<Rightarrow> i64 \<Rightarrow> analytics_record" where
  "sample_mcp api meth name code = (sample_request ''o'' api code 7)\<lparr>r_MCPStats :=
     \<lparr>mc_IsMCP = True, mc_JSONRPCMethod = meth, mc_PrimitiveType = ''tool'', mc_PrimitiveName = name\<rparr>\<rparr>"

definition sample_mcp_batch :: "item list" where
  "sample_mcp_batch = [ItemRecord (sample_mcp ''a'' ''call'' ''x'' 200), ItemNil,
     ItemRecord (sample_mcp ''b'' ''call'' ''x'' 200), ItemRecord (sample_mcp ''a'' ''call'' ''x'' 500)]"

lemma sample_mcp_simps [simp]:
  "IsMCPRecord (sample_mcp api meth name code)" "r_APIID (sample_mcp api meth name code) = api"
  "r_ResponseCode (sample_mcp api meth name code) = code"
  "mc_JSONRPCMethod (r_MCPStats (sample_mcp api meth name code)) = meth"
  "mcp_named k (sample_mcp api meth name code) \<longleftrightarrow> name \<noteq> [] \<and> ''tool_'' @ name = k"
  by (simp_all add: sample_mcp_def IsMCPRecord_def ToMCPRecord_def mcp_named_def name_label_def)

theorem AggregateMCPData_units_witness:
  "\<exists>m ts' a. AggregateMCPData sample_mcp_batch [] 60 [] = Inr (m, ts') \<and> gomap_get m ''a'' = Some a \<and>
     unit_val c_Hits (ma_Methods a) ''call'' = 2 \<and> unit_val c_ErrorTotal (ma_Names a) ''tool_x'' = 1"
proof -
  have "\<exists>m ts'. AggregateMCPData sample_mcp_batch [] 60 [] = Inr (m, ts')"
    by (rule AggregateMCPData_defined) (auto simp: sample_mcp_batch_def)
  then obtain m ts' where m: "AggregateMCPData sample_mcp_batch [] 60 [] = Inr (m, ts')" by blast
  then have "mcp_loop [] 60 [] [] sample_mcp_batch = Inr (m, ts')" by (simp add: AggregateMCPData_def)
  from mcp.run_get_new [OF this, of "''a''"] obtain a where a: "gomap_get m ''a'' = Some a"
    by (auto simp: sample_mcp_batch_def simp del: rfold.simps)
  from AggregateMCPData_units [OF m a, of "''call''"] AggregateMCPData_units [OF m a, of "''tool_x''"] m a
  show ?thesis by (simp add: sample_mcp_batch_def sample_defs)
qed

end
