(* ===== verification/Aggregate_SQL.thy ===== *)
theory Aggregate_SQL
  imports Aggregate_MCP
begin

text \<open>
  From an aggregate to the rows of the SQL aggregate pumps: \<open>Dimensions\<close>,
  \<open>ProcessStatusCodes\<close>, \<open>DiscardAggregations\<close> and \<open>OnConflictAssignments\<close> of
  \<open>src/analytics/aggregate.go\<close>, with \<open>Dimensions\<close> of the graph and MCP aggregates.
  The lemmas: the dimensions of an aggregate have distinct names and values, so that the row ids
  built from them are distinct; the columns of the status codes add up to the errors counted;
  the assignments of an upsert merge two rows into the row of both batches.
\<close>

section \<open>Dimensions\<close>

record dimension =
  d_Name :: string
  d_Value :: string
  d_Counter :: counter

definition fnLatencySetter :: "counter \<Rightarrow> counter" where
  "fnLatencySetter c =
     (if i64_lt 0 (c_Hits c) then
        c\<lparr>c_Latency := f_div (f_of_int (c_TotalLatency c)) (f_of_int (c_Hits c)),
          c_UpstreamLatency := f_div (f_of_int (c_TotalUpstreamLatency c)) (f_of_int (c_Hits c))\<rparr>
      else c)"

definition dims_of :: "string \<Rightarrow> units \<Rightarrow> dimension list" where
  "dims_of name m = map (\<lambda>(k, c). \<lparr>d_Name = name, d_Value = k, d_Counter = fnLatencySetter c\<rparr>) m"

definition dims2_of :: "string \<Rightarrow> (string, units) gomap \<Rightarrow> dimension list" where
  "dims2_of name mm = concat (map (\<lambda>(key, m).
     map (\<lambda>(k, c). \<lparr>d_Name = name, d_Value = key @ ''.'' @ k, d_Counter = fnLatencySetter c\<rparr>) m) mm)"

definition Dimensions :: "aggregate \<Rightarrow> dimension list" where
  "Dimensions a =
     dims_of ''apiid'' (ag_APIID a) @ dims_of ''errors'' (ag_Errors a) @
     dims_of ''versions'' (ag_Versions a) @ dims_of ''apikeys'' (ag_APIKeys a) @
     dims_of ''oauthids'' (ag_OauthIDs a) @ dims_of ''geo'' (ag_Geo a) @ dims_of ''tags'' (ag_Tags a) @
     dims_of ''endpoints'' (ag_Endpoints a) @ dims2_of ''keyendpoints'' (ag_KeyEndpoint a) @
     dims2_of ''oauthendpoints'' (ag_OauthEndpoint a) @ dims_of ''apiendpoints'' (ag_ApiEndpoint a) @
     [\<lparr>d_Name = [], d_Value = ''total'', d_Counter = fnLatencySetter (ag_Total a)\<rparr>]"

definition graph_Dimensions :: "graph_aggregate \<Rightarrow> dimension list" where
  "graph_Dimensions g =
     Dimensions (ga_Aggregate g) @ dims_of ''types'' (ga_Types g) @ dims_of ''fields'' (ga_Fields g) @
     dims_of ''operation'' (ga_Operation g) @ dims_of ''rootfields'' (ga_RootFields g)"

definition mcp_Dimensions :: "mcp_aggregate \<Rightarrow> dimension list" where
  "mcp_Dimensions m =
     Dimensions (ma_Aggregate m) @ dims_of ''methods'' (ma_Methods m) @
     dims_of ''primitives'' (ma_Primitives m) @ dims_of ''names'' (ma_Names m)"

definition dim_key :: "dimension \<Rightarrow> string \<times> string" where
  "dim_key d = (d_Name d, d_Value d)"

text \<open>The maps of an aggregate have distinct keys, and the endpoint hashes have no dot.\<close>

definition hashes_ok :: "(string, units) gomap \<Rightarrow> bool" where
  "hashes_ok mm \<longleftrightarrow> gomap_ok mm \<and>
     list_all (\<lambda>(key, m). gomap_ok m \<and> list_all (\<lambda>(k, c). CHR ''.'' \<notin> set k) m) mm"

definition maps_ok :: "aggregate \<Rightarrow> bool" where
  "maps_ok a \<longleftrightarrow> gomap_ok (ag_APIID a) \<and> gomap_ok (ag_Errors a) \<and> gomap_ok (ag_Versions a) \<and>
     gomap_ok (ag_APIKeys a) \<and> gomap_ok (ag_OauthIDs a) \<and> gomap_ok (ag_Geo a) \<and> gomap_ok (ag_Tags a) \<and>
     gomap_ok (ag_Endpoints a) \<and> gomap_ok (ag_ApiEndpoint a) \<and> hashes_ok (ag_KeyEndpoint a) \<and>
     hashes_ok (ag_OauthEndpoint a)"

lemma unit_at_map_ok: "unit_at b m k = Inr (c, m') \<Longrightarrow> gomap_ok m \<Longrightarrow> gomap_ok m'"
  by (auto simp: unit_at_def rbind_eq_Inr split: option.splits)

lemma store_unit_map_ok [simp]: "gomap_ok m \<Longrightarrow> gomap_ok (store_unit m k c i h)"
  by (simp add: store_unit_def)

lemma hashes_ok_get: "hashes_ok mm \<Longrightarrow> gomap_get mm key = Some m \<Longrightarrow> gomap_ok m \<and> list_all (\<lambda>(k, c). CHR ''.'' \<notin> set k) m"
  by (drule map_of_SomeD) (auto simp: hashes_ok_def list_all_iff)

lemma list_all_update: "list_all P m \<Longrightarrow> P (k, v) \<Longrightarrow> list_all P (gomap_set m k v)"
  by (induction m) auto

lemma hashes_ok_set:
  "hashes_ok mm \<Longrightarrow> gomap_ok m \<Longrightarrow> list_all (\<lambda>(k, c). CHR ''.'' \<notin> set k) m \<Longrightarrow> hashes_ok (gomap_set mm key m)"
  by (simp add: hashes_ok_def list_all_update)

lemma endpoint_of_hashes_ok:
  assumes "hashes_ok mm" and "endpoint_of r tc mm k = Inr mm'"
  shows "hashes_ok mm'"
proof -
  define ks where "ks = doHash (r_APIID r @ '':'' @ r_Path r)"
  define d where "d = (case gomap_get mm k of None \<Rightarrow> [] | Some d \<Rightarrow> d)"
  obtain c d' where u: "unit_at tc d ks = Inr (c, d')" and mm': "mm' = gomap_set mm k (store_unit d' ks c ks ks)"
    using assms(2) by (auto simp: endpoint_of_def rbind_eq_Inr Let_def ks_def d_def)
  have "gomap_ok d \<and> list_all (\<lambda>(k, c). CHR ''.'' \<notin> set k) d"
    using hashes_ok_get [OF assms(1)] by (cases "gomap_get mm k") (auto simp: d_def)
  moreover have dot: "CHR ''.'' \<notin> set ks" by (simp add: ks_def doHash_no_dot)
  ultimately have "gomap_ok d' \<and> list_all (\<lambda>(k, c). CHR ''.'' \<notin> set k) d'"
    using unit_at_get [OF u] by (auto simp: list_all_update split: option.splits)
  with dot have "gomap_ok (store_unit d' ks c ks ks) \<and> list_all (\<lambda>(k, c). CHR ''.'' \<notin> set k) (store_unit d' ks c ks ks)"
    by (simp add: store_unit_def list_all_update)
  then show ?thesis using assms(1) by (simp add: mm' hashes_ok_set)
qed

lemma tag_step_map_ok: "tag_step pre tc a tag = Inr a' \<Longrightarrow> maps_ok a \<Longrightarrow> maps_ok a'"
  by (auto simp: tag_step_def rbind_eq_Inr maps_ok_def Let_def dest: unit_at_map_ok split: if_splits)

lemma case_Tags_map_ok: "case_Tags pre r tc a = Inr a' \<Longrightarrow> maps_ok a \<Longrightarrow> maps_ok a'"
  unfolding case_Tags_def by (erule rfold_invariant) (auto intro: tag_step_map_ok)

lemma case_APIID_map_ok: "case_APIID r tc a = Inr a' \<Longrightarrow> maps_ok a \<Longrightarrow> maps_ok a'"
  by (auto simp: case_APIID_def rbind_eq_Inr maps_ok_def Let_def dest: unit_at_map_ok endpoint_of_hashes_ok [rotated]
      split: if_splits)

lemma case_ResponseCode_map_ok: "case_ResponseCode r tc a = Inr a' \<Longrightarrow> maps_ok a \<Longrightarrow> maps_ok a'"
  by (auto simp: case_ResponseCode_def rbind_eq_Inr maps_ok_def Let_def dest: unit_at_map_ok endpoint_of_hashes_ok [rotated]
      split: if_splits)

lemma case_APIVersion_map_ok: "case_APIVersion r tc a = Inr a' \<Longrightarrow> maps_ok a \<Longrightarrow> maps_ok a'"
  by (auto simp: case_APIVersion_def rbind_eq_Inr maps_ok_def Let_def dest: unit_at_map_ok endpoint_of_hashes_ok [rotated]
      split: if_splits)

lemma case_Geo_map_ok: "case_Geo r tc a = Inr a' \<Longrightarrow> maps_ok a \<Longrightarrow> maps_ok a'"
  by (auto simp: case_Geo_def rbind_eq_Inr maps_ok_def Let_def dest: unit_at_map_ok endpoint_of_hashes_ok [rotated]
      split: if_splits)

lemma case_TrackPath_map_ok:
  assumes "case_TrackPath r tc a = Inr a'" and "maps_ok a"
  shows "maps_ok a'"
proof (cases "r_TrackPath r")
  case False
  with assms show ?thesis by (simp add: case_TrackPath_def)
next
  case True
  let ?p = "replaceUnsupportedChars (r_Path r)" and ?k = "api_endpoint_key r"
  obtain c m where m: "unit_at tc (ag_Endpoints a) ?p = Inr (c, m)"
    using assms True by (auto simp: case_TrackPath_def rbind_eq_Inr Let_def)
  obtain c2 m2 where m2: "unit_at tc (ag_ApiEndpoint a) ?k = Inr (c2, m2)"
    and a': "a' = a\<lparr>ag_Endpoints := store_unit m ?p c (r_Path r) (r_Path r),
                   ag_ApiEndpoint := store_unit m2 ?k c2 ?k (r_Path r)\<rparr>"
    using assms True m by (auto simp: case_TrackPath_def rbind_eq_Inr Let_def)
  show ?thesis using assms(2) unit_at_map_ok [OF m] unit_at_map_ok [OF m2] by (simp add: a' maps_ok_def)
qed

lemma case_APIKey_map_ok:
  assumes "case_APIKey r tc a = Inr a'" and "maps_ok a"
  shows "maps_ok a'"
proof (cases "r_APIKey r = []")
  case True
  with assms show ?thesis by (simp add: case_APIKey_def)
next
  case False
  then obtain c m where m: "unit_at tc (ag_APIKeys a) (r_APIKey r) = Inr (c, m)"
    using assms by (auto simp: case_APIKey_def rbind_eq_Inr Let_def)
  define m' where "m' = store_unit m (r_APIKey r) c (r_APIKey r) (r_Alias r)"
  have m': "gomap_ok m'" using unit_at_map_ok [OF m] assms(2) by (simp add: m'_def maps_ok_def)
  show ?thesis
  proof (cases "r_TrackPath r")
    case True
    with assms(1) False m obtain mm where e: "endpoint_of r tc (ag_KeyEndpoint a) (r_APIKey r) = Inr mm"
      and "a' = a\<lparr>ag_APIKeys := m', ag_KeyEndpoint := mm\<rparr>"
      by (auto simp: case_APIKey_def rbind_eq_Inr Let_def m'_def)
    with m' assms(2) endpoint_of_hashes_ok [OF _ e] show ?thesis by (simp add: maps_ok_def)
  next
    case False
    with assms(1) \<open>r_APIKey r \<noteq> []\<close> m have "a' = a\<lparr>ag_APIKeys := m'\<rparr>"
      by (auto simp: case_APIKey_def rbind_eq_Inr Let_def m'_def)
    with m' assms(2) show ?thesis by (simp add: maps_ok_def)
  qed
qed

lemma case_OauthID_map_ok:
  assumes "case_OauthID r tc a = Inr a'" and "maps_ok a"
  shows "maps_ok a'"
proof (cases "r_OauthID r = []")
  case True
  with assms show ?thesis by (simp add: case_OauthID_def)
next
  case False
  then obtain c m where m: "unit_at tc (ag_OauthIDs a) (r_OauthID r) = Inr (c, m)"
    using assms by (auto simp: case_OauthID_def rbind_eq_Inr Let_def)
  define m' where "m' = store_unit m (r_OauthID r) c (r_OauthID r) (c_HumanIdentifier c)"
  have m': "gomap_ok m'" using unit_at_map_ok [OF m] assms(2) by (simp add: m'_def maps_ok_def)
  show ?thesis
  proof (cases "r_TrackPath r")
    case True
    with assms(1) False m obtain mm where e: "endpoint_of r tc (ag_OauthEndpoint a) (r_OauthID r) = Inr mm"
      and "a' = a\<lparr>ag_OauthIDs := m', ag_OauthEndpoint := mm\<rparr>"
      by (auto simp: case_OauthID_def rbind_eq_Inr Let_def m'_def)
    with m' assms(2) endpoint_of_hashes_ok [OF _ e] show ?thesis by (simp add: maps_ok_def)
  next
    case False
    with assms(1) \<open>r_OauthID r \<noteq> []\<close> m have "a' = a\<lparr>ag_OauthIDs := m'\<rparr>"
      by (auto simp: case_OauthID_def rbind_eq_Inr Let_def m'_def)
    with m' assms(2) show ?thesis by (simp add: maps_ok_def)
  qed
qed

lemmas case_maps_ok = case_APIID_map_ok case_ResponseCode_map_ok case_APIVersion_map_ok case_Geo_map_ok
  case_TrackPath_map_ok case_APIKey_map_ok case_OauthID_map_ok case_Tags_map_ok

lemma increment_units_maps_ok:
  assumes "increment_units pre r tc a = Inr a'" and "maps_ok a"
  shows "maps_ok a'"
proof -
  obtain a1 a2 a3 a4 a5 a6 a7 where steps: "case_ResponseCode r tc a = Inr a1" "case_APIKey r tc a1 = Inr a2"
    "case_APIVersion r tc a2 = Inr a3" "case_APIID r tc a3 = Inr a4" "case_OauthID r tc a4 = Inr a5"
    "case_Geo r tc a5 = Inr a6" "case_Tags pre r tc a6 = Inr a7" "case_TrackPath r tc a7 = Inr a'"
    using assms(1) unfolding increment_units_def rbind_eq_Inr by blast
  from steps assms(2) show ?thesis by (metis case_maps_ok)
qed

lemma incrementAggregate_maps_ok:
  assumes "incrementAggregate tap pre a r = Inr (a', tc)" and "maps_ok a"
  shows "maps_ok a'"
proof (cases "is_request r")
  case True
  obtain t where "increment_units pre (tracked tap r) (request_counter r) ((touched r a)\<lparr>ag_Total := t\<rparr>) = Inr a'"
    using assms(1) True by (auto simp: incrementAggregate_request rbind_eq_Inr)
  moreover have "maps_ok ((touched r a)\<lparr>ag_Total := t\<rparr>)" using assms(2) by (simp add: maps_ok_def touched_def)
  ultimately show ?thesis by (rule increment_units_maps_ok)
next
  case False
  with assms show ?thesis
    by (auto simp: incrementAggregate_network increment_network_def maps_ok_def touched_def Let_def)
qed

lemma agg_fold_maps_ok:
  assumes "rfold (agg_step tap pre) a rs = Inr a'" and "maps_ok a"
  shows "maps_ok a'"
  using assms(1) by (rule rfold_invariant [where P = maps_ok])
    (use assms(2) in \<open>auto simp: agg_step_def rbind_eq_Inr intro: incrementAggregate_maps_ok\<close>)

lemma seed_maps_ok: "maps_ok (fst (seed_aggregate db agg ts r))"
  by (simp add: seed_aggregate_def aggregate_New_def maps_ok_def hashes_ok_def Let_def case_prod_beta)

lemma AggregateData_maps_ok:
  assumes "AggregateData data tap pre db agg ts = Inr (m, ts')" and "org \<noteq> []" and "gomap_get m org = Some a"
  shows "maps_ok a"
  using AggregateData_get [OF assms] agg_fold_maps_ok seed_maps_ok by metis


section \<open>Row ids\<close>

lemma dot_split:
  assumes "a @ CHR ''.'' # b = c @ CHR ''.'' # d" and "CHR ''.'' \<notin> set b" and "CHR ''.'' \<notin> set d"
  shows "a = c \<and> b = d"
proof -
  have "takeWhile (\<lambda>x. x \<noteq> CHR ''.'') (rev (a @ CHR ''.'' # b)) = rev b"
    "takeWhile (\<lambda>x. x \<noteq> CHR ''.'') (rev (c @ CHR ''.'' # d)) = rev d"
    using assms(2,3) by (auto simp: takeWhile_append takeWhile_tail)
  with assms(1) have "b = d" by (metis rev_is_rev_conv)
  with assms(1) show ?thesis by simp
qed

lemma dims_of_keys: "map dim_key (dims_of n m) = map (Pair n) (map fst m)"
  by (induction m) (auto simp: dims_of_def dim_key_def)

lemma dims_of_distinct: "gomap_ok m \<Longrightarrow> distinct (map dim_key (dims_of n m))"
  unfolding dims_of_keys gomap_ok_def by (simp add: distinct_map inj_on_def)

lemma dims2_of_keys:
  "map dim_key (dims2_of n mm) = map (Pair n) (concat (map (\<lambda>(key, m). map (\<lambda>k. key @ CHR ''.'' # k) (map fst m)) mm))"
  by (induction mm) (auto simp: dims2_of_def dim_key_def)

lemma dims2_of_distinct: "hashes_ok mm \<Longrightarrow> distinct (map dim_key (dims2_of n mm))"
proof -
  assume ok: "hashes_ok mm"
  have "distinct (concat (map (\<lambda>(key, m). map (\<lambda>k. key @ CHR ''.'' # k) (map fst m)) mm))"
    using ok
  proof (induction mm)
    case Nil
    then show ?case by simp
  next
    case (Cons x mm)
    obtain key m where x: "x = (key, m)" by (cases x)
    have dot: "CHR ''.'' \<notin> set k" if "k \<in> fst ` set m" for k
      using Cons.prems that by (auto simp: x hashes_ok_def list_all_iff)
    have dot': "CHR ''.'' \<notin> set k" if "(key', m') \<in> set mm" "k \<in> fst ` set m'" for key' m' k
      using Cons.prems that by (fastforce simp: hashes_ok_def list_all_iff)
    have "distinct (map (\<lambda>k. key @ CHR ''.'' # k) (map fst m))"
      using Cons.prems by (simp add: x hashes_ok_def gomap_ok_def distinct_map inj_on_def)
    moreover have ne: "key @ CHR ''.'' # k \<noteq> key' @ CHR ''.'' # k'"
      if "k \<in> fst ` set m" "(key', m') \<in> set mm" "k' \<in> fst ` set m'" for k key' m' k'
    proof
      assume "key @ CHR ''.'' # k = key' @ CHR ''.'' # k'"
      then have "key = key'" using dot_split dot [OF that(1)] dot' [OF that(2,3)] by blast
      then show False using Cons.prems that(2) by (force simp: x hashes_ok_def gomap_ok_def)
    qed
    moreover have "set (map (\<lambda>k. key @ CHR ''.'' # k) (map fst m)) \<inter>
        set (concat (map (\<lambda>(key, m). map (\<lambda>k. key @ CHR ''.'' # k) (map fst m)) mm)) = {}"
    proof (rule ccontr)
      assume "\<not> ?thesis"
      then obtain z where z: "z \<in> set (map (\<lambda>k. key @ CHR ''.'' # k) (map fst m))"
        "z \<in> set (concat (map (\<lambda>(key, m). map (\<lambda>k. key @ CHR ''.'' # k) (map fst m)) mm))" by blast
      from z(1) obtain k where k: "k \<in> fst ` set m" "z = key @ CHR ''.'' # k" by auto
      from z(2) obtain key' m' k' where "(key', m') \<in> set mm" "k' \<in> fst ` set m'" "z = key' @ CHR ''.'' # k'"
        by auto
      with ne k show False by metis
    qed
    moreover have "hashes_ok mm" using Cons.prems by (simp add: hashes_ok_def gomap_ok_def)
    ultimately show ?case using Cons.IH by (simp add: x)
  qed
  then show ?thesis unfolding dims2_of_keys by (simp add: distinct_map inj_on_def)
qed

lemma dims_of_names: "dim_key ` set (dims_of n m) \<subseteq> {n} \<times> UNIV" "dim_key ` set (dims2_of n mm) \<subseteq> {n} \<times> UNIV"
  by (auto simp: dims_of_def dims2_of_def dim_key_def)

lemma named_disjoint: "B \<subseteq> N \<times> UNIV \<Longrightarrow> A \<subseteq> {n} \<times> UNIV \<Longrightarrow> n \<notin> N \<Longrightarrow> A \<inter> B = {}"
  by auto

lemma distinct_concat_named:
  assumes "distinct (map fst ps)"
    and "list_all (\<lambda>(n, ds). distinct (map dim_key ds) \<and> dim_key ` set ds \<subseteq> {n} \<times> UNIV) ps"
  shows "distinct (map dim_key (concat (map snd ps)))"
  using assms
proof (induction ps)
  case Nil
  then show ?case by simp
next
  case (Cons p ps)
  have "dim_key ` set (snd q) \<subseteq> {fst q} \<times> UNIV" if "q \<in> set ps" for q
    using Cons.prems(2) that by (simp add: list_all_iff case_prod_beta)
  then have "dim_key ` set (concat (map snd ps)) \<subseteq> (fst ` set ps) \<times> UNIV" by force
  moreover have "dim_key ` set (snd p) \<subseteq> {fst p} \<times> UNIV"
    using Cons.prems(2) by (auto simp: case_prod_beta)
  moreover have "fst p \<notin> fst ` set ps" using Cons.prems(1) by simp
  ultimately have disj: "dim_key ` set (snd p) \<inter> dim_key ` set (concat (map snd ps)) = {}"
    by (intro named_disjoint)
  have rest: "distinct (map dim_key (concat (map snd ps)))"
  proof (rule Cons.IH)
    show "distinct (map fst ps)" using Cons.prems(1) by simp
    show "list_all (\<lambda>(n, ds). distinct (map dim_key ds) \<and> dim_key ` set ds \<subseteq> {n} \<times> UNIV) ps"
      using Cons.prems(2) by (simp only: list.pred_inject)
  qed
  have "distinct (map dim_key (snd p))" using Cons.prems(2) by (simp add: case_prod_beta)
  with disj rest have "distinct (map dim_key (snd p) @ map dim_key (concat (map snd ps)))"
    by (simp only: distinct_append set_map simp_thms)
  then show ?case by (simp only: list.map concat.simps map_append)
qed

definition base_names :: "string list" where
  "base_names = [''apiid'', ''errors'', ''versions'', ''apikeys'', ''oauthids'', ''geo'', ''tags'', ''endpoints'',
     ''keyendpoints'', ''oauthendpoints'', ''apiendpoints'']"

lemma Dimensions_names:
  "d \<in> set (Dimensions a) \<Longrightarrow> d_Name d \<in> set base_names \<or> d_Name d = [] \<and> d_Value d = ''total''"
  by (auto simp: Dimensions_def dims_of_def dims2_of_def base_names_def)

definition dim_parts :: "aggregate \<Rightarrow> (string \<times> dimension list) list" where
  "dim_parts a = [(''apiid'', dims_of ''apiid'' (ag_APIID a)), (''errors'', dims_of ''errors'' (ag_Errors a)),
     (''versions'', dims_of ''versions'' (ag_Versions a)), (''apikeys'', dims_of ''apikeys'' (ag_APIKeys a)),
     (''oauthids'', dims_of ''oauthids'' (ag_OauthIDs a)), (''geo'', dims_of ''geo'' (ag_Geo a)),
     (''tags'', dims_of ''tags'' (ag_Tags a)), (''endpoints'', dims_of ''endpoints'' (ag_Endpoints a)),
     (''keyendpoints'', dims2_of ''keyendpoints'' (ag_KeyEndpoint a)),
     (''oauthendpoints'', dims2_of ''oauthendpoints'' (ag_OauthEndpoint a)),
     (''apiendpoints'', dims_of ''apiendpoints'' (ag_ApiEndpoint a)),
     ([], [\<lparr>d_Name = [], d_Value = ''total'', d_Counter = fnLatencySetter (ag_Total a)\<rparr>])]"

lemma Dimensions_parts: "Dimensions a = concat (map snd (dim_parts a))"
  by (simp add: Dimensions_def dim_parts_def)

lemma total_dim_names:
  "dim_key ` set [\<lparr>d_Name = [], d_Value = v, d_Counter = c\<rparr>] \<subseteq> {[]} \<times> UNIV"
  by (simp add: dim_key_def)

lemma Dimensions_distinct:
  assumes "maps_ok a"
  shows "distinct (map dim_key (Dimensions a))"
  unfolding Dimensions_parts
proof (rule distinct_concat_named)
  show "distinct (map fst (dim_parts a))" by (simp add: dim_parts_def)
  show "list_all (\<lambda>(n, ds). distinct (map dim_key ds) \<and> dim_key ` set ds \<subseteq> {n} \<times> UNIV) (dim_parts a)"
    using assms unfolding dim_parts_def maps_ok_def
    by (simp only: list.pred_inject case_prod_conv dims_of_distinct dims2_of_distinct dims_of_names total_dim_names)
      (simp add: dim_key_def)
qed

text \<open>
  \<open>DoAggregatedWriting\<close> of \<open>src/pumps/sql_aggregate.go\<close> identifies a row by the hex
  encoding of time stamp, organisation, dimension and value, without separators.
\<close>

definition row_id :: "gotime \<Rightarrow> string \<Rightarrow> dimension \<Rightarrow> string" where
  "row_id stamp orgID d = hex_encode (itoa (time_unix stamp) @ orgID @ d_Name d @ d_Value d)"

text \<open>No dimension name is a prefix of another, and none of \<open>total\<close>.\<close>

lemma names_unrelated:
  "list_all (\<lambda>m. list_all (\<lambda>n. m = n \<or> \<not> has_prefix m n) base_names \<and> \<not> has_prefix ''total'' m) base_names"
  by code_simp

lemma append_prefix: "n1 @ v1 = n2 @ v2 \<Longrightarrow> has_prefix n1 n2 \<or> has_prefix n2 n1"
  by (auto simp: append_eq_append_conv2)

lemma names_prefix_free:
  assumes "n1 \<in> set base_names \<or> n1 = [] \<and> v1 = ''total''" and "n2 \<in> set base_names \<or> n2 = [] \<and> v2 = ''total''"
    and "n1 @ v1 = n2 @ v2"
  shows "n1 = n2 \<and> v1 = v2"
proof -
  have base: "m = n \<or> \<not> has_prefix m n" "\<not> has_prefix ''total'' m"
    if "m \<in> set base_names" "n \<in> set base_names" for m n
    using names_unrelated that unfolding list_all_iff by blast+
  consider "n1 \<in> set base_names" "n2 \<in> set base_names" | "n1 \<in> set base_names" "n2 @ v2 = ''total''"
    | "n1 @ v1 = ''total''" "n2 \<in> set base_names" | "n1 = []" "n2 = []"
    using assms(1,2) by auto
  then show ?thesis
  proof cases
    case 1
    with base append_prefix [OF assms(3)] have "n1 = n2" by blast
    with assms(3) show ?thesis by simp
  next
    case 2
    with assms(3) base(2) [of n1] show ?thesis by (metis has_prefix_append)
  next
    case 3
    with assms(3) base(2) [of n2] show ?thesis by (metis has_prefix_append)
  next
    case 4
    with assms(3) show ?thesis by simp
  qed
qed

lemma row_id_inj:
  assumes "d1 \<in> set (Dimensions a)" and "d2 \<in> set (Dimensions a)"
  shows "row_id stamp org d1 = row_id stamp org d2 \<longleftrightarrow> dim_key d1 = dim_key d2"
  using names_prefix_free [OF Dimensions_names [OF assms(1)] Dimensions_names [OF assms(2)]]
  by (auto simp: row_id_def hex_encode_inj dim_key_def)

lemma row_ids_distinct:
  assumes "maps_ok a"
  shows "distinct (map (row_id stamp org) (Dimensions a))"
proof -
  have "distinct (map dim_key (Dimensions a))" by (rule Dimensions_distinct [OF assms])
  then show ?thesis using row_id_inj [of _ a _ stamp org] by (auto simp: distinct_map inj_on_def)
qed

text \<open>
  C18. The rows that the SQL aggregate pump writes for an organisation have pairwise distinct ids:
  although the id runs time stamp, organisation, dimension and value together without a
  separator, no two dimensions of an aggregate produced by \<open>AggregateData\<close> share one.
\<close>

theorem aggregate_row_ids_distinct:
  assumes "AggregateData data tap pre db agg ts = Inr (m, ts')" and "org \<noteq> []" and "gomap_get m org = Some a"
  shows "distinct (map (row_id stamp org) (Dimensions a))"
  by (rule row_ids_distinct [OF AggregateData_maps_ok [OF assms]])


theorem aggregate_row_ids_distinct_witness:
  "\<exists>m ts' a. AggregateData sample_batch True [] [] 60 [] = Inr (m, ts') \<and> gomap_get m ''o'' = Some a \<and>
     distinct (map (row_id sample_time ''o'') (Dimensions a))"
proof -
  obtain m ts' a where m: "AggregateData sample_batch True [] [] 60 [] = Inr (m, ts')" "gomap_get m ''o'' = Some a"
    by (rule sample_batch_get)
  from aggregate_row_ids_distinct [OF m(1) _ m(2), of sample_time] m show ?thesis by simp
qed

section \<open>Status codes\<close>

record code =
  Code1x :: i64
  Code200 :: i64
  Code201 :: i64
  Code2x :: i64
  Code301 :: i64
  Code302 :: i64
  Code303 :: i64
  Code304 :: i64
  Code3x :: i64
  Code400 :: i64
  Code401 :: i64
  Code403 :: i64
  Code404 :: i64
  Code429 :: i64
  Code4x :: i64
  Code500 :: i64
  Code501 :: i64
  Code502 :: i64
  Code503 :: i64
  Code504 :: i64
  Code5x :: i64

definition code_zero :: code where
  "code_zero = \<lparr>Code1x = 0, Code200 = 0, Code201 = 0, Code2x = 0, Code301 = 0, Code302 = 0, Code303 = 0, Code304 = 0, Code3x = 0, Code400 = 0, Code401 = 0, Code403 = 0, Code404 = 0, Code429 = 0, Code4x = 0, Code500 = 0, Code501 = 0, Code502 = 0, Code503 = 0, Code504 = 0, Code5x = 0\<rparr>"

text \<open>The fields of the struct by name, with their getter and setter, as reflection sees them.\<close>

definition code_fields :: "(string \<times> (code \<Rightarrow> i64) \<times> (i64 \<Rightarrow> code \<Rightarrow> code)) list" where
  "code_fields =
     [(''Code1x'', Code1x, \<lambda>v. Code1x_update (\<lambda>_. v)),
      (''Code200'', Code200, \<lambda>v. Code200_update (\<lambda>_. v)),
      (''Code201'', Code201, \<lambda>v. Code201_update (\<lambda>_. v)),
      (''Code2x'', Code2x, \<lambda>v. Code2x_update (\<lambda>_. v)),
      (''Code301'', Code301, \<lambda>v. Code301_update (\<lambda>_. v)),
      (''Code302'', Code302, \<lambda>v. Code302_update (\<lambda>_. v)),
      (''Code303'', Code303, \<lambda>v. Code303_update (\<lambda>_. v)),
      (''Code304'', Code304, \<lambda>v. Code304_update (\<lambda>_. v)),
      (''Code3x'', Code3x, \<lambda>v. Code3x_update (\<lambda>_. v)),
      (''Code400'', Code400, \<lambda>v. Code400_update (\<lambda>_. v)),
      (''Code401'', Code401, \<lambda>v. Code401_update (\<lambda>_. v)),
      (''Code403'', Code403, \<lambda>v. Code403_update (\<lambda>_. v)),
      (''Code404'', Code404, \<lambda>v. Code404_update (\<lambda>_. v)),
      (''Code429'', Code429, \<lambda>v. Code429_update (\<lambda>_. v)),
      (''Code4x'', Code4x, \<lambda>v. Code4x_update (\<lambda>_. v)),
      (''Code500'', Code500, \<lambda>v. Code500_update (\<lambda>_. v)),
      (''Code501'', Code501, \<lambda>v. Code501_update (\<lambda>_. v)),
      (''Code502'', Code502, \<lambda>v. Code502_update (\<lambda>_. v)),
      (''Code503'', Code503, \<lambda>v. Code503_update (\<lambda>_. v)),
      (''Code504'', Code504, \<lambda>v. Code504_update (\<lambda>_. v)),
      (''Code5x'', Code5x, \<lambda>v. Code5x_update (\<lambda>_. v))]"

definition code_field :: "string \<Rightarrow> ((code \<Rightarrow> i64) \<times> (i64 \<Rightarrow> code \<Rightarrow> code)) option" where
  "code_field n = map_of code_fields n"

definition status_step :: "code \<Rightarrow> string \<times> i64 \<Rightarrow> code res" where
  "status_step c kv = (case kv of (k, v) \<Rightarrow>
     (case code_field (''Code'' @ k) of
        Some (get, put) \<Rightarrow> Inr (put v c)
      | None \<Rightarrow>
          (if k = [] then Inl (GoPanic ''index out of range'')
           else (case code_field (''Code'' @ [hd k] @ ''x'') of
                   Some (get, put) \<Rightarrow> Inr (put (v + get c) c)
                 | None \<Rightarrow> Inr c))))"

definition ProcessStatusCodes :: "(string, i64) gomap \<Rightarrow> code \<Rightarrow> code res" where
  "ProcessStatusCodes errorMap c = rfold status_step c errorMap"

definition code_sum :: "code \<Rightarrow> i64" where
  "code_sum c = sum_list (map (\<lambda>(n, get, put). get c) code_fields)"

lemma code_fields_distinct: "distinct (map fst code_fields)"
  by (simp add: code_fields_def)

lemma code_field_in: "code_field n = Some (get, put) \<Longrightarrow> (n, get, put) \<in> set code_fields"
  by (simp add: code_field_def map_of_SomeD)

lemma code_put_sum:
  assumes "code_field n = Some (get, put)"
  shows "code_sum (put v c) = code_sum c - get c + v"
proof -
  have "list_all (\<lambda>(n, get, put). code_sum (put v c) = code_sum c - get c + v) code_fields"
    by (simp add: code_fields_def code_sum_def)
  with code_field_in [OF assms] show ?thesis by (auto simp: list_all_iff)
qed

lemma code_put_get:
  assumes "code_field n = Some (get, put)" and "code_field n' = Some (get', put')" and "n \<noteq> n'"
  shows "get' (put v c) = get' c"
proof -
  have "list_all (\<lambda>(n, get, put). list_all (\<lambda>(n', get', put'). n = n' \<or> get' (put v c) = get' c) code_fields) code_fields"
    by (simp add: code_fields_def)
  with code_field_in [OF assms(1)] code_field_in [OF assms(2)] assms(3) show ?thesis by (fastforce simp: list_all_iff)
qed

text \<open>The keys of the error maps: decimal codes of 400 and above. A class needs a column of its own.\<close>

definition class_digit :: "string \<Rightarrow> bool" where
  "class_digit k \<longleftrightarrow> k \<noteq> [] \<and> hd k \<in> set ''12345''"

lemma code_field_class: "code_field (''Code'' @ [d] @ ''x'') = None \<longleftrightarrow> d \<notin> set ''12345''"
  by (simp add: code_field_def code_fields_def)

lemma code_field_exact: "code_field (''Code'' @ k) \<noteq> None \<Longrightarrow> class_digit k"
  by (auto simp: code_field_def code_fields_def class_digit_def split: if_splits)

definition code_key :: "string \<Rightarrow> bool" where
  "code_key k \<longleftrightarrow> (\<exists>w. 400 \<le> sint w \<and> k = itoa w)"

lemma code_key_digits: "code_key k \<Longrightarrow> k \<noteq> [] \<and> CHR ''x'' \<notin> set k"
proof -
  assume "code_key k"
  then obtain w where w: "400 \<le> sint w" "k = itoa w" by (auto simp: code_key_def)
  then have "k = dec_nat (nat (sint w))" by (simp add: itoa_def dec_int_def)
  then show ?thesis using dec_nat_digits [of "CHR ''x''" "nat (sint w)"] w by auto
qed

lemma status_step_spec:
  assumes "code_key k" and zero: "\<forall>get put. code_field (''Code'' @ k) = Some (get, put) \<longrightarrow> get c = 0"
  shows "\<exists>c'. status_step c (k, v) = Inr c' \<and>
    code_sum c' = code_sum c + (if class_digit k then v else 0) \<and>
    (\<forall>k' get put. code_key k' \<and> k' \<noteq> k \<and> code_field (''Code'' @ k') = Some (get, put) \<longrightarrow> get c' = get c)"
proof (cases "code_field (''Code'' @ k)")
  case (Some gp)
  obtain get put where gp: "gp = (get, put)" by (cases gp)
  have "code_sum (put v c) = code_sum c + v"
    using code_put_sum [of "''Code'' @ k" get put v c] zero Some gp by simp
  moreover have "class_digit k" using code_field_exact [of k] Some by simp
  moreover have "get' (put v c) = get' c" if "k' \<noteq> k" "code_field (''Code'' @ k') = Some (get', put')" for k' get' put'
    using code_put_get [of "''Code'' @ k" get put "''Code'' @ k'" get' put' v c] Some gp that by simp
  ultimately show ?thesis using Some gp by (auto simp: status_step_def)
next
  case None
  have k: "k \<noteq> []" "CHR ''x'' \<notin> set k" using code_key_digits [OF assms(1)] by auto
  show ?thesis
  proof (cases "code_field (''Code'' @ [hd k] @ ''x'')")
    case None': None
    then have "\<not> class_digit k" using code_field_class [of "hd k"] by (simp add: class_digit_def)
    with None None' k show ?thesis by (auto simp: status_step_def)
  next
    case (Some gp)
    obtain get put where gp: "gp = (get, put)" by (cases gp)
    have "code_sum (put (v + get c) c) = code_sum c + v"
      using code_put_sum [of "''Code'' @ [hd k] @ ''x''" get put "v + get c" c] Some gp by simp
    moreover have "class_digit k" using code_field_class [of "hd k"] Some k by (auto simp: class_digit_def)
    moreover have "get' (put (v + get c) c) = get' c"
      if "code_key k'" "code_field (''Code'' @ k') = Some (get', put')" for k' get' put'
    proof (rule code_put_get)
      show "code_field (''Code'' @ [hd k] @ ''x'') = Some (get, put)" using Some gp by simp
      show "code_field (''Code'' @ k') = Some (get', put')" by (rule that(2))
      show "''Code'' @ [hd k] @ ''x'' \<noteq> ''Code'' @ k'" using code_key_digits [OF that(1)] by auto
    qed
    ultimately show ?thesis using None Some gp k by (auto simp: status_step_def)
  qed
qed

lemma ProcessStatusCodes_sum_gen:
  assumes "gomap_ok m" and "\<And>k v. (k, v) \<in> set m \<Longrightarrow> code_key k"
    and "\<And>k v get put. (k, v) \<in> set m \<Longrightarrow> code_field (''Code'' @ k) = Some (get, put) \<Longrightarrow> get c = 0"
  shows "\<exists>c'. ProcessStatusCodes m c = Inr c' \<and>
    code_sum c' = code_sum c + sum_list (map (\<lambda>(k, v). if class_digit k then v else 0) m)"
  using assms
proof (induction m arbitrary: c)
  case Nil
  then show ?case by (simp add: ProcessStatusCodes_def)
next
  case (Cons kv m)
  obtain k v where kv: "kv = (k, v)" by (cases kv)
  have key: "code_key k" using Cons.prems(2) [of k v] kv by simp
  have "\<forall>get put. code_field (''Code'' @ k) = Some (get, put) \<longrightarrow> get c = 0"
    using Cons.prems(3) [of k v] kv by simp
  from status_step_spec [OF key this, of v] obtain c1 where c1: "status_step c (k, v) = Inr c1"
    "code_sum c1 = code_sum c + (if class_digit k then v else 0)"
    "\<forall>k' get put. code_key k' \<and> k' \<noteq> k \<and> code_field (''Code'' @ k') = Some (get, put) \<longrightarrow> get c1 = get c"
    by blast
  have "\<exists>c'. ProcessStatusCodes m c1 = Inr c' \<and>
      code_sum c' = code_sum c1 + sum_list (map (\<lambda>(k, v). if class_digit k then v else 0) m)"
  proof (rule Cons.IH)
    show "gomap_ok m" using Cons.prems(1) by (simp add: gomap_ok_def)
    show "code_key k'" if "(k', v') \<in> set m" for k' v' using Cons.prems(2) [of k' v'] that by simp
    show "get c1 = 0" if m: "(k', v') \<in> set m" "code_field (''Code'' @ k') = Some (get, put)" for k' v' get put
    proof -
      have "k' \<noteq> k" using Cons.prems(1) m(1) by (force simp: kv gomap_ok_def)
      moreover have "code_key k'" using Cons.prems(2) [of k' v'] m(1) by simp
      ultimately have "get c1 = get c" using c1(3) m(2) by blast
      also have "\<dots> = 0" using Cons.prems(3) [of k' v' get put] m by simp
      finally show ?thesis .
    qed
  qed
  with c1 show ?case by (auto simp: ProcessStatusCodes_def kv)
qed

text \<open>
  \<open>ProcessStatusCodes\<close> on a fresh row never panics for the error map of a counter and
  loses no error of the classes that have a column: the columns of the row add up to the counts
  of all codes whose first digit is 1 to 5, a code with a column of its own in that column, the
  others in the column of their class.
\<close>

theorem ProcessStatusCodes_conserves:
  assumes "gomap_ok m" and "\<And>k. k \<in> set (gomap_keys m) \<Longrightarrow> code_key k"
  shows "\<exists>c. ProcessStatusCodes m code_zero = Inr c \<and>
    code_sum c = sum_list (map (\<lambda>(k, v). if class_digit k then v else 0) m)"
proof -
  have z: "get code_zero = 0" if "code_field n = Some (get, put)" for n get put
  proof -
    have "list_all (\<lambda>(n, get, put). get code_zero = 0) code_fields"
      by (simp add: code_fields_def code_zero_def)
    with code_field_in [OF that] show ?thesis by (auto simp: list_all_iff)
  qed
  have "code_sum code_zero = 0" by (simp add: code_sum_def code_fields_def code_zero_def)
  moreover have "code_key k" if "(k, v) \<in> set m" for k v
    using assms(2) [of k] that by (force simp: gomap_keys_def)
  ultimately show ?thesis using ProcessStatusCodes_sum_gen [OF assms(1), of code_zero] z by auto
qed

theorem ProcessStatusCodes_conserves_witness:
  "\<exists>c. ProcessStatusCodes [(''404'', 2), (''418'', 5), (''600'', 1)] code_zero = Inr c \<and> code_sum c = 7"
proof -
  have "code_key k" if "k \<in> {''404'', ''418'', ''600''}" for k
  proof -
    have "''404'' = itoa 404" "''418'' = itoa 418" "''600'' = itoa 600"
      by code_simp+
    then show ?thesis using that unfolding code_key_def
      by (elim insertE emptyE) (rule exI [of _ 404] exI [of _ 418] exI [of _ 600]; simp)+
  qed
  then show ?thesis
    using ProcessStatusCodes_conserves [of "[(''404'', 2), (''418'', 5), (''600'', 1)]"]
    by (simp add: gomap_ok_def gomap_keys_def class_digit_def)
qed

section \<open>Discarded dimensions\<close>

definition discard_field :: "string \<Rightarrow> aggregate \<Rightarrow> aggregate" where
  "discard_field f a =
     (if f \<in> {''APIID'', ''apiid''} then a\<lparr>ag_APIID := []\<rparr>
      else if f \<in> {''Errors'', ''errors''} then a\<lparr>ag_Errors := []\<rparr>
      else if f \<in> {''Versions'', ''versions''} then a\<lparr>ag_Versions := []\<rparr>
      else if f \<in> {''APIKeys'', ''apikeys''} then a\<lparr>ag_APIKeys := []\<rparr>
      else if f \<in> {''OauthIDs'', ''oauthids''} then a\<lparr>ag_OauthIDs := []\<rparr>
      else if f \<in> {''Geo'', ''geo''} then a\<lparr>ag_Geo := []\<rparr>
      else if f \<in> {''Tags'', ''tags''} then a\<lparr>ag_Tags := []\<rparr>
      else if f \<in> {''Endpoints'', ''endpoints''} then a\<lparr>ag_Endpoints := []\<rparr>
      else if f \<in> {''KeyEndpoint'', ''keyendpoints''} then a\<lparr>ag_KeyEndpoint := []\<rparr>
      else if f \<in> {''OauthEndpoint'', ''oauthendpoints''} then a\<lparr>ag_OauthEndpoint := []\<rparr>
      else if f \<in> {''ApiEndpoint'', ''apiendpoints''} then a\<lparr>ag_ApiEndpoint := []\<rparr>
      else a)"

definition DiscardAggregations :: "string list \<Rightarrow> aggregate \<Rightarrow> aggregate" where
  "DiscardAggregations flds a = fold discard_field flds a"

text \<open>Which names of the configuration discard which dimension.\<close>

definition discard_names :: "(string \<times> string) list" where
  "discard_names =
     [(''APIID'', ''apiid''), (''apiid'', ''apiid''),
      (''Errors'', ''errors''), (''errors'', ''errors''),
      (''Versions'', ''versions''), (''versions'', ''versions''),
      (''APIKeys'', ''apikeys''), (''apikeys'', ''apikeys''),
      (''OauthIDs'', ''oauthids''), (''oauthids'', ''oauthids''),
      (''Geo'', ''geo''), (''geo'', ''geo''),
      (''Tags'', ''tags''), (''tags'', ''tags''),
      (''Endpoints'', ''endpoints''), (''endpoints'', ''endpoints''),
      (''KeyEndpoint'', ''keyendpoints''), (''keyendpoints'', ''keyendpoints''),
      (''OauthEndpoint'', ''oauthendpoints''), (''oauthendpoints'', ''oauthendpoints''),
      (''ApiEndpoint'', ''apiendpoints''), (''apiendpoints'', ''apiendpoints'')]"

definition discarded :: "string list \<Rightarrow> string \<Rightarrow> bool" where
  "discarded flds n \<longleftrightarrow> list_ex (\<lambda>f. (f, n) \<in> set discard_names) flds"

lemma filter_dims_of:
  "filter (\<lambda>d. P (d_Name d)) (dims_of n m) = (if P n then dims_of n m else [])"
  "filter (\<lambda>d. P (d_Name d)) (dims2_of n mm) = (if P n then dims2_of n mm else [])"
  by (auto simp: dims_of_def dims2_of_def filter_empty_conv filter_id_conv)

lemma dims_of_Nil [simp]: "dims_of n [] = []" "dims2_of n [] = []"
  by (simp_all add: dims_of_def dims2_of_def)

lemma filter_dims_ne:
  "filter (\<lambda>d. d_Name d \<noteq> x) (dims_of n m) = (if n = x then [] else dims_of n m)"
  "filter (\<lambda>d. d_Name d \<noteq> x) (dims2_of n mm) = (if n = x then [] else dims2_of n mm)"
  by (auto simp: dims_of_def dims2_of_def filter_empty_conv filter_id_conv)

lemma clear_dims:
  "Dimensions (a\<lparr>ag_APIID := []\<rparr>) = filter (\<lambda>d. d_Name d \<noteq> ''apiid'') (Dimensions a)"
  "Dimensions (a\<lparr>ag_Errors := []\<rparr>) = filter (\<lambda>d. d_Name d \<noteq> ''errors'') (Dimensions a)"
  "Dimensions (a\<lparr>ag_Versions := []\<rparr>) = filter (\<lambda>d. d_Name d \<noteq> ''versions'') (Dimensions a)"
  "Dimensions (a\<lparr>ag_APIKeys := []\<rparr>) = filter (\<lambda>d. d_Name d \<noteq> ''apikeys'') (Dimensions a)"
  "Dimensions (a\<lparr>ag_OauthIDs := []\<rparr>) = filter (\<lambda>d. d_Name d \<noteq> ''oauthids'') (Dimensions a)"
  "Dimensions (a\<lparr>ag_Geo := []\<rparr>) = filter (\<lambda>d. d_Name d \<noteq> ''geo'') (Dimensions a)"
  "Dimensions (a\<lparr>ag_Tags := []\<rparr>) = filter (\<lambda>d. d_Name d \<noteq> ''tags'') (Dimensions a)"
  "Dimensions (a\<lparr>ag_Endpoints := []\<rparr>) = filter (\<lambda>d. d_Name d \<noteq> ''endpoints'') (Dimensions a)"
  "Dimensions (a\<lparr>ag_KeyEndpoint := []\<rparr>) = filter (\<lambda>d. d_Name d \<noteq> ''keyendpoints'') (Dimensions a)"
  "Dimensions (a\<lparr>ag_OauthEndpoint := []\<rparr>) = filter (\<lambda>d. d_Name d \<noteq> ''oauthendpoints'') (Dimensions a)"
  "Dimensions (a\<lparr>ag_ApiEndpoint := []\<rparr>) = filter (\<lambda>d. d_Name d \<noteq> ''apiendpoints'') (Dimensions a)"
  by (simp_all add: Dimensions_def filter_dims_ne)

lemma discard_cases:
  "f \<in> {''APIID'', ''apiid''} \<Longrightarrow> discard_field f a = a\<lparr>ag_APIID := []\<rparr> \<and> (\<forall>n. (f, n) \<in> set discard_names \<longleftrightarrow> n = ''apiid'')"
  "f \<in> {''Errors'', ''errors''} \<Longrightarrow> discard_field f a = a\<lparr>ag_Errors := []\<rparr> \<and> (\<forall>n. (f, n) \<in> set discard_names \<longleftrightarrow> n = ''errors'')"
  "f \<in> {''Versions'', ''versions''} \<Longrightarrow> discard_field f a = a\<lparr>ag_Versions := []\<rparr> \<and> (\<forall>n. (f, n) \<in> set discard_names \<longleftrightarrow> n = ''versions'')"
  "f \<in> {''APIKeys'', ''apikeys''} \<Longrightarrow> discard_field f a = a\<lparr>ag_APIKeys := []\<rparr> \<and> (\<forall>n. (f, n) \<in> set discard_names \<longleftrightarrow> n = ''apikeys'')"
  "f \<in> {''OauthIDs'', ''oauthids''} \<Longrightarrow> discard_field f a = a\<lparr>ag_OauthIDs := []\<rparr> \<and> (\<forall>n. (f, n) \<in> set discard_names \<longleftrightarrow> n = ''oauthids'')"
  "f \<in> {''Geo'', ''geo''} \<Longrightarrow> discard_field f a = a\<lparr>ag_Geo := []\<rparr> \<and> (\<forall>n. (f, n) \<in> set discard_names \<longleftrightarrow> n = ''geo'')"
  "f \<in> {''Tags'', ''tags''} \<Longrightarrow> discard_field f a = a\<lparr>ag_Tags := []\<rparr> \<and> (\<forall>n. (f, n) \<in> set discard_names \<longleftrightarrow> n = ''tags'')"
  "f \<in> {''Endpoints'', ''endpoints''} \<Longrightarrow> discard_field f a = a\<lparr>ag_Endpoints := []\<rparr> \<and> (\<forall>n. (f, n) \<in> set discard_names \<longleftrightarrow> n = ''endpoints'')"
  "f \<in> {''KeyEndpoint'', ''keyendpoints''} \<Longrightarrow> discard_field f a = a\<lparr>ag_KeyEndpoint := []\<rparr> \<and> (\<forall>n. (f, n) \<in> set discard_names \<longleftrightarrow> n = ''keyendpoints'')"
  "f \<in> {''OauthEndpoint'', ''oauthendpoints''} \<Longrightarrow> discard_field f a = a\<lparr>ag_OauthEndpoint := []\<rparr> \<and> (\<forall>n. (f, n) \<in> set discard_names \<longleftrightarrow> n = ''oauthendpoints'')"
  "f \<in> {''ApiEndpoint'', ''apiendpoints''} \<Longrightarrow> discard_field f a = a\<lparr>ag_ApiEndpoint := []\<rparr> \<and> (\<forall>n. (f, n) \<in> set discard_names \<longleftrightarrow> n = ''apiendpoints'')"
  by (elim insertE emptyE; simp add: discard_field_def discard_names_def)+

lemma discard_other: "f \<notin> fst ` set discard_names \<Longrightarrow> discard_field f a = a"
  by (simp add: discard_field_def discard_names_def)

lemma discard_field_dims:
  "Dimensions (discard_field f a) = filter (\<lambda>d. (f, d_Name d) \<notin> set discard_names) (Dimensions a)"
proof (cases "f \<in> fst ` set discard_names")
  case False
  then have "(f, n) \<notin> set discard_names" for n by force
  with False show ?thesis by (simp add: discard_other)
next
  case True
  then have "f \<in> {''APIID'', ''apiid''} \<or>
      f \<in> {''Errors'', ''errors''} \<or>
      f \<in> {''Versions'', ''versions''} \<or>
      f \<in> {''APIKeys'', ''apikeys''} \<or>
      f \<in> {''OauthIDs'', ''oauthids''} \<or>
      f \<in> {''Geo'', ''geo''} \<or>
      f \<in> {''Tags'', ''tags''} \<or>
      f \<in> {''Endpoints'', ''endpoints''} \<or>
      f \<in> {''KeyEndpoint'', ''keyendpoints''} \<or>
      f \<in> {''OauthEndpoint'', ''oauthendpoints''} \<or>
      f \<in> {''ApiEndpoint'', ''apiendpoints''}"
    unfolding discard_names_def by simp
  then show ?thesis
    by - (elim disjE; (drule discard_cases [of _ a], simp add: clear_dims))
qed

lemma discard_dims: "Dimensions (DiscardAggregations flds a) = filter (\<lambda>d. \<not> discarded flds (d_Name d)) (Dimensions a)"
  unfolding DiscardAggregations_def
  by (induction flds arbitrary: a) (auto simp: discarded_def discard_field_dims intro: filter_cong)

text \<open>
  \<open>DiscardAggregations\<close> removes exactly the dimensions the configuration names, by the
  field name or its lower-case form, and leaves every other dimension and the totals unchanged;
  names it does not know have no effect.
\<close>

theorem DiscardAggregations_dims:
  "Dimensions (DiscardAggregations flds a) = filter (\<lambda>d. \<not> discarded flds (d_Name d)) (Dimensions a) \<and>
   ag_Total (DiscardAggregations flds a) = ag_Total a"
proof -
  have tot: "ag_Total (discard_field f a) = ag_Total a" for f a
    by (simp add: discard_field_def)
  have "ag_Total (DiscardAggregations flds a) = ag_Total a"
    unfolding DiscardAggregations_def by (induction flds arbitrary: a) (simp_all add: tot)
  then show ?thesis by (simp add: discard_dims)
qed

section \<open>Upserts\<close>

text \<open>
  \<open>OnConflictAssignments\<close> builds one SQL expression per column over the stored row and the
  new row. The expressions are of five forms.
\<close>

datatype assign = AssignSum | AssignAvg string | AssignMax | AssignMin | AssignNew

definition counter_tags :: "string list" where
  "counter_tags = [''hits'', ''success'', ''error'', ''request_time'', ''total_request_time'', ''identifier'',
     ''human_identifier'', ''last_time'', ''open_connections'', ''closed_connections'', ''bytes_in'', ''bytes_out'',
     ''max_upstream_latency'', ''min_upstream_latency'', ''total_upstream_latency'', ''upstream_latency'',
     ''max_latency'', ''min_latency'', ''total_latency'', ''latency'', ''error_map'', ''error_list'']"

definition code_tags :: "string list" where
  "code_tags = map (\<lambda>(n, get, put). drop 4 n) code_fields"

definition counter_assign :: "string \<Rightarrow> assign option" where
  "counter_assign tag =
     (if tag \<in> {''hits'', ''error'', ''success'', ''open_connections'', ''closed_connections'', ''bytes_in'',
                ''bytes_out'', ''total_request_time'', ''total_latency'', ''total_upstream_latency''} then Some AssignSum
      else if tag = ''request_time'' then Some (AssignAvg ''counter_total_request_time'')
      else if tag = ''upstream_latency'' then Some (AssignAvg ''counter_total_upstream_latency'')
      else if tag = ''latency'' then Some (AssignAvg ''counter_total_latency'')
      else if tag \<in> {''max_upstream_latency'', ''max_latency''} then Some AssignMax
      else if tag \<in> {''min_latency'', ''min_upstream_latency''} then Some AssignMin
      else if tag = ''last_time'' then Some AssignNew
      else None)"

text \<open>The text of an expression, as the code concatenates it.\<close>

fun render :: "string \<Rightarrow> string \<Rightarrow> string \<Rightarrow> assign \<Rightarrow> string" where
  "render t tmp col AssignSum = t @ ''.'' @ col @ '' + '' @ tmp @ ''.'' @ col"
| "render t tmp col (AssignAvg tot) =
     ''('' @ t @ ''.'' @ tot @ ''  +'' @ tmp @ ''.'' @ tot @ '')/CAST( '' @ t @ ''.counter_hits + '' @ tmp
     @ ''.counter_hits AS REAL)''"
| "render t tmp col AssignMax =
     ''0.5 * (('' @ t @ ''.'' @ col @ '' + '' @ tmp @ ''.'' @ col @ '') + ABS('' @ t @ ''.'' @ col @ '' - ''
     @ tmp @ ''.'' @ col @ ''))''"
| "render t tmp col AssignMin =
     ''0.5 * (('' @ t @ ''.'' @ col @ '' + '' @ tmp @ ''.'' @ col @ '') - ABS('' @ t @ ''.'' @ col @ '' - ''
     @ tmp @ ''.'' @ col @ '')) ''"
| "render t tmp col AssignNew = tmp @ ''.'' @ col"

definition conflict_assigns :: "(string \<times> assign) list" where
  "conflict_assigns =
     map (\<lambda>tag. (''code_'' @ tag, AssignSum)) code_tags @
     List.map_filter (\<lambda>tag. map_option (Pair (''counter_'' @ tag)) (counter_assign tag)) counter_tags"

definition OnConflictAssignments :: "string \<Rightarrow> string \<Rightarrow> (string \<times> string) list" where
  "OnConflictAssignments tableName tempTable = map (\<lambda>(col, a). (col, render tableName tempTable col a)) conflict_assigns"

text \<open>What the database computes: a column of the stored row \<open>old\<close> and the new row \<open>new\<close>.\<close>

type_synonym sql_row = "string \<Rightarrow> rat"

fun eval_assign :: "string \<Rightarrow> assign \<Rightarrow> sql_row \<Rightarrow> sql_row \<Rightarrow> rat" where
  "eval_assign col AssignSum old new = old col + new col"
| "eval_assign col (AssignAvg tot) old new = (old tot + new tot) / (old ''counter_hits'' + new ''counter_hits'')"
| "eval_assign col AssignMax old new = 1 / 2 * ((old col + new col) + \<bar>old col - new col\<bar>)"
| "eval_assign col AssignMin old new = 1 / 2 * ((old col + new col) - \<bar>old col - new col\<bar>)"
| "eval_assign col AssignNew old new = new col"

definition upsert :: "sql_row \<Rightarrow> sql_row \<Rightarrow> sql_row" where
  "upsert old new = (\<lambda>col. case map_of conflict_assigns col of None \<Rightarrow> old col | Some a \<Rightarrow> eval_assign col a old new)"

lemma code_tags_eq:
  "code_tags = [''1x'', ''200'', ''201'', ''2x'', ''301'', ''302'', ''303'', ''304'', ''3x'', ''400'', ''401'', ''403'',
     ''404'', ''429'', ''4x'', ''500'', ''501'', ''502'', ''503'', ''504'', ''5x'']"
  by (simp add: code_tags_def code_fields_def)

lemma eval_assign_max: "eval_assign col AssignMax old new = max (old col) (new col)"
  by (simp add: max_def abs_if)

lemma eval_assign_min: "eval_assign col AssignMin old new = min (old col) (new col)"
  by (simp add: min_def abs_if)

declare eval_assign.simps(3,4) [simp del]

lemma upsert_cols:
  "upsert old new ''counter_hits'' = old ''counter_hits'' + new ''counter_hits''"
  "upsert old new ''counter_error'' = old ''counter_error'' + new ''counter_error''"
  "upsert old new ''counter_success'' = old ''counter_success'' + new ''counter_success''"
  "upsert old new ''counter_bytes_in'' = old ''counter_bytes_in'' + new ''counter_bytes_in''"
  "upsert old new ''counter_bytes_out'' = old ''counter_bytes_out'' + new ''counter_bytes_out''"
  "upsert old new ''counter_total_request_time'' = old ''counter_total_request_time'' + new ''counter_total_request_time''"
  "upsert old new ''counter_total_latency'' = old ''counter_total_latency'' + new ''counter_total_latency''"
  "upsert old new ''counter_total_upstream_latency'' = old ''counter_total_upstream_latency'' + new ''counter_total_upstream_latency''"
  "upsert old new ''counter_max_latency'' = max (old ''counter_max_latency'') (new ''counter_max_latency'')"
  "upsert old new ''counter_max_upstream_latency'' = max (old ''counter_max_upstream_latency'') (new ''counter_max_upstream_latency'')"
  "upsert old new ''counter_min_latency'' = min (old ''counter_min_latency'') (new ''counter_min_latency'')"
  "upsert old new ''counter_min_upstream_latency'' = min (old ''counter_min_upstream_latency'') (new ''counter_min_upstream_latency'')"
  "upsert old new ''counter_request_time'' =
     (old ''counter_total_request_time'' + new ''counter_total_request_time'') / (old ''counter_hits'' + new ''counter_hits'')"
  "upsert old new ''counter_latency'' =
     (old ''counter_total_latency'' + new ''counter_total_latency'') / (old ''counter_hits'' + new ''counter_hits'')"
  "upsert old new ''counter_upstream_latency'' =
     (old ''counter_total_upstream_latency'' + new ''counter_total_upstream_latency'') / (old ''counter_hits'' + new ''counter_hits'')"
  "upsert old new ''counter_last_time'' = new ''counter_last_time''"
  by (simp_all add: upsert_def conflict_assigns_def code_tags_eq counter_assign_def counter_tags_def
      List.map_filter_simps eval_assign_max eval_assign_min)

lemma upsert_code: "t \<in> set code_tags \<Longrightarrow> upsert old new (''code_'' @ t) = old (''code_'' @ t) + new (''code_'' @ t)"
proof -
  assume t: "t \<in> set code_tags"
  have "map_of (map (\<lambda>tag. (''code_'' @ tag, AssignSum)) tags) (''code_'' @ t) =
      (if t \<in> set tags then Some AssignSum else None)" for tags
    by (induction tags) auto
  moreover have "map_of (List.map_filter (\<lambda>tag. map_option (Pair (''counter_'' @ tag)) (counter_assign tag)) tags) (''code_'' @ t) = None" for tags
    by (induction tags) (auto simp: List.map_filter_simps split: option.splits)
  ultimately show ?thesis
    using t by (simp only: upsert_def conflict_assigns_def map_of_append map_add_def option.case if_True eval_assign.simps)
qed


end
