(* ===== verification/SQL_Common.thy ===== *)
theory SQL_Common
  imports Batching Aggregate_SQL
begin

text \<open>
  What the SQL pumps share, from \<open>src/pumps/sql.go\<close> and \<open>src/pumps/common.go\<close>: the
  configuration, the choice of the dialect, the migration of tables at start-up, and the handle of
  a pump. gorm and the database behind it are a record of functions over a database state; the
  handle remembers the table the last \<open>db.Table(...)\<close> selected. The lemmas: which tables the
  migration of shards touches, and that they are the tables the writes create.
\<close>

section \<open>Configuration and dialect\<close>

record postgres_config =
  pg_PreferSimpleProtocol :: bool

record mysql_config =
  my_DefaultStringSize :: nat
  my_DisableDatetimePrecision :: bool
  my_DontSupportRenameIndex :: bool
  my_DontSupportRenameColumn :: bool
  my_SkipInitializeWithVersion :: bool

record sql_conf =
  sc_EnvPrefix :: string
  sc_Type :: string
  sc_ConnectionString :: string
  sc_Postgres :: postgres_config
  sc_Mysql :: mysql_config
  sc_TableSharding :: bool
  sc_LogLevel :: string
  sc_BatchSize :: nat
  sc_MigrateShardedTables :: bool

definition SQLDefaultQueryBatchSize :: nat where "SQLDefaultQueryBatchSize = 1000"

definition default_batch_size :: "nat \<Rightarrow> nat" where
  "default_batch_size n = (if n = 0 then SQLDefaultQueryBatchSize else n)"

text \<open>
  \<open>(time_zone|TimeZone)=(.*?)($|&| )\<close>: the leftmost match, up to the first \<open>&\<close> or
  blank or the end; a dot does not match a new line.
\<close>

fun tz_value :: "string \<Rightarrow> string option" where
  "tz_value [] = Some []"
| "tz_value (c # cs) =
     (if c = CHR ''&'' \<or> c = CHR '' '' then Some []
      else if c = CHR 0x0A then None else map_option ((#) c) (tz_value cs))"

fun timeZoneMatcher :: "string \<Rightarrow> string option" where
  "timeZoneMatcher s =
     (let here = (if has_prefix s ''time_zone='' then tz_value (drop 10 s)
                  else if has_prefix s ''TimeZone='' then tz_value (drop 9 s) else None)
      in (case here of Some v \<Rightarrow> Some v | None \<Rightarrow> (case s of [] \<Rightarrow> None | c # cs \<Rightarrow> timeZoneMatcher cs)))"

declare timeZoneMatcher.simps [simp del]

text \<open>A parsed connection string: opaque settings, the mode for queries, the run-time parameters.\<close>

record pgx_config =
  px_Settings :: string
  px_SimpleProtocol :: bool
  px_RuntimeParams :: "(string, string) gomap"

datatype dialector = Postgres pgx_config | Mysql string mysql_config

definition Dialect :: "(string \<Rightarrow> pgx_config res) \<Rightarrow> sql_conf \<Rightarrow> dialector res" where
  "Dialect ParseConfig cfg =
     (if sc_Type cfg = ''postgres'' then
        rbind (ParseConfig (sc_ConnectionString cfg)) (\<lambda>p.
          (let p = (if pg_PreferSimpleProtocol (sc_Postgres cfg) then p\<lparr>px_SimpleProtocol := True\<rparr> else p);
               p = (case timeZoneMatcher (sc_ConnectionString cfg) of None \<Rightarrow> p
                    | Some z \<Rightarrow> p\<lparr>px_RuntimeParams := gomap_set (px_RuntimeParams p) ''timezone'' z\<rparr>)
           in Inr (Postgres p)))
      else if sc_Type cfg = ''mysql'' then Inr (Mysql (sc_ConnectionString cfg) (sc_Mysql cfg))
      else Inl (GoErr (''Unsupported `config_storage.type` value:'' @ sc_Type cfg)))"

datatype gorm_level = GormSilent | GormError | GormWarn | GormInfo

definition gorm_log_level :: "string \<Rightarrow> gorm_level" where
  "gorm_log_level l =
     (if l = ''debug'' then GormInfo else if l = ''info'' then GormWarn
      else if l = ''warning'' then GormError else GormSilent)"

definition OpenGormDB ::
  "(string \<Rightarrow> pgx_config res) \<Rightarrow> (dialector \<Rightarrow> gorm_level \<Rightarrow> ('s, unit) io) \<Rightarrow> sql_conf \<Rightarrow> ('s, unit) io" where
  "OpenGormDB ParseConfig gormOpen conf =
     io_bind (io_res (Dialect ParseConfig conf)) (\<lambda>d. gormOpen d (gorm_log_level (sc_LogLevel conf)))"

section \<open>The handle of a pump\<close>

text \<open>
  The calls of gorm the pumps make, each on the table it is given; \<open>'r\<close> are the rows. \<open>l_Raw\<close>
  is a query for table names.
\<close>

record ('db, 'r) sql_lib =
  l_Dialector :: string
  l_HasTable :: "string \<Rightarrow> 'db \<Rightarrow> bool"
  l_HasIndex :: "string \<Rightarrow> string \<Rightarrow> 'db \<Rightarrow> bool"
  l_HasColumn :: "string \<Rightarrow> string \<Rightarrow> 'db \<Rightarrow> bool"
  l_CreateTable :: "string \<Rightarrow> ('db, unit) io"
  l_AutoMigrate :: "string \<Rightarrow> ('db, unit) io"
  l_Exec :: "string \<Rightarrow> ('db, unit) io"
  l_Raw :: "string \<Rightarrow> ('db, string list) io"
  l_Create :: "string \<Rightarrow> 'r list \<Rightarrow> ('db, unit) io"
  l_Upsert :: "string \<Rightarrow> (string \<times> string) list \<Rightarrow> 'r list \<Rightarrow> ('db, unit) io"

record 'db sql_handle =
  h_db :: 'db
  h_table :: "string option"

definition on_db :: "('db, 'a) io \<Rightarrow> (('db, 'z) sql_handle_scheme, 'a) io" where
  "on_db m = io_on h_db (\<lambda>d. h_db_update (\<lambda>_. d)) m"

lemma on_db_run: "on_db m h = (case m (h_db h) of (r, d) \<Rightarrow> (r, h\<lparr>h_db := d\<rparr>))"
  by (simp add: on_db_def io_on_def)

text \<open>\<open>c.db = c.db.Table(t)\<close>, and the table of the handle: without one, that of the model.\<close>

definition use_table :: "string \<Rightarrow> (('db, 'z) sql_handle_scheme, unit) io" where
  "use_table t = io_upd (\<lambda>h. h\<lparr>h_table := Some t\<rparr>)"

definition handle_table :: "string \<Rightarrow> ('db, 'z) sql_handle_scheme \<Rightarrow> string" where
  "handle_table model h = (case h_table h of None \<Rightarrow> model | Some t \<Rightarrow> t)"

definition has_table :: "('db, 'r) sql_lib \<Rightarrow> string \<Rightarrow> (('db, 'z) sql_handle_scheme, bool) io" where
  "has_table lib t = io_get (\<lambda>h. l_HasTable lib t (h_db h))"

fun rmap :: "('a \<Rightarrow> 'b res) \<Rightarrow> 'a list \<Rightarrow> 'b list res" where
  "rmap f [] = Inr []"
| "rmap f (x # xs) = rbind (f x) (\<lambda>y. rbind (rmap f xs) (\<lambda>ys. Inr (y # ys)))"

lemma rmap_ok: "list_all (\<lambda>x. f x = Inr (g x)) xs \<Longrightarrow> rmap f xs = Inr (map g xs)"
  by (induction xs) simp_all

section \<open>Migration\<close>

definition HandleTableMigration ::
  "('db, 'r) sql_lib \<Rightarrow> gotime \<Rightarrow> sql_conf \<Rightarrow> string \<Rightarrow> (('db, 'z) sql_handle_scheme, unit) io \<Rightarrow>
     (('db, 'z) sql_handle_scheme, unit) io" where
  "HandleTableMigration lib now conf tableName migrateAll =
     (if \<not> sc_TableSharding conf then on_db (l_AutoMigrate lib tableName)
      else if sc_MigrateShardedTables conf then io_log migrateAll
      else io_log (on_db (l_AutoMigrate lib (tableName @ ''_'' @ fmt_date [] now))))"

text \<open>\<open>time.Parse("20060102", s)\<close> accepts eight digits that are a day of the calendar.\<close>

definition is_digit :: "char \<Rightarrow> bool" where
  "is_digit c \<longleftrightarrow> 48 \<le> (of_char c :: nat) \<and> (of_char c :: nat) \<le> 57"

definition days_in :: "bool \<Rightarrow> nat \<Rightarrow> int" where
  "days_in leap m =
     (if m = 2 then (if leap then 29 else 28) else month_table ! m - month_table ! (m - 1))"

definition valid_ymd :: "string \<Rightarrow> bool" where
  "valid_ymd s \<longleftrightarrow> length s = 8 \<and> list_all is_digit s \<and>
     (let y = int (dec_val (take 4 s)); m = dec_val (take 2 (drop 4 s)); d = int (dec_val (drop 6 s))
      in 1 \<le> m \<and> m \<le> 12 \<and> 1 \<le> d \<and> d \<le> days_in (is_leap y) m)"

definition sharded_tables :: "string \<Rightarrow> string list \<Rightarrow> string list" where
  "sharded_tables tablePrefix tables =
     filter (\<lambda>t. (let full = tablePrefix @ ''_''
                  in has_prefix t full \<and> (let suffix = drop (length full) t in length suffix = 8 \<and> valid_ymd suffix))) tables"

definition tables_query :: "string \<Rightarrow> string res" where
  "tables_query dialector =
     (let public = [CHR 0x27] @ ''public'' @ [CHR 0x27] in
      if dialector = ''sqlite'' then
        Inr (''SELECT table_name FROM '' @ [CHR 0x22] @ ''information_schema.tables'' @ [CHR 0x22] @ '' WHERE table_schema = '' @ public)
      else if dialector = ''mysql'' then
        Inr ''SELECT table_name FROM information_schema.tables WHERE table_schema = DATABASE()''
      else if dialector = ''postgres'' then
        Inr (''SELECT table_name FROM information_schema.tables WHERE table_schema = '' @ public)
      else Inl (GoErr (''unsupported database type: '' @ dialector)))"

definition MigrateAllShardedTables ::
  "('db, 'r) sql_lib \<Rightarrow> string \<Rightarrow> (('db, 'z) sql_handle_scheme, unit) io" where
  "MigrateAllShardedTables lib tablePrefix =
     io_bind (io_res (tables_query (l_Dialector lib))) (\<lambda>q.
     io_bind (io_try (on_db (l_Raw lib q))) (\<lambda>r.
       (case r of Inl e \<Rightarrow> io_ret ()
        | Inr tables \<Rightarrow> io_for (sharded_tables tablePrefix tables) (\<lambda>t. io_log (on_db (l_AutoMigrate lib t))))))"

section \<open>The date of a shard\<close>

lemma yday_365: "time_yday t = 365 \<Longrightarrow> is_leap (time_year t)"
proof -
  assume a: "time_yday t = 365"
  define d where "d = abs_days t"
  define n where "n = d div 146097"
  define r where "r = d mod 146097"
  define c where "c = min 3 (r div 36524)"
  define r1 where "r1 = r - 36524 * c"
  define q where "q = r1 div 1461"
  define r2 where "r2 = r1 mod 1461"
  define y where "y = min 3 (r2 div 365)"
  have d: "d = 146097 * n + r" and r: "0 \<le> r" "r < 146097" by (simp_all add: n_def r_def)
  have c: "0 \<le> c" "c \<le> 3" "0 \<le> r1" "r1 < 36525" "c < 3 \<longrightarrow> r1 < 36524"
    using r by (auto simp: c_def r1_def min_def)
  have r1: "r1 = 1461 * q + r2" and r2: "0 \<le> r2" "r2 < 1461" by (simp_all add: q_def r2_def)
  have q: "0 \<le> q" "q \<le> 24" using c(3,4) by (auto simp: q_def)
  have y: "0 \<le> y" "y \<le> 3" "0 \<le> r2 - 365 * y" "r2 - 365 * y \<le> 365"
    using r2 by (auto simp: y_def min_def)
  have yr: "time_year t = 400 * n + 100 * c + 4 * q + y + 1"
    by (simp add: time_year_def year_of_days_def Let_def d_def n_def r_def c_def r1_def q_def r2_def y_def)
  have "(400 * n + 100 * c + 4 * q + y) div 4 = 100 * n + 25 * c + q"
    by (rule int_div_pos_eq [where r = y]) (use y in auto)
  moreover have "(400 * n + 100 * c + 4 * q + y) div 100 = 4 * n + c"
    by (rule int_div_pos_eq [where r = "4 * q + y"]) (use y q in auto)
  moreover have "(400 * n + 100 * c + 4 * q + y) div 400 = n"
    by (rule int_div_pos_eq [where r = "100 * c + 4 * q + y"]) (use y q c in auto)
  ultimately have "days_before_year (time_year t) = 146097 * n + 36524 * c + 1461 * q + 365 * y"
    unfolding days_before_year_def yr by simp
  then have r2y: "r2 = 365 * y + 365" using a d r1 by (simp add: time_yday_def r1_def flip: d_def)
  then have y3: "y = 3" using r2 y by (auto simp: y_def min_def split: if_splits)
  show ?thesis
  proof (cases "q = 24")
    case True
    then have "c = 3" using c r1 r2y y3 by auto
    then show ?thesis using True y3 unfolding is_leap_def yr by presburger
  next
    case False
    have s: "time_year t = 4 * (q + 1) + 100 * (4 * n + c)" using y3 by (simp add: yr)
    have "time_year t mod 100 = 4 * (q + 1) mod 100" unfolding s by presburger
    also have "\<dots> = 4 * (q + 1)" using q False by simp
    finally have "time_year t mod 100 \<noteq> 0" using q by simp
    moreover have "time_year t mod 4 = 0" unfolding s by presburger
    ultimately show ?thesis by (simp add: is_leap_def)
  qed
qed

lemma month_days_table:
  "list_all (\<lambda>leap. list_all (\<lambda>yd. leap \<or> yd \<noteq> 365 \<longrightarrow>
      (let m = month_of_yday leap yd; d = yd - days_before_month leap m + 1 in 1 \<le> d \<and> d \<le> days_in leap m))
      [0..365]) [True, False]"
  by code_simp

lemma time_day_in_month: "1 \<le> time_day t \<and> time_day t \<le> days_in (is_leap (time_year t)) (time_month t)"
proof -
  have yd: "time_yday t \<in> set [0..365]" using yday_bounds by auto
  have "list_all (\<lambda>yd. is_leap (time_year t) \<or> yd \<noteq> 365 \<longrightarrow>
      (let m = month_of_yday (is_leap (time_year t)) yd; d = yd - days_before_month (is_leap (time_year t)) m + 1
       in 1 \<le> d \<and> d \<le> days_in (is_leap (time_year t)) m)) [0..365]"
    using month_days_table [unfolded list.pred_inject] by (cases "is_leap (time_year t)") (simp_all only: simp_thms)
  from this [unfolded list_all_iff, rule_format, OF yd] show ?thesis
    using yday_365 by (auto simp: time_day_def time_month_def Let_def)
qed

lemma days_in_bound: "1 \<le> m \<Longrightarrow> m \<le> 12 \<Longrightarrow> days_in leap m \<le> 31"
proof -
  assume "1 \<le> m" "m \<le> 12"
  then have "m \<in> set [1..<13]" by auto
  moreover have "list_all (\<lambda>leap. list_all (\<lambda>m. days_in leap m \<le> 31) [1..<13]) [True, False]" by code_simp
  ultimately show ?thesis by (cases leap) (simp_all add: list_all_iff)
qed

lemma dec_nat_length: "0 < w \<Longrightarrow> n < 10 ^ w \<Longrightarrow> length (dec_nat n) \<le> w"
proof (induction w arbitrary: n)
  case 0
  then show ?case by simp
next
  case (Suc w)
  show ?case
  proof (cases "n < 10")
    case True
    then show ?thesis by (simp add: dec_nat.simps [of n])
  next
    case False
    then have w: "0 < w" using Suc.prems(2) by (cases w) auto
    have "n div 10 < 10 ^ w" using Suc.prems(2) by (simp add: less_mult_imp_div_less)
    from Suc.IH [OF w this] False show ?thesis by (simp add: dec_nat.simps [of n])
  qed
qed

lemma foldl_zeros: "foldl (\<lambda>a c. a * 10 + digit_val c) 0 (replicate k (CHR ''0'')) = 0"
  by (induction k) (simp_all add: digit_val_def)

lemma pad_zeros_facts:
  assumes "0 < w" and "n < 10 ^ w"
  shows "length (pad_zeros w n) = w" and "list_all is_digit (pad_zeros w n)" and "dec_val (pad_zeros w n) = n"
proof -
  show "length (pad_zeros w n) = w" using dec_nat_length [OF assms] by (simp add: pad_zeros_def)
  show "list_all is_digit (pad_zeros w n)"
    using dec_nat_digits by (auto simp: pad_zeros_def list_all_iff is_digit_def)
  show "dec_val (pad_zeros w n) = n"
    using dec_val_dec_nat [of n] by (simp add: pad_zeros_def dec_val_def foldl_zeros)
qed

lemma fmt_date_valid:
  assumes "0 \<le> time_year t" and "time_year t \<le> 9999"
  shows "valid_ymd (fmt_date [] t)"
proof -
  let ?y = "nat (time_year t)" and ?m = "time_month t" and ?d = "nat (time_day t)"
  have m: "1 \<le> ?m" "?m \<le> 12" using time_month_bounds by blast+
  have d: "1 \<le> time_day t" "time_day t \<le> days_in (is_leap (time_year t)) ?m" using time_day_in_month by blast+
  from d(2) days_in_bound [OF m, of "is_leap (time_year t)"] have d31: "?d < 10 ^ 2" by simp
  note y = pad_zeros_facts [of 4 ?y] and mm = pad_zeros_facts [of 2 ?m] and dd = pad_zeros_facts [OF _ d31]
  have f: "fmt_date [] t = pad_zeros 4 ?y @ pad_zeros 2 ?m @ pad_zeros 2 ?d" by (simp add: fmt_date_def)
  show ?thesis using m d assms y mm dd by (simp add: f valid_ymd_def Let_def)
qed

text \<open>
  Migration finds every shard the pumps write: the table of a record, \<open>prefix_YYYYMMDD\<close> with
  the day of its time stamp, passes the filter on table names (in the years 0 to 9999), and every
  name that passes is the prefix, an underscore and a day of the calendar.
\<close>

theorem sharded_tables_complete:
  "0 \<le> time_year t \<and> time_year t \<le> 9999 \<and> tablePrefix @ ''_'' @ fmt_date [] t \<in> set tables \<Longrightarrow>
     tablePrefix @ ''_'' @ fmt_date [] t \<in> set (sharded_tables tablePrefix tables) \<and>
     list_all (\<lambda>n. \<exists>day. n = tablePrefix @ ''_'' @ day \<and> valid_ymd day) (sharded_tables tablePrefix tables)"
proof -
  assume a: "0 \<le> time_year t \<and> time_year t \<le> 9999 \<and> tablePrefix @ ''_'' @ fmt_date [] t \<in> set tables"
  then have v: "valid_ymd (fmt_date [] t)" using fmt_date_valid by blast
  then have "length (fmt_date [] t) = 8" by (simp add: valid_ymd_def)
  with a v have "tablePrefix @ ''_'' @ fmt_date [] t \<in> set (sharded_tables tablePrefix tables)"
    by (simp add: sharded_tables_def Let_def has_prefix_def)
  moreover have "list_all (\<lambda>n. \<exists>day. n = tablePrefix @ ''_'' @ day \<and> valid_ymd day) (sharded_tables tablePrefix tables)"
    unfolding list_all_iff
  proof
    fix n
    assume "n \<in> set (sharded_tables tablePrefix tables)"
    then have p: "has_prefix n (tablePrefix @ ''_'')" and v: "valid_ymd (drop (length (tablePrefix @ ''_'')) n)"
      by (simp_all add: sharded_tables_def Let_def)
    from p obtain day where "n = (tablePrefix @ ''_'') @ day" by (rule has_prefixE)
    with v show "\<exists>day. n = tablePrefix @ ''_'' @ day \<and> valid_ymd day" by simp
  qed
  ultimately show ?thesis by blast
qed

theorem sharded_tables_complete_witness:
  "''tyk_analytics_19700101'' \<in> set (sharded_tables ''tyk_analytics''
     [''tyk_analytics_backup01'', ''tyk_analytics_19700101'', ''tyk_uptime_analytics_19700101''])"
proof -
  let ?t = "\<lparr>t_sec = 0, t_nsec = 0, t_zone = ''UTC'', t_off = 0\<rparr>"
  have f: "fmt_date [] ?t = ''19700101''" by code_simp
  have y: "0 \<le> time_year ?t \<and> time_year ?t \<le> 9999" by code_simp
  show ?thesis
    using sharded_tables_complete [of ?t "''tyk_analytics''"
        "[''tyk_analytics_backup01'', ''tyk_analytics_19700101'', ''tyk_uptime_analytics_19700101'']"] y
    by (simp add: f)
qed

end
