(* ===== verification/Uptime.thy ===== *)
theory Uptime
  imports Aggregate_SQL
begin

text \<open>
  The uptime reports of the host checker, \<open>src/analytics/uptime_data.go\<close>: their aggregation by
  organisation (an instance of \<open>group_loop\<close>), the dimensions of an aggregate and the
  assignments of the upsert. The lemmas: the totals and the units by URL count the reports, when
  the aggregation panics, and what the upsert merges.
\<close>

section \<open>Data\<close>

definition UptimeSQLTable :: string where "UptimeSQLTable = ''tyk_uptime_analytics''"

record uptime_data =
  u_ID :: string
  u_URL :: string
  u_RequestTime :: i64
  u_ResponseCode :: i64
  u_TCPError :: bool
  u_ServerError :: bool
  u_Day :: i64
  u_Month :: i64
  u_Year :: i64
  u_Hour :: i64
  u_Minute :: i64
  u_TimeStamp :: gotime
  u_ExpireAt :: gotime
  u_APIID :: string
  u_OrgID :: string

record uptime_aggregate_sql =
  us_ID :: string
  us_Counter :: counter
  us_TimeStamp :: i64
  us_OrgID :: string
  us_Dimension :: string
  us_DimensionValue :: string
  us_Code :: code

record uptime_aggregate =
  ua_TimeStamp :: gotime
  ua_OrgID :: string
  ua_TimeID :: time_id
  ua_URL :: units
  ua_Errors :: units
  ua_Total :: counter
  ua_ExpireAt :: gotime
  ua_LastTime :: gotime

definition uptime_New :: uptime_aggregate where
  "uptime_New = \<lparr>ua_TimeStamp = time_zero, ua_OrgID = [], ua_TimeID = ag_TimeID aggregate_New, ua_URL = [],
     ua_Errors = [], ua_Total = counter_zero, ua_ExpireAt = time_zero, ua_LastTime = time_zero\<rparr>"

definition uptime_Dimensions :: "uptime_aggregate \<Rightarrow> dimension list" where
  "uptime_Dimensions u = dims_of ''url'' (ua_URL u) @ dims_of ''errors'' (ua_Errors u) @
     [\<lparr>d_Name = [], d_Value = ''total'', d_Counter = ua_Total u\<rparr>]"

section \<open>Aggregation\<close>

definition seed_uptime :: "uptime_data \<Rightarrow> uptime_aggregate" where
  "seed_uptime v =
     (let asTime = u_TimeStamp v
      in uptime_New\<lparr>ua_TimeStamp := trunc_hour asTime, ua_ExpireAt := u_ExpireAt v,
           ua_TimeID := \<lparr>ti_Year = time_year asTime, ti_Month = int (time_month asTime), ti_Day = time_day asTime,
             ti_Hour = time_hour asTime\<rparr>,
           ua_OrgID := u_OrgID v, ua_LastTime := u_TimeStamp v,
           ua_Total := counter_zero\<lparr>c_ErrorMap := Some []\<rparr>\<rparr>)"

definition uptime_error :: "uptime_data \<Rightarrow> bool" where
  "uptime_error v \<longleftrightarrow> 400 \<le> sint (u_ResponseCode v)"

definition uptime_success :: "uptime_data \<Rightarrow> bool" where
  "uptime_success v \<longleftrightarrow> sint (u_ResponseCode v) < 300 \<and> 200 \<le> sint (u_ResponseCode v)"

text \<open>The error map doubles as a map of response codes: successes are counted in it as well.\<close>

definition uptime_counter :: "uptime_data \<Rightarrow> counter" where
  "uptime_counter v =
     counter_zero\<lparr>c_Hits := 1, c_Success := (if uptime_success v then 1 else 0),
       c_ErrorTotal := (if uptime_error v then 1 else 0),
       c_RequestTime := f_of_int (u_RequestTime v), c_TotalRequestTime := f_of_int (u_RequestTime v),
       c_LastTime := u_TimeStamp v,
       c_ErrorMap := Some (if uptime_error v \<or> uptime_success v then gomap_add [] (itoa (u_ResponseCode v)) 1 else [])\<rparr>"

definition uptime_total :: "uptime_data \<Rightarrow> counter \<Rightarrow> counter res" where
  "uptime_total v t =
     (let hits = c_Hits t + 1;
          trt = f_add (c_TotalRequestTime t) (f_of_int (u_RequestTime v))
      in rbind (if uptime_error v \<or> uptime_success v then nilmap_add (c_ErrorMap t) (itoa (u_ResponseCode v)) 1
                else Inr (c_ErrorMap t)) (\<lambda>em.
         Inr (t\<lparr>c_Hits := hits, c_TotalRequestTime := trt, c_RequestTime := f_div trt (f_of_int hits),
                c_ErrorTotal := (if uptime_error v then c_ErrorTotal t + 1 else c_ErrorTotal t),
                c_Success := (if uptime_success v then c_Success t + 1 else c_Success t),
                c_ErrorMap := em\<rparr>)))"

definition uptime_incrementOrSetUnit :: "counter \<Rightarrow> counter option \<Rightarrow> counter res" where
  "uptime_incrementOrSetUnit base c0 = (case c0 of
      None \<Rightarrow> Inr (base\<lparr>c_ErrorMap := Some (copy_map (errors_of base))\<rparr>)
    | Some c \<Rightarrow>
        rbind (merge_errors (c_ErrorMap c) (errors_of base)) (\<lambda>em.
          (let hits = c_Hits c + c_Hits base; trt = f_add (c_TotalRequestTime c) (c_TotalRequestTime base)
           in Inr (c\<lparr>c_Hits := hits, c_Success := c_Success c + c_Success base,
                c_ErrorTotal := c_ErrorTotal c + c_ErrorTotal base, c_ErrorMap := em,
                c_TotalRequestTime := trt, c_RequestTime := f_div trt (f_of_int hits)\<rparr>))))"

definition uptime_unit_at :: "counter \<Rightarrow> units \<Rightarrow> string \<Rightarrow> (counter \<times> units) res" where
  "uptime_unit_at base m k =
     rbind (uptime_incrementOrSetUnit base (gomap_get m k)) (\<lambda>c.
       Inr (c, case gomap_get m k of None \<Rightarrow> m | Some _ \<Rightarrow> gomap_set m k c))"

definition uptime_case_URL :: "uptime_data \<Rightarrow> counter \<Rightarrow> units \<Rightarrow> units res" where
  "uptime_case_URL v tc m =
     rbind (uptime_unit_at tc m (u_URL v)) (\<lambda>(c, m).
       Inr (if u_URL v \<noteq> [] then gomap_set m (u_URL v) (c\<lparr>c_Identifier := u_URL v\<rparr>) else m))"

definition uptime_case_ResponseCode :: "uptime_data \<Rightarrow> counter \<Rightarrow> units \<Rightarrow> units res" where
  "uptime_case_ResponseCode v tc m =
     (let errAsStr = itoa (u_ResponseCode v)
      in if errAsStr \<noteq> [] then
           rbind (uptime_unit_at tc m errAsStr) (\<lambda>(c, m).
             Inr (if i64_lt 0 (c_ErrorTotal c) then gomap_set m errAsStr (c\<lparr>c_Identifier := errAsStr\<rparr>) else m))
         else Inr m)"

definition uptime_step :: "uptime_aggregate \<Rightarrow> uptime_data \<Rightarrow> uptime_aggregate res" where
  "uptime_step a v =
     (let a = a\<lparr>ua_LastTime := u_TimeStamp v\<rparr>
      in if u_ResponseCode v = -1 then
           Inr (if u_URL v \<noteq> [] \<and> gomap_get (ua_URL a) (u_URL v) = None
                then a\<lparr>ua_URL := gomap_set (ua_URL a) (u_URL v) (counter_zero\<lparr>c_Identifier := u_URL v\<rparr>)\<rparr>
                else a)
         else
           rbind (uptime_total v (ua_Total a)) (\<lambda>t.
           rbind (uptime_case_URL v (uptime_counter v) (ua_URL a)) (\<lambda>url.
           rbind (uptime_case_ResponseCode v (uptime_counter v) (ua_Errors a)) (\<lambda>errs.
             Inr (a\<lparr>ua_Total := t, ua_URL := url, ua_Errors := errs\<rparr>)))))"

fun uptime_loop :: "(string, uptime_aggregate) gomap \<Rightarrow> uptime_data list \<Rightarrow> (string, uptime_aggregate) gomap res" where
  "uptime_loop m [] = Inr m"
| "uptime_loop m (v # vs) =
     (if u_OrgID v = [] then uptime_loop m vs
      else
        (let a = (case gomap_get m (u_OrgID v) of Some a \<Rightarrow> a | None \<Rightarrow> seed_uptime v)
         in rbind (uptime_step a v) (\<lambda>a. uptime_loop (gomap_set m (u_OrgID v) a) vs)))"

definition AggregateUptimeData :: "uptime_data list \<Rightarrow> (string, uptime_aggregate) gomap res" where
  "AggregateUptimeData data = uptime_loop [] data"

section \<open>Upserts\<close>

text \<open>
  The average of the request times is assigned only if \<open>!field.IsZero()\<close>, a test on the field
  of an empty row, which is zero.
\<close>

definition uptime_counter_assign :: "string \<Rightarrow> assign option" where
  "uptime_counter_assign tag =
     (if tag \<in> {''hits'', ''error'', ''success'', ''total_request_time''} then Some AssignSum
      else if tag = ''request_time'' then
        (if c_RequestTime counter_zero \<noteq> f_zero then Some (AssignAvg ''counter_total_request_time'') else None)
      else if tag = ''last_time'' then Some AssignNew
      else None)"

definition uptime_conflict_assigns :: "(string \<times> assign) list" where
  "uptime_conflict_assigns =
     map (\<lambda>tag. (''code_'' @ tag, AssignSum)) code_tags @
     List.map_filter (\<lambda>tag. map_option (Pair (''counter_'' @ tag)) (uptime_counter_assign tag)) counter_tags"

definition OnConflictUptimeAssignments :: "string \<Rightarrow> string \<Rightarrow> (string \<times> string) list" where
  "OnConflictUptimeAssignments tableName tempTable =
     map (\<lambda>(col, a). (col, render tableName tempTable col a)) uptime_conflict_assigns"

definition uptime_upsert :: "sql_row \<Rightarrow> sql_row \<Rightarrow> sql_row" where
  "uptime_upsert old new =
     (\<lambda>col. case map_of uptime_conflict_assigns col of None \<Rightarrow> old col | Some a \<Rightarrow> eval_assign col a old new)"

section \<open>The loop as an instance of \<open>group_loop\<close>\<close>

definition uptime_key :: "uptime_data \<Rightarrow> string option" where
  "uptime_key v = (if u_OrgID v = [] then None else Some (u_OrgID v))"

interpretation upt: group_loop uptime_key "\<lambda>g v. (seed_uptime v, g)" uptime_step
  "\<lambda>g m vs. rbind (uptime_loop m vs) (\<lambda>m. Inr (m, g :: unit))"
  by unfold_locales (auto simp: uptime_key_def rbind_def split: if_splits sum.splits)

definition uptime_records :: "string \<Rightarrow> uptime_data list \<Rightarrow> uptime_data list" where
  "uptime_records org data = filter (\<lambda>v. u_OrgID v = org) data"

lemma uptime_members: "org \<noteq> [] \<Longrightarrow> upt.members org data = uptime_records org data"
  by (simp add: upt.members_def uptime_records_def uptime_key_def cong: filter_cong) (metis option.inject)

lemma AggregateUptimeData_get:
  assumes "AggregateUptimeData data = Inr m" and "org \<noteq> []" and "gomap_get m org = Some a"
  obtains v where "rfold uptime_step (seed_uptime v) (uptime_records org data) = Inr a" "u_OrgID v = org"
proof -
  from assms(1) have "rbind (uptime_loop [] data) (\<lambda>m. Inr (m, ())) = Inr (m, ())"
    by (simp add: AggregateUptimeData_def)
  note g = upt.run_get_new [OF this, of org]
  show ?thesis
  proof (cases "uptime_records org data")
    case Nil
    with g assms(2,3) show ?thesis by (simp add: uptime_members)
  next
    case (Cons v vs)
    then have "v \<in> set (uptime_records org data)" by simp
    then have "u_OrgID v = org" by (simp add: uptime_records_def)
    with g assms(2,3) Cons that show ?thesis by (auto simp: uptime_members simp del: rfold.simps)
  qed
qed

section \<open>What the aggregation counts\<close>

definition uptime_counted :: "uptime_data \<Rightarrow> bool" where
  "uptime_counted v \<longleftrightarrow> u_ResponseCode v \<noteq> -1"

definition uptime_sel :: "(counter \<Rightarrow> i64) \<Rightarrow> bool" where
  "uptime_sel sel \<longleftrightarrow> sel \<in> {c_Hits, c_Success, c_ErrorTotal}"

lemma uptime_sel_intros [simp, intro]: "uptime_sel c_Hits" "uptime_sel c_Success" "uptime_sel c_ErrorTotal"
  by (simp_all add: uptime_sel_def)

definition uptime_gain :: "(counter \<Rightarrow> i64) \<Rightarrow> uptime_data \<Rightarrow> i64" where
  "uptime_gain sel v = (if uptime_counted v then sel (uptime_counter v) else 0)"

lemma uptime_frame:
  assumes "uptime_sel sel"
  shows "sel (c\<lparr>c_Identifier := i\<rparr>) = sel c" "sel counter_zero = 0" "sel (c\<lparr>c_ErrorMap := m\<rparr>) = sel c"
  using assms by (auto simp: uptime_sel_def counter_zero_def)

lemma uptime_inc_sel:
  assumes "uptime_sel sel" and "uptime_incrementOrSetUnit b c0 = Inr c"
  shows "sel c = (case c0 of None \<Rightarrow> 0 | Some c' \<Rightarrow> sel c') + sel b"
  using assms by (cases c0) (auto simp: uptime_sel_def uptime_incrementOrSetUnit_def Let_def rbind_eq_Inr)

lemma uptime_case_URL_val:
  assumes "uptime_sel sel" and "uptime_case_URL v tc m = Inr m'" and "k \<noteq> []"
  shows "unit_val sel m' k = unit_val sel m k + (if u_URL v = k then sel tc else 0)"
proof -
  obtain c where c: "uptime_incrementOrSetUnit tc (gomap_get m (u_URL v)) = Inr c"
    and m': "m' = (let m1 = (case gomap_get m (u_URL v) of None \<Rightarrow> m | Some _ \<Rightarrow> gomap_set m (u_URL v) c)
      in if u_URL v \<noteq> [] then gomap_set m1 (u_URL v) (c\<lparr>c_Identifier := u_URL v\<rparr>) else m1)"
    using assms(2) by (auto simp: uptime_case_URL_def uptime_unit_at_def rbind_eq_Inr)
  show ?thesis
    using uptime_inc_sel [OF assms(1) c] m' assms(3)
    by (auto simp: unit_val_def update_conv' uptime_frame [OF assms(1)] Let_def split: option.splits)
qed

lemma uptime_total_val:
  assumes "uptime_sel sel" and "uptime_total v t = Inr t'"
  shows "sel t' = sel t + sel (uptime_counter v)"
  using assms by (auto simp: uptime_sel_def uptime_total_def uptime_counter_def rbind_eq_Inr Let_def)

lemma uptime_step_spec:
  assumes "uptime_step a v = Inr a'"
  shows "ua_OrgID a' = ua_OrgID a" "ua_TimeStamp a' = ua_TimeStamp a"
    and "uptime_sel sel \<Longrightarrow> sel (ua_Total a') = sel (ua_Total a) + uptime_gain sel v"
    and "uptime_sel sel \<Longrightarrow> k \<noteq> [] \<Longrightarrow>
      unit_val sel (ua_URL a') k = unit_val sel (ua_URL a) k + (if u_URL v = k then uptime_gain sel v else 0)"
proof -
  show "ua_OrgID a' = ua_OrgID a" "ua_TimeStamp a' = ua_TimeStamp a"
    using assms by (auto simp: uptime_step_def rbind_eq_Inr Let_def split: if_splits)
  show "sel (ua_Total a') = sel (ua_Total a) + uptime_gain sel v" if "uptime_sel sel"
    using assms uptime_total_val [OF that, of v]
    by (auto simp: uptime_step_def rbind_eq_Inr Let_def uptime_gain_def uptime_counted_def split: if_splits)
  show "unit_val sel (ua_URL a') k = unit_val sel (ua_URL a) k + (if u_URL v = k then uptime_gain sel v else 0)"
    if "uptime_sel sel" "k \<noteq> []"
  proof (cases "u_ResponseCode v = -1")
    case True
    with assms show ?thesis
      by (auto simp: uptime_step_def Let_def uptime_gain_def uptime_counted_def unit_val_def
          update_conv' uptime_frame [OF that(1)] split: if_splits option.splits)
  next
    case False
    with assms uptime_case_URL_val [OF that(1) _ that(2), of v] show ?thesis
      by (auto simp: uptime_step_def rbind_eq_Inr Let_def uptime_gain_def uptime_counted_def)
  qed
qed

lemma uptime_gain_simps:
  "uptime_gain c_Hits v = of_bool (uptime_counted v)"
  "uptime_gain c_Success v = of_bool (uptime_success v)"
  "uptime_gain c_ErrorTotal v = of_bool (uptime_error v)"
  by (auto simp: uptime_gain_def uptime_counter_def uptime_counted_def uptime_success_def uptime_error_def)

lemma seed_uptime_simps [simp]:
  "ua_OrgID (seed_uptime v) = u_OrgID v" "ua_URL (seed_uptime v) = []" "ua_Errors (seed_uptime v) = []"
  "ua_Total (seed_uptime v) = counter_zero\<lparr>c_ErrorMap := Some []\<rparr>"
  by (simp_all add: seed_uptime_def uptime_New_def Let_def)

lemma uptime_fold:
  fixes F :: "uptime_aggregate \<Rightarrow> i64"
  assumes "rfold uptime_step (seed_uptime v0) vs = Inr a"
    and "\<And>a v a'. uptime_step a v = Inr a' \<Longrightarrow> F a' = F a + d v" and "F (seed_uptime v0) = 0"
  shows "F a = sum_list (map d vs)"
  using rfold_sum [OF assms(1), of F d] assms(2,3) by simp

lemma sum_of_bool_if: "(\<Sum>v\<leftarrow>vs. if P v then of_bool (Q v) else 0) = (of_nat (length (filter (\<lambda>v. P v \<and> Q v) vs)) :: i64)"
  by (induction vs) auto

text \<open>
  C20. The uptime aggregate of an organisation belongs to it, and its totals and the unit of each
  URL count the reports of the organisation, and of that URL: hits are the reports with a
  response, successes those with a code from 200 to 299, errors those from 400 on.
\<close>

theorem AggregateUptimeData_counts:
  assumes "AggregateUptimeData data = Inr m" and "org \<noteq> []" and "gomap_get m org = Some a" and "url \<noteq> []"
  shows "ua_OrgID a = org \<and>
    c_Hits (ua_Total a) = of_nat (length (filter uptime_counted (uptime_records org data))) \<and>
    c_Success (ua_Total a) = of_nat (length (filter uptime_success (uptime_records org data))) \<and>
    c_ErrorTotal (ua_Total a) = of_nat (length (filter uptime_error (uptime_records org data))) \<and>
    unit_val c_Hits (ua_URL a) url =
      of_nat (length (filter (\<lambda>v. u_URL v = url \<and> uptime_counted v) (uptime_records org data))) \<and>
    unit_val c_ErrorTotal (ua_URL a) url =
      of_nat (length (filter (\<lambda>v. u_URL v = url \<and> uptime_error v) (uptime_records org data)))"
proof -
  obtain v0 where f: "rfold uptime_step (seed_uptime v0) (uptime_records org data) = Inr a" and v0: "u_OrgID v0 = org"
    by (rule AggregateUptimeData_get [OF assms(1-3)])
  have "ua_OrgID a = org"
    using f by (rule rfold_invariant [where P = "\<lambda>a. ua_OrgID a = org"]) (simp_all add: v0 uptime_step_spec)
  moreover have tot: "sel (ua_Total a) = sum_list (map (uptime_gain sel) (uptime_records org data))" if "uptime_sel sel" for sel
    by (rule uptime_fold [OF f, where F = "\<lambda>a. sel (ua_Total a)"])
      (use that uptime_step_spec(3) in \<open>auto simp: uptime_frame\<close>)
  moreover have unit: "unit_val sel (ua_URL a) url =
      (\<Sum>v\<leftarrow>uptime_records org data. if u_URL v = url then uptime_gain sel v else 0)" if "uptime_sel sel" for sel
    by (rule uptime_fold [OF f, where F = "\<lambda>a. unit_val sel (ua_URL a) url"])
      (use that uptime_step_spec(4) assms(4) in auto)
  ultimately show ?thesis
    using tot [of c_Hits] tot [of c_Success] tot [of c_ErrorTotal] unit [of c_Hits] unit [of c_ErrorTotal]
    by (simp add: uptime_gain_simps sum_of_bool sum_of_bool_if cong: map_cong if_cong)
qed

text \<open>When the aggregation returns.\<close>

definition uptime_ok :: "uptime_aggregate \<Rightarrow> bool" where
  "uptime_ok a \<longleftrightarrow> c_ErrorMap (ua_Total a) \<noteq> None \<and> units_ok (ua_URL a) \<and> units_ok (ua_Errors a)"

lemma uptime_unit_at_ok:
  assumes "units_ok m"
  shows "\<exists>c m'. uptime_unit_at b m k = Inr (c, m') \<and> c_ErrorMap c \<noteq> None \<and> units_ok m'"
proof (cases "gomap_get m k")
  case None
  with assms show ?thesis by (auto simp: uptime_unit_at_def uptime_incrementOrSetUnit_def)
next
  case (Some c)
  with units_ok_get [OF assms] obtain em where "c_ErrorMap c = Some em" by blast
  with Some assms show ?thesis
    by (auto simp: uptime_unit_at_def uptime_incrementOrSetUnit_def merge_errors_Some Let_def units_ok_set)
qed

lemma uptime_cases_ok:
  assumes "units_ok m"
  shows "\<exists>m'. uptime_case_URL v tc m = Inr m' \<and> units_ok m'" "\<exists>m'. uptime_case_ResponseCode v tc m = Inr m' \<and> units_ok m'"
proof -
  obtain c m1 where "uptime_unit_at tc m (u_URL v) = Inr (c, m1)" "c_ErrorMap c \<noteq> None" "units_ok m1"
    using uptime_unit_at_ok [OF assms] by blast
  then show "\<exists>m'. uptime_case_URL v tc m = Inr m' \<and> units_ok m'" by (simp add: uptime_case_URL_def units_ok_set)
  obtain c m1 where "uptime_unit_at tc m (itoa (u_ResponseCode v)) = Inr (c, m1)" "c_ErrorMap c \<noteq> None" "units_ok m1"
    using uptime_unit_at_ok [OF assms] by blast
  then show "\<exists>m'. uptime_case_ResponseCode v tc m = Inr m' \<and> units_ok m'"
    by (simp add: uptime_case_ResponseCode_def units_ok_set Let_def)
qed

lemma uptime_step_ok:
  assumes "uptime_ok a" and "uptime_counted v \<or> u_URL v = []"
  shows "\<exists>a'. uptime_step a v = Inr a' \<and> uptime_ok a'"
proof (cases "u_ResponseCode v = -1")
  case True
  with assms show ?thesis by (simp add: uptime_step_def uptime_ok_def uptime_counted_def)
next
  case False
  from assms(1) obtain em where "c_ErrorMap (ua_Total a) = Some em" by (auto simp: uptime_ok_def)
  then obtain t where "uptime_total v (ua_Total a) = Inr t" "c_ErrorMap t \<noteq> None"
    by (cases "uptime_error v \<or> uptime_success v") (auto simp: uptime_total_def nilmap_add_def Let_def)
  moreover obtain url where "uptime_case_URL v (uptime_counter v) (ua_URL a) = Inr url" "units_ok url"
    using uptime_cases_ok(1) assms(1) unfolding uptime_ok_def by blast
  moreover obtain errs where "uptime_case_ResponseCode v (uptime_counter v) (ua_Errors a) = Inr errs" "units_ok errs"
    using uptime_cases_ok(2) assms(1) unfolding uptime_ok_def by blast
  ultimately show ?thesis using False by (simp add: uptime_step_def uptime_ok_def Let_def)
qed

lemma AggregateUptimeData_defined:
  assumes "list_all (\<lambda>v. u_OrgID v = [] \<or> uptime_counted v \<or> u_URL v = []) data"
  shows "\<exists>m. AggregateUptimeData data = Inr m \<and> (\<forall>a. a \<in> snd ` set m \<longrightarrow> uptime_ok a)"
proof -
  have "\<exists>m g. rbind (uptime_loop [] data) (\<lambda>m. Inr (m, ())) = Inr (m, g) \<and> (\<forall>a. a \<in> snd ` set m \<longrightarrow> uptime_ok a)"
  proof (rule upt.run_total [where P = uptime_ok])
    fix g v k
    show "uptime_ok (fst (seed_uptime v, g))" by (simp add: uptime_ok_def)
  next
    fix a v k
    assume "v \<in> set data" "uptime_key v = Some k" "uptime_ok a"
    with assms uptime_step_ok [of a v] show "\<exists>a'. uptime_step a v = Inr a' \<and> uptime_ok a'"
      by (auto simp: list_all_iff uptime_key_def split: if_splits)
  qed simp
  then show ?thesis by (auto simp: AggregateUptimeData_def rbind_eq_Inr)
qed

text \<open>
  A report without a response (code -1) creates the unit of its URL with a nil error map; a
  later report on the same URL in the batch, an error or a success, makes the aggregation panic.
\<close>

theorem AggregateUptimeData_nil_map_panic:
  assumes "u_OrgID v = org" "u_OrgID w = org" "org \<noteq> []" and "u_URL v = url" "u_URL w = url" "url \<noteq> []"
    and "u_ResponseCode v = -1" and "uptime_error w \<or> uptime_success w"
  shows "AggregateUptimeData [v, w] = Inl (GoPanic ''assignment to entry in nil map'')"
proof -
  let ?c = "counter_zero\<lparr>c_Identifier := url\<rparr>"
  let ?a = "(seed_uptime v)\<lparr>ua_URL := [(url, ?c)], ua_LastTime := u_TimeStamp v\<rparr>"
  have 1: "uptime_step (seed_uptime v) v = Inr ?a"
    using assms by (simp add: uptime_step_def)
  have w: "u_ResponseCode w \<noteq> -1" using assms(8) by (auto simp: uptime_error_def uptime_success_def)
  have em: "errors_of (uptime_counter w) = [(itoa (u_ResponseCode w), 1)]"
    using assms(8) by (auto simp: errors_of_def uptime_counter_def gomap_add_def)
  have "uptime_case_URL w (uptime_counter w) [(url, ?c)] = Inl (GoPanic ''assignment to entry in nil map'')"
    using assms(5,6) by (simp add: uptime_case_URL_def uptime_unit_at_def uptime_incrementOrSetUnit_def
        merge_errors_def em nilmap_add_def counter_zero_def)
  moreover have "\<exists>t. uptime_total w (counter_zero\<lparr>c_ErrorMap := Some []\<rparr>) = Inr t"
    by (simp add: uptime_total_def nilmap_add_def Let_def)
  ultimately have "uptime_step ?a w = Inl (GoPanic ''assignment to entry in nil map'')"
    using w by (auto simp: uptime_step_def)
  with 1 assms show ?thesis by (simp add: AggregateUptimeData_def)
qed

text \<open>
  The upsert of an uptime row adds the counts, the total request time and the status codes
  and takes the last time of the new row; but it leaves the average request time of the old row
  in place, because its assignment is guarded by a test that is never true.
\<close>

theorem uptime_upsert_merges:
  "list_all (\<lambda>t. uptime_upsert old new (''counter_'' @ t) = old (''counter_'' @ t) + new (''counter_'' @ t))
     [''hits'', ''error'', ''success'', ''total_request_time''] \<and>
   list_all (\<lambda>t. uptime_upsert old new (''code_'' @ t) = old (''code_'' @ t) + new (''code_'' @ t)) code_tags \<and>
   uptime_upsert old new ''counter_last_time'' = new ''counter_last_time'' \<and>
   uptime_upsert old new ''counter_request_time'' = old ''counter_request_time''"
proof -
  have "list_all (\<lambda>t. uptime_upsert old new (''code_'' @ t) = old (''code_'' @ t) + new (''code_'' @ t)) code_tags"
  proof -
    have "map_of (map (\<lambda>tag. (''code_'' @ tag, AssignSum)) tags) (''code_'' @ t) =
        (if t \<in> set tags then Some AssignSum else None)" for tags t
      by (induction tags) auto
    moreover have "map_of (List.map_filter (\<lambda>tag. map_option (Pair (''counter_'' @ tag)) (uptime_counter_assign tag)) tags)
        (''code_'' @ t) = None" for tags t
      by (induction tags) (auto simp: List.map_filter_simps split: option.splits)
    ultimately show ?thesis
      by (simp only: list_all_iff uptime_upsert_def uptime_conflict_assigns_def map_of_append map_add_def
          option.case if_True eval_assign.simps) simp
  qed
  then show ?thesis
    by (simp add: uptime_upsert_def uptime_conflict_assigns_def code_tags_eq uptime_counter_assign_def counter_tags_def
        List.map_filter_simps counter_zero_def)
qed

definition sample_report :: "string \<Rightarrow> i64 \<Rightarrow> uptime_data" where
  "sample_report url rc = \<lparr>u_ID = [], u_URL = url, u_RequestTime = 5, u_ResponseCode = rc, u_TCPError = False,
     u_ServerError = False, u_Day = 1, u_Month = 1, u_Year = 1, u_Hour = 1, u_Minute = 1, u_TimeStamp = time_zero,
     u_ExpireAt = time_zero, u_APIID = ''a'', u_OrgID = ''o''\<rparr>"

lemma sample_report_simps [simp]:
  "u_URL (sample_report url rc) = url" "u_ResponseCode (sample_report url rc) = rc" "u_OrgID (sample_report url rc) = ''o''"
  by (simp_all add: sample_report_def)

theorem AggregateUptimeData_counts_witness:
  "\<exists>m a. AggregateUptimeData [sample_report ''u'' 200, sample_report ''v'' 500, sample_report ''u'' 404] = Inr m \<and>
     gomap_get m ''o'' = Some a \<and> c_Hits (ua_Total a) = 3 \<and> unit_val c_ErrorTotal (ua_URL a) ''u'' = 1"
proof -
  let ?d = "[sample_report ''u'' 200, sample_report ''v'' 500, sample_report ''u'' 404]"
  have "\<exists>m. AggregateUptimeData ?d = Inr m \<and> (\<forall>a. a \<in> snd ` set m \<longrightarrow> uptime_ok a)"
    by (rule AggregateUptimeData_defined) (simp add: uptime_counted_def)
  then obtain m where m: "AggregateUptimeData ?d = Inr m" by blast
  then have "rbind (uptime_loop [] ?d) (\<lambda>m. Inr (m, ())) = Inr (m, ())" by (simp add: AggregateUptimeData_def)
  from upt.run_dom [OF this] have "''o'' \<in> set (gomap_keys m)" by (simp add: uptime_key_def gomap_keys_def)
  then obtain a where a: "gomap_get m ''o'' = Some a" by (auto simp: gomap_keys_get)
  from AggregateUptimeData_counts [OF m _ a, of "''u''"] m a show ?thesis
    by (simp add: uptime_records_def uptime_counted_def uptime_error_def)
qed

theorem AggregateUptimeData_nil_map_panic_witness:
  "AggregateUptimeData [sample_report ''u'' (-1), sample_report ''u'' 200] = Inl (GoPanic ''assignment to entry in nil map'')"
  by (rule AggregateUptimeData_nil_map_panic [where org = "''o''" and url = "''u''"]) (simp_all add: uptime_success_def)

end
