(* ===== verification/SQL_Pumps.thy ===== *)
theory SQL_Pumps
  imports SQL_Common Uptime
begin

text \<open>
  The SQL pumps that write one row for each record: \<open>src/pumps/sql.go\<close> (with the uptime
  reports), \<open>src/pumps/graph_sql.go\<close> and \<open>src/pumps/mcp_sql.go\<close>. The configuration a
  definition gets is the decoded one; \<open>Init\<close> returns it with the batch size it settles on. The
  lemmas: on a database that accepts the writes every record ends up in the table of its day, in
  order and once, however the batch is cut; errors of the database are not reported.
\<close>

section \<open>Rows in batches\<close>

text \<open>\<open>tx := c.db.Create(recs[i:ends])\<close>; an error is logged.\<close>

definition create_batches ::
  "('db, 'r) sql_lib \<Rightarrow> string \<Rightarrow> nat \<Rightarrow> 'r list \<Rightarrow> (('db, 'z) sql_handle_scheme, unit) io" where
  "create_batches lib model n recs =
     io_for (slices n recs) (\<lambda>b. io_log (io_bind (io_get (handle_table model)) (\<lambda>t. on_db (l_Create lib t b))))"

text \<open>\<open>c.db = c.db.Table(table)\<close>, and an \<open>AutoMigrate\<close> if the table is not there.\<close>

definition automigrate_shard :: "('db, 'r) sql_lib \<Rightarrow> string \<Rightarrow> (('db, 'z) sql_handle_scheme, unit) io" where
  "automigrate_shard lib table =
     io_bind (use_table table) (\<lambda>_. io_bind (has_table lib table) (\<lambda>b.
       if b then io_ret () else io_log (on_db (l_AutoMigrate lib table))))"

definition shard_table :: "string \<Rightarrow> string \<Rightarrow> string" where
  "shard_table name recDate = name @ ''_'' @ recDate"

section \<open>The SQL pump\<close>

definition sql_indexes :: "(string \<times> string) list" where
  "sql_indexes = [(''idx_responsecode'', ''responsecode''), (''idx_apikey'', ''apikey''), (''idx_timestamp'', ''timestamp''),
     (''idx_apiid'', ''apiid''), (''idx_orgid'', ''orgid''), (''idx_oauthid'', ''oauthid'')]"

definition SQL_Init ::
  "('db, 'r) sql_lib \<Rightarrow> (string \<Rightarrow> pgx_config res) \<Rightarrow> (dialector \<Rightarrow> gorm_level \<Rightarrow> (('db, 'z) sql_handle_scheme, unit) io) \<Rightarrow>
     gotime \<Rightarrow> bool \<Rightarrow> sql_conf \<Rightarrow> (('db, 'z) sql_handle_scheme, sql_conf) io" where
  "SQL_Init lib ParseConfig gormOpen now isUptime conf =
     io_bind (OpenGormDB ParseConfig gormOpen conf) (\<lambda>_.
     io_bind (if isUptime then HandleTableMigration lib now conf UptimeSQLTable (MigrateAllShardedTables lib UptimeSQLTable)
              else HandleTableMigration lib now conf SQLTable (MigrateAllShardedTables lib SQLTable)) (\<lambda>_.
       io_ret (conf\<lparr>sc_BatchSize := default_batch_size (sc_BatchSize conf)\<rparr>)))"

definition buildIndexName :: "string \<Rightarrow> string \<Rightarrow> string" where
  "buildIndexName indexBaseName tableName = tableName @ ''_'' @ indexBaseName"

definition index_query :: "string \<Rightarrow> string \<Rightarrow> string \<Rightarrow> string \<Rightarrow> string" where
  "index_query dbType indexName tableName columns =
     (let option = (if dbType = ''postgres'' then ''CONCURRENTLY'' else [])
      in ''CREATE INDEX '' @ option @ '' IF NOT EXISTS '' @ indexName @ '' ON '' @ tableName @ '' ('' @ columns @ '')'')"

definition createIndex ::
  "('db, 'r) sql_lib \<Rightarrow> string \<Rightarrow> string \<Rightarrow> string \<Rightarrow> string \<Rightarrow> (('db, 'z) sql_handle_scheme, unit) io" where
  "createIndex lib dbType indexBaseName tableName column =
     io_bind (io_get (\<lambda>h. l_HasColumn lib (handle_table SQLTable h) column (h_db h))) (\<lambda>columnExist.
       if \<not> columnExist then io_fail (GoErr (''cannot create index for non existent column '' @ column))
       else on_db (l_Exec lib (index_query dbType (buildIndexName indexBaseName tableName) tableName column)))"

text \<open>In the foreground: the pump never asks for the index creation in the background.\<close>

definition ensureIndex :: "('db, 'r) sql_lib \<Rightarrow> string \<Rightarrow> string \<Rightarrow> (('db, 'z) sql_handle_scheme, unit) io" where
  "ensureIndex lib dbType tableName =
     io_bind (has_table lib tableName) (\<lambda>b.
       if \<not> b then io_fail (GoErr (''cannot create indexes as table doesn't exist: '' @ tableName))
       else io_for sql_indexes (\<lambda>(baseName, column).
         io_bind (io_get (\<lambda>h. l_HasIndex lib tableName (tableName @ baseName) (h_db h))) (\<lambda>has.
           if has then io_ret () else createIndex lib dbType baseName tableName column)))"

definition ensureTable :: "('db, 'r) sql_lib \<Rightarrow> string \<Rightarrow> string \<Rightarrow> (('db, 'z) sql_handle_scheme, unit) io" where
  "ensureTable lib dbType tableName =
     io_bind (has_table lib tableName) (\<lambda>b.
       if b then io_ret ()
       else io_bind (use_table tableName) (\<lambda>_.
            io_bind (on_db (l_CreateTable lib tableName)) (\<lambda>_. ensureIndex lib dbType tableName)))"

definition sql_typed :: "item list \<Rightarrow> analytics_record list" where
  "sql_typed data = List.map_filter
     (\<lambda>v. case v of ItemNil \<Rightarrow> None | ItemRecord r \<Rightarrow> if IsMCPRecord r then None else Some r) data"

definition record_date :: "analytics_record \<Rightarrow> string" where
  "record_date r = fmt_date [] (r_TimeStamp r)"

text \<open>
  One iteration for a day: the type of the database is never set by this pump, so the indexes are
  never created concurrently.
\<close>

definition sql_write_shard ::
  "('db, analytics_record) sql_lib \<Rightarrow> sql_conf \<Rightarrow> string \<Rightarrow> analytics_record list \<Rightarrow> (('db, 'z) sql_handle_scheme, unit) io" where
  "sql_write_shard lib conf recDate recs =
     (let table = shard_table SQLTable recDate
      in io_bind (use_table table) (\<lambda>_. io_bind (ensureTable lib [] table) (\<lambda>_.
           create_batches lib SQLTable (sc_BatchSize conf) recs)))"

definition SQL_WriteData ::
  "('db, analytics_record) sql_lib \<Rightarrow> sql_conf \<Rightarrow> item list \<Rightarrow> (('db, 'z) sql_handle_scheme, unit) io" where
  "SQL_WriteData lib conf data =
     (let typedData = sql_typed data
      in if typedData = [] then io_ret ()
         else if sc_TableSharding conf
           then shard_loop False (\<lambda>r. Inr (record_date r)) typedData (sql_write_shard lib conf) 0 0
         else create_batches lib SQLTable (sc_BatchSize conf) typedData)"

section \<open>Uptime reports\<close>

definition uptime_row :: "string \<Rightarrow> gotime \<Rightarrow> dimension \<Rightarrow> uptime_aggregate_sql res" where
  "uptime_row orgID stamp d =
     rbind (ProcessStatusCodes (errors_of (d_Counter d)) code_zero) (\<lambda>code.
       Inr \<lparr>us_ID = row_id stamp orgID d,
            us_Counter = (d_Counter d)\<lparr>c_ErrorList := [], c_ErrorMap := None\<rparr>,
            us_TimeStamp = time_unix stamp, us_OrgID = orgID, us_Dimension = d_Name d,
            us_DimensionValue = d_Value d, us_Code = code\<rparr>)"

definition uptime_rows :: "string \<Rightarrow> uptime_aggregate \<Rightarrow> uptime_aggregate_sql list res" where
  "uptime_rows orgID ag = rmap (uptime_row orgID (ua_TimeStamp ag)) (uptime_Dimensions ag)"

definition write_uptime_table ::
  "('db, uptime_aggregate_sql) sql_lib \<Rightarrow> sql_conf \<Rightarrow> string \<Rightarrow> uptime_data list \<Rightarrow> (('db, 'z) sql_handle_scheme, unit) io" where
  "write_uptime_table lib conf table data =
     io_bind (io_res (AggregateUptimeData data)) (\<lambda>analyticsPerOrg.
       io_for analyticsPerOrg (\<lambda>(orgID, ag).
         io_bind (io_res (uptime_rows orgID ag)) (\<lambda>recs.
           io_for (slices (sc_BatchSize conf) recs) (\<lambda>b.
             io_log (io_bind (io_get (handle_table UptimeSQLTable)) (\<lambda>t.
               on_db (l_Upsert lib t (OnConflictUptimeAssignments table ''excluded'') b)))))))"

definition uptime_zero :: uptime_data where
  "uptime_zero = \<lparr>u_ID = [], u_URL = [], u_RequestTime = 0, u_ResponseCode = 0, u_TCPError = False,
     u_ServerError = False, u_Day = 0, u_Month = 0, u_Year = 0, u_Hour = 0, u_Minute = 0,
     u_TimeStamp = time_zero, u_ExpireAt = time_zero, u_APIID = [], u_OrgID = []\<rparr>"

text \<open>A value that cannot be decoded leaves an empty report at its place.\<close>

definition uptime_typed :: "(string \<Rightarrow> uptime_data res) \<Rightarrow> string list \<Rightarrow> uptime_data list" where
  "uptime_typed unmarshal data = map (\<lambda>v. case unmarshal v of Inl e \<Rightarrow> uptime_zero | Inr u \<Rightarrow> u) data"

definition SQL_WriteUptimeData ::
  "('db, uptime_aggregate_sql) sql_lib \<Rightarrow> (string \<Rightarrow> uptime_data res) \<Rightarrow> sql_conf \<Rightarrow> string list \<Rightarrow>
     (('db, 'z) sql_handle_scheme, unit) io" where
  "SQL_WriteUptimeData lib unmarshal conf data =
     (let typedData = uptime_typed unmarshal data
      in if typedData = [] then io_ret ()
         else if sc_TableSharding conf
           then shard_loop False (\<lambda>u. Inr (fmt_date [] (u_TimeStamp u))) typedData
             (\<lambda>recDate recs. let table = shard_table UptimeSQLTable recDate
                in io_bind (automigrate_shard lib table) (\<lambda>_. write_uptime_table lib conf table recs)) 0 0
         else write_uptime_table lib conf UptimeSQLTable typedData)"

section \<open>The graph and MCP pumps\<close>

record named_sql_conf =
  nc_TableName :: string
  nc_SQLConf :: sql_conf

definition GraphSQLTable :: string where "GraphSQLTable = ''tyk_analytics_graph''"
definition MCPSQLTable :: string where "MCPSQLTable = ''tyk_analytics_mcp''"

definition pump_table :: "string \<Rightarrow> named_sql_conf \<Rightarrow> string" where
  "pump_table def conf = (if nc_TableName conf \<noteq> [] then nc_TableName conf else def)"

text \<open>\<open>Init\<close> of both pumps; \<open>def\<close> is the table used when none is configured.\<close>

definition named_Init ::
  "string \<Rightarrow> ('db, 'r) sql_lib \<Rightarrow> (string \<Rightarrow> pgx_config res) \<Rightarrow> (dialector \<Rightarrow> gorm_level \<Rightarrow> (('db, 'z) sql_handle_scheme, unit) io) \<Rightarrow>
     gotime \<Rightarrow> named_sql_conf \<Rightarrow> (('db, 'z) sql_handle_scheme, named_sql_conf \<times> string) io" where
  "named_Init def lib ParseConfig gormOpen now conf =
     io_bind (OpenGormDB ParseConfig gormOpen (nc_SQLConf conf)) (\<lambda>_.
       (let conf = conf\<lparr>nc_SQLConf := (nc_SQLConf conf)\<lparr>sc_BatchSize := default_batch_size (sc_BatchSize (nc_SQLConf conf))\<rparr>\<rparr>;
            tableName = pump_table def conf
        in io_bind (HandleTableMigration lib now (nc_SQLConf conf) tableName (MigrateAllShardedTables lib tableName)) (\<lambda>_.
           io_bind (use_table tableName) (\<lambda>_. io_ret (conf, tableName)))))"

definition GraphSQL_Init where "GraphSQL_Init = named_Init GraphSQLTable"
definition MCPSQL_Init where "MCPSQL_Init = named_Init MCPSQLTable"

definition getGraphRecords :: "item list \<Rightarrow> graph_record list" where
  "getGraphRecords data = List.map_filter
     (\<lambda>v. case v of ItemNil \<Rightarrow> None | ItemRecord r \<Rightarrow> if \<not> IsGraphRecord r then None else Some (ToGraphRecord r)) data"

definition getMCPRecords :: "item list \<Rightarrow> mcp_record list" where
  "getMCPRecords data = List.map_filter
     (\<lambda>v. case v of ItemNil \<Rightarrow> None | ItemRecord r \<Rightarrow> if \<not> IsMCPRecord r then None else Some (ToMCPRecord r)) data"

definition GraphSQL_WriteData ::
  "('db, graph_record) sql_lib \<Rightarrow> sql_conf \<Rightarrow> string \<Rightarrow> item list \<Rightarrow> (('db, 'z) sql_handle_scheme, unit) io" where
  "GraphSQL_WriteData lib conf tableName data =
     (let graphRecords = getGraphRecords data
      in if graphRecords = [] then io_ret ()
         else if sc_TableSharding conf
           then shard_loop True (\<lambda>g. Inr (record_date (g_AnalyticsRecord g))) graphRecords
             (\<lambda>recDate recs. io_bind (automigrate_shard lib (shard_table tableName recDate)) (\<lambda>_.
                create_batches lib tableName (sc_BatchSize conf) recs)) 0 0
         else create_batches lib tableName (sc_BatchSize conf) graphRecords)"

definition writeMCPBatch ::
  "('db, mcp_record) sql_lib \<Rightarrow> sql_conf \<Rightarrow> string \<Rightarrow> mcp_record list \<Rightarrow> (('db, 'z) sql_handle_scheme, unit) io" where
  "writeMCPBatch lib conf tableName recs = create_batches lib tableName (sc_BatchSize conf) recs"

definition ensureMCPShardedTable ::
  "('db, mcp_record) sql_lib \<Rightarrow> string \<Rightarrow> string \<Rightarrow> (('db, 'z) sql_handle_scheme, unit) io" where
  "ensureMCPShardedTable lib tableName recDate = automigrate_shard lib (shard_table tableName recDate)"

definition MCPSQL_WriteData ::
  "('db, mcp_record) sql_lib \<Rightarrow> sql_conf \<Rightarrow> string \<Rightarrow> item list \<Rightarrow> (('db, 'z) sql_handle_scheme, unit) io" where
  "MCPSQL_WriteData lib conf tableName data =
     (let mcpRecords = getMCPRecords data
      in if mcpRecords = [] then io_ret ()
         else if sc_TableSharding conf
           then shard_loop True (\<lambda>m. Inr (record_date (m_AnalyticsRecord m))) mcpRecords
             (\<lambda>recDate recs. io_bind (ensureMCPShardedTable lib tableName recDate) (\<lambda>_.
                writeMCPBatch lib conf tableName recs)) 0 0
         else writeMCPBatch lib conf tableName mcpRecords)"

section \<open>Where the rows go\<close>

text \<open>
  A database that accepts everything: \<open>rows\<close> shows the rows of its tables. A table that was
  created is there and stays, and has the columns of the indexes.
\<close>

definition sql_store :: "('db, 'r) sql_lib \<Rightarrow> ('db \<Rightarrow> string \<Rightarrow> 'r list) \<Rightarrow> bool" where
  "sql_store lib rows \<longleftrightarrow>
     (\<forall>t d. \<exists>d'. l_CreateTable lib t d = (Inr (), d') \<and> rows d' = rows d \<and> l_HasTable lib t d') \<and>
     (\<forall>t d. \<exists>d'. l_AutoMigrate lib t d = (Inr (), d') \<and> rows d' = rows d) \<and>
     (\<forall>q d. \<exists>d'. l_Exec lib q d = (Inr (), d') \<and> rows d' = rows d \<and> (\<forall>t. l_HasTable lib t d \<longrightarrow> l_HasTable lib t d')) \<and>
     (\<forall>t c d. l_HasTable lib t d \<longrightarrow> c \<in> snd ` set sql_indexes \<longrightarrow> l_HasColumn lib t c d) \<and>
     (\<forall>t rs d. \<exists>d'. l_Create lib t rs d = (Inr (), d') \<and> rows d' = (rows d)(t := rows d t @ rs))"

lemma sql_storeD:
  assumes "sql_store lib rows"
  shows "\<exists>d'. l_CreateTable lib t d = (Inr (), d') \<and> rows d' = rows d \<and> l_HasTable lib t d'"
    and "\<exists>d'. l_AutoMigrate lib t d = (Inr (), d') \<and> rows d' = rows d"
    and "\<exists>d'. l_Exec lib q d = (Inr (), d') \<and> rows d' = rows d \<and> (\<forall>t. l_HasTable lib t d \<longrightarrow> l_HasTable lib t d')"
    and "l_HasTable lib t d \<Longrightarrow> c \<in> snd ` set sql_indexes \<Longrightarrow> l_HasColumn lib t c d"
    and "\<exists>d'. l_Create lib t rs d = (Inr (), d') \<and> rows d' = (rows d)(t := rows d t @ rs)"
proof -
  note laws = assms [unfolded sql_store_def]
  show "\<exists>d'. l_CreateTable lib t d = (Inr (), d') \<and> rows d' = rows d \<and> l_HasTable lib t d'"
    by (rule conjunct1 [OF laws, rule_format])
  show "\<exists>d'. l_AutoMigrate lib t d = (Inr (), d') \<and> rows d' = rows d"
    by (rule conjunct1 [OF conjunct2 [OF laws], rule_format])
  show "\<exists>d'. l_Exec lib q d = (Inr (), d') \<and> rows d' = rows d \<and> (\<forall>t. l_HasTable lib t d \<longrightarrow> l_HasTable lib t d')"
    by (rule conjunct1 [OF conjunct2 [OF conjunct2 [OF laws]], THEN spec, THEN spec])
  show "l_HasTable lib t d \<Longrightarrow> c \<in> snd ` set sql_indexes \<Longrightarrow> l_HasColumn lib t c d"
    by (rule conjunct1 [OF conjunct2 [OF conjunct2 [OF conjunct2 [OF laws]]], rule_format])
  show "\<exists>d'. l_Create lib t rs d = (Inr (), d') \<and> rows d' = (rows d)(t := rows d t @ rs)"
    by (rule conjunct2 [OF conjunct2 [OF conjunct2 [OF conjunct2 [OF laws]]], rule_format])
qed

lemma create_batches_stores:
  assumes store: "sql_store lib rows" and n: "0 < n"
  shows "\<exists>h'. create_batches lib model n recs h = (Inr (), h') \<and>
    rows (h_db h') = (rows (h_db h))(handle_table model h := rows (h_db h) (handle_table model h) @ recs)"
proof -
  let ?t = "handle_table model h"
  define P where "P s \<longleftrightarrow> h_table s = h_table h \<and> (\<forall>t. t \<noteq> ?t \<longrightarrow> rows (h_db s) t = rows (h_db h) t)" for s :: "('a, 'c) sql_handle_scheme"
  have "\<exists>h'. io_for (slices n recs) (\<lambda>b. io_log (io_bind (io_get (handle_table model)) (\<lambda>t. on_db (l_Create lib t b)))) h = (Inr (), h')
      \<and> P h' \<and> rows (h_db h') ?t = rows (h_db h) ?t @ map id recs"
  proof (rule slices.stored_all [where view = "\<lambda>s. rows (h_db s) ?t" and P = P, OF n])
    fix ys and s :: "('a, 'c) sql_handle_scheme"
    assume P: "P s"
    then have t: "handle_table model s = ?t" by (simp add: P_def handle_table_def)
    obtain d' where d': "l_Create lib ?t ys (h_db s) = (Inr (), d')" "rows d' = (rows (h_db s))(?t := rows (h_db s) ?t @ ys)"
      using sql_storeD(5) [OF store] by blast
    have "io_bind (io_get (handle_table model)) (\<lambda>t. on_db (l_Create lib t ys)) s = (Inr (), s\<lparr>h_db := d'\<rparr>)"
      by (simp add: t on_db_run d'(1))
    then have "io_log (io_bind (io_get (handle_table model)) (\<lambda>t. on_db (l_Create lib t ys))) s = (Inr (), s\<lparr>h_db := d'\<rparr>)"
      by (rule io_log_run(1))
    with d'(2) P
    show "\<exists>t. io_log (io_bind (io_get (handle_table model)) (\<lambda>t. on_db (l_Create lib t ys))) s = (Inr (), t) \<and>
        P t \<and> rows (h_db t) ?t = rows (h_db s) ?t @ map id ys"
      by (simp add: P_def)
  next
    show "P h" by (simp add: P_def)
  qed
  then show ?thesis unfolding create_batches_def P_def by (auto simp: fun_eq_iff)
qed

text \<open>A loop over the days, each of which adds its rows to the table of the day.\<close>

lemma day_runs_stored:
  assumes "\<And>d xs s. \<exists>s'. store d xs s = (Inr (), s') \<and> view s' = (view s)(tab d := view s (tab d) @ (xs :: 'r list))"
    and "list_all (\<lambda>(d, xs). list_all (\<lambda>x. date x = d) xs) runs"
  shows "\<exists>s'. io_for runs (\<lambda>(d, xs). store d xs) s = (Inr (), s') \<and>
    view s' = (\<lambda>t. view s t @ filter (\<lambda>x. tab (date x) = t) (concat (map snd runs)))"
  using assms(2)
proof (induction runs arbitrary: s)
  case Nil
  then show ?case by simp
next
  case (Cons run runs)
  obtain d xs where run: "run = (d, xs)" by (cases run)
  from assms(1) obtain s1 where s1: "store d xs s = (Inr (), s1)" "view s1 = (view s)(tab d := view s (tab d) @ xs)" by blast
  from Cons obtain s2 where s2: "io_for runs (\<lambda>(d, xs). store d xs) s1 = (Inr (), s2)"
    "view s2 = (\<lambda>t. view s1 t @ filter (\<lambda>x. tab (date x) = t) (concat (map snd runs)))" by auto
  from Cons.prems have dates: "list_all (\<lambda>x. date x = d) xs" by (simp add: run)
  then have "filter (\<lambda>x. tab (date x) = t) xs = (if tab d = t then xs else [])" for t
    by (induction xs) auto
  moreover have "io_for (run # runs) (\<lambda>(d, xs). store d xs) s = io_for runs (\<lambda>(d, xs). store d xs) s1"
    by (simp add: run io_bind_def s1(1))
  ultimately show ?case using s2 by (auto simp: run s1(2) fun_eq_iff)
qed

lemma date_runs_dates: "list_all (\<lambda>(d, xs). list_all (\<lambda>x. date x = d) xs) (date_runs date data)"
  using date_runs_date [of _ _ date data] by (auto simp: list_all_iff)

lemma shards_stored:
  assumes "\<And>d xs s. \<exists>s'. store d xs s = (Inr (), s') \<and> view s' = (view s)(tab d := view s (tab d) @ (xs :: 'r list))"
    and "data \<noteq> []"
  shows "\<exists>s'. shard_loop relast (\<lambda>x. Inr (date x)) data store 0 0 s = (Inr (), s') \<and>
    view s' = (\<lambda>t. view s t @ filter (\<lambda>x. tab (date x) = t) data)"
proof -
  have "shard_loop relast (\<lambda>x. Inr (date x)) data store 0 0 = io_for (date_runs date data) (\<lambda>(k, xs). store k xs)"
    by (rule shard_loop_eq) (simp_all add: assms(2) list.pred_True)
  with day_runs_stored [of store view tab, OF assms(1) date_runs_dates [of date data]]
  show ?thesis by (simp add: date_runs_concat)
qed

lemma ensureTable_ready:
  assumes store: "sql_store lib rows" and t: "h_table h = Some table"
  shows "\<exists>h'. ensureTable lib ty table h = (Inr (), h') \<and> h_table h' = Some table \<and> rows (h_db h') = rows (h_db h)"
proof (cases "l_HasTable lib table (h_db h)")
  case True
  then show ?thesis using t by (simp add: ensureTable_def has_table_def)
next
  case False
  obtain d1 where d1: "l_CreateTable lib table (h_db h) = (Inr (), d1)" "rows d1 = rows (h_db h)" "l_HasTable lib table d1"
    using sql_storeD(1) [OF store] by blast
  define P where "P s \<longleftrightarrow> h_table s = Some table \<and> rows (h_db s) = rows (h_db h) \<and> l_HasTable lib table (h_db s)"
    for s :: "('a, 'c) sql_handle_scheme"
  let ?body = "\<lambda>(baseName, column). io_bind (io_get (\<lambda>h. l_HasIndex lib table (table @ baseName) (h_db h))) (\<lambda>has.
           if has then io_ret () else createIndex lib ty baseName table column)"
  have step: "\<exists>s'. ?body ix s = (Inr (), s') \<and> P s'" if ix: "ix \<in> set sql_indexes" and P: "P s" for ix s
  proof -
    obtain b c where bc: "ix = (b, c)" by (cases ix)
    with ix have c: "c \<in> snd ` set sql_indexes" by force
    from P have t': "handle_table SQLTable s = table" "l_HasTable lib table (h_db s)" by (simp_all add: P_def handle_table_def)
    then have col: "l_HasColumn lib table c (h_db s)" by (intro sql_storeD(4) [OF store] c)
    obtain d2 where d2: "l_Exec lib (index_query ty (buildIndexName b table) table c) (h_db s) = (Inr (), d2)"
      "rows d2 = rows (h_db s)" "\<forall>t. l_HasTable lib t (h_db s) \<longrightarrow> l_HasTable lib t d2"
      using sql_storeD(3) [OF store] by blast
    have "createIndex lib ty b table c s = (Inr (), s\<lparr>h_db := d2\<rparr>)"
      by (simp add: createIndex_def t' col on_db_run d2(1))
    with P d2 show ?thesis by (cases "l_HasIndex lib table (table @ b) (h_db s)") (simp_all add: bc P_def)
  qed
  have P1: "P (h\<lparr>h_table := Some table, h_db := d1\<rparr>)" using d1 by (simp add: P_def)
  have create: "on_db (l_CreateTable lib table) (h\<lparr>h_table := Some table\<rparr>) = (Inr (), h\<lparr>h_table := Some table, h_db := d1\<rparr>)"
    by (simp add: on_db_run d1(1))
  from io_for_invariant [of sql_indexes P ?body, OF step P1] obtain s' where s': "io_for sql_indexes ?body (h\<lparr>h_table := Some table, h_db := d1\<rparr>) = (Inr (), s')" "P s'"
    by blast
  have "ensureTable lib ty table h = io_for sql_indexes ?body (h\<lparr>h_table := Some table, h_db := d1\<rparr>)"
    by (simp add: ensureTable_def has_table_def use_table_def False io_bind_ok [of "on_db (l_CreateTable lib table)", OF create]
        ensureIndex_def d1(3) cong: if_cong)
  with s' show ?thesis by (simp add: P_def)
qed

lemma automigrate_shard_ready:
  assumes store: "sql_store lib rows"
  shows "\<exists>h'. automigrate_shard lib table h = (Inr (), h') \<and> h_table h' = Some table \<and> rows (h_db h') = rows (h_db h)"
proof (cases "l_HasTable lib table (h_db h)")
  case True
  then show ?thesis by (simp add: automigrate_shard_def use_table_def has_table_def)
next
  case False
  obtain d1 where d1: "l_AutoMigrate lib table (h_db h) = (Inr (), d1)" "rows d1 = rows (h_db h)"
    using sql_storeD(2) [OF store] by blast
  have "on_db (l_AutoMigrate lib table) (h\<lparr>h_table := Some table\<rparr>) = (Inr (), h\<lparr>h_table := Some table, h_db := d1\<rparr>)"
    by (simp add: on_db_run d1(1))
  then have "io_log (on_db (l_AutoMigrate lib table)) (h\<lparr>h_table := Some table\<rparr>) = (Inr (), h\<lparr>h_table := Some table, h_db := d1\<rparr>)"
    by (rule io_log_run(1))
  with False d1(2) show ?thesis
    by (simp add: automigrate_shard_def use_table_def has_table_def)
qed

text \<open>The table of a record: that of its day, or that of the handle.\<close>

definition row_table :: "string \<Rightarrow> sql_conf \<Rightarrow> ('db, 'z) sql_handle_scheme \<Rightarrow> analytics_record \<Rightarrow> string" where
  "row_table name conf h r =
     (if sc_TableSharding conf then shard_table name (record_date r) else handle_table name h)"

text \<open>The three pumps differ in how they prepare the table of a day.\<close>

lemma raw_stores:
  fixes rec :: "'r \<Rightarrow> analytics_record" and h :: "('db, 'z) sql_handle_scheme"
  assumes store: "sql_store lib rows" and n: "0 < sc_BatchSize conf" and "typed \<noteq> []"
    and ready: "\<And>day (s :: ('db, 'z) sql_handle_scheme). \<exists>s'. prepare day s = (Inr (), s') \<and>
        h_table s' = Some (shard_table name day) \<and> rows (h_db s') = rows (h_db s)"
  shows "\<exists>h'. (if sc_TableSharding conf
       then shard_loop relast (\<lambda>r. Inr (record_date (rec r))) typed
         (\<lambda>day recs. io_bind (prepare day) (\<lambda>_. create_batches lib name (sc_BatchSize conf) recs)) 0 0
       else create_batches lib name (sc_BatchSize conf) typed) h = (Inr (), h') \<and>
    rows (h_db h') = (\<lambda>t. rows (h_db h) t @ filter (\<lambda>r. row_table name conf h (rec r) = t) typed)"
proof (cases "sc_TableSharding conf")
  case False
  with create_batches_stores [OF store n, of name typed h] show ?thesis
    by (auto simp: row_table_def fun_eq_iff)
next
  case True
  let ?store = "\<lambda>day recs. io_bind (prepare day) (\<lambda>_. create_batches lib name (sc_BatchSize conf) recs)"
  have one: "\<exists>s'. ?store day xs s = (Inr (), s') \<and>
      rows (h_db s') = (rows (h_db s))(shard_table name day := rows (h_db s) (shard_table name day) @ xs)"
    for day xs and s :: "('db, 'z) sql_handle_scheme"
  proof -
    obtain s1 where s1: "prepare day s = (Inr (), s1)" "h_table s1 = Some (shard_table name day)"
      "rows (h_db s1) = rows (h_db s)" using ready by blast
    from s1(2) have t: "handle_table name s1 = shard_table name day" by (simp add: handle_table_def)
    from create_batches_stores [OF store n, of name xs s1] show ?thesis
      by (simp add: io_bind_def s1(1) t s1(3))
  qed
  from shards_stored [of ?store "\<lambda>s. rows (h_db s)" "shard_table name" typed relast "\<lambda>r. record_date (rec r)" h, OF one \<open>typed \<noteq> []\<close>]
  show ?thesis by (simp add: True row_table_def)
qed

text \<open>
  C9. The SQL pump writes every record that is not an MCP record into one row of one table: the
  table of its day with sharding, the table of the handle without; in the order of the batch,
  after the rows that were there, and whatever the batch size.
\<close>

theorem SQL_WriteData_stores:
  fixes lib :: "('db, analytics_record) sql_lib" and h :: "('db, 'z) sql_handle_scheme"
  assumes "sql_store lib rows" and "0 < sc_BatchSize conf"
  shows "\<exists>h'. SQL_WriteData lib conf data h = (Inr (), h') \<and>
    rows (h_db h') = (\<lambda>t. rows (h_db h) t @ filter (\<lambda>r. row_table SQLTable conf h r = t) (sql_typed data))"
proof (cases "sql_typed data = []")
  case True
  then show ?thesis by (simp add: SQL_WriteData_def)
next
  case False
  have ready: "\<exists>s'. io_bind (use_table (shard_table SQLTable day)) (\<lambda>_. ensureTable lib [] (shard_table SQLTable day)) s = (Inr (), s')
      \<and> h_table s' = Some (shard_table SQLTable day) \<and> rows (h_db s') = rows (h_db s)"
    for day and s :: "('db, 'z) sql_handle_scheme"
    using ensureTable_ready [OF assms(1), of "s\<lparr>h_table := Some (shard_table SQLTable day)\<rparr>"] by (simp add: use_table_def)
  let ?prepare = "\<lambda>day. io_bind (use_table (shard_table SQLTable day)) (\<lambda>_. ensureTable lib [] (shard_table SQLTable day))"
  have shard: "sql_write_shard lib conf = (\<lambda>day recs. io_bind (?prepare day) (\<lambda>_. create_batches lib SQLTable (sc_BatchSize conf) recs))"
    by (intro ext) (simp add: sql_write_shard_def Let_def io_bind_assoc)
  have eq: "SQL_WriteData lib conf data = (if sc_TableSharding conf
      then shard_loop False (\<lambda>r. Inr (record_date (id r))) (sql_typed data) (sql_write_shard lib conf) 0 0
      else create_batches lib SQLTable (sc_BatchSize conf) (sql_typed data))"
    using False by (simp add: SQL_WriteData_def Let_def)
  show ?thesis unfolding eq shard
    using raw_stores [OF assms False, of ?prepare SQLTable False id h, OF ready] by (simp only: id_apply)
qed

text \<open>
  The graph and MCP pumps write exactly the graph records, and exactly the MCP records, each
  into one row of the table of its day or of the handle, in the order of the batch.
\<close>

theorem graph_and_mcp_WriteData_store:
  fixes glib :: "('gdb, graph_record) sql_lib" and mlib :: "('mdb, mcp_record) sql_lib"
    and g :: "('gdb, 'z) sql_handle_scheme" and m :: "('mdb, 'y) sql_handle_scheme"
  assumes "sql_store glib grows" and "sql_store mlib mrows" and "0 < sc_BatchSize conf"
  shows "(\<exists>h'. GraphSQL_WriteData glib conf name data g = (Inr (), h') \<and>
      grows (h_db h') = (\<lambda>t. grows (h_db g) t @
        filter (\<lambda>r. row_table name conf g (g_AnalyticsRecord r) = t) (getGraphRecords data))) \<and>
    (\<exists>h'. MCPSQL_WriteData mlib conf name data m = (Inr (), h') \<and>
      mrows (h_db h') = (\<lambda>t. mrows (h_db m) t @
        filter (\<lambda>r. row_table name conf m (m_AnalyticsRecord r) = t) (getMCPRecords data)))"
proof
  show "\<exists>h'. GraphSQL_WriteData glib conf name data g = (Inr (), h') \<and>
      grows (h_db h') = (\<lambda>t. grows (h_db g) t @
        filter (\<lambda>r. row_table name conf g (g_AnalyticsRecord r) = t) (getGraphRecords data))"
  proof (cases "getGraphRecords data = []")
    case True
    then show ?thesis by (simp add: GraphSQL_WriteData_def)
  next
    case False
    have eq: "GraphSQL_WriteData glib conf name data = (if sc_TableSharding conf
        then shard_loop True (\<lambda>r. Inr (record_date (g_AnalyticsRecord r))) (getGraphRecords data)
          (\<lambda>day recs. io_bind (automigrate_shard glib (shard_table name day)) (\<lambda>_. create_batches glib name (sc_BatchSize conf) recs)) 0 0
        else create_batches glib name (sc_BatchSize conf) (getGraphRecords data))"
      using False by (simp add: GraphSQL_WriteData_def Let_def)
    show ?thesis unfolding eq
      by (rule raw_stores [OF assms(1,3) False automigrate_shard_ready [OF assms(1)]])
  qed
next
  show "\<exists>h'. MCPSQL_WriteData mlib conf name data m = (Inr (), h') \<and>
      mrows (h_db h') = (\<lambda>t. mrows (h_db m) t @
        filter (\<lambda>r. row_table name conf m (m_AnalyticsRecord r) = t) (getMCPRecords data))"
  proof (cases "getMCPRecords data = []")
    case True
    then show ?thesis by (simp add: MCPSQL_WriteData_def)
  next
    case False
    have eq: "MCPSQL_WriteData mlib conf name data = (if sc_TableSharding conf
        then shard_loop True (\<lambda>r. Inr (record_date (m_AnalyticsRecord r))) (getMCPRecords data)
          (\<lambda>day recs. io_bind (automigrate_shard mlib (shard_table name day)) (\<lambda>_. create_batches mlib name (sc_BatchSize conf) recs)) 0 0
        else create_batches mlib name (sc_BatchSize conf) (getMCPRecords data))"
      using False by (simp add: MCPSQL_WriteData_def ensureMCPShardedTable_def writeMCPBatch_def Let_def)
    show ?thesis unfolding eq
      by (rule raw_stores [OF assms(2,3) False automigrate_shard_ready [OF assms(2)]])
  qed
qed

text \<open>
  Without sharding, a database error never reaches the caller: unless gorm panics, the write
  returns without an error, also when every batch was refused and no row was stored.
\<close>

theorem SQL_WriteData_hides_errors:
  fixes lib :: "('db, analytics_record) sql_lib" and h :: "('db, 'z) sql_handle_scheme"
  assumes "\<not> sc_TableSharding conf"
    and "\<And>t rs d. is_ok (fst (l_Create lib t rs d)) \<or> (\<exists>e. fst (l_Create lib t rs d) = Inl (GoErr e))"
  shows "fst (SQL_WriteData lib conf data h) = Inr ()"
proof -
  let ?w = "\<lambda>b. io_log (io_bind (io_get (handle_table SQLTable)) (\<lambda>t. on_db (l_Create lib t b)))"
  have one: "\<exists>s'. ?w b s = (Inr (), s') \<and> True" for b and s :: "('db, 'z) sql_handle_scheme"
  proof -
    obtain r d where rd: "l_Create lib (handle_table SQLTable s) b (h_db s) = (r, d)" by fastforce
    have w: "io_bind (io_get (handle_table SQLTable)) (\<lambda>t. on_db (l_Create lib t b)) s = (r, s\<lparr>h_db := d\<rparr>)"
      by (simp add: on_db_run rd)
    from assms(2) [of "handle_table SQLTable s" b "h_db s"] rd show ?thesis
      by (cases r) (auto simp: io_log_def io_bind_def io_try_def on_db_run)
  qed
  obtain h' where "io_for (slices (sc_BatchSize conf) (sql_typed data)) ?w h = (Inr (), h')"
    using io_for_invariant [of "slices (sc_BatchSize conf) (sql_typed data)" "\<lambda>_. True" ?w, OF one] by blast
  with assms(1) show ?thesis by (simp add: SQL_WriteData_def create_batches_def Let_def)
qed

section \<open>A database in memory\<close>

definition mem_rows :: "(string \<rightharpoonup> 'r list) \<Rightarrow> string \<Rightarrow> 'r list" where
  "mem_rows d t = (case d t of None \<Rightarrow> [] | Some rs \<Rightarrow> rs)"

definition mem_lib :: "(string \<rightharpoonup> 'r list, 'r) sql_lib" where
  "mem_lib = \<lparr>l_Dialector = ''mysql'', l_HasTable = (\<lambda>t d. d t \<noteq> None), l_HasIndex = (\<lambda>t i d. False),
     l_HasColumn = (\<lambda>t c d. True), l_CreateTable = (\<lambda>t d. (Inr (), d(t \<mapsto> mem_rows d t))),
     l_AutoMigrate = (\<lambda>t d. (Inr (), d(t \<mapsto> mem_rows d t))), l_Exec = (\<lambda>q d. (Inr (), d)),
     l_Raw = (\<lambda>q d. (Inr [], d)), l_Create = (\<lambda>t rs d. (Inr (), d(t \<mapsto> mem_rows d t @ rs))),
     l_Upsert = (\<lambda>t asg rs d. (Inr (), d(t \<mapsto> mem_rows d t @ rs)))\<rparr>"

lemma mem_rows_upd [simp]: "mem_rows (d(t \<mapsto> rs)) = (mem_rows d)(t := rs)"
  by (simp add: mem_rows_def fun_eq_iff)

lemma mem_lib_store: "sql_store mem_lib mem_rows"
  by (simp add: sql_store_def mem_lib_def)

definition sample_sql_conf :: "bool \<Rightarrow> nat \<Rightarrow> sql_conf" where
  "sample_sql_conf sharding n =
     \<lparr>sc_EnvPrefix = [], sc_Type = ''mysql'', sc_ConnectionString = [], sc_Postgres = \<lparr>pg_PreferSimpleProtocol = False\<rparr>,
      sc_Mysql = \<lparr>my_DefaultStringSize = 256, my_DisableDatetimePrecision = False, my_DontSupportRenameIndex = False,
        my_DontSupportRenameColumn = False, my_SkipInitializeWithVersion = False\<rparr>,
      sc_TableSharding = sharding, sc_LogLevel = [], sc_BatchSize = n, sc_MigrateShardedTables = False\<rparr>"

definition sample_day_record :: "int \<Rightarrow> string \<Rightarrow> analytics_record" where
  "sample_day_record day path =
     record_zero\<lparr>r_TimeStamp := \<lparr>t_sec = day * 86400, t_nsec = 0, t_zone = ''UTC'', t_off = 0\<rparr>, r_Path := path\<rparr>"

definition sample_handle :: "(string \<rightharpoonup> 'r list) sql_handle" where
  "sample_handle = \<lparr>h_db = Map.empty, h_table = None\<rparr>"

theorem SQL_WriteData_stores_witness:
  "mem_rows (h_db (snd (SQL_WriteData mem_lib (sample_sql_conf True 2)
     [ItemRecord (sample_day_record 0 ''/a''), ItemNil, ItemRecord (sample_day_record 1 ''/b''),
      ItemRecord (sample_day_record 0 ''/c'')] sample_handle))) ''tyk_analytics_19700101'' =
   [sample_day_record 0 ''/a'', sample_day_record 0 ''/c'']"
proof -
  let ?data = "[ItemRecord (sample_day_record 0 ''/a''), ItemNil, ItemRecord (sample_day_record 1 ''/b''),
      ItemRecord (sample_day_record 0 ''/c'')]"
  let ?h = "sample_handle :: (string \<rightharpoonup> analytics_record list) sql_handle"
  have n: "0 < sc_BatchSize (sample_sql_conf True 2)" by (simp add: sample_sql_conf_def)
  obtain h' :: "(string \<rightharpoonup> analytics_record list) sql_handle" where h': "SQL_WriteData mem_lib (sample_sql_conf True 2) ?data ?h = (Inr (), h')"
    "mem_rows (h_db h') = (\<lambda>t. mem_rows (h_db ?h) t @
       filter (\<lambda>r. row_table SQLTable (sample_sql_conf True 2) ?h r = t) (sql_typed ?data))"
    using SQL_WriteData_stores [OF mem_lib_store n, of ?data ?h] by (elim exE conjE) (rule that)
  have typed: "sql_typed ?data = [sample_day_record 0 ''/a'', sample_day_record 1 ''/b'', sample_day_record 0 ''/c'']"
    by (simp add: sql_typed_def map_filter_simps IsMCPRecord_def sample_day_record_def record_zero_def mcp_zero_def)
  have tables: "row_table SQLTable (sample_sql_conf True 2) ?h (sample_day_record 0 p) = ''tyk_analytics_19700101''"
    "row_table SQLTable (sample_sql_conf True 2) ?h (sample_day_record 1 p) = ''tyk_analytics_19700102''" for p
  proof -
    have d: "fmt_date [] \<lparr>t_sec = 0 * 86400, t_nsec = 0, t_zone = ''UTC'', t_off = 0\<rparr> = ''19700101''"
      "fmt_date [] \<lparr>t_sec = 1 * 86400, t_nsec = 0, t_zone = ''UTC'', t_off = 0\<rparr> = ''19700102''" by code_simp+
    show "row_table SQLTable (sample_sql_conf True 2) ?h (sample_day_record 0 p) = ''tyk_analytics_19700101''"
      "row_table SQLTable (sample_sql_conf True 2) ?h (sample_day_record 1 p) = ''tyk_analytics_19700102''"
      using d by (simp_all add: row_table_def sample_sql_conf_def shard_table_def SQLTable_def record_date_def sample_day_record_def)
  qed
  have "mem_rows (h_db ?h) t = []" for t by (simp add: sample_handle_def mem_rows_def)
  then show ?thesis unfolding h'(1) snd_conv h'(2) by (simp add: typed tables)
qed

definition sample_mcp_record :: analytics_record where
  "sample_mcp_record = record_zero\<lparr>r_MCPStats := mcp_zero\<lparr>mc_IsMCP := True\<rparr>\<rparr>"

theorem graph_and_mcp_WriteData_store_witness:
  "mem_rows (h_db (snd (MCPSQL_WriteData mem_lib (sample_sql_conf False 2) MCPSQLTable
     [ItemRecord (sample_day_record 0 ''/a''), ItemRecord sample_mcp_record] sample_handle))) ''tyk_analytics_mcp'' =
   [ToMCPRecord sample_mcp_record]"
proof -
  let ?data = "[ItemRecord (sample_day_record 0 ''/a''), ItemRecord sample_mcp_record]"
  let ?h = "sample_handle :: (string \<rightharpoonup> mcp_record list) sql_handle"
  have n: "0 < sc_BatchSize (sample_sql_conf False 2)" by (simp add: sample_sql_conf_def)
  obtain h' :: "(string \<rightharpoonup> mcp_record list) sql_handle" where h': "MCPSQL_WriteData mem_lib (sample_sql_conf False 2) MCPSQLTable ?data ?h = (Inr (), h')"
    "mem_rows (h_db h') = (\<lambda>t. mem_rows (h_db ?h) t @
       filter (\<lambda>m. row_table MCPSQLTable (sample_sql_conf False 2) ?h (m_AnalyticsRecord m) = t) (getMCPRecords ?data))"
    using conjunct2 [OF graph_and_mcp_WriteData_store [OF mem_lib_store mem_lib_store n, of MCPSQLTable ?data sample_handle ?h]]
    by (elim exE conjE) (rule that)
  have typed: "getMCPRecords ?data = [ToMCPRecord sample_mcp_record]"
    by (simp add: getMCPRecords_def map_filter_simps IsMCPRecord_def sample_day_record_def sample_mcp_record_def record_zero_def mcp_zero_def)
  have "mem_rows (h_db ?h) t = []" for t by (simp add: sample_handle_def mem_rows_def)
  then show ?thesis unfolding h'(1) snd_conv h'(2)
    by (simp add: typed sample_handle_def row_table_def sample_sql_conf_def handle_table_def MCPSQLTable_def)
qed

theorem SQL_WriteData_hides_errors_witness:
  "fst (SQL_WriteData (mem_lib\<lparr>l_Create := \<lambda>t rs d. (Inl (GoErr ''refused''), d)\<rparr>) (sample_sql_conf False 2)
     [ItemRecord (sample_day_record 0 ''/a'')] sample_handle) = Inr ()"
  by (rule SQL_WriteData_hides_errors) (simp_all add: sample_sql_conf_def)

end
