(* ===== verification/SQL_Aggregates.thy ===== *)
theory SQL_Aggregates
  imports SQL_Pumps Aggregate_Graph Aggregate_MCP
begin

text \<open>
  The SQL pumps that write aggregates: \<open>src/pumps/sql_aggregate.go\<close>,
  \<open>src/pumps/graph_sql_aggregate.go\<close> and \<open>src/pumps/mcp_sql_aggregate.go\<close>. A batch (with
  sharding: each run of records of the same day) is aggregated, and every dimension of every
  aggregate is one row, upserted by its id. The state of the aggregation (the windows remembered
  for each database) is part of the handle. The lemmas: the days are written one after the other;
  an error leaves a prefix of the rows; the row of the total holds the number of requests.
\<close>

section \<open>Configuration and start\<close>

record agg_conf =
  ac_SQLConf :: sql_conf
  ac_EnvPrefix :: string
  ac_TrackAllPaths :: bool
  ac_IgnoreTagPrefixList :: "string list"
  ac_ThresholdLenTagList :: int
  ac_StoreAnalyticsPerMinute :: bool
  ac_IgnoreAggregationsList :: "string list"
  ac_OmitIndexCreation :: bool

record 'db agg_handle = "'db sql_handle" +
  h_last :: last_ts

definition AggregateSQLTable :: string where "AggregateSQLTable = ''tyk_aggregated''"
definition AggregateGraphSQLTable :: string where "AggregateGraphSQLTable = ''tyk_graph_aggregated''"
definition AggregateMCPSQLTable :: string where "AggregateMCPSQLTable = ''tyk_mcp_aggregated''"
definition newAggregatedIndexName :: string where "newAggregatedIndexName = ''idx_dimension''"

definition with_batch_size :: "agg_conf \<Rightarrow> agg_conf" where
  "with_batch_size conf =
     conf\<lparr>ac_SQLConf := (ac_SQLConf conf)\<lparr>sc_BatchSize := default_batch_size (sc_BatchSize (ac_SQLConf conf))\<rparr>\<rparr>"

definition agg_createIndex :: "('db, 'r) sql_lib \<Rightarrow> string \<Rightarrow> string \<Rightarrow> (('db, 'z) sql_handle_scheme, unit) io" where
  "agg_createIndex lib dbType tableName =
     on_db (l_Exec lib (index_query dbType (tableName @ ''_'' @ newAggregatedIndexName) tableName
       ''dimension, timestamp, org_id, dimension_value''))"

text \<open>In the background the creation is a task of its own: the call returns it, not yet run.\<close>

definition agg_ensureIndex ::
  "('db, 'r) sql_lib \<Rightarrow> agg_conf \<Rightarrow> string \<Rightarrow> string \<Rightarrow> bool \<Rightarrow>
     (('db, 'z) sql_handle_scheme, (('db, 'z) sql_handle_scheme, unit) io option) io" where
  "agg_ensureIndex lib conf dbType tableName background =
     (if ac_OmitIndexCreation conf then io_ret None
      else io_bind (io_get (\<lambda>h. l_HasIndex lib tableName (tableName @ ''_'' @ newAggregatedIndexName) (h_db h))) (\<lambda>has.
        if has then io_ret None
        else if background then io_ret (Some (io_log (agg_createIndex lib dbType tableName)))
        else io_bind (agg_createIndex lib dbType tableName) (\<lambda>_. io_ret None)))"

definition agg_ensureTable :: "('db, 'r) sql_lib \<Rightarrow> string \<Rightarrow> (('db, 'z) sql_handle_scheme, unit) io" where
  "agg_ensureTable lib tableName =
     io_bind (has_table lib tableName) (\<lambda>b.
       if b then io_ret () else io_bind (use_table tableName) (\<lambda>_. on_db (l_CreateTable lib tableName)))"

text \<open>\<open>Init\<close> of the REST and of the MCP pump: the settled configuration and the task left behind.\<close>

definition agg_Init ::
  "string \<Rightarrow> ('db, 'r) sql_lib \<Rightarrow> (string \<Rightarrow> pgx_config res) \<Rightarrow> (dialector \<Rightarrow> gorm_level \<Rightarrow> (('db, 'z) sql_handle_scheme, unit) io) \<Rightarrow>
     gotime \<Rightarrow> agg_conf \<Rightarrow> (('db, 'z) sql_handle_scheme, agg_conf \<times> (('db, 'z) sql_handle_scheme, unit) io option) io" where
  "agg_Init table lib ParseConfig gormOpen now conf =
     io_bind (OpenGormDB ParseConfig gormOpen (ac_SQLConf conf)) (\<lambda>_.
     io_bind (HandleTableMigration lib now (ac_SQLConf conf) table (MigrateAllShardedTables lib table)) (\<lambda>_.
     io_bind (if sc_TableSharding (ac_SQLConf conf) then io_ret None
              else io_bind (agg_ensureTable lib table) (\<lambda>_.
                   agg_ensureIndex lib conf (sc_Type (ac_SQLConf conf)) table (sc_Type (ac_SQLConf conf) = ''postgres''))) (\<lambda>task.
       io_ret (with_batch_size conf, task))))"

definition SQLAggregate_Init where "SQLAggregate_Init = agg_Init AggregateSQLTable"
definition MCPSQLAggregate_Init where "MCPSQLAggregate_Init = agg_Init AggregateMCPSQLTable"

definition GraphSQLAggregate_Init ::
  "('db, 'r) sql_lib \<Rightarrow> (string \<Rightarrow> pgx_config res) \<Rightarrow> (dialector \<Rightarrow> gorm_level \<Rightarrow> (('db, 'z) sql_handle_scheme, unit) io) \<Rightarrow>
     agg_conf \<Rightarrow> (('db, 'z) sql_handle_scheme, agg_conf) io" where
  "GraphSQLAggregate_Init lib ParseConfig gormOpen conf =
     io_bind (io_res (Dialect ParseConfig (ac_SQLConf conf))) (\<lambda>d.
     io_bind (gormOpen d (gorm_log_level (sc_LogLevel (ac_SQLConf conf)))) (\<lambda>_.
     io_bind (if sc_TableSharding (ac_SQLConf conf) then io_ret ()
              else io_log (on_db (l_AutoMigrate lib AggregateGraphSQLTable))) (\<lambda>_.
       io_ret (with_batch_size conf))))"

section \<open>Rows\<close>

record agg_row =
  ar_ID :: string
  ar_OrgID :: string
  ar_APIID :: string
  ar_TimeStamp :: i64
  ar_Counter :: counter
  ar_Dimension :: string
  ar_DimensionValue :: string
  ar_Code :: code

text \<open>The id of a row is built from the organisation, for graph and MCP rows from the API.\<close>

definition dim_row :: "string \<Rightarrow> string \<Rightarrow> string \<Rightarrow> gotime \<Rightarrow> dimension \<Rightarrow> agg_row res" where
  "dim_row key orgID apiID stamp d =
     rbind (ProcessStatusCodes (errors_of (d_Counter d)) code_zero) (\<lambda>code.
       Inr \<lparr>ar_ID = row_id stamp key d, ar_OrgID = orgID, ar_APIID = apiID, ar_TimeStamp = time_unix stamp,
            ar_Counter = (d_Counter d)\<lparr>c_ErrorList := [], c_ErrorMap := None\<rparr>,
            ar_Dimension = d_Name d, ar_DimensionValue = d_Value d, ar_Code = code\<rparr>)"

definition upsert_rows ::
  "('db, agg_row) sql_lib \<Rightarrow> agg_conf \<Rightarrow> string \<Rightarrow> agg_row list \<Rightarrow> (('db, 'z) sql_handle_scheme, unit) io" where
  "upsert_rows lib conf table recs =
     io_for (slices (sc_BatchSize (ac_SQLConf conf)) recs) (\<lambda>b.
       on_db (l_Upsert lib table (OnConflictAssignments table ''excluded'') b))"

definition DoAggregatedWriting ::
  "('db, agg_row) sql_lib \<Rightarrow> agg_conf \<Rightarrow> string \<Rightarrow> string \<Rightarrow> aggregate \<Rightarrow> (('db, 'z) sql_handle_scheme, unit) io" where
  "DoAggregatedWriting lib conf table orgID ag =
     io_bind (io_res (rmap (dim_row orgID orgID [] (ag_TimeStamp ag)) (Dimensions ag))) (upsert_rows lib conf table)"

definition graph_DoAggregatedWriting ::
  "('db, agg_row) sql_lib \<Rightarrow> agg_conf \<Rightarrow> string \<Rightarrow> string \<Rightarrow> string \<Rightarrow> graph_aggregate \<Rightarrow> (('db, 'z) sql_handle_scheme, unit) io" where
  "graph_DoAggregatedWriting lib conf table orgID apiID ag =
     io_bind (io_res (rmap (dim_row apiID orgID apiID (ag_TimeStamp (ga_Aggregate ag))) (graph_Dimensions ag)))
       (upsert_rows lib conf table)"

definition mcp_DoAggregatedWriting ::
  "('db, agg_row) sql_lib \<Rightarrow> agg_conf \<Rightarrow> string \<Rightarrow> string \<Rightarrow> string \<Rightarrow> mcp_aggregate \<Rightarrow> (('db, 'z) sql_handle_scheme, unit) io" where
  "mcp_DoAggregatedWriting lib conf table orgID apiID ag =
     io_bind (io_res (rmap (dim_row apiID orgID apiID (ag_TimeStamp (ma_Aggregate ag))) (mcp_Dimensions ag)))
       (upsert_rows lib conf table)"

section \<open>Writing a batch\<close>

definition aggregationTimeMinutes :: "agg_conf \<Rightarrow> i64" where
  "aggregationTimeMinutes conf = (if ac_StoreAnalyticsPerMinute conf then 1 else 60)"

text \<open>An aggregation reads and writes the windows remembered in \<open>lastDocumentTimestamp\<close>.\<close>

definition aggregating :: "(last_ts \<Rightarrow> ('m \<times> last_ts) res) \<Rightarrow> (('db, 'z) agg_handle_scheme, 'm) io" where
  "aggregating f h = (case f (h_last h) of Inl e \<Rightarrow> (Inl e, h) | Inr (m, ts) \<Rightarrow> (Inr m, h\<lparr>h_last := ts\<rparr>))"

definition item_date :: "item \<Rightarrow> string res" where
  "item_date v = rbind (assert_record v) (\<lambda>r. Inr (record_date r))"

definition write_aggregates ::
  "('db, agg_row) sql_lib \<Rightarrow> agg_conf \<Rightarrow> string \<Rightarrow> item list \<Rightarrow> (('db, 'z) agg_handle_scheme, unit) io" where
  "write_aggregates lib conf table data =
     io_bind (aggregating (AggregateData data (ac_TrackAllPaths conf) (ac_IgnoreTagPrefixList conf) [] (aggregationTimeMinutes conf)))
       (\<lambda>analyticsPerOrg. io_for analyticsPerOrg (\<lambda>(orgID, ag). DoAggregatedWriting lib conf table orgID ag))"

definition SQLAggregate_WriteData ::
  "('db, agg_row) sql_lib \<Rightarrow> agg_conf \<Rightarrow> item list \<Rightarrow> (('db, 'z) agg_handle_scheme, unit) io" where
  "SQLAggregate_WriteData lib conf data =
     (if data = [] then io_ret ()
      else if sc_TableSharding (ac_SQLConf conf)
        then shard_loop False item_date data (\<lambda>recDate recs.
          let table = shard_table AggregateSQLTable recDate
          in io_bind (use_table table) (\<lambda>_.
             io_bind (agg_ensureTable lib table) (\<lambda>_.
             io_bind (agg_ensureIndex lib conf (sc_Type (ac_SQLConf conf)) table False) (\<lambda>_.
               write_aggregates lib conf table recs)))) 0 0
      else write_aggregates lib conf AggregateSQLTable data)"

definition write_graph_aggregates ::
  "('db, agg_row) sql_lib \<Rightarrow> agg_conf \<Rightarrow> string \<Rightarrow> item list \<Rightarrow> (('db, 'z) agg_handle_scheme, unit) io" where
  "write_graph_aggregates lib conf table data =
     io_bind (aggregating (AggregateGraphData data [] (aggregationTimeMinutes conf))) (\<lambda>analyticsPerAPI.
       io_for analyticsPerAPI (\<lambda>(apiID, ag). graph_DoAggregatedWriting lib conf table (ag_OrgID (ga_Aggregate ag)) apiID ag))"

definition GraphSQLAggregate_WriteData ::
  "('db, agg_row) sql_lib \<Rightarrow> agg_conf \<Rightarrow> item list \<Rightarrow> (('db, 'z) agg_handle_scheme, unit) io" where
  "GraphSQLAggregate_WriteData lib conf data =
     (if data = [] then io_ret ()
      else if sc_TableSharding (ac_SQLConf conf)
        then shard_loop True item_date data (\<lambda>recDate recs.
          let table = shard_table AggregateGraphSQLTable recDate
          in io_bind (automigrate_shard lib table) (\<lambda>_. write_graph_aggregates lib conf table recs)) 0 0
      else write_graph_aggregates lib conf AggregateGraphSQLTable data)"

definition writeAggregatedSlice ::
  "('db, agg_row) sql_lib \<Rightarrow> agg_conf \<Rightarrow> item list \<Rightarrow> string \<Rightarrow> (('db, 'z) agg_handle_scheme, unit) io" where
  "writeAggregatedSlice lib conf data table =
     io_bind (aggregating (AggregateMCPData data [] (aggregationTimeMinutes conf))) (\<lambda>analyticsPerAPI.
       io_for analyticsPerAPI (\<lambda>(apiID, ag). mcp_DoAggregatedWriting lib conf table (ag_OrgID (ma_Aggregate ag)) apiID ag))"

definition ensureMCPAggregateShardedTable ::
  "('db, agg_row) sql_lib \<Rightarrow> string \<Rightarrow> (('db, 'z) sql_handle_scheme, string) io" where
  "ensureMCPAggregateShardedTable lib recDate =
     (let table = shard_table AggregateMCPSQLTable recDate
      in io_bind (use_table table) (\<lambda>_.
         io_bind (has_table lib table) (\<lambda>b.
         io_bind (if b then io_ret () else io_log (on_db (l_CreateTable lib table))) (\<lambda>_. io_ret table))))"

definition MCPSQLAggregate_WriteData ::
  "('db, agg_row) sql_lib \<Rightarrow> agg_conf \<Rightarrow> item list \<Rightarrow> (('db, 'z) agg_handle_scheme, unit) io" where
  "MCPSQLAggregate_WriteData lib conf data =
     (if data = [] then io_ret ()
      else if sc_TableSharding (ac_SQLConf conf)
        then shard_loop True item_date data (\<lambda>recDate recs.
          io_bind (ensureMCPAggregateShardedTable lib recDate) (writeAggregatedSlice lib conf recs)) 0 0
      else writeAggregatedSlice lib conf data AggregateMCPSQLTable)"

section \<open>One day after the other\<close>

definition item_day :: "item \<Rightarrow> string" where
  "item_day v = (case v of ItemRecord r \<Rightarrow> record_date r | ItemNil \<Rightarrow> [])"

lemma item_date_day: "ItemNil \<notin> set data \<Longrightarrow> list_all (\<lambda>v. item_date v = Inr (item_day v)) data"
proof (induction data)
  case (Cons v data)
  then show ?case by (cases v) (simp_all add: item_date_def item_day_def)
qed simp

text \<open>
  C23. With sharding the three pumps do the same as a loop over the runs of records of one day, in
  the order of the batch: each run is aggregated on its own and written to the table of its day,
  after the preparation of that table. This is for batches without nil items; a nil item at the
  head makes each of the pumps panic before anything is read or written.
\<close>

theorem sharded_WriteData_by_day:
  fixes lib :: "('db, agg_row) sql_lib" and h :: "('db, 'z) agg_handle_scheme"
  assumes "data \<noteq> []" and "sc_TableSharding (ac_SQLConf conf)"
  shows "(ItemNil \<notin> set data \<longrightarrow>
      SQLAggregate_WriteData lib conf data h = io_for (date_runs item_day data) (\<lambda>(day, recs).
        io_bind (use_table (''tyk_aggregated_'' @ day)) (\<lambda>_.
        io_bind (agg_ensureTable lib (''tyk_aggregated_'' @ day)) (\<lambda>_.
        io_bind (agg_ensureIndex lib conf (sc_Type (ac_SQLConf conf)) (''tyk_aggregated_'' @ day) False) (\<lambda>_.
          write_aggregates lib conf (''tyk_aggregated_'' @ day) recs)))) h \<and>
      GraphSQLAggregate_WriteData lib conf data h = io_for (date_runs item_day data) (\<lambda>(day, recs).
        io_bind (automigrate_shard lib (''tyk_graph_aggregated_'' @ day)) (\<lambda>_.
          write_graph_aggregates lib conf (''tyk_graph_aggregated_'' @ day) recs)) h \<and>
      MCPSQLAggregate_WriteData lib conf data h = io_for (date_runs item_day data) (\<lambda>(day, recs).
        io_bind (ensureMCPAggregateShardedTable lib day) (writeAggregatedSlice lib conf recs)) h) \<and>
    (hd data = ItemNil \<longrightarrow>
      SQLAggregate_WriteData lib conf data h = (Inl (GoPanic ''interface conversion''), h) \<and>
      GraphSQLAggregate_WriteData lib conf data h = (Inl (GoPanic ''interface conversion''), h) \<and>
      MCPSQLAggregate_WriteData lib conf data h = (Inl (GoPanic ''interface conversion''), h))"
proof -
  have tabs: "shard_table AggregateSQLTable day = ''tyk_aggregated_'' @ day"
    "shard_table AggregateGraphSQLTable day = ''tyk_graph_aggregated_'' @ day" for day
    by (simp_all add: shard_table_def AggregateSQLTable_def AggregateGraphSQLTable_def)
  note defs = SQLAggregate_WriteData_def GraphSQLAggregate_WriteData_def MCPSQLAggregate_WriteData_def
  have runs: "ItemNil \<notin> set data \<Longrightarrow> shard_loop relast item_date data w 0 0 = io_for (date_runs item_day data) (\<lambda>(k, xs). w k xs)"
    for relast and w :: "string \<Rightarrow> item list \<Rightarrow> (('db, 'z) agg_handle_scheme, unit) io"
    by (rule shard_loop_eq [OF item_date_day assms(1)])
  have nil: "hd data = ItemNil \<Longrightarrow> shard_loop relast item_date data w 0 0 h = (Inl (GoPanic ''interface conversion''), h)"
    for relast and w :: "string \<Rightarrow> item list \<Rightarrow> (('db, 'z) agg_handle_scheme, unit) io"
    by (rule shard_loop_first_panics) (use assms(1) in \<open>simp add: hd_conv_nth item_date_def\<close>)
  show ?thesis using assms by (simp add: defs runs nil tabs Let_def)
qed

section \<open>Errors\<close>

text \<open>A view of the rows the database has taken: an upsert that fails has taken none.\<close>

definition upsert_log :: "('db, 'r) sql_lib \<Rightarrow> ('db \<Rightarrow> 'r list) \<Rightarrow> bool" where
  "upsert_log lib taken \<longleftrightarrow> (\<forall>t asg rs d r d'. l_Upsert lib t asg rs d = (r, d') \<longrightarrow>
     taken d' = taken d @ (case r of Inl e \<Rightarrow> [] | Inr u \<Rightarrow> rs))"

lemma upsert_logD: "upsert_log lib taken \<Longrightarrow> l_Upsert lib t asg rs d = (r, d') \<Longrightarrow>
    taken d' = taken d @ (case r of Inl e \<Rightarrow> [] | Inr u \<Rightarrow> rs)"
  by (simp add: upsert_log_def)

lemma upsert_rows_prefix:
  assumes "upsert_log lib taken" and "0 < sc_BatchSize (ac_SQLConf conf)" and "upsert_rows lib conf table recs h = (r, h')"
  shows "\<exists>k. k \<le> length recs \<and> taken (h_db h') = taken (h_db h) @ take k recs \<and> (r = Inr () \<longrightarrow> k = length recs)"
proof -
  have "\<exists>k. k \<le> length recs \<and> taken (h_db h') = taken (h_db h) @ map id (take k recs) \<and> (r = Inr () \<longrightarrow> k = length recs)"
  proof (rule slices.stored_prefix [OF assms(2) _ assms(3) [unfolded upsert_rows_def], where view = "\<lambda>s. taken (h_db s)"])
    fix ys r and s t :: "('a, 'b) sql_handle_scheme"
    assume run: "on_db (l_Upsert lib table (OnConflictAssignments table ''excluded'') ys) s = (r, t)"
    obtain q d where qd: "l_Upsert lib table (OnConflictAssignments table ''excluded'') ys (h_db s) = (q, d)" by fastforce
    with run have "q = r" "h_db t = d" by (auto simp: on_db_run)
    with upsert_logD [OF assms(1) qd] show "taken (h_db t) = taken (h_db s) @ (case r of Inl _ \<Rightarrow> [] | Inr _ \<Rightarrow> map id ys)"
      by (cases r) simp_all
  qed
  then show ?thesis by simp
qed

text \<open>
  When the write of an aggregate stops at an error, a prefix of its rows has been upserted and
  none of the others; when it returns without an error, all of them have, in the order of the
  dimensions. The rows themselves do not depend on the database or the batch size.
\<close>

theorem DoAggregatedWriting_prefix:
  assumes "upsert_log lib taken" and "0 < sc_BatchSize (ac_SQLConf conf)"
    and "DoAggregatedWriting lib conf table orgID ag h = (r, h')"
    and "rmap (dim_row orgID orgID [] (ag_TimeStamp ag)) (Dimensions ag) = Inr recs"
  shows "\<exists>k. k \<le> length recs \<and> taken (h_db h') = taken (h_db h) @ take k recs \<and>
    (r = Inr () \<longrightarrow> taken (h_db h') = taken (h_db h) @ recs)"
proof -
  from assms(3,4) have "upsert_rows lib conf table recs h = (r, h')" by (simp add: DoAggregatedWriting_def)
  from upsert_rows_prefix [OF assms(1,2) this] show ?thesis by auto
qed

section \<open>The total in the database\<close>

lemma rmap_Cons_Inr: "rmap f (x # xs) = Inr ys \<longleftrightarrow> (\<exists>z zs. f x = Inr z \<and> rmap f xs = Inr zs \<and> ys = z # zs)"
  by (auto simp: rbind_eq_Inr)

lemma dim_row_fields:
  "dim_row key orgID apiID stamp d = Inr r \<Longrightarrow> ar_OrgID r = orgID \<and> ar_Dimension r = d_Name d \<and>
     ar_DimensionValue r = d_Value d \<and> c_Hits (ar_Counter r) = c_Hits (d_Counter d)"
  by (auto simp: dim_row_def rbind_eq_Inr)

definition total_row :: "string \<Rightarrow> agg_row \<Rightarrow> bool" where
  "total_row org r \<longleftrightarrow> ar_OrgID r = org \<and> ar_Dimension r = [] \<and> ar_DimensionValue r = ''total''"

lemma total_rows_of_dims:
  assumes "rmap (dim_row key org apiID stamp) ds = Inr rows"
  shows "map (\<lambda>r. c_Hits (ar_Counter r)) (filter (total_row org') rows) =
    (if org' = org then map (\<lambda>d. c_Hits (d_Counter d)) (filter (\<lambda>d. d_Name d = [] \<and> d_Value d = ''total'') ds) else [])"
  using assms
proof (induction ds arbitrary: rows)
  case Nil
  then show ?case by simp
next
  case (Cons d ds)
  from Cons.prems obtain z zs where z: "dim_row key org apiID stamp d = Inr z" "rmap (dim_row key org apiID stamp) ds = Inr zs"
    "rows = z # zs" unfolding rmap_Cons_Inr by blast
  from dim_row_fields [OF z(1)] Cons.IH [OF z(2)] show ?case by (auto simp: z(3) total_row_def)
qed

lemma total_dims: "filter (\<lambda>d. d_Name d = [] \<and> d_Value d = ''total'') (Dimensions a) =
    [\<lparr>d_Name = [], d_Value = ''total'', d_Counter = fnLatencySetter (ag_Total a)\<rparr>]"
proof -
  have named: "filter (\<lambda>d. d_Name d = [] \<and> d_Value d = ''total'') (dims_of n m) = []"
    "filter (\<lambda>d. d_Name d = [] \<and> d_Value d = ''total'') (dims2_of n mm) = []" if "n \<noteq> []" for n m mm
    using that by (auto simp: dims_of_def dims2_of_def filter_empty_conv)
  show ?thesis by (simp add: Dimensions_def named)
qed

lemma fnLatencySetter_Hits [simp]: "c_Hits (fnLatencySetter c) = c_Hits c"
  by (simp add: fnLatencySetter_def)

lemma aggregates_totals:
  assumes log: "upsert_log lib taken" and n: "0 < sc_BatchSize (ac_SQLConf conf)"
    and "io_for m (\<lambda>(orgID, ag). DoAggregatedWriting lib conf table orgID ag) h = (Inr (), h')" and "distinct (map fst m)"
  shows "\<exists>rows. taken (h_db h') = taken (h_db h) @ rows \<and>
    map (\<lambda>r. c_Hits (ar_Counter r)) (filter (total_row org) rows) =
      (case gomap_get m org of None \<Rightarrow> [] | Some a \<Rightarrow> [c_Hits (ag_Total a)])"
  using assms(3,4)
proof (induction m arbitrary: h)
  case Nil
  then show ?case by simp
next
  case (Cons p m)
  obtain o' a where p: "p = (o', a)" by (cases p)
  from Cons.prems(1) obtain h1 where h1: "DoAggregatedWriting lib conf table o' a h = (Inr (), h1)"
    "io_for m (\<lambda>(orgID, ag). DoAggregatedWriting lib conf table orgID ag) h1 = (Inr (), h')"
    by (auto simp: p io_bind_Inr)
  from h1(1) obtain recs where recs: "rmap (dim_row o' o' [] (ag_TimeStamp a)) (Dimensions a) = Inr recs"
    "upsert_rows lib conf table recs h = (Inr (), h1)"
    by (cases "rmap (dim_row o' o' [] (ag_TimeStamp a)) (Dimensions a)") (auto simp: DoAggregatedWriting_def)
  have all: "taken (h_db h1) = taken (h_db h) @ recs"
    using upsert_rows_prefix [OF log n recs(2)] by auto
  from Cons.IH [OF h1(2)] Cons.prems(2) obtain rows where rows: "taken (h_db h') = taken (h_db h1) @ rows"
    "map (\<lambda>r. c_Hits (ar_Counter r)) (filter (total_row org) rows) =
      (case gomap_get m org of None \<Rightarrow> [] | Some a \<Rightarrow> [c_Hits (ag_Total a)])" by auto
  have mine: "map (\<lambda>r. c_Hits (ar_Counter r)) (filter (total_row org) recs) = (if org = o' then [c_Hits (ag_Total a)] else [])"
    using total_rows_of_dims [OF recs(1), of org] by (simp add: total_dims)
  have other: "org = o' \<Longrightarrow> gomap_get m org = None"
    using Cons.prems(2) by (simp add: p map_of_eq_None_iff)
  show ?case by (rule exI [of _ "recs @ rows"]) (use all rows mine other in \<open>auto simp: p\<close>)
qed

text \<open>
  From the batch to the database: when an unsharded write of the SQL aggregate pump returns
  without an error, the rows it has upserted contain exactly one total for each organisation of
  the batch, and its hits are the number of requests of that organisation in the batch (graph and
  MCP records and network statistics left out), in 64-bit arithmetic.
\<close>

theorem SQLAggregate_WriteData_total:
  fixes lib :: "('db, agg_row) sql_lib" and h :: "('db, 'z) agg_handle_scheme"
  assumes "upsert_log lib taken" and "0 < sc_BatchSize (ac_SQLConf conf)" and "\<not> sc_TableSharding (ac_SQLConf conf)"
    and "SQLAggregate_WriteData lib conf data h = (Inr (), h')"
    and "org \<noteq> []" and "rest_records org data \<noteq> []"
  shows "\<exists>rows. taken (h_db h') = taken (h_db h) @ rows \<and>
    map (\<lambda>r. c_Hits (ar_Counter r)) (filter (total_row org) rows) =
      [of_nat (length (filter is_request (rest_records org data)))]"
proof -
  let ?agg = "AggregateData data (ac_TrackAllPaths conf) (ac_IgnoreTagPrefixList conf) [] (aggregationTimeMinutes conf)"
  have "data \<noteq> []" using assms(6) by auto
  then have "write_aggregates lib conf AggregateSQLTable data h = (Inr (), h')"
    using assms(3,4) by (simp add: SQLAggregate_WriteData_def)
  then obtain m h1 where "aggregating ?agg h = (Inr m, h1)"
    and loop: "io_for m (\<lambda>(orgID, ag). DoAggregatedWriting lib conf AggregateSQLTable orgID ag) h1 = (Inr (), h')"
    by (auto simp: write_aggregates_def io_bind_Inr)
  then obtain ts where agg: "?agg (h_last h) = Inr (m, ts)" and h1: "h_db h1 = h_db h"
    by (auto simp: aggregating_def split: sum.splits)
  have "gomap_ok m" using rest.run_ok_map [OF agg [unfolded AggregateData_def]] by simp
  then have dist: "distinct (map fst m)" by (simp add: gomap_ok_def)
  obtain a where a: "gomap_get m org = Some a"
    using AggregateData_group [OF agg assms(5)] assms(6) by (auto split: list.splits simp del: rfold.simps)
  obtain r rs ts0 where "rfold (agg_step (ac_TrackAllPaths conf) (ac_IgnoreTagPrefixList conf))
      (fst (seed_aggregate [] (aggregationTimeMinutes conf) ts0 r)) (rest_records org data) = Inr a"
    using AggregateData_get [OF agg assms(5) a] by blast
  from agg_fold_total [OF this, of c_Hits]
  have hits: "c_Hits (ag_Total a) = of_nat (length (filter is_request (rest_records org data)))"
    by (simp add: seed_total_zero sum_gain additive_sel_def)
  from aggregates_totals [OF assms(1,2) loop dist, of org] show ?thesis by (simp add: a h1 hits)
qed

section \<open>A database that records the rows it takes\<close>

text \<open>It takes a batch if the rows stay below a limit, and refuses it otherwise.\<close>

definition log_lib :: "nat \<Rightarrow> (agg_row list, agg_row) sql_lib" where
  "log_lib limit = \<lparr>l_Dialector = ''mysql'', l_HasTable = (\<lambda>t d. True), l_HasIndex = (\<lambda>t i d. True),
     l_HasColumn = (\<lambda>t c d. True), l_CreateTable = (\<lambda>t d. (Inr (), d)), l_AutoMigrate = (\<lambda>t d. (Inr (), d)),
     l_Exec = (\<lambda>q d. (Inr (), d)), l_Raw = (\<lambda>q d. (Inr [], d)), l_Create = (\<lambda>t rs d. (Inr (), d @ rs)),
     l_Upsert = (\<lambda>t asg rs d. if length d + length rs \<le> limit then (Inr (), d @ rs) else (Inl (GoErr ''full''), d))\<rparr>"

lemma log_lib_log: "upsert_log (log_lib limit) id"
  by (auto simp: upsert_log_def log_lib_def split: if_splits)

definition sample_agg_conf :: "bool \<Rightarrow> nat \<Rightarrow> agg_conf" where
  "sample_agg_conf sharding n = \<lparr>ac_SQLConf = sample_sql_conf sharding n, ac_EnvPrefix = [], ac_TrackAllPaths = False,
     ac_IgnoreTagPrefixList = [], ac_ThresholdLenTagList = 0, ac_StoreAnalyticsPerMinute = False,
     ac_IgnoreAggregationsList = [], ac_OmitIndexCreation = False\<rparr>"

definition sample_agg_handle :: "agg_row list agg_handle" where
  "sample_agg_handle = \<lparr>h_db = [], h_table = None, h_last = []\<rparr>"

lemma ProcessStatusCodes_Nil [simp]: "ProcessStatusCodes [] c = Inr c"
  by (simp add: ProcessStatusCodes_def)

lemma errors_of_setter [simp]: "errors_of (fnLatencySetter c) = errors_of c"
  by (simp add: fnLatencySetter_def errors_of_def)

definition sample_agg :: aggregate where
  "sample_agg = aggregate_New\<lparr>ag_APIID := [(''a'', counter_zero)], ag_Total := counter_zero\<rparr>"

lemma sample_agg_rows:
  "\<exists>x y. rmap (dim_row ''o'' ''o'' [] (ag_TimeStamp sample_agg)) (Dimensions sample_agg) = Inr [x, y]"
proof -
  have "errors_of counter_zero = []" by (simp add: counter_zero_def errors_of_def)
  then show ?thesis
    by (simp add: sample_agg_def aggregate_New_def Dimensions_def dims_of_def dims2_of_def dim_row_def)
qed

theorem DoAggregatedWriting_prefix_witness:
  "\<exists>recs k. rmap (dim_row ''o'' ''o'' [] (ag_TimeStamp sample_agg)) (Dimensions sample_agg) = Inr recs \<and> length recs = 2 \<and>
     k \<le> 2 \<and> h_db (snd (DoAggregatedWriting (log_lib 1) (sample_agg_conf False 1) AggregateSQLTable ''o'' sample_agg sample_agg_handle))
       = take k recs"
proof -
  obtain x y where xy: "rmap (dim_row ''o'' ''o'' [] (ag_TimeStamp sample_agg)) (Dimensions sample_agg) = Inr [x, y]"
    using sample_agg_rows by blast
  obtain r h' where run: "DoAggregatedWriting (log_lib 1) (sample_agg_conf False 1) AggregateSQLTable ''o'' sample_agg sample_agg_handle = (r, h')"
    by fastforce
  have n: "0 < sc_BatchSize (ac_SQLConf (sample_agg_conf False 1))" by (simp add: sample_agg_conf_def sample_sql_conf_def)
  obtain k where k: "k \<le> length [x, y]" "id (h_db h') = id (h_db sample_agg_handle) @ take k [x, y]"
    using DoAggregatedWriting_prefix [OF log_lib_log n run xy] by blast
  then have "k \<le> 2" "h_db h' = take k [x, y]" by (simp_all add: sample_agg_handle_def)
  with xy run show ?thesis by (intro exI [of _ "[x, y]"] exI [of _ k]) simp
qed

theorem sharded_WriteData_by_day_witness:
  "MCPSQLAggregate_WriteData (log_lib 9) (sample_agg_conf True 2) [ItemNil] sample_agg_handle =
     (Inl (GoPanic ''interface conversion''), sample_agg_handle)"
  using sharded_WriteData_by_day [of "[ItemNil]" "sample_agg_conf True 2" "log_lib 9" sample_agg_handle]
  by (simp add: sample_agg_conf_def sample_sql_conf_def)

definition sample_total_batch :: "item list" where
  "sample_total_batch = [ItemRecord (sample_request ''o'' [] 200 0)]"

definition only_total :: "aggregate \<Rightarrow> bool" where
  "only_total a \<longleftrightarrow> Dimensions (a\<lparr>ag_Total := counter_zero\<rparr>) = [\<lparr>d_Name = [], d_Value = ''total'', d_Counter = counter_zero\<rparr>]
     \<and> errors_of (ag_Total a) = []"

lemma sample_total_batch_eval:
  "case AggregateData sample_total_batch False [] [] 60 [] of Inl e \<Rightarrow> False
   | Inr (m, ts) \<Rightarrow> (case m of [(org, a)] \<Rightarrow> org = ''o'' \<and> only_total a | _ \<Rightarrow> False)"
  by code_simp

lemma only_total_dims:
  "only_total a \<Longrightarrow> Dimensions a = [\<lparr>d_Name = [], d_Value = ''total'', d_Counter = fnLatencySetter (ag_Total a)\<rparr>]"
  by (simp add: only_total_def Dimensions_def)

lemma sample_total_runs:
  "\<exists>h'. SQLAggregate_WriteData (log_lib 9) (sample_agg_conf False 2) sample_total_batch sample_agg_handle = (Inr (), h')"
proof -
  obtain m ts where run: "AggregateData sample_total_batch False [] [] 60 [] = Inr (m, ts)"
    using sample_total_batch_eval by (cases "AggregateData sample_total_batch False [] [] 60 []") (simp, force)
  with sample_total_batch_eval have "case m of [(org, a)] \<Rightarrow> org = ''o'' \<and> only_total a | _ \<Rightarrow> False"
    by (simp only: sum.case prod.case)
  then obtain a where "m = [(''o'', a)]" and a2: "only_total a"
    by (cases m; cases "tl m") (simp_all add: case_prod_beta, metis prod.collapse)
  with run have a: "AggregateData sample_total_batch False [] [] 60 [] = Inr ([(''o'', a)], ts)" "only_total a" by simp_all
  from a(2) have "\<exists>x. rmap (dim_row ''o'' ''o'' [] (ag_TimeStamp a)) (Dimensions a) = Inr [x]"
    by (simp add: only_total_dims dim_row_def only_total_def)
  then obtain x where x: "rmap (dim_row ''o'' ''o'' [] (ag_TimeStamp a)) (Dimensions a) = Inr [x]" ..
  have one: "slices 2 [x] = [[x]]" by (simp add: slices_def slices_from.simps)
  have "write_aggregates (log_lib 9) (sample_agg_conf False 2) AggregateSQLTable sample_total_batch sample_agg_handle =
      (Inr (), sample_agg_handle\<lparr>h_last := ts, h_db := [x]\<rparr>)"
    using a(1) by (simp add: write_aggregates_def aggregating_def io_bind_def sample_agg_conf_def aggregationTimeMinutes_def
        sample_agg_handle_def DoAggregatedWriting_def x upsert_rows_def sample_sql_conf_def one on_db_run log_lib_def)
  then show ?thesis by (simp add: SQLAggregate_WriteData_def sample_agg_conf_def sample_sql_conf_def sample_total_batch_def)
qed

theorem SQLAggregate_WriteData_total_witness:
  "map (\<lambda>r. c_Hits (ar_Counter r)) (filter (total_row ''o'')
     (h_db (snd (SQLAggregate_WriteData (log_lib 9) (sample_agg_conf False 2) sample_total_batch sample_agg_handle)))) = [1]"
proof -
  obtain h' where h': "SQLAggregate_WriteData (log_lib 9) (sample_agg_conf False 2) sample_total_batch sample_agg_handle = (Inr (), h')"
    using sample_total_runs by blast
  have c: "0 < sc_BatchSize (ac_SQLConf (sample_agg_conf False 2))" "\<not> sc_TableSharding (ac_SQLConf (sample_agg_conf False 2))"
    by (simp_all add: sample_agg_conf_def sample_sql_conf_def)
  have r: "rest_records ''o'' sample_total_batch = [sample_request ''o'' [] 200 0]" by (simp add: sample_total_batch_def)
  have e: "h_db sample_agg_handle = []" by (simp add: sample_agg_handle_def)
  from SQLAggregate_WriteData_total [OF log_lib_log c h', of "''o''"] show ?thesis
    by (auto simp: h' r e is_request_def)
qed

end
