(* ===== verification/Mongo_Pumps.thy ===== *)
theory Mongo_Pumps
  imports GoIO Uptime
begin

text \<open>
  The MongoDB pumps that store one document for each record: \<open>src/pumps/mongo.go\<close>,
  \<open>src/pumps/mongo_selective.go\<close>, \<open>src/pumps/graph_mongo.go\<close> and
  \<open>src/pumps/mcp_mongo.go\<close>. A batch is cut into sets by size, and each set is inserted with one
  call; the store is a record of functions over a database state. The locale \<open>accumulator\<close> is
  what the two loops that cut batches have in common, and is interpreted on both. The lemmas: what
  the sets hold and what they lose, and the channel on which the concurrent inserts report.
\<close>

section \<open>Configuration\<close>

type_synonym mongo_type = int

definition StandardMongo :: mongo_type where "StandardMongo = 0"
definition AWSDocumentDB :: mongo_type where "AWSDocumentDB = 1"
definition CosmosDB :: mongo_type where "CosmosDB = 2"

record base_mongo_conf =
  bm_EnvPrefix :: string
  bm_MongoURL :: string
  bm_MongoUseSSL :: bool
  bm_MongoSSLInsecureSkipVerify :: bool
  bm_MongoSSLAllowInvalidHostnames :: bool
  bm_MongoSSLCAFile :: string
  bm_MongoSSLPEMKeyfile :: string
  bm_MongoDBType :: mongo_type
  bm_OmitIndexCreation :: bool
  bm_MongoSessionConsistency :: string
  bm_MongoDriverType :: string
  bm_MongoDirectConnection :: bool

record mongo_conf =
  mg_Base :: base_mongo_conf
  mg_CollectionName :: string
  mg_MaxInsertBatchSizeBytes :: int
  mg_MaxDocumentSizeBytes :: int
  mg_CollectionCapMaxSizeBytes :: int
  mg_CollectionCapEnable :: bool

definition MiB :: int where "MiB = 1024 * 1024"
definition GiB :: int where "GiB = 1024 * 1024 * 1024"

definition getMongoDriverType :: "string \<Rightarrow> string" where
  "getMongoDriverType t = (if t = [] then ''mongo-go'' else t)"

record mongo_index =
  ix_Name :: string
  ix_Keys :: "(string \<times> int) list"
  ix_Background :: bool
  ix_IsTTLIndex :: bool
  ix_TTL :: int

definition plain_index :: "string \<Rightarrow> (string \<times> int) list \<Rightarrow> bool \<Rightarrow> mongo_index" where
  "plain_index n ks bg = \<lparr>ix_Name = n, ix_Keys = ks, ix_Background = bg, ix_IsTTLIndex = False, ix_TTL = 0\<rparr>"

text \<open>The calls of the storage library; a document carries the name of its collection.\<close>

record ('db, 'd) mongo_lib =
  ml_HasTable :: "string \<Rightarrow> ('db, bool) io"
  ml_CreateIndex :: "string \<Rightarrow> mongo_index \<Rightarrow> ('db, unit) io"
  ml_Migrate :: "string \<Rightarrow> int \<Rightarrow> ('db, unit) io"
  ml_Insert :: "'d list \<Rightarrow> ('db, unit) io"

section \<open>Start-up\<close>

definition capCollection :: "('db, 'd) mongo_lib \<Rightarrow> mongo_conf \<Rightarrow> ('db, bool) io" where
  "capCollection lib conf =
     (if \<not> mg_CollectionCapEnable conf then io_ret False
      else io_bind (io_try (ml_HasTable lib (mg_CollectionName conf))) (\<lambda>r.
        (case r of Inl e \<Rightarrow> io_ret False
         | Inr exists \<Rightarrow>
             if exists then io_ret False
             else (let maxBytes = (if mg_CollectionCapMaxSizeBytes conf = 0 then 5 * GiB else mg_CollectionCapMaxSizeBytes conf)
                   in io_bind (io_try (ml_Migrate lib (mg_CollectionName conf) maxBytes)) (\<lambda>r.
                        io_ret (case r of Inl e \<Rightarrow> False | Inr u \<Rightarrow> True))))))"

text \<open>Standard MongoDB gets no index if the collection is there; a failed test counts as absent.\<close>

definition indexes_exist :: "('db, 'd) mongo_lib \<Rightarrow> base_mongo_conf \<Rightarrow> string \<Rightarrow> ('db, bool) io" where
  "indexes_exist lib conf collectionName =
     (if bm_OmitIndexCreation conf then io_ret True
      else if bm_MongoDBType conf = StandardMongo
        then io_bind (io_try (ml_HasTable lib collectionName)) (\<lambda>r. io_ret (case r of Inl e \<Rightarrow> False | Inr exists \<Rightarrow> exists))
      else io_ret False)"

definition mongo_ensureIndexes :: "('db, 'd) mongo_lib \<Rightarrow> mongo_conf \<Rightarrow> string \<Rightarrow> ('db, unit) io" where
  "mongo_ensureIndexes lib conf collectionName =
     (let bg = bm_MongoDBType (mg_Base conf) = StandardMongo
      in io_bind (indexes_exist lib (mg_Base conf) collectionName) (\<lambda>done.
           if done then io_ret ()
           else io_bind (ml_CreateIndex lib collectionName (plain_index [] [(''orgid'', 1)] bg)) (\<lambda>_.
                io_bind (ml_CreateIndex lib collectionName (plain_index [] [(''apiid'', 1)] bg)) (\<lambda>_.
                  ml_CreateIndex lib collectionName (plain_index ''logBrowserIndex''
                    [(''timestamp'', -1), (''orgid'', 1), (''apiid'', 1), (''apikey'', 1), (''responsecode'', 1)] bg)))))"

definition default_bytes :: "int \<Rightarrow> int" where
  "default_bytes n = (if n = 0 then 10 * MiB else n)"

text \<open>A failed connection ends the process; \<open>dial\<close> is the storage library's constructor.\<close>

definition mongo_connect ::
  "(base_mongo_conf \<Rightarrow> ('db, unit) io) \<Rightarrow> base_mongo_conf \<Rightarrow> ('db, base_mongo_conf) io" where
  "mongo_connect dial conf =
     (let conf = conf\<lparr>bm_MongoDriverType := getMongoDriverType (bm_MongoDriverType conf)\<rparr>
      in io_bind (io_try (dial conf)) (\<lambda>r.
           (case r of Inl e \<Rightarrow> io_fail (GoPanic (''exit: Failed to connect: '' @ e)) | Inr u \<Rightarrow> io_ret conf)))"

text \<open>
  \<open>Init\<close> of the Mongo pump once the configuration is decoded; \<open>envVars\<close> and \<open>legacyVars\<close> apply
  the variables of the environment. It does not fail on the collection or the indexes. The instance
  for uptime reports takes the fixed collection only if no URL is configured.
\<close>

definition mongo_start :: "('db, 'd) mongo_lib \<Rightarrow> (base_mongo_conf \<Rightarrow> ('db, unit) io) \<Rightarrow> mongo_conf \<Rightarrow> ('db, mongo_conf) io" where
  "mongo_start lib dial conf =
     (let conf = conf\<lparr>mg_MaxInsertBatchSizeBytes := default_bytes (mg_MaxInsertBatchSizeBytes conf),
                      mg_MaxDocumentSizeBytes := default_bytes (mg_MaxDocumentSizeBytes conf)\<rparr>
      in io_bind (mongo_connect dial (mg_Base conf)) (\<lambda>base.
         let conf = conf\<lparr>mg_Base := base\<rparr>
         in io_bind (capCollection lib conf) (\<lambda>_.
            io_bind (io_log (mongo_ensureIndexes lib conf (mg_CollectionName conf))) (\<lambda>_. io_ret conf))))"

definition mongo_Init ::
  "('db, 'd) mongo_lib \<Rightarrow> (base_mongo_conf \<Rightarrow> ('db, unit) io) \<Rightarrow> (mongo_conf \<Rightarrow> ('db, mongo_conf) io) \<Rightarrow>
     (mongo_conf \<Rightarrow> ('db, mongo_conf) io) \<Rightarrow> bool \<Rightarrow> mongo_conf \<Rightarrow> ('db, mongo_conf) io" where
  "mongo_Init lib dial envVars legacyVars isUptime conf =
     io_bind (if \<not> isUptime then io_bind (envVars conf) legacyVars
              else if bm_MongoURL (mg_Base conf) = []
              then io_bind (legacyVars conf) (\<lambda>conf. io_ret (conf\<lparr>mg_CollectionName := ''tyk_uptime_analytics''\<rparr>))
              else io_ret conf) (mongo_start lib dial)"

text \<open>\<open>Init\<close> of the graph and of the MCP pump, which have no legacy variables.\<close>

definition graph_mongo_Init ::
  "('db, 'd) mongo_lib \<Rightarrow> (base_mongo_conf \<Rightarrow> ('db, unit) io) \<Rightarrow> (mongo_conf \<Rightarrow> ('db, mongo_conf) io) \<Rightarrow> mongo_conf \<Rightarrow> ('db, mongo_conf) io" where
  "graph_mongo_Init lib dial envVars conf = io_bind (envVars conf) (mongo_start lib dial)"

definition mcp_mongo_Init ::
  "('db, 'd) mongo_lib \<Rightarrow> (base_mongo_conf \<Rightarrow> ('db, unit) io) \<Rightarrow> (mongo_conf \<Rightarrow> ('db, mongo_conf) io) \<Rightarrow> mongo_conf \<Rightarrow> ('db, mongo_conf) io" where
  "mcp_mongo_Init lib dial envVars conf = io_bind (envVars conf) (mongo_start lib dial)"

text \<open>An instance for uptime reports with a URL keeps the collection of its configuration, also if it has none.\<close>

lemma uptime_collection_kept:
  assumes "mongo_Init lib dial envVars legacyVars True conf s = (Inr conf', t)" and "bm_MongoURL (mg_Base conf) \<noteq> []"
  shows "mg_CollectionName conf' = mg_CollectionName conf"
  using assms by (auto simp: mongo_Init_def mongo_start_def Let_def io_bind_Inr)

section \<open>Cutting a batch into sets\<close>

text \<open>
  A loop over the items that skips some and appends the others, with a size, to the current set;
  a set that would grow too large is closed first, and the last item of the batch closes its set.
\<close>

type_synonym 'd sets = "nat \<times> 'd list \<times> 'd list list"

definition put_item :: "(nat \<Rightarrow> bool) \<Rightarrow> 'd \<Rightarrow> nat \<Rightarrow> 'd sets \<Rightarrow> 'd sets" where
  "put_item small d k = (\<lambda>(acc, this, ret).
     if small (acc + k) then (acc + k, this @ [d], ret)
     else (k, [d], if this \<noteq> [] then ret @ [this] else ret))"

definition close_set :: "'d sets \<Rightarrow> 'd sets" where
  "close_set = (\<lambda>(acc, this, ret). (acc, this, ret @ [this]))"

locale accumulator =
  fixes pick :: "'a \<Rightarrow> ('d \<times> nat) option"
    and small :: "nat \<Rightarrow> bool"
    and loop :: "nat \<Rightarrow> nat \<Rightarrow> 'd sets \<Rightarrow> 'a list \<Rightarrow> 'd sets"
  assumes loop_Nil: "loop n i st [] = st"
    and loop_skip: "pick v = None \<Longrightarrow> loop n i st (v # vs) = loop n (Suc i) st vs"
    and loop_take: "pick v = Some (d, k) \<Longrightarrow> loop n i st (v # vs) =
      loop n (Suc i) (if i = n - 1 then close_set (put_item small d k st) else put_item small d k st) vs"
begin

definition fits :: "('d \<times> nat) list \<Rightarrow> bool" where
  "fits p \<longleftrightarrow> p \<noteq> [] \<and> (length p = 1 \<or> small (sum_list (map snd p)))"

text \<open>The closed sets and the open one hold what was picked, each within the limit.\<close>

definition holds :: "('d \<times> nat) list \<Rightarrow> 'd sets \<Rightarrow> bool" where
  "holds picked = (\<lambda>(acc, this, ret).
     \<exists>parts cur. ret = map (map fst) parts \<and> this = map fst cur \<and> concat parts @ cur = picked \<and>
       acc = sum_list (map snd cur) \<and> list_all fits parts \<and> (if cur = [] then picked = [] else fits cur))"

lemma holdsI: "ret = map (map fst) parts \<Longrightarrow> this = map fst cur \<Longrightarrow> concat parts @ cur = picked \<Longrightarrow>
    acc = sum_list (map snd cur) \<Longrightarrow> list_all fits parts \<Longrightarrow> (if cur = [] then picked = [] else fits cur) \<Longrightarrow> holds picked (acc, this, ret)"
  unfolding holds_def prod.case by (rule exI [of _ parts], rule exI [of _ cur], intro conjI)

lemma holdsE:
  assumes "holds picked (acc, this, ret)"
  obtains parts cur where "ret = map (map fst) parts" "this = map fst cur" "concat parts @ cur = picked"
    "acc = sum_list (map snd cur)" "list_all fits parts" "if cur = [] then picked = [] else fits cur"
  using assms unfolding holds_def prod.case by (elim exE conjE) (rule that)

lemma loop_append: "loop n i st (xs @ ys) = loop n (i + length xs) (loop n i st xs) ys"
proof (induction xs arbitrary: i st)
  case Nil
  then show ?case by (simp add: loop_Nil)
next
  case (Cons v xs)
  show ?case
  proof (cases "pick v")
    case None
    then show ?thesis using Cons.IH [of "Suc i" st] by (simp add: loop_skip)
  next
    case (Some p)
    obtain d k where "p = (d, k)" by (cases p)
    with Some show ?thesis by (simp add: loop_take Cons.IH)
  qed
qed

lemma holds_take:
  assumes "holds picked (acc, this, ret)"
  shows "holds (picked @ [(d, k)]) (put_item small d k (acc, this, ret))"
proof -
  from assms obtain parts cur where *: "ret = map (map fst) parts" "this = map fst cur" "concat parts @ cur = picked"
    "acc = sum_list (map snd cur)" "list_all fits parts" "if cur = [] then picked = [] else fits cur" by (rule holdsE)
  show ?thesis
  proof (cases "small (acc + k)")
    case True
    show ?thesis unfolding put_item_def prod.case
      by (simp only: True if_True, rule holdsI [of _ parts _ "cur @ [(d, k)]"]) (use * True in \<open>auto simp: fits_def\<close>)
  next
    case False
    show ?thesis unfolding put_item_def prod.case
      by (simp only: False if_False, rule holdsI [of _ "if cur = [] then parts else parts @ [cur]" _ "[(d, k)]"])
        (use * in \<open>auto simp: fits_def\<close>)
  qed
qed

lemma loop_holds:
  assumes "i + length vs < n" and "holds picked st"
  shows "holds (picked @ List.map_filter pick vs) (loop n i st vs)"
  using assms
proof (induction vs arbitrary: i picked st)
  case Nil
  then show ?case by (simp add: loop_Nil map_filter_simps)
next
  case (Cons v vs)
  show ?case
  proof (cases "pick v")
    case None
    with Cons show ?thesis by (simp add: loop_skip map_filter_simps)
  next
    case (Some p)
    obtain d k where p: "p = (d, k)" by (cases p)
    obtain acc this ret where st: "st = (acc, this, ret)" by (cases st)
    have "holds (picked @ [(d, k)]) (put_item small d k st)" using Cons.prems(2) by (simp add: st holds_take)
    with Cons.IH [of "Suc i" "picked @ [(d, k)]"] Cons.prems(1)
    have "holds ((picked @ [(d, k)]) @ List.map_filter pick vs) (loop n (Suc i) (put_item small d k st) vs)" by simp
    moreover have "i \<noteq> n - Suc 0" using Cons.prems(1) by simp
    ultimately show ?thesis by (simp add: Some p loop_take map_filter_simps)
  qed
qed

lemma loop_holds_init: "length xs < n \<Longrightarrow> holds (List.map_filter pick xs) (loop n 0 (0, [], []) xs)"
  using loop_holds [of 0 xs n "[]" "(0, [], [])"] by (simp add: holds_def)

text \<open>The loop over a whole batch: complete if the last item is picked, else one set is open.\<close>

lemma run_picked:
  assumes "pick v = Some (d, k)" and "loop (length (xs @ [v])) 0 (0, [], []) (xs @ [v]) = (acc, this, ret)"
  shows "\<exists>parts. ret = map (map fst) parts \<and> concat parts = List.map_filter pick (xs @ [v]) \<and> list_all fits parts"
proof -
  let ?st = "loop (length (xs @ [v])) 0 (0, [], []) xs"
  obtain t0 th0 r0 where st: "?st = (t0, th0, r0)" by (cases ?st)
  have "holds (List.map_filter pick xs) (t0, th0, r0)" using loop_holds_init [of xs "length (xs @ [v])"] st by simp
  then have h: "holds (List.map_filter pick xs @ [(d, k)]) (put_item small d k (t0, th0, r0))" by (rule holds_take)
  obtain t1 th1 r1 where new: "put_item small d k (t0, th0, r0) = (t1, th1, r1)" by (cases "put_item small d k (t0, th0, r0)")
  from h new obtain parts cur where *: "r1 = map (map fst) parts" "th1 = map fst cur"
    "concat parts @ cur = List.map_filter pick xs @ [(d, k)]" "list_all fits parts" "if cur = [] then List.map_filter pick xs @ [(d, k)] = [] else fits cur"
    by (auto elim: holdsE)
  have "th1 \<noteq> []" using new by (auto simp: put_item_def split: if_splits)
  moreover have "ret = r1 @ [th1]"
    using assms(2) st new by (auto simp: loop_append loop_take [OF assms(1)] loop_Nil close_set_def)
  ultimately show ?thesis using * by (intro exI [of _ "parts @ [cur]"]) (auto simp: assms(1) map_filter_def)
qed

lemma run_skipped:
  assumes "pick v = None" and "loop (length (xs @ [v])) 0 (0, [], []) (xs @ [v]) = (acc, this, ret)"
  shows "\<exists>parts cur. ret = map (map fst) parts \<and> this = map fst cur \<and>
    concat parts @ cur = List.map_filter pick (xs @ [v]) \<and> list_all fits parts \<and>
    (if cur = [] then List.map_filter pick (xs @ [v]) = [] else fits cur)"
proof -
  have "holds (List.map_filter pick xs) (acc, this, ret)"
    using loop_holds_init [of xs "length (xs @ [v])"] assms(2)
    by (simp add: loop_append loop_skip [OF assms(1)] loop_Nil)
  moreover have "List.map_filter pick (xs @ [v]) = List.map_filter pick xs" by (simp add: assms(1) map_filter_def)
  ultimately show ?thesis by (metis (no_types, lifting) holdsE)
qed

end

section \<open>The Mongo pump\<close>

definition mongo_shouldProcessItem :: "item \<Rightarrow> bool \<Rightarrow> analytics_record option" where
  "mongo_shouldProcessItem v isForGraphRecords =
     (case v of ItemNil \<Rightarrow> None
      | ItemRecord r \<Rightarrow> if r_ResponseCode r = -1 then None
                        else if isForGraphRecords \<and> \<not> IsGraphRecord r then None else Some r)"

definition getItemSizeBytes :: "analytics_record \<Rightarrow> nat" where
  "getItemSizeBytes r = length (r_RawRequest r) + length (r_RawResponse r) + 1024"

definition handleLargeDocuments :: "mongo_conf \<Rightarrow> analytics_record \<Rightarrow> nat \<Rightarrow> bool \<Rightarrow> analytics_record" where
  "handleLargeDocuments conf r sizeBytes isGraphRecord =
     (if int sizeBytes > mg_MaxDocumentSizeBytes conf \<and> \<not> isGraphRecord
      then r\<lparr>r_RawRequest := [],
             r_RawResponse := b64_encode ''Document too large, not writing raw request and raw response!''\<rparr>
      else r)"

definition mongo_accumulate ::
  "mongo_conf \<Rightarrow> 'd list \<Rightarrow> 'd list list \<Rightarrow> 'd \<Rightarrow> nat \<Rightarrow> nat \<Rightarrow> bool \<Rightarrow> 'd sets" where
  "mongo_accumulate conf thisResultSet returnArray thisItem sizeBytes acc isLastItem =
     (let (acc, thisResultSet, returnArray) =
            (if int (acc + sizeBytes) \<le> mg_MaxInsertBatchSizeBytes conf then (acc + sizeBytes, thisResultSet, returnArray)
             else (sizeBytes, [], if thisResultSet \<noteq> [] then returnArray @ [thisResultSet] else returnArray));
          thisResultSet = thisResultSet @ [thisItem];
          returnArray = (if isLastItem then returnArray @ [thisResultSet] else returnArray)
      in (acc, thisResultSet, returnArray))"

definition store_item :: "mongo_conf \<Rightarrow> bool \<Rightarrow> analytics_record \<Rightarrow> analytics_record \<times> nat" where
  "store_item conf g r =
     (let r = r\<lparr>r_CollectionName := mg_CollectionName conf\<rparr>; sizeBytes = getItemSizeBytes r
      in (handleLargeDocuments conf r sizeBytes g, sizeBytes))"

fun mongo_loop ::
  "mongo_conf \<Rightarrow> bool \<Rightarrow> nat \<Rightarrow> nat \<Rightarrow> analytics_record sets \<Rightarrow> item list \<Rightarrow> analytics_record sets" where
  "mongo_loop conf g n i st [] = st"
| "mongo_loop conf g n i st (v # vs) =
     (case mongo_shouldProcessItem v g of
        None \<Rightarrow> mongo_loop conf g n (Suc i) st vs
      | Some r \<Rightarrow>
          (let (acc, this, ret) = st; (d, sizeBytes) = store_item conf g r
           in mongo_loop conf g n (Suc i) (mongo_accumulate conf this ret d sizeBytes acc (i = n - 1)) vs))"

definition AccumulateSet :: "mongo_conf \<Rightarrow> item list \<Rightarrow> bool \<Rightarrow> analytics_record list list" where
  "AccumulateSet conf data isForGraphRecords =
     (let (acc, this, ret) = mongo_loop conf isForGraphRecords (length data) 0 (0, [], []) data
      in if length this > 0 \<and> length ret = 0 then ret @ [this] else ret)"

definition mongo_pick :: "mongo_conf \<Rightarrow> bool \<Rightarrow> item \<Rightarrow> (analytics_record \<times> nat) option" where
  "mongo_pick conf g v = map_option (store_item conf g) (mongo_shouldProcessItem v g)"

definition mongo_small :: "mongo_conf \<Rightarrow> nat \<Rightarrow> bool" where
  "mongo_small conf n \<longleftrightarrow> int n \<le> mg_MaxInsertBatchSizeBytes conf"

lemma mongo_accumulate_eq:
  "mongo_accumulate conf this ret d k acc isLast =
     (if isLast then close_set (put_item (mongo_small conf) d k (acc, this, ret)) else put_item (mongo_small conf) d k (acc, this, ret))"
  by (simp add: mongo_accumulate_def put_item_def close_set_def mongo_small_def Let_def)

interpretation mongo: accumulator "mongo_pick conf g" "mongo_small conf" "mongo_loop conf g" for conf g
proof
  fix n i and st :: "analytics_record sets" and v vs d k
  assume "mongo_pick conf g v = Some (d, k)"
  then show "mongo_loop conf g n i st (v # vs) = mongo_loop conf g n (Suc i)
      (if i = n - 1 then close_set (put_item (mongo_small conf) d k st) else put_item (mongo_small conf) d k st) vs"
    by (cases st) (auto simp: mongo_pick_def mongo_accumulate_eq)
qed (auto simp: mongo_pick_def)

section \<open>The selective pump\<close>

record selective_conf =
  sl_Base :: base_mongo_conf
  sl_MaxInsertBatchSizeBytes :: int
  sl_MaxDocumentSizeBytes :: int

definition selective_connect :: "(base_mongo_conf \<Rightarrow> ('db, unit) io) \<Rightarrow> base_mongo_conf \<Rightarrow> ('db, base_mongo_conf) io" where
  "selective_connect dial conf =
     (let conf = conf\<lparr>bm_MongoDriverType := getMongoDriverType (bm_MongoDriverType conf)\<rparr>
      in io_bind (io_try (dial conf)) (\<lambda>r.
           (case r of Inl e \<Rightarrow> io_fail (GoPanic (''exit: Failed to connect to mongo: '' @ e)) | Inr u \<Rightarrow> io_ret conf)))"

definition selective_Init :: "(base_mongo_conf \<Rightarrow> ('db, unit) io) \<Rightarrow> selective_conf \<Rightarrow> ('db, selective_conf) io" where
  "selective_Init dial conf =
     (let conf = conf\<lparr>sl_MaxInsertBatchSizeBytes := default_bytes (sl_MaxInsertBatchSizeBytes conf),
                      sl_MaxDocumentSizeBytes := default_bytes (sl_MaxDocumentSizeBytes conf)\<rparr>
      in io_bind (selective_connect dial (sl_Base conf)) (\<lambda>base. io_ret (conf\<lparr>sl_Base := base\<rparr>)))"

definition selective_GetCollectionName :: "string \<Rightarrow> string res" where
  "selective_GetCollectionName orgid =
     (if orgid = [] then Inl (GoErr ''OrgID cannot be empty'') else Inr (''z_tyk_analyticz_'' @ orgid))"

text \<open>An error about an index of another name that does the same is not an error.\<close>

definition selective_ensureIndexes :: "('db, 'd) mongo_lib \<Rightarrow> selective_conf \<Rightarrow> string \<Rightarrow> ('db, unit) io" where
  "selective_ensureIndexes lib conf collectionName =
     (let bg = bm_MongoDBType (sl_Base conf) = StandardMongo
      in io_bind (indexes_exist lib (sl_Base conf) collectionName) (\<lambda>done.
           if done then io_ret ()
           else io_bind (ml_CreateIndex lib collectionName (plain_index [] [(''apiid'', 1)] bg)) (\<lambda>_.
                io_bind (if bm_MongoDBType (sl_Base conf) = CosmosDB then io_ret ()
                         else ml_CreateIndex lib collectionName
                           \<lparr>ix_Name = [], ix_Keys = [(''expireAt'', 1)], ix_Background = bg, ix_IsTTLIndex = True, ix_TTL = 0\<rparr>) (\<lambda>_.
                io_bind (io_try (ml_CreateIndex lib collectionName (plain_index ''logBrowserIndex''
                    [(''timestamp'', -1), (''apiid'', 1), (''apikey'', 1), (''responsecode'', 1)] bg))) (\<lambda>r.
                  (case r of Inr u \<Rightarrow> io_ret ()
                   | Inl e \<Rightarrow> if str_contains e ''already exists with a different name'' then io_ret () else io_fail (GoErr e)))))))"

definition processItem :: "item \<Rightarrow> analytics_record option" where
  "processItem v = (case v of ItemNil \<Rightarrow> None | ItemRecord r \<Rightarrow> if r_ResponseCode r = -1 then None else Some r)"

definition selective_getItemSizeBytes :: "selective_conf \<Rightarrow> analytics_record \<Rightarrow> int" where
  "selective_getItemSizeBytes conf r =
     (let sizeBytes = int (length (r_RawRequest r) + length (r_RawResponse r) + 1024)
      in if sizeBytes > sl_MaxDocumentSizeBytes conf then -1 else sizeBytes)"

definition selective_accumulate ::
  "selective_conf \<Rightarrow> 'd list \<Rightarrow> 'd list list \<Rightarrow> 'd \<Rightarrow> int \<Rightarrow> nat \<Rightarrow> bool \<Rightarrow> 'd sets" where
  "selective_accumulate conf thisResultSet returnArray thisItem sizeBytes acc isLastItem =
     (if sizeBytes < 0 then (acc, thisResultSet, returnArray)
      else (let (acc, thisResultSet, returnArray) =
                  (if int acc + sizeBytes < sl_MaxInsertBatchSizeBytes conf then (acc + nat sizeBytes, thisResultSet, returnArray)
                   else (nat sizeBytes, [], if thisResultSet \<noteq> [] then returnArray @ [thisResultSet] else returnArray));
                thisResultSet = thisResultSet @ [thisItem];
                returnArray = (if isLastItem then returnArray @ [thisResultSet] else returnArray)
            in (acc, thisResultSet, returnArray)))"

fun selective_loop ::
  "selective_conf \<Rightarrow> string \<Rightarrow> nat \<Rightarrow> nat \<Rightarrow> analytics_record sets \<Rightarrow> item list \<Rightarrow> analytics_record sets" where
  "selective_loop conf col n i st [] = st"
| "selective_loop conf col n i st (v # vs) =
     (case processItem v of
        None \<Rightarrow> selective_loop conf col n (Suc i) st vs
      | Some r \<Rightarrow>
          (let (acc, this, ret) = st; r = r\<lparr>r_CollectionName := col\<rparr>
           in selective_loop conf col n (Suc i)
                (selective_accumulate conf this ret r (selective_getItemSizeBytes conf r) acc (i = n - 1)) vs))"

definition selective_AccumulateSet :: "selective_conf \<Rightarrow> item list \<Rightarrow> string \<Rightarrow> analytics_record list list" where
  "selective_AccumulateSet conf data col =
     (let (acc, this, ret) = selective_loop conf col (length data) 0 (0, [], []) data in ret)"

definition selective_pick :: "selective_conf \<Rightarrow> string \<Rightarrow> item \<Rightarrow> (analytics_record \<times> nat) option" where
  "selective_pick conf col v =
     (case processItem v of None \<Rightarrow> None
      | Some r \<Rightarrow> (let r = r\<lparr>r_CollectionName := col\<rparr>; k = selective_getItemSizeBytes conf r
                    in if k < 0 then None else Some (r, nat k)))"

definition selective_small :: "selective_conf \<Rightarrow> nat \<Rightarrow> bool" where
  "selective_small conf n \<longleftrightarrow> int n < sl_MaxInsertBatchSizeBytes conf"

interpretation selective: accumulator "selective_pick conf col" "selective_small conf" "selective_loop conf col" for conf col
proof
  fix n i and st :: "analytics_record sets" and v vs
  assume "selective_pick conf col v = None"
  then show "selective_loop conf col n i st (v # vs) = selective_loop conf col n (Suc i) st vs"
    by (cases st) (auto simp: selective_pick_def selective_accumulate_def Let_def split: option.splits if_splits)
next
  fix n i and st :: "analytics_record sets" and v vs d k
  assume "selective_pick conf col v = Some (d, k)"
  then obtain r where r: "processItem v = Some r" "d = r\<lparr>r_CollectionName := col\<rparr>" "selective_getItemSizeBytes conf d = int k"
    by (auto simp: selective_pick_def Let_def split: option.splits if_splits)
  have "selective_accumulate conf this ret d (int k) acc isLast =
      (if isLast then close_set (put_item (selective_small conf) d k (acc, this, ret)) else put_item (selective_small conf) d k (acc, this, ret))"
    for acc this ret isLast
    by (simp add: selective_accumulate_def put_item_def close_set_def selective_small_def Let_def)
  then show "selective_loop conf col n i st (v # vs) = selective_loop conf col n (Suc i)
      (if i = n - 1 then close_set (put_item (selective_small conf) d k st) else put_item (selective_small conf) d k st) vs"
    using r by (cases st) simp
qed simp

text \<open>A nil item panics; records of an organisation without a name are dropped.\<close>

fun selective_groups ::
  "(string, item list) gomap \<Rightarrow> item list \<Rightarrow> (string, item list) gomap res" where
  "selective_groups m [] = Inr m"
| "selective_groups m (v # vs) =
     rbind (assert_record v) (\<lambda>r.
       if IsMCPRecord r then selective_groups m vs
       else (case selective_GetCollectionName (r_OrgID r) of
               Inl e \<Rightarrow> selective_groups m vs
             | Inr col \<Rightarrow> (case gomap_get m col of
                 None \<Rightarrow> selective_groups (gomap_set m col [v]) vs
               | Some items \<Rightarrow> selective_groups (gomap_set m col (items @ [v])) vs)))"

definition selective_WriteData ::
  "('db, analytics_record) mongo_lib \<Rightarrow> selective_conf \<Rightarrow> item list \<Rightarrow> ('db, unit) io" where
  "selective_WriteData lib conf data =
     io_bind (io_res (selective_groups [] data)) (\<lambda>perOrg.
       io_for perOrg (\<lambda>(colName, filteredData).
         io_for (selective_AccumulateSet conf filteredData colName) (\<lambda>dataSet.
           io_bind (io_log (selective_ensureIndexes lib conf colName)) (\<lambda>_. io_log (ml_Insert lib dataSet)))))"

text \<open>Uptime reports: a value that cannot be decoded leaves a nil document.\<close>

definition mongo_WriteUptimeData ::
  "('db, uptime_data option) mongo_lib \<Rightarrow> (string \<Rightarrow> uptime_data res) \<Rightarrow> string list \<Rightarrow> ('db, unit) io" where
  "mongo_WriteUptimeData lib unmarshal data =
     (if data = [] then io_ret ()
      else io_log (ml_Insert lib (map (\<lambda>v. case unmarshal v of Inl e \<Rightarrow> None | Inr u \<Rightarrow> Some u) data)))"

definition selective_WriteUptimeData ::
  "('db, uptime_data option) mongo_lib \<Rightarrow> (string \<Rightarrow> uptime_data res) \<Rightarrow> string list \<Rightarrow> ('db, unit) io" where
  "selective_WriteUptimeData lib unmarshal data =
     (if data = [] then io_ret ()
      else io_log (ml_Insert lib (map (\<lambda>v. case unmarshal v of Inl e \<Rightarrow> None | Inr u \<Rightarrow> Some u) data)))"

section \<open>What the sets hold\<close>

text \<open>The records a pump is to store, as it stores them, and the limit on a set of them.\<close>

definition mongo_stored :: "mongo_conf \<Rightarrow> bool \<Rightarrow> item list \<Rightarrow> (analytics_record \<times> nat) list" where
  "mongo_stored conf g data = List.map_filter (mongo_pick conf g) data"

definition selective_stored :: "selective_conf \<Rightarrow> string \<Rightarrow> item list \<Rightarrow> (analytics_record \<times> nat) list" where
  "selective_stored conf col data = List.map_filter (selective_pick conf col) data"

definition set_fits :: "(nat \<Rightarrow> bool) \<Rightarrow> ('d \<times> nat) list \<Rightarrow> bool" where
  "set_fits small p \<longleftrightarrow> p \<noteq> [] \<and> (length p = 1 \<or> small (sum_list (map snd p)))"

lemma fits_eq: "mongo.fits conf = set_fits (mongo_small conf)" "selective.fits conf' = set_fits (selective_small conf')"
  by (simp_all add: fun_eq_iff set_fits_def mongo.fits_def selective.fits_def)

lemma mongo_run:
  assumes "mongo_pick conf g v = Some p"
  shows "\<exists>parts. AccumulateSet conf (xs @ [v]) g = map (map fst) parts \<and> concat parts = mongo_stored conf g (xs @ [v]) \<and>
    list_all (set_fits (mongo_small conf)) parts"
proof -
  obtain d k where p: "mongo_pick conf g v = Some (d, k)" using assms by (cases p) simp
  obtain acc this ret where r: "mongo_loop conf g (length (xs @ [v])) 0 (0, [], []) (xs @ [v]) = (acc, this, ret)"
    by (cases "mongo_loop conf g (length (xs @ [v])) 0 (0, [], []) (xs @ [v])")
  obtain parts where parts: "ret = map (map fst) parts" "concat parts = mongo_stored conf g (xs @ [v])"
    "list_all (set_fits (mongo_small conf)) parts"
    using mongo.run_picked [OF p r] unfolding fits_eq mongo_stored_def by blast
  have "mongo_stored conf g (xs @ [v]) \<noteq> []" by (simp add: mongo_stored_def map_filter_def p)
  with parts have "ret \<noteq> []" by auto
  with r parts show ?thesis by (auto simp: AccumulateSet_def)
qed

text \<open>
  C8. If the last item of a batch is one the pump stores, the sets hold every record to store, once
  and in order, and every set is within the limit on a batch or is a single document; this is the
  case for the Mongo pump and for the selective pump.
\<close>

theorem AccumulateSet_complete:
  assumes "data \<noteq> []"
  shows "(mongo_pick conf g (last data) \<noteq> None \<longrightarrow> (\<exists>parts. AccumulateSet conf data g = map (map fst) parts \<and>
      concat parts = mongo_stored conf g data \<and> list_all (set_fits (mongo_small conf)) parts)) \<and>
    (selective_pick sconf col (last data) \<noteq> None \<longrightarrow> (\<exists>parts. selective_AccumulateSet sconf data col = map (map fst) parts \<and>
      concat parts = selective_stored sconf col data \<and> list_all (set_fits (selective_small sconf)) parts))"
proof -
  obtain xs v where data: "data = xs @ [v]" using assms by (cases data rule: rev_cases) auto
  have "\<exists>parts. selective_AccumulateSet sconf data col = map (map fst) parts \<and>
      concat parts = selective_stored sconf col data \<and> list_all (set_fits (selective_small sconf)) parts"
    if some: "selective_pick sconf col v \<noteq> None"
  proof -
    obtain d k where p: "selective_pick sconf col v = Some (d, k)" using some by auto
    obtain acc this ret where r: "selective_loop sconf col (length (xs @ [v])) 0 (0, [], []) (xs @ [v]) = (acc, this, ret)"
      by (cases "selective_loop sconf col (length (xs @ [v])) 0 (0, [], []) (xs @ [v])")
    from selective.run_picked [OF p r] r show ?thesis
      by (auto simp: selective_AccumulateSet_def selective_stored_def fits_eq data)
  qed
  with mongo_run [of conf g v _ xs] show ?thesis by (auto simp: data)
qed

text \<open>
  If the last item of a batch is one the pump skips (a nil item, network statistics, a record
  that is no graph record for the graph pump, a large document for the selective pump), the last
  set is lost: the Mongo pump drops it as soon as an earlier set was closed, the selective pump
  always. The lost set is not empty if there was anything to store.
\<close>

theorem AccumulateSet_loses_tail:
  assumes "data \<noteq> []"
  shows "(mongo_pick conf g (last data) = None \<longrightarrow> (\<exists>parts lost. mongo_stored conf g data = concat parts @ lost \<and>
      (lost = [] \<longrightarrow> mongo_stored conf g data = []) \<and>
      AccumulateSet conf data g = map (map fst) (if parts = [] \<and> lost \<noteq> [] then [lost] else parts))) \<and>
    (selective_pick sconf col (last data) = None \<longrightarrow> (\<exists>parts lost. selective_stored sconf col data = concat parts @ lost \<and>
      (lost = [] \<longrightarrow> selective_stored sconf col data = []) \<and>
      selective_AccumulateSet sconf data col = map (map fst) parts))"
proof -
  obtain xs v where data: "data = xs @ [v]" using assms by (cases data rule: rev_cases) auto
  have "\<exists>parts lost. mongo_stored conf g data = concat parts @ lost \<and>
      (lost = [] \<longrightarrow> mongo_stored conf g data = []) \<and>
      AccumulateSet conf data g = map (map fst) (if parts = [] \<and> lost \<noteq> [] then [lost] else parts)"
    if p: "mongo_pick conf g v = None"
  proof -
    obtain acc this ret where r: "mongo_loop conf g (length (xs @ [v])) 0 (0, [], []) (xs @ [v]) = (acc, this, ret)"
      by (cases "mongo_loop conf g (length (xs @ [v])) 0 (0, [], []) (xs @ [v])")
    obtain parts lost where *: "ret = map (map fst) parts" "this = map fst lost" "concat parts @ lost = mongo_stored conf g data"
      "if lost = [] then mongo_stored conf g data = [] else mongo.fits conf lost"
      using mongo.run_skipped [OF p r] unfolding mongo_stored_def data by blast
    show ?thesis
      by (rule exI [of _ parts], rule exI [of _ lost]) (use * r in \<open>auto simp: AccumulateSet_def data split: if_splits\<close>)
  qed
  moreover have "\<exists>parts lost. selective_stored sconf col data = concat parts @ lost \<and>
      (lost = [] \<longrightarrow> selective_stored sconf col data = []) \<and> selective_AccumulateSet sconf data col = map (map fst) parts"
    if p: "selective_pick sconf col v = None"
  proof -
    obtain acc this ret where r: "selective_loop sconf col (length (xs @ [v])) 0 (0, [], []) (xs @ [v]) = (acc, this, ret)"
      by (cases "selective_loop sconf col (length (xs @ [v])) 0 (0, [], []) (xs @ [v])")
    obtain parts lost where *: "ret = map (map fst) parts" "this = map fst lost" "concat parts @ lost = selective_stored sconf col data"
      "if lost = [] then selective_stored sconf col data = [] else selective.fits sconf lost"
      using selective.run_skipped [OF p r] unfolding selective_stored_def data by blast
    show ?thesis
      by (rule exI [of _ parts], rule exI [of _ lost]) (use * r in \<open>auto simp: selective_AccumulateSet_def data split: if_splits\<close>)
  qed
  ultimately show ?thesis by (simp add: data)
qed

definition sample_mongo_conf :: mongo_conf where
  "sample_mongo_conf = \<lparr>mg_Base = \<lparr>bm_EnvPrefix = [], bm_MongoURL = [], bm_MongoUseSSL = False,
       bm_MongoSSLInsecureSkipVerify = False, bm_MongoSSLAllowInvalidHostnames = False, bm_MongoSSLCAFile = [],
       bm_MongoSSLPEMKeyfile = [], bm_MongoDBType = StandardMongo, bm_OmitIndexCreation = False,
       bm_MongoSessionConsistency = [], bm_MongoDriverType = [], bm_MongoDirectConnection = False\<rparr>,
     mg_CollectionName = ''c'', mg_MaxInsertBatchSizeBytes = 2000, mg_MaxDocumentSizeBytes = 2000,
     mg_CollectionCapMaxSizeBytes = 0, mg_CollectionCapEnable = False\<rparr>"

definition sample_selective_conf :: selective_conf where
  "sample_selective_conf = \<lparr>sl_Base = mg_Base sample_mongo_conf, sl_MaxInsertBatchSizeBytes = 2000, sl_MaxDocumentSizeBytes = 2000\<rparr>"

definition sample_hit :: "string \<Rightarrow> i64 \<Rightarrow> item" where
  "sample_hit path code = ItemRecord (record_zero\<lparr>r_Path := path, r_ResponseCode := code\<rparr>)"

lemma sample_hit_picks:
  "mongo_pick sample_mongo_conf False (sample_hit p code) = (if code = -1 then None
     else Some (record_zero\<lparr>r_Path := p, r_ResponseCode := code, r_CollectionName := ''c''\<rparr>, 1024))"
  "selective_pick sample_selective_conf col (sample_hit p code) = (if code = -1 then None
     else Some (record_zero\<lparr>r_Path := p, r_ResponseCode := code, r_CollectionName := col\<rparr>, 1024))"
  by (simp_all add: mongo_pick_def selective_pick_def sample_hit_def mongo_shouldProcessItem_def processItem_def
      store_item_def getItemSizeBytes_def selective_getItemSizeBytes_def handleLargeDocuments_def sample_mongo_conf_def
      sample_selective_conf_def record_zero_def Let_def)

theorem AccumulateSet_complete_witness:
  "concat (AccumulateSet sample_mongo_conf [sample_hit ''/a'' (-1), sample_hit ''/b'' 200, sample_hit ''/c'' 404] False) =
     [record_zero\<lparr>r_Path := ''/b'', r_ResponseCode := 200, r_CollectionName := ''c''\<rparr>,
      record_zero\<lparr>r_Path := ''/c'', r_ResponseCode := 404, r_CollectionName := ''c''\<rparr>]"
proof -
  let ?data = "[sample_hit ''/a'' (-1), sample_hit ''/b'' 200, sample_hit ''/c'' 404]"
  have "mongo_pick sample_mongo_conf False (last ?data) \<noteq> None" by (simp add: sample_hit_picks)
  with AccumulateSet_complete [of ?data sample_mongo_conf False] obtain parts where
    p: "AccumulateSet sample_mongo_conf ?data False = map (map fst) parts" "concat parts = mongo_stored sample_mongo_conf False ?data"
    by blast
  have "concat (map (map fst) parts) = map fst (concat parts)" by (simp add: map_concat)
  with p show ?thesis by (simp add: mongo_stored_def map_filter_def sample_hit_picks)
qed

text \<open>Two documents that do not fit into one set, and a record of network statistics at the end.\<close>

theorem AccumulateSet_loses_tail_witness:
  "\<exists>parts lost. mongo_stored sample_mongo_conf False [sample_hit ''/a'' 200, sample_hit ''/b'' 200, sample_hit ''/c'' (-1)] = concat parts @ lost \<and>
     lost \<noteq> [] \<and> length (concat parts @ lost) = 2 \<and>
     AccumulateSet sample_mongo_conf [sample_hit ''/a'' 200, sample_hit ''/b'' 200, sample_hit ''/c'' (-1)] False =
       map (map fst) (if parts = [] \<and> lost \<noteq> [] then [lost] else parts)"
proof -
  let ?data = "[sample_hit ''/a'' 200, sample_hit ''/b'' 200, sample_hit ''/c'' (-1)]"
  have none: "mongo_pick sample_mongo_conf False (last ?data) = None" by (simp add: sample_hit_picks)
  have two: "length (mongo_stored sample_mongo_conf False ?data) = 2"
    by (simp add: mongo_stored_def map_filter_def sample_hit_picks)
  obtain parts lost where *: "mongo_stored sample_mongo_conf False ?data = concat parts @ lost"
    "lost = [] \<longrightarrow> mongo_stored sample_mongo_conf False ?data = []"
    "AccumulateSet sample_mongo_conf ?data False = map (map fst) (if parts = [] \<and> lost \<noteq> [] then [lost] else parts)"
    using conjunct1 [OF AccumulateSet_loses_tail, of ?data sample_mongo_conf False, rule_format, OF _ none] by blast
  have "lost \<noteq> []" using two *(2) by (metis list.size(3) zero_neq_numeral)
  moreover have "length (concat parts @ lost) = 2" using two *(1) by simp
  ultimately show ?thesis using * by blast
qed

section \<open>Concurrent inserts\<close>

text \<open>
  The sets a write inserts, each by a goroutine of its own; \<open>log.Fatal\<close> ends the process. The
  identifiers of new documents come from the driver: \<open>newID\<close> names that of the j-th document of
  the i-th set.
\<close>

definition mongo_WriteData :: "mongo_conf \<Rightarrow> item list \<Rightarrow> analytics_record list list res" where
  "mongo_WriteData conf data =
     (if mg_CollectionName conf = [] then Inl (GoPanic ''exit: No collection name!'')
      else (let filtered = filter (\<lambda>v. case v of ItemRecord r \<Rightarrow> \<not> IsMCPRecord r | ItemNil \<Rightarrow> True) data
            in if filtered = [] then Inr [] else Inr (AccumulateSet conf filtered False)))"

definition with_id :: "(nat \<Rightarrow> string) \<Rightarrow> (analytics_record \<Rightarrow> 'd) \<Rightarrow> analytics_record list \<Rightarrow> 'd list" where
  "with_id newID f dataSet = map (\<lambda>(j, r). f (r\<lparr>r_id := newID j\<rparr>)) (zip [0..<length dataSet] dataSet)"

definition graph_object :: "analytics_record \<Rightarrow> graph_record" where
  "graph_object r =
     (if \<not> gq_IsGraphQL (r_GraphQLStats r) then
        \<lparr>g_Types = [], g_AnalyticsRecord = r, g_OperationType = [], g_Variables = [], g_RootFields = [],
         g_Errors = [], g_HasErrors = False\<rparr>
      else ToGraphRecord r)"

definition graph_mongo_WriteData :: "mongo_conf \<Rightarrow> (nat \<Rightarrow> nat \<Rightarrow> string) \<Rightarrow> item list \<Rightarrow> graph_record list list res" where
  "graph_mongo_WriteData conf newID data =
     (if mg_CollectionName conf = [] then Inl (GoErr ''no collection name'')
      else (let sets = AccumulateSet conf data True
            in Inr (map (\<lambda>(i, dataSet). with_id (newID i) graph_object dataSet) (zip [0..<length sets] sets))))"

definition filterMCPData :: "item list \<Rightarrow> item list" where
  "filterMCPData data = filter (\<lambda>v. case v of ItemRecord r \<Rightarrow> IsMCPRecord r | ItemNil \<Rightarrow> False) data"

definition convertToMCPObjects :: "(nat \<Rightarrow> string) \<Rightarrow> analytics_record list \<Rightarrow> mcp_record list" where
  "convertToMCPObjects newID dataSet = with_id newID ToMCPRecord dataSet"

definition mcp_mongo_WriteData :: "mongo_conf \<Rightarrow> (nat \<Rightarrow> nat \<Rightarrow> string) \<Rightarrow> item list \<Rightarrow> mcp_record list list res" where
  "mcp_mongo_WriteData conf newID data =
     (if mg_CollectionName conf = [] then Inl (GoErr ''no collection name'')
      else (let mcpData = filterMCPData data
            in if mcpData = [] then Inr []
               else (let sets = AccumulateSet conf mcpData False
                     in Inr (map (\<lambda>(i, dataSet). convertToMCPObjects (newID i) dataSet) (zip [0..<length sets] sets)))))"

text \<open>
  What the goroutine of a set sends, given the result of its insert: the Mongo pump sends a nil
  after an error as well. The sends of the goroutines interleave. \<open>receive\<close> is the loop that
  waits for one message a set and returns at the first error, with what it leaves unread.
\<close>

definition mongo_messages :: "string option \<Rightarrow> string option list" where
  "mongo_messages err = (case err of Some e \<Rightarrow> [Some e, None] | None \<Rightarrow> [None])"

definition graph_messages :: "string option \<Rightarrow> string option list" where
  "graph_messages err = [err]"

inductive interleaved :: "'a list list \<Rightarrow> 'a list \<Rightarrow> bool" where
  interleaved_done: "list_all (\<lambda>xs. xs = []) xss \<Longrightarrow> interleaved xss []"
| interleaved_send: "i < length xss \<Longrightarrow> xss ! i = x # xs \<Longrightarrow> interleaved (xss[i := xs]) tr \<Longrightarrow> interleaved xss (x # tr)"

fun receive :: "nat \<Rightarrow> string option list \<Rightarrow> (string option \<times> string option list) option" where
  "receive 0 tr = Some (None, tr)"
| "receive (Suc n) [] = None"
| "receive (Suc n) (m # tr) = (case m of Some e \<Rightarrow> Some (Some e, tr) | None \<Rightarrow> receive n tr)"

definition sender_ok :: "string option list \<Rightarrow> bool" where
  "sender_ok xs \<longleftrightarrow> xs = [] \<or> xs = [None] \<or> (\<exists>e ys. xs = Some e # ys)"

lemma receive_reports:
  assumes "interleaved xss tr" and "list_all sender_ok xss"
  shows "\<exists>res rest. receive (length (filter (\<lambda>xs. xs \<noteq> []) xss)) tr = Some (res, rest) \<and>
    (res = None \<longrightarrow> list_all (\<lambda>xs. xs = [] \<or> xs = [None]) xss) \<and>
    (\<forall>e. res = Some e \<longrightarrow> (\<exists>ys. Some e # ys \<in> set xss))"
  using assms
proof (induction rule: interleaved.induct)
  case (interleaved_done xss)
  then have "filter (\<lambda>xs. xs \<noteq> []) xss = []" by (simp add: filter_empty_conv list_all_iff)
  moreover have "list_all (\<lambda>xs. xs = [] \<or> xs = [None]) xss"
    using interleaved_done.hyps by (auto simp: list_all_iff)
  ultimately show ?case by simp
next
  case (interleaved_send i xss x xs tr)
  have mem: "x # xs \<in> set xss" using interleaved_send.hyps(1,2) by (metis nth_mem)
  have ok: "sender_ok (x # xs)" using interleaved_send.prems mem by (simp add: list_all_iff)
  have "0 < length (filter (\<lambda>xs. xs \<noteq> []) xss)" using mem by (auto simp: length_greater_0_conv filter_empty_conv)
  then obtain n where n: "length (filter (\<lambda>xs. xs \<noteq> []) xss) = Suc n" by (cases "length (filter (\<lambda>xs. xs \<noteq> []) xss)") auto
  show ?case
  proof (cases x)
    case (Some e)
    with mem show ?thesis unfolding n by auto
  next
    case None
    with ok have xs: "xs = []" by (simp add: sender_ok_def)
    have split: "xss = take i xss @ (x # xs) # drop (Suc i) xss" using interleaved_send.hyps(1,2) by (metis id_take_nth_drop)
    have upd: "xss[i := xs] = take i xss @ xs # drop (Suc i) xss" using interleaved_send.hyps(1) by (rule upd_conv_take_nth_drop)
    have ok': "list_all sender_ok (xss[i := xs])"
      using interleaved_send.prems unfolding upd by (subst (asm) split) (simp add: xs sender_ok_def)
    have len: "length (filter (\<lambda>xs. xs \<noteq> []) (xss[i := xs])) = n"
      using n unfolding upd by (subst (asm) split) (simp add: xs)
    from interleaved_send.IH [OF ok'] obtain res rest where r: "receive n tr = Some (res, rest)"
      "res = None \<longrightarrow> list_all (\<lambda>xs. xs = [] \<or> xs = [None]) (xss[i := xs])"
      "\<forall>e. res = Some e \<longrightarrow> (\<exists>ys. Some e # ys \<in> set (xss[i := xs]))" unfolding len by blast
    have "res = None \<longrightarrow> list_all (\<lambda>xs. xs = [] \<or> xs = [None]) xss"
      using r(2) unfolding upd by (subst split) (simp add: xs None)
    moreover have "\<exists>ys. Some e # ys \<in> set xss" if "res = Some e" for e
    proof -
      from r(3) that obtain ys where "Some e # ys \<in> set (xss[i := xs])" by blast
      then have "Some e # ys \<in> set xss" unfolding upd by (subst split) (auto simp: xs)
      then show ?thesis ..
    qed
    ultimately show ?thesis unfolding n None by (auto simp: r(1))
  qed
qed

lemma interleaved_length: "interleaved xss tr \<Longrightarrow> length tr = sum_list (map length xss)"
proof (induction rule: interleaved.induct)
  case (interleaved_done xss)
  then show ?case by (induction xss) auto
next
  case (interleaved_send i xss x xs tr)
  have a: "xss = take i xss @ (x # xs) # drop (Suc i) xss" using interleaved_send.hyps(1,2) by (metis id_take_nth_drop)
  have b: "xss[i := xs] = take i xss @ xs # drop (Suc i) xss"
    using interleaved_send.hyps(1) by (rule upd_conv_take_nth_drop)
  have "sum_list (map length (take i xss @ (x # xs) # drop (Suc i) xss)) =
      Suc (sum_list (map length (take i xss @ xs # drop (Suc i) xss)))" by simp
  then have "sum_list (map length xss) = Suc (sum_list (map length (xss[i := xs])))"
    by (simp only: a [symmetric] b [symmetric])
  with interleaved_send.IH show ?case by simp
qed

lemma messages_ok:
  "list_all sender_ok (map mongo_messages rs)" "list_all sender_ok (map graph_messages rs)"
  "filter (\<lambda>xs. xs \<noteq> []) (map mongo_messages rs) = map mongo_messages rs"
  "filter (\<lambda>xs. xs \<noteq> []) (map graph_messages rs) = map graph_messages rs"
  by (auto simp: list_all_iff sender_ok_def mongo_messages_def graph_messages_def filter_id_conv split: option.splits)

text \<open>
  C24. However the inserts of a write interleave, the write ends once they have returned: it returns
  an error if and only if some insert failed, and the error is one of theirs. This holds for the
  Mongo pump, whose goroutines send once more after an error, and for the graph and MCP pumps.
\<close>

theorem concurrent_inserts_report:
  assumes "interleaved (map mongo_messages rs) tr" and "interleaved (map graph_messages rs) tr'"
  shows "(\<exists>res rest. receive (length rs) tr = Some (res, rest) \<and> (res = None \<longleftrightarrow> list_all (\<lambda>r. r = None) rs) \<and> (res \<noteq> None \<longrightarrow> res \<in> set rs)) \<and>
    (\<exists>res rest. receive (length rs) tr' = Some (res, rest) \<and> (res = None \<longleftrightarrow> list_all (\<lambda>r. r = None) rs) \<and> (res \<noteq> None \<longrightarrow> res \<in> set rs))"
proof -
  have gen: "\<exists>res rest. receive (length rs) tr = Some (res, rest) \<and> (res = None \<longleftrightarrow> list_all (\<lambda>r. r = None) rs) \<and>
      (res \<noteq> None \<longrightarrow> res \<in> set rs)"
    if run: "interleaved (map f rs) tr" and ok: "list_all sender_ok (map f rs)" and all: "filter (\<lambda>xs. xs \<noteq> []) (map f rs) = map f rs"
      and f: "\<And>r e ys. f r = Some e # ys \<longleftrightarrow> r = Some e \<and> ys = tl (f r)" "f None = [None]" for f tr
  proof -
    obtain res rest where r: "receive (length rs) tr = Some (res, rest)"
      "res = None \<longrightarrow> list_all (\<lambda>xs. xs = [] \<or> xs = [None]) (map f rs)"
      "\<forall>e. res = Some e \<longrightarrow> (\<exists>ys. Some e # ys \<in> set (map f rs))"
      using receive_reports [OF run ok] unfolding all by auto
    have err: "Some e \<in> set rs" if "res = Some e" for e
      using r(3) that f(1) by (auto simp: image_iff) metis
    moreover have "list_all (\<lambda>r. r = None) rs" if "res = None"
    proof -
      have "r = None" if "r \<in> set rs" for r
      proof (cases r)
        case (Some e)
        then have "f r = Some e # tl (f r)" using f(1) by blast
        with \<open>res = None\<close> r(2) \<open>r \<in> set rs\<close> show ?thesis by (auto simp: list_all_iff)
      qed
      then show ?thesis by (simp add: list_all_iff)
    qed
    ultimately show ?thesis using r(1) by (cases res) (auto simp: list_all_iff)
  qed
  have heads: "(mongo_messages r = Some e # ys) = (r = Some e \<and> ys = tl (mongo_messages r))"
    "(graph_messages r = Some e # ys) = (r = Some e \<and> ys = tl (graph_messages r))"
    "mongo_messages None = [None]" "graph_messages None = [None]" for r e ys
    by (auto simp: mongo_messages_def graph_messages_def split: option.splits)
  show ?thesis
    using gen [OF assms(1) messages_ok(1,3) heads(1,3)] gen [OF assms(2) messages_ok(2,4) heads(2,4)] by blast
qed

text \<open>
  If the inserts of two or more sets all fail, the write returns after one message and leaves more
  messages behind than the channel holds: some goroutine of the Mongo pump blocks for ever.
\<close>

lemma mongo_goroutine_leak:
  assumes "interleaved (map mongo_messages rs) tr" and "list_all (\<lambda>r. r \<noteq> None) rs" and "2 \<le> length rs"
  shows "\<exists>res rest. receive (length rs) tr = Some (res, rest) \<and> length rs < length rest"
proof -
  have "sum_list (map length (map mongo_messages rs)) = 2 * length rs"
    using assms(2) by (induction rs) (auto simp: mongo_messages_def)
  then have len: "length tr = 2 * length rs" using interleaved_length [OF assms(1)] by simp
  from assms(1) show ?thesis
  proof (cases rule: interleaved.cases)
    case interleaved_done
    with assms(3) len show ?thesis by simp
  next
    case (interleaved_send i x xs tr')
    then obtain e where "x = Some e" using assms(2)
      by (auto simp: mongo_messages_def list_all_length split: option.splits)
    then show ?thesis using len interleaved_send(1) assms(3) by (cases "length rs") auto
  qed
qed

theorem concurrent_inserts_report_witness:
  "\<exists>res rest. receive 2 [None, Some ''down'', None] = Some (res, rest) \<and> res \<in> {Some ''down''}"
proof -
  have m: "interleaved (map mongo_messages [Some ''down'', None]) [None, Some ''down'', None]"
    by (rule interleaved_send [where i = 1 and xs = "[]"]; (simp add: mongo_messages_def)?;
        rule interleaved_send [where i = 0 and xs = "[None]"]; (simp add: mongo_messages_def)?;
        rule interleaved_send [where i = 0 and xs = "[]"]; (simp add: interleaved_done)?)
  have g: "interleaved (map graph_messages [Some ''down'', None]) [Some ''down'', None]"
    by (rule interleaved_send [where i = 0 and xs = "[]"]; (simp add: graph_messages_def)?;
        rule interleaved_send [where i = 1 and xs = "[]"]; (simp add: interleaved_done)?)
  from conjunct1 [OF concurrent_inserts_report [OF m g]] show ?thesis by (auto simp: numeral_2_eq_2)
qed

end
