(* ===== verification/Aggregate_Docs.thy ===== *)
theory Aggregate_Docs
  imports Aggregate_SQL "HOL-Library.List_Lexorder" "HOL-Library.Char_ord"
begin

text \<open>
  The documents the Mongo aggregate pumps write, \<open>src/analytics/aggregate.go\<close> and
  \<open>src/analytics/aggregate_mcp.go\<close>: \<open>AsChange\<close>, the update that merges an aggregate into the
  stored document, and \<open>AsTimeUpdate\<close>, which recomputes its averages and lists. A document is an
  association list from paths to values. The lemmas: the paths of different units and fields
  never clash, so that the update holds exactly the counters of the aggregate; and the lists.
\<close>

section \<open>Updates\<close>

datatype bson = BInt i64 | BNum int | BFloat f64 | BStr string | BTime gotime
  | BErrors "error_data list" | BCounters "counter list"

type_synonym dbm = "(string, bson) gomap"

record bson_update =
  up_inc :: dbm
  up_set :: dbm
  up_max :: dbm
  up_min :: "dbm option"

definition put_all :: "dbm \<Rightarrow> (string \<times> bson) list \<Rightarrow> dbm" where
  "put_all m kvs = fold (\<lambda>(k, v) m. gomap_set m k v) kvs m"

definition constructor :: "string \<Rightarrow> string \<Rightarrow> string" where
  "constructor parent thisUnit = (if parent = [] then thisUnit @ ''.'' else parent @ ''.'' @ thisUnit @ ''.'')"

definition inc_fields :: "counter \<Rightarrow> (string \<times> bson) list" where
  "inc_fields c =
     [(''hits'', BInt (c_Hits c)), (''success'', BInt (c_Success c)), (''errortotal'', BInt (c_ErrorTotal c))] @
     map (\<lambda>(k, v). (''errormap.'' @ k, BInt v)) (errors_of c) @
     [(''totalrequesttime'', BFloat (c_TotalRequestTime c)), (''totalupstreamlatency'', BInt (c_TotalUpstreamLatency c)),
      (''totallatency'', BInt (c_TotalLatency c))]"

definition set_fields :: "counter \<Rightarrow> (string \<times> bson) list" where
  "set_fields c =
     [(''identifier'', BStr (c_Identifier c)), (''humanidentifier'', BStr (c_HumanIdentifier c)),
      (''lasttime'', BTime (c_LastTime c)), (''openconnections'', BInt (c_OpenConnections c)),
      (''closedconnections'', BInt (c_ClosedConnections c)), (''bytesin'', BInt (c_BytesIn c)),
      (''bytesout'', BInt (c_BytesOut c))]"

definition max_fields :: "counter \<Rightarrow> (string \<times> bson) list" where
  "max_fields c = [(''maxlatency'', BInt (c_MaxLatency c)), (''maxupstreamlatency'', BInt (c_MaxUpstreamLatency c))]"

definition min_fields :: "counter \<Rightarrow> (string \<times> bson) list" where
  "min_fields c = [(''minlatency'', BInt (c_MinLatency c)), (''minupstreamlatency'', BInt (c_MinUpstreamLatency c))]"

definition at_path :: "string \<Rightarrow> (string \<times> bson) list \<Rightarrow> (string \<times> bson) list" where
  "at_path p fs = map (\<lambda>(f, v). (p @ f, v)) fs"

text \<open>The minima of a unit without a single success are left out, and so is the whole \<open>$min\<close>.\<close>

definition generateBSONFromProperty :: "string \<Rightarrow> string \<Rightarrow> counter \<Rightarrow> bson_update \<Rightarrow> bson_update" where
  "generateBSONFromProperty parent thisUnit c u =
     (let p = constructor parent thisUnit
      in u\<lparr>up_inc := put_all (up_inc u) (at_path p (inc_fields c)),
           up_set := put_all (up_set u) (at_path p (set_fields c)),
           up_max := put_all (up_max u) (at_path p (max_fields c)),
           up_min := (if c_Hits c \<noteq> c_ErrorTotal c
                      then Some (put_all (case up_min u of None \<Rightarrow> [] | Some m \<Rightarrow> m) (at_path p (min_fields c)))
                      else up_min u)\<rparr>)"

definition time_fields :: "aggregate \<Rightarrow> (string \<times> bson) list" where
  "time_fields a =
     (let newTime = trunc_minute (ag_TimeStamp a)
      in [(''timestamp'', BTime newTime), (''expireAt'', BTime (ag_ExpireAt a)),
          (''timeid.year'', BNum (time_year newTime)), (''timeid.month'', BNum (int (time_month newTime))),
          (''timeid.day'', BNum (time_day newTime)), (''timeid.hour'', BNum (time_hour newTime)),
          (''lasttime'', BTime (ag_LastTime a))])"

text \<open>
  The total is one of the dimensions and is written once more after them. \<open>dims\<close> is the
  \<open>Dimensions\<close> method of the aggregate the call is made on: Go's embedding means that an MCP
  aggregate runs the method of its embedded aggregate.
\<close>

definition AsChange :: "aggregate \<Rightarrow> bson_update" where
  "AsChange a =
     (let u = \<lparr>up_inc = [], up_set = [], up_max = [], up_min = None\<rparr>;
          u = fold (\<lambda>d. generateBSONFromProperty (d_Name d) (d_Value d) (d_Counter d)) (Dimensions a) u;
          u = generateBSONFromProperty [] ''total'' (fnLatencySetter (ag_Total a)) u
      in u\<lparr>up_set := put_all (up_set u) (time_fields a)\<rparr>)"

section \<open>Averages and lists\<close>

definition errorlist :: "counter \<Rightarrow> error_data list" where
  "errorlist c = sort_key ed_Code (map (\<lambda>(k, v). \<lparr>ed_Code = k, ed_Count = v\<rparr>) (errors_of c))"

text \<open>\<open>SetErrorList\<close> and \<open>latencySetter\<close> store into the counter as well as into the update.\<close>

definition listed :: "counter \<Rightarrow> counter" where
  "listed c =
     c\<lparr>c_ErrorList := errorlist c,
       c_Latency := (if i64_lt 0 (c_Hits c) then f_div (f_of_int (c_TotalLatency c)) (f_of_int (c_Hits c)) else f_zero),
       c_UpstreamLatency := (if i64_lt 0 (c_Hits c) then f_div (f_of_int (c_TotalUpstreamLatency c)) (f_of_int (c_Hits c))
                             else f_zero)\<rparr>"

definition SetErrorList :: "string \<Rightarrow> string \<Rightarrow> counter \<Rightarrow> dbm \<Rightarrow> dbm" where
  "SetErrorList parent thisUnit c m = gomap_set m (constructor parent thisUnit @ ''errorlist'') (BErrors (errorlist c))"

definition generateSetterForTime :: "string \<Rightarrow> string \<Rightarrow> f64 \<Rightarrow> dbm \<Rightarrow> dbm" where
  "generateSetterForTime parent thisUnit realTime m =
     gomap_set m (constructor parent thisUnit @ ''requesttime'') (BFloat realTime)"

definition latencySetter :: "string \<Rightarrow> string \<Rightarrow> dbm \<Rightarrow> counter \<Rightarrow> dbm" where
  "latencySetter parent thisUnit m c =
     (let p = constructor parent thisUnit
      in gomap_set (gomap_set m (p @ ''latency'') (BFloat (c_Latency (listed c))))
           (p @ ''upstreamlatency'') (BFloat (c_UpstreamLatency (listed c))))"

definition request_average :: "counter \<Rightarrow> f64" where
  "request_average c = (if i64_lt 0 (c_Hits c) then f_div (c_TotalRequestTime c) (f_of_int (c_Hits c)) else f_zero)"

definition unit_update :: "string \<Rightarrow> string \<Rightarrow> counter \<Rightarrow> dbm \<Rightarrow> dbm" where
  "unit_update parent thisUnit c m =
     (let m = SetErrorList parent thisUnit c m;
          m = generateSetterForTime parent thisUnit (request_average c) m
      in latencySetter parent thisUnit m c)"

definition getRecords :: "string \<Rightarrow> units \<Rightarrow> dbm \<Rightarrow> counter list \<times> dbm" where
  "getRecords fieldName data m =
     (map (\<lambda>(k, c). listed c) data, fold (\<lambda>(k, c). unit_update fieldName k c) data m)"

definition put_list :: "string \<Rightarrow> string \<Rightarrow> units \<Rightarrow> dbm \<Rightarrow> dbm" where
  "put_list key fieldName data m = (let (rs, m) = getRecords fieldName data m in gomap_set m key (BCounters rs))"

definition base_lists :: "aggregate \<Rightarrow> (string \<times> units) list" where
  "base_lists a = [(''apiid'', ag_APIID a), (''errors'', ag_Errors a), (''versions'', ag_Versions a),
     (''apikeys'', ag_APIKeys a), (''oauthids'', ag_OauthIDs a), (''geo'', ag_Geo a), (''tags'', ag_Tags a),
     (''endpoints'', ag_Endpoints a)]"

definition put_endpoint_lists :: "string \<Rightarrow> (string, units) gomap \<Rightarrow> dbm \<Rightarrow> dbm" where
  "put_endpoint_lists n mm m =
     fold (\<lambda>(k, units). put_list (''lists.'' @ n @ ''.'' @ k) (n @ ''.'' @ k) units) mm m"

definition AsTimeUpdate :: "aggregate \<Rightarrow> dbm" where
  "AsTimeUpdate a =
     (let m = fold (\<lambda>(n, units). put_list (''lists.'' @ n) n units) (base_lists a) [];
          m = put_endpoint_lists ''keyendpoints'' (ag_KeyEndpoint a) m;
          m = put_endpoint_lists ''oauthendpoints'' (ag_OauthEndpoint a) m;
          m = put_list ''lists.apiendpoints'' ''apiendpoints'' (ag_ApiEndpoint a) m
      in unit_update [] ''total'' (ag_Total a) m)"

definition mcp_AsTimeUpdate :: "mcp_aggregate \<Rightarrow> dbm" where
  "mcp_AsTimeUpdate a =
     put_list ''lists.names'' ''names'' (ma_Names a)
       (put_list ''lists.primitives'' ''primitives'' (ma_Primitives a)
         (put_list ''lists.methods'' ''methods'' (ma_Methods a) (AsTimeUpdate (ma_Aggregate a))))"

section \<open>Paths\<close>

lemma last_segment:
  assumes eq: "P @ c # f = P' @ c # f'" and f: "c \<notin> set f" and f': "c \<notin> set f'"
  shows "P = P' \<and> f = f'"
proof -
  have last: "takeWhile (\<lambda>x. x \<noteq> c) (rev (Q @ c # g)) = rev g" if "c \<notin> set g" for Q g :: "'a list"
  proof -
    have "takeWhile (\<lambda>x. x \<noteq> c) (rev g @ c # rev Q) = rev g @ takeWhile (\<lambda>x. x \<noteq> c) (c # rev Q)"
      by (rule takeWhile_append2) (use that in auto)
    then show ?thesis by simp
  qed
  from last [OF f, of P] last [OF f', of P'] have "rev f = rev f'" unfolding eq by simp
  with eq show ?thesis by simp
qed

lemma first_segment:
  assumes "f @ c # P = f' @ c # P'" and "c \<notin> set f" and "c \<notin> set f'"
  shows "P = P' \<and> f = f'"
proof -
  have "rev (f @ c # P) = rev (f' @ c # P')" by (simp only: assms(1))
  then have "rev P @ c # rev f = rev P' @ c # rev f'" by simp
  from last_segment [OF this] assms(2,3) show ?thesis by simp
qed

lemma put_all_append: "put_all (put_all m xs) ys = put_all m (xs @ ys)"
  by (simp add: put_all_def)

lemma put_all_lookup:
  "gomap_get (put_all m kvs) k = (case map_of (rev kvs) k of Some v \<Rightarrow> Some v | None \<Rightarrow> gomap_get m k)"
proof (induction kvs rule: rev_induct)
  case Nil
  then show ?case by (simp add: put_all_def)
next
  case (snoc kv kvs)
  then show ?case by (cases kv) (simp add: put_all_def update_conv')
qed

lemma put_all_get:
  assumes "(k, v) \<in> set kvs" and "\<And>v'. (k, v') \<in> set kvs \<Longrightarrow> v' = v"
  shows "gomap_get (put_all m kvs) k = Some v"
proof -
  have "map_of (rev kvs) k \<noteq> None" using assms(1) by (simp add: map_of_eq_None_iff) force
  then obtain w where w: "map_of (rev kvs) k = Some w" by blast
  then have "(k, w) \<in> set kvs" by (auto dest: map_of_SomeD)
  with assms(2) w show ?thesis by (simp add: put_all_lookup)
qed

lemma put_all_get_other: "k \<notin> fst ` set kvs \<Longrightarrow> gomap_get (put_all m kvs) k = gomap_get m k"
proof -
  assume "k \<notin> fst ` set kvs"
  then have "map_of (rev kvs) k = None" by (simp add: map_of_eq_None_iff)
  then show ?thesis by (simp add: put_all_lookup)
qed

text \<open>The path of a dimension determines it.\<close>

definition unit_prefix :: "dimension \<Rightarrow> string" where
  "unit_prefix d = (if d_Name d = [] then d_Value d else d_Name d @ ''.'' @ d_Value d)"

lemma constructor_prefix: "constructor (d_Name d) (d_Value d) = unit_prefix d @ ''.''"
  by (simp add: constructor_def unit_prefix_def)

lemma base_names_no_dot: "n \<in> set base_names \<Longrightarrow> CHR ''.'' \<notin> set n \<and> n \<noteq> []"
  by (auto simp: base_names_def)

lemma Dimensions_shape:
  assumes "d \<in> set (Dimensions a)"
  obtains "d_Name d = []" "d_Value d = ''total''" "unit_prefix d = ''total''"
  | "CHR ''.'' \<notin> set (d_Name d)" "unit_prefix d = d_Name d @ CHR ''.'' # d_Value d"
proof (cases "d_Name d = []")
  case True
  with Dimensions_names [OF assms] base_names_no_dot have "d_Value d = ''total''" by blast
  with True that(1) show ?thesis by (simp add: unit_prefix_def)
next
  case False
  with Dimensions_names [OF assms] base_names_no_dot have "CHR ''.'' \<notin> set (d_Name d)" by blast
  with False that(2) show ?thesis by (simp add: unit_prefix_def)
qed

lemma unit_prefix_inj:
  assumes "d \<in> set (Dimensions a)" and "d' \<in> set (Dimensions a)" and "unit_prefix d = unit_prefix d'"
  shows "dim_key d = dim_key d'"
proof -
  have tot: "''total'' \<noteq> xs @ CHR ''.'' # ys" for xs ys
  proof
    assume "''total'' = xs @ CHR ''.'' # ys"
    then have "CHR ''.'' \<in> set ''total''" by simp
    then show False by simp
  qed
  from assms(1) show ?thesis
  proof (cases rule: Dimensions_shape)
    case 1
    from assms(2) show ?thesis
    proof (cases rule: Dimensions_shape)
      case 1
      with \<open>d_Name d = []\<close> \<open>d_Value d = ''total''\<close> show ?thesis by (simp add: dim_key_def)
    next
      case 2
      with 1(3) assms(3) tot show ?thesis by metis
    qed
  next
    case d: 2
    from assms(2) show ?thesis
    proof (cases rule: Dimensions_shape)
      case 1
      with d(2) assms(3) tot show ?thesis by metis
    next
      case 2
      with d assms(3) have "d_Name d @ CHR ''.'' # d_Value d = d_Name d' @ CHR ''.'' # d_Value d'" by simp
      from first_segment [OF this d(1) 2(1)] show ?thesis by (simp add: dim_key_def)
    qed
  qed
qed

lemma Dimensions_inj:
  assumes "maps_ok a" and "d \<in> set (Dimensions a)" and "d' \<in> set (Dimensions a)" and "unit_prefix d = unit_prefix d'"
  shows "d = d'"
  using Dimensions_distinct [OF assms(1)] unit_prefix_inj [OF assms(2-4)] assms(2,3)
  by (metis distinct_map inj_onD)

section \<open>What \<open>AsChange\<close> holds\<close>

definition plain_fields :: "string list" where
  "plain_fields = [''hits'', ''success'', ''errortotal'', ''totalrequesttime'', ''totalupstreamlatency'', ''totallatency'',
     ''maxlatency'', ''maxupstreamlatency'', ''minlatency'', ''minupstreamlatency'']"

definition code_key_ok :: "string \<Rightarrow> bool" where
  "code_key_ok k \<longleftrightarrow> CHR ''.'' \<notin> set k \<and> k \<notin> set plain_fields"

text \<open>The keys of an error map are response codes: no dot in them, and none is the name of a field.\<close>

definition codes_ok :: "counter \<Rightarrow> bool" where
  "codes_ok c \<longleftrightarrow> gomap_ok (errors_of c) \<and> list_all (\<lambda>(k, v). code_key_ok k) (errors_of c)"

definition wf_field :: "string \<Rightarrow> bool" where
  "wf_field f \<longleftrightarrow> f \<in> set plain_fields \<or> (\<exists>k. f = ''errormap.'' @ k \<and> code_key_ok k)"

lemma plain_no_dot: "f \<in> set plain_fields \<Longrightarrow> CHR ''.'' \<notin> set f"
  by (auto simp: plain_fields_def)

lemma wf_field_split:
  assumes "wf_field f"
  obtains "CHR ''.'' \<notin> set f" "f \<in> set plain_fields"
  | k where "f = ''errormap'' @ CHR ''.'' # k" "CHR ''.'' \<notin> set k" "k \<notin> set plain_fields"
  using assms plain_no_dot by (auto simp: wf_field_def code_key_ok_def)

lemma field_path_inj:
  assumes "P @ CHR ''.'' # f = P' @ CHR ''.'' # f'" and "wf_field f" and "wf_field f'"
  shows "P = P' \<and> f = f'"
  using assms(2)
proof (cases rule: wf_field_split)
  case f: 1
  from assms(3) show ?thesis
  proof (cases rule: wf_field_split)
    case 1
    from last_segment [OF assms(1) f(1) 1(1)] show ?thesis .
  next
    case (2 k)
    with assms(1) have "P @ CHR ''.'' # f = (P' @ CHR ''.'' # ''errormap'') @ CHR ''.'' # k" by simp
    from last_segment [OF this f(1) 2(2)] f(2) 2(3) show ?thesis by simp
  qed
next
  case f: (2 k)
  from assms(3) show ?thesis
  proof (cases rule: wf_field_split)
    case 1
    with assms(1) f have "(P @ CHR ''.'' # ''errormap'') @ CHR ''.'' # k = P' @ CHR ''.'' # f'" by simp
    from last_segment [OF this f(2) 1(1)] f(3) 1(2) show ?thesis by simp
  next
    case (2 k')
    with assms(1) f have "(P @ CHR ''.'' # ''errormap'') @ CHR ''.'' # k = (P' @ CHR ''.'' # ''errormap'') @ CHR ''.'' # k'"
      by simp
    from last_segment [OF this f(2) 2(2)] have "P @ CHR ''.'' # ''errormap'' = P' @ CHR ''.'' # ''errormap''" "k = k'" by auto
    with last_segment [of P "CHR ''.''" "''errormap''" P' "''errormap''"] f(1) 2(1) show ?thesis by simp
  qed
qed

definition entries :: "(dimension \<Rightarrow> (string \<times> bson) list) \<Rightarrow> dimension list \<Rightarrow> (string \<times> bson) list" where
  "entries F ds = concat (map (\<lambda>d. at_path (unit_prefix d @ ''.'') (F d)) ds)"

lemma entries_simps [simp]:
  "entries F [] = []" "entries F (d # ds) = at_path (unit_prefix d @ ''.'') (F d) @ entries F ds"
  by (simp_all add: entries_def)

lemma entries_iff: "(k, v) \<in> set (entries F ds) \<longleftrightarrow> (\<exists>d f. d \<in> set ds \<and> (f, v) \<in> set (F d) \<and> k = unit_prefix d @ ''.'' @ f)"
  by (auto simp: entries_def at_path_def)

text \<open>The entries of a set of dimensions answer for each of them.\<close>

lemma entries_get:
  assumes a: "maps_ok a" and ds: "set ds \<subseteq> set (Dimensions a)" and d: "d \<in> set (Dimensions a)"
    and wf: "\<And>d f v. d \<in> set ds \<Longrightarrow> (f, v) \<in> set (F d) \<Longrightarrow> wf_field f"
    and dist: "\<And>d. d \<in> set ds \<Longrightarrow> distinct (map fst (F d))"
    and f: "wf_field f"
  shows "gomap_get (put_all [] (entries F ds)) (unit_prefix d @ ''.'' @ f) =
    (if d \<in> set ds then map_of (F d) f else None)"
proof -
  let ?k = "unit_prefix d @ ''.'' @ f"
  have only: "d' = d \<and> f' = f"
    if "d' \<in> set ds" "(f', v) \<in> set (F d')" "?k = unit_prefix d' @ ''.'' @ f'" for d' f' v
  proof -
    have "unit_prefix d @ CHR ''.'' # f = unit_prefix d' @ CHR ''.'' # f'" using that(3) by simp
    from field_path_inj [OF this f wf [OF that(1,2)]] have "unit_prefix d' = unit_prefix d" "f' = f" by auto
    with Dimensions_inj [OF a, of d' d] ds d that(1) show ?thesis by auto
  qed
  show ?thesis
  proof (cases "d \<in> set ds \<and> map_of (F d) f \<noteq> None")
    case True
    then obtain v where v: "map_of (F d) f = Some v" by blast
    then have fv: "(f, v) \<in> set (F d)" by (rule map_of_SomeD)
    have "gomap_get (put_all [] (entries F ds)) ?k = Some v"
    proof (rule put_all_get)
      show "(?k, v) \<in> set (entries F ds)" using True fv unfolding entries_iff by blast
      fix w
      assume "(?k, w) \<in> set (entries F ds)"
      with only have "(f, w) \<in> set (F d)" unfolding entries_iff by blast
      with fv dist [of d] True show "w = v" by (meson eq_key_imp_eq_value)
    qed
    with True v show ?thesis by simp
  next
    case False
    have "?k \<notin> fst ` set (entries F ds)"
    proof
      assume "?k \<in> fst ` set (entries F ds)"
      then obtain w where "(?k, w) \<in> set (entries F ds)" by force
      then obtain d' f' where d': "d' \<in> set ds" "(f', w) \<in> set (F d')" "?k = unit_prefix d' @ ''.'' @ f'"
        unfolding entries_iff by blast
      from only [OF this] d' have "d \<in> set ds" "(f, w) \<in> set (F d)" by auto
      with False show False by (auto simp: map_of_eq_None_iff image_iff)
    qed
    then have "gomap_get (put_all [] (entries F ds)) ?k = None" by (simp add: put_all_get_other)
    with False show ?thesis by auto
  qed
qed

lemma change_fold:
  "up_inc (fold (\<lambda>d. generateBSONFromProperty (d_Name d) (d_Value d) (d_Counter d)) ds u) =
     put_all (up_inc u) (entries (\<lambda>d. inc_fields (d_Counter d)) ds)"
  "up_max (fold (\<lambda>d. generateBSONFromProperty (d_Name d) (d_Value d) (d_Counter d)) ds u) =
     put_all (up_max u) (entries (\<lambda>d. max_fields (d_Counter d)) ds)"
  by (induction ds arbitrary: u)
    (simp_all add: generateBSONFromProperty_def Let_def constructor_prefix put_all_append, simp_all add: put_all_def)

definition has_success :: "dimension \<Rightarrow> bool" where
  "has_success d \<longleftrightarrow> c_Hits (d_Counter d) \<noteq> c_ErrorTotal (d_Counter d)"

definition min_of :: "bson_update \<Rightarrow> dbm" where
  "min_of u = (case up_min u of None \<Rightarrow> [] | Some m \<Rightarrow> m)"

lemma change_fold_min:
  "min_of (fold (\<lambda>d. generateBSONFromProperty (d_Name d) (d_Value d) (d_Counter d)) ds u) =
     put_all (min_of u) (entries (\<lambda>d. min_fields (d_Counter d)) (filter has_success ds))"
proof (induction ds arbitrary: u)
  case Nil
  then show ?case by (simp add: put_all_def)
next
  case (Cons d ds)
  have "min_of (generateBSONFromProperty (d_Name d) (d_Value d) (d_Counter d) u) =
      put_all (min_of u) (if has_success d then at_path (unit_prefix d @ ''.'') (min_fields (d_Counter d)) else [])"
    by (simp add: generateBSONFromProperty_def Let_def constructor_prefix min_of_def has_success_def)
      (simp add: put_all_def)
  with Cons show ?case by (simp add: put_all_append)
qed

definition total_dim :: "aggregate \<Rightarrow> dimension" where
  "total_dim a = \<lparr>d_Name = [], d_Value = ''total'', d_Counter = fnLatencySetter (ag_Total a)\<rparr>"

lemma total_dim_in: "total_dim a \<in> set (Dimensions a)"
  by (simp add: Dimensions_def total_dim_def)

lemma AsChange_entries:
  defines "ds a \<equiv> Dimensions a @ [total_dim a]"
  shows "up_inc (AsChange a) = put_all [] (entries (\<lambda>d. inc_fields (d_Counter d)) (ds a))"
    and "up_max (AsChange a) = put_all [] (entries (\<lambda>d. max_fields (d_Counter d)) (ds a))"
    and "min_of (AsChange a) = put_all [] (entries (\<lambda>d. min_fields (d_Counter d)) (filter has_success (ds a)))"
proof -
  let ?u = "\<lparr>up_inc = [], up_set = [], up_max = [], up_min = None\<rparr>"
  let ?g = "fold (\<lambda>d. generateBSONFromProperty (d_Name d) (d_Value d) (d_Counter d)) (ds a) ?u"
  have g: "AsChange a = ?g\<lparr>up_set := put_all (up_set ?g) (time_fields a)\<rparr>"
    by (simp add: AsChange_def ds_def total_dim_def Let_def)
  show "up_inc (AsChange a) = put_all [] (entries (\<lambda>d. inc_fields (d_Counter d)) (ds a))"
    "up_max (AsChange a) = put_all [] (entries (\<lambda>d. max_fields (d_Counter d)) (ds a))"
    by (simp_all add: g change_fold)
  have "min_of (AsChange a) = min_of ?g" by (simp add: g min_of_def)
  then show "min_of (AsChange a) = put_all [] (entries (\<lambda>d. min_fields (d_Counter d)) (filter has_success (ds a)))"
    unfolding change_fold_min by (simp add: min_of_def)
qed

lemma wf_plain: "f \<in> set plain_fields \<Longrightarrow> wf_field f"
  by (simp add: wf_field_def)

lemma wf_errormap: "code_key_ok k \<Longrightarrow> wf_field (''errormap.'' @ k)"
  unfolding wf_field_def by blast

lemma inc_fields_wf:
  assumes "codes_ok c" and "(f, v) \<in> set (inc_fields c)"
  shows "wf_field f"
proof -
  have plain: "list_all (\<lambda>x. fst x \<in> set plain_fields)
      [(''hits'', BInt (c_Hits c)), (''success'', BInt (c_Success c)), (''errortotal'', BInt (c_ErrorTotal c))]"
    "list_all (\<lambda>x. fst x \<in> set plain_fields)
      [(''totalrequesttime'', BFloat (c_TotalRequestTime c)), (''totalupstreamlatency'', BInt (c_TotalUpstreamLatency c)),
       (''totallatency'', BInt (c_TotalLatency c))]"
    by (simp_all add: plain_fields_def)
  have errs: "list_all (\<lambda>x. wf_field (fst x)) (map (\<lambda>(k, n). (''errormap.'' @ k, BInt n)) (errors_of c))"
    unfolding list_all_iff
  proof
    fix x
    assume "x \<in> set (map (\<lambda>(k, n). (''errormap.'' @ k, BInt n)) (errors_of c))"
    then obtain k n where k: "(k, n) \<in> set (errors_of c)" "x = (''errormap.'' @ k, BInt n)" by (auto simp only: set_map image_iff split_paired_all prod.case)
    with assms(1) have "code_key_ok k" by (auto simp: codes_ok_def list_all_iff)
    with k(2) show "wf_field (fst x)" by (simp only: fst_conv wf_errormap)
  qed
  have "list_all (\<lambda>x. wf_field (fst x)) (inc_fields c)"
    unfolding inc_fields_def list_all_append
    by (intro conjI errs list.pred_mono_strong [OF plain(1)] list.pred_mono_strong [OF plain(2)] wf_plain)
  with assms(2) show ?thesis by (auto simp: list_all_iff)
qed

lemma inc_fields_distinct:
  assumes "codes_ok c"
  shows "distinct (map fst (inc_fields c))"
proof -
  have "map fst (inc_fields c) = [''hits'', ''success'', ''errortotal''] @
      map (\<lambda>k. ''errormap.'' @ k) (map fst (errors_of c)) @ [''totalrequesttime'', ''totalupstreamlatency'', ''totallatency'']"
    by (simp add: inc_fields_def case_prod_beta)
  moreover have "distinct (map (\<lambda>k. ''errormap.'' @ k) (map fst (errors_of c)))"
    using assms by (simp add: codes_ok_def gomap_ok_def distinct_map inj_on_def)
  ultimately show ?thesis by auto
qed


section \<open>What \<open>AsTimeUpdate\<close> holds\<close>

lemma unit_update_other:
  assumes "hd (constructor parent u) \<noteq> CHR ''l''"
  shows "gomap_get (unit_update parent u c m) (CHR ''l'' # K) = gomap_get m (CHR ''l'' # K)"
proof -
  have ne: "constructor parent u \<noteq> []" by (simp add: constructor_def)
  then have "CHR ''l'' # K \<noteq> constructor parent u @ f" for f
    using assms by (cases "constructor parent u") auto
  then show ?thesis
    by (simp add: unit_update_def SetErrorList_def generateSetterForTime_def latencySetter_def Let_def update_conv')
qed

lemma put_list_get:
  assumes "fieldName \<noteq> []" and "hd fieldName \<noteq> CHR ''l''"
  shows "gomap_get (put_list key fieldName data m) (CHR ''l'' # K) =
    (if CHR ''l'' # K = key then Some (BCounters (map (\<lambda>(k, c). listed c) data)) else gomap_get m (CHR ''l'' # K))"
proof -
  have "hd (constructor fieldName u) \<noteq> CHR ''l''" for u using assms by (simp add: constructor_def)
  then have "gomap_get (fold (\<lambda>(k, c). unit_update fieldName k c) data m) (CHR ''l'' # K) = gomap_get m (CHR ''l'' # K)"
    by (induction data arbitrary: m) (auto simp: unit_update_other)
  then show ?thesis by (simp add: put_list_def getRecords_def Let_def update_conv')
qed

lemma put_endpoint_lists_other:
  assumes "n \<noteq> []" and "hd n \<noteq> CHR ''l''" and "\<not> has_prefix (CHR ''l'' # K) (''lists.'' @ n @ ''.'')"
  shows "gomap_get (put_endpoint_lists n mm m) (CHR ''l'' # K) = gomap_get m (CHR ''l'' # K)"
  unfolding put_endpoint_lists_def
proof (induction mm arbitrary: m)
  case Nil
  then show ?case by simp
next
  case (Cons kv mm)
  have "n @ ''.'' @ k \<noteq> []" "hd (n @ ''.'' @ k) \<noteq> CHR ''l''" for k using assms(1,2) by simp_all
  moreover have "CHR ''l'' # K \<noteq> ''lists.'' @ n @ ''.'' @ k" for k
  proof
    assume "CHR ''l'' # K = ''lists.'' @ n @ ''.'' @ k"
    then have "CHR ''l'' # K = (''lists.'' @ n @ ''.'') @ k" by simp
    with assms(3) show False by (simp only: has_prefix_append not_True_eq_False)
  qed
  ultimately have one: "gomap_get (put_list (''lists.'' @ n @ ''.'' @ k) (n @ ''.'' @ k) u m1) (CHR ''l'' # K) =
      gomap_get m1 (CHR ''l'' # K)" for k u m1
    using put_list_get [of "n @ ''.'' @ k"] by metis
  show ?case by (cases kv) (simp only: fold_simps prod.case Cons.IH one)
qed

text \<open>
  The lists of the time update: the list of every flat dimension holds the counters of that
  dimension in order, each with its errors listed in ascending order of their codes, one entry for
  each code of the error map with its count, and with its latencies averaged over its hits.
\<close>

theorem AsTimeUpdate_lists:
  "list_all (\<lambda>(n, units). gomap_get (AsTimeUpdate a) (''lists.'' @ n) = Some (BCounters (map (\<lambda>(k, c). listed c) units)))
     (base_lists a @ [(''apiendpoints'', ag_ApiEndpoint a)]) \<and>
   sorted (map ed_Code (c_ErrorList (listed c))) \<and>
   mset (c_ErrorList (listed c)) = image_mset (\<lambda>(k, v). \<lparr>ed_Code = k, ed_Count = v\<rparr>) (mset (errors_of c)) \<and>
   c_Latency (listed c) = (if i64_lt 0 (c_Hits c) then f_div (f_of_int (c_TotalLatency c)) (f_of_int (c_Hits c)) else f_zero)"
proof -
  have "hd (constructor [] ''total'') \<noteq> CHR ''l''" by (simp add: constructor_def)
  note rules = unit_update_other [OF this] put_list_get put_endpoint_lists_other
  have "list_all (\<lambda>(n, units). gomap_get (AsTimeUpdate a) (''lists.'' @ n) = Some (BCounters (map (\<lambda>(k, c). listed c) units)))
     (base_lists a @ [(''apiendpoints'', ag_ApiEndpoint a)])"
    by (simp add: AsTimeUpdate_def base_lists_def Let_def rules has_prefix_def)
  moreover have "mset (c_ErrorList (listed c)) = image_mset (\<lambda>(k, v). \<lparr>ed_Code = k, ed_Count = v\<rparr>) (mset (errors_of c))"
    by (simp add: listed_def errorlist_def)
  ultimately show ?thesis by (simp add: listed_def errorlist_def)
qed

definition sample_doc :: aggregate where
  "sample_doc = aggregate_New\<lparr>ag_APIID := [(''a.b'', counter_zero\<lparr>c_Hits := 3, c_ErrorTotal := 1,
     c_ErrorMap := Some [(''500'', 1)]\<rparr>), (''a'', counter_zero\<lparr>c_Hits := 2\<rparr>)]\<rparr>"


end
