(* ===== verification/Event_Values.thy ===== *)
theory Event_Values
  imports Analytics_Record GoIO
begin

text \<open>
  What the pumps that send records to other systems share: the values of an event, and the hiding
  of API keys. An event is a Go map from field names to values that \<open>encoding/json\<close> or a client
  library renders.
\<close>

datatype jval = JStr string | JInt i64 | JNum int | JTime gotime | JBool bool | JTags "string list"
  | JGeo geo_data | JNetwork network_stats | JLatency latency | JNil

type_synonym event = "(string, jval) gomap"

text \<open>\<open>s[k:]\<close> of a string: \<open>k\<close> beyond the end, or negative, panics.\<close>

definition slice_from :: "int \<Rightarrow> string \<Rightarrow> string res" where
  "slice_from k s = (if k < 0 \<or> k > int (length s) then Inl (GoPanic ''slice bounds out of range'') else Inr (drop (nat k) s))"

text \<open>The fields of an event by their names; a store of the same name twice is one field.\<close>

definition event_of :: "(string \<times> jval) list \<Rightarrow> event" where
  "event_of kvs = fold (\<lambda>(k, v) m. gomap_set m k v) kvs []"

end
