(* ===== verification/Elasticsearch.thy ===== *)
theory Elasticsearch
  imports Event_Values
begin

text \<open>
  The Elasticsearch pump, \<open>src/pumps/elasticsearch.go\<close>: what the client is built with, the document
  and the index of a record, and the loop that hands records to the bulk processor or, with bulk
  requests disabled, indexes them one by one. The four operators differ in the document type only.
  The client library, the hash of the identifiers and the clock are parameters. The lemmas: which
  documents go to which index, and what the options do to each other.
\<close>

section \<open>Configuration\<close>

record es_bulk_conf =
  eb_Workers :: int
  eb_FlushInterval :: i64
  eb_BulkActions :: int
  eb_BulkSize :: int

record es_conf =
  es_EnvPrefix :: string
  es_IndexName :: string
  es_ElasticsearchURL :: string
  es_EnableSniffing :: bool
  es_DocumentType :: string
  es_RollingIndex :: bool
  es_ExtendedStatistics :: bool
  es_GenerateID :: bool
  es_DecodeBase64 :: bool
  es_Version :: string
  es_DisableBulk :: bool
  es_BulkConfig :: es_bulk_conf
  es_AuthAPIKeyID :: string
  es_AuthAPIKey :: string
  es_Username :: string
  es_Password :: string
  es_UseSSL :: bool
  es_SSLInsecureSkipVerify :: bool
  es_SSLCertFile :: string
  es_SSLKeyFile :: string
  es_SSLCAFile :: string
  es_MCPIndexName :: string

section \<open>The client\<close>

text \<open>\<open>'t\<close> is a TLS configuration.\<close>

datatype 't es_transport = DefaultTransport | ApiKeyTransport string string | TLSTransport 't

text \<open>The \<open>Authorization\<close> header that the transport with an API key sets.\<close>

definition api_key_header :: "string \<Rightarrow> string \<Rightarrow> string" where
  "api_key_header keyID key = ''ApiKey '' @ b64_encode (keyID @ '':'' @ key)"

record 't es_client =
  ec_Version :: string
  ec_URLs :: "string list"
  ec_Sniff :: bool
  ec_BasicAuth :: "string \<times> string"
  ec_HTTP :: "'t es_transport"

text \<open>The bulk processor: what is not set is left to the library.\<close>

record es_bulk =
  ek_Name :: string
  ek_Workers :: "int option"
  ek_FlushInterval :: "i64 option"
  ek_BulkActions :: "int option"
  ek_BulkSize :: "int option"
  ek_After :: bool

definition unless_zero :: "'a::zero \<Rightarrow> 'a option" where
  "unless_zero n = (if n \<noteq> 0 then Some n else None)"

definition es_bulk_of :: "es_conf \<Rightarrow> es_bulk" where
  "es_bulk_of conf =
     \<lparr>ek_Name = ''TykPumpESv'' @ es_Version conf @ ''BackgroundProcessor'',
      ek_Workers = unless_zero (eb_Workers (es_BulkConfig conf)),
      ek_FlushInterval = map_option (\<lambda>n. n * dur_second) (unless_zero (eb_FlushInterval (es_BulkConfig conf))),
      ek_BulkActions = unless_zero (eb_BulkActions (es_BulkConfig conf)),
      ek_BulkSize = unless_zero (eb_BulkSize (es_BulkConfig conf)),
      ek_After = (\<not> es_DisableBulk conf)\<rparr>"

definition es_client_of :: "(es_conf \<Rightarrow> 't res) \<Rightarrow> es_conf \<Rightarrow> 't es_client res" where
  "es_client_of tls conf =
     (let urls = split_char CHR '','' (es_ElasticsearchURL conf);
          key = es_AuthAPIKey conf \<noteq> [] \<and> es_AuthAPIKeyID conf \<noteq> [];
          conf' = (if key then conf\<lparr>es_Username := [], es_Password := []\<rparr> else conf);
          http = (if key then ApiKeyTransport (es_AuthAPIKeyID conf) (es_AuthAPIKey conf) else DefaultTransport)
      in rbind (if es_UseSSL conf'
                then (case tls conf' of
                        Inl (GoErr e) \<Rightarrow> Inl (GoErr (''failed to configure TLS for Elasticsearch connection: '' @ e))
                      | Inl p \<Rightarrow> Inl p
                      | Inr t \<Rightarrow> Inr (TLSTransport t))
                else Inr http) (\<lambda>http.
           if es_Version conf' \<in> {''3'', ''5'', ''6'', ''7''}
           then Inr \<lparr>ec_Version = es_Version conf', ec_URLs = urls, ec_Sniff = es_EnableSniffing conf',
                      ec_BasicAuth = (es_Username conf', es_Password conf'), ec_HTTP = http\<rparr>
           else Inl (GoPanic ''exit: Invalid version: '')))"

text \<open>\<open>newClient\<close> and \<open>startBulk\<close> are the library's; the operator they yield is a value.\<close>

definition getOperator ::
  "(es_conf \<Rightarrow> 't res) \<Rightarrow> ('t es_client \<Rightarrow> ('s, 'c) io) \<Rightarrow> ('c \<Rightarrow> es_bulk \<Rightarrow> ('s, 'o) io) \<Rightarrow> es_conf \<Rightarrow> ('s, 'o) io" where
  "getOperator tls newClient startBulk conf =
     io_bind (io_res (es_client_of tls conf)) (\<lambda>opts.
     io_bind (newClient opts) (\<lambda>client. startBulk client (es_bulk_of conf)))"

text \<open>\<open>connect\<close> tries again, five seconds later, until it succeeds.\<close>

partial_function (option) es_connect :: "('s, 'o) io \<Rightarrow> 's \<Rightarrow> ('o res \<times> 's) option" where
  "es_connect getOp s =
     (case getOp s of (r, s') \<Rightarrow>
        (case r of Inl e \<Rightarrow> (case e of GoErr m \<Rightarrow> es_connect getOp s' | GoPanic p \<Rightarrow> Some (Inl (GoPanic p), s'))
         | Inr op \<Rightarrow> Some (Inr op, s')))"

definition es_defaults :: "es_conf \<Rightarrow> es_conf res" where
  "es_defaults conf =
     (let conf = (if es_IndexName conf = [] then conf\<lparr>es_IndexName := ''tyk_analytics''\<rparr> else conf);
          conf = (if es_ElasticsearchURL conf = [] then conf\<lparr>es_ElasticsearchURL := ''http://localhost:9200''\<rparr> else conf);
          conf = (if es_DocumentType conf = [] then conf\<lparr>es_DocumentType := ''tyk_analytics''\<rparr> else conf)
      in if es_Version conf = [] then Inr (conf\<lparr>es_Version := ''3''\<rparr>)
         else if es_Version conf \<in> {''3'', ''5'', ''6'', ''7''} then Inr conf
         else Inl (GoPanic ''exit: Invalid version: Only 3, 5, 6, 7 are valid values for this field''))"

definition es_Init :: "(es_conf \<Rightarrow> ('s, 'o) io) \<Rightarrow> es_conf \<Rightarrow> 's \<Rightarrow> ((es_conf \<times> 'o) res \<times> 's) option" where
  "es_Init getOp conf s =
     (case es_defaults conf of
        Inl e \<Rightarrow> Some (Inl e, s)
      | Inr conf \<Rightarrow> map_option (\<lambda>(r, s'). (rbind r (\<lambda>op. Inr (conf, op)), s')) (es_connect (getOp conf) s))"

section \<open>Documents\<close>

definition rolling :: "es_conf \<Rightarrow> string \<Rightarrow> gotime \<Rightarrow> string" where
  "rolling conf indexName now = (if es_RollingIndex conf then indexName @ ''-'' @ fmt_date ''.'' now else indexName)"

definition getIndexName :: "es_conf \<Rightarrow> gotime \<Rightarrow> string" where
  "getIndexName conf now = rolling conf (es_IndexName conf) now"

definition getIndexNameForRecord :: "es_conf \<Rightarrow> gotime \<Rightarrow> analytics_record \<Rightarrow> string" where
  "getIndexNameForRecord conf now r =
     (if es_MCPIndexName conf \<noteq> [] \<and> IsMCPRecord r then rolling conf (es_MCPIndexName conf) now
      else getIndexName conf now)"

text \<open>What \<open>DecodeString\<close> has decoded when it finds an error: whole groups of four digits.\<close>

fun b64_partial :: "string \<Rightarrow> string" where
  "b64_partial (a # b # c # d # s) =
     (case b64_quads [a, b, c, d] of
        None \<Rightarrow> []
      | Some t \<Rightarrow> if d = CHR ''='' then t else t @ b64_partial s)"
| "b64_partial s = []"

definition decode_string :: "string \<Rightarrow> string" where
  "decode_string s = b64_partial (filter (\<lambda>c. c \<noteq> CHR 0x0A \<and> c \<noteq> CHR 0x0D) s)"

definition unix_nano :: "gotime \<Rightarrow> i64" where
  "unix_nano t = time_unix t * 1000000000 + word_of_int (t_nsec t)"

definition es_base_fields :: "analytics_record \<Rightarrow> (string \<times> jval) list" where
  "es_base_fields r =
     [(''@timestamp'', JTime (r_TimeStamp r)), (''http_method'', JStr (r_Method r)), (''request_uri'', JStr (r_Path r)),
      (''request_uri_full'', JStr (r_RawPath r)), (''response_code'', JInt (r_ResponseCode r)),
      (''ip_address'', JStr (r_IPAddress r)), (''api_key'', JStr (r_APIKey r)), (''api_version'', JStr (r_APIVersion r)),
      (''api_name'', JStr (r_APIName r)), (''api_id'', JStr (r_APIID r)), (''org_id'', JStr (r_OrgID r)),
      (''oauth_id'', JStr (r_OauthID r)), (''request_time_ms'', JInt (r_RequestTime r)), (''alias'', JStr (r_Alias r)),
      (''content_length'', JInt (r_ContentLength r)), (''tags'', JTags (r_Tags r))]"

definition es_extended_fields :: "bool \<Rightarrow> analytics_record \<Rightarrow> (string \<times> jval) list" where
  "es_extended_fields decodeBase64 r =
     (let dec = (if decodeBase64 then decode_string else (\<lambda>s. s))
      in [(''raw_request'', JStr (dec (r_RawRequest r))), (''raw_response'', JStr (dec (r_RawResponse r))),
          (''user_agent'', JStr (r_UserAgent r))])"

definition es_mcp_fields :: "analytics_record \<Rightarrow> (string \<times> jval) list" where
  "es_mcp_fields r =
     [(''mcp_method'', JStr (mc_JSONRPCMethod (r_MCPStats r))), (''mcp_primitive_type'', JStr (mc_PrimitiveType (r_MCPStats r))),
      (''mcp_primitive_name'', JStr (mc_PrimitiveName (r_MCPStats r)))]"

definition getMapping :: "(string \<Rightarrow> string) \<Rightarrow> analytics_record \<Rightarrow> bool \<Rightarrow> bool \<Rightarrow> bool \<Rightarrow> event \<times> string" where
  "getMapping murmur3 r extendedStatistics generateID decodeBase64 =
     (event_of (es_base_fields r @ (if extendedStatistics then es_extended_fields decodeBase64 r else []) @
        (if IsMCPRecord r then es_mcp_fields r else [])),
      if generateID
      then murmur3 (itoa (unix_nano (r_TimeStamp r)) @ r_Method r @ r_Path r @ r_IPAddress r @ r_APIID r @ r_OauthID r @
             itoa (r_RequestTime r) @ r_Alias r)
      else [])"

section \<open>Writing\<close>

record es_request =
  er_Index :: string
  er_Type :: "string option"
  er_Id :: string
  er_Doc :: event

text \<open>\<open>el_Add\<close> hands a request to the bulk processor; \<open>el_Do\<close> indexes a document at once.\<close>

record 's es_lib =
  el_Add :: "es_request \<Rightarrow> ('s, unit) io"
  el_Do :: "es_request \<Rightarrow> ('s, unit) io"
  el_Flush :: "('s, unit) io"

text \<open>
  \<open>ended i\<close> is whether the context has ended at the i-th item, \<open>now i\<close> the time then; the index
  of single requests is named once, before the loop.
\<close>

fun es_records ::
  "'s es_lib \<Rightarrow> (string \<Rightarrow> string) \<Rightarrow> es_conf \<Rightarrow> string option \<Rightarrow> string \<Rightarrow> (nat \<Rightarrow> bool) \<Rightarrow> (nat \<Rightarrow> gotime) \<Rightarrow> nat \<Rightarrow> item list \<Rightarrow>
     ('s, unit) io" where
  "es_records lib murmur3 conf doctype index ended now i [] = io_ret ()"
| "es_records lib murmur3 conf doctype index ended now i (v # vs) =
     io_bind
       (if ended i then io_ret ()
        else (case v of
           ItemNil \<Rightarrow> io_ret ()
         | ItemRecord d \<Rightarrow>
             (let (mapping, idn) = getMapping murmur3 d (es_ExtendedStatistics conf) (es_GenerateID conf) (es_DecodeBase64 conf);
                  recordIndex = getIndexNameForRecord conf (now i) d
              in if \<not> es_DisableBulk conf
                 then el_Add lib \<lparr>er_Index = recordIndex, er_Type = doctype, er_Id = idn, er_Doc = mapping\<rparr>
                 else io_log (el_Do lib \<lparr>er_Index = index, er_Type = doctype, er_Id = idn, er_Doc = mapping\<rparr>))))
       (\<lambda>_. es_records lib murmur3 conf doctype index ended now (Suc i) vs)"

definition es_typed_processData ::
  "'s es_lib \<Rightarrow> (string \<Rightarrow> string) \<Rightarrow> (nat \<Rightarrow> bool) \<Rightarrow> gotime \<Rightarrow> (nat \<Rightarrow> gotime) \<Rightarrow> string option \<Rightarrow> es_conf \<Rightarrow> item list \<Rightarrow> ('s, unit) io" where
  "es_typed_processData lib murmur3 ended now0 now doctype conf data =
     es_records lib murmur3 conf doctype (getIndexName conf now0) ended now 0 data"

definition es3_processData where
  "es3_processData lib murmur3 ended now0 now conf data =
     es_typed_processData lib murmur3 ended now0 now (Some (es_DocumentType conf)) conf data"

definition es5_processData where
  "es5_processData lib murmur3 ended now0 now conf data =
     es_typed_processData lib murmur3 ended now0 now (Some (es_DocumentType conf)) conf data"

definition es6_processData where
  "es6_processData lib murmur3 ended now0 now conf data =
     es_typed_processData lib murmur3 ended now0 now (Some (es_DocumentType conf)) conf data"

definition es7_processData where
  "es7_processData lib murmur3 ended now0 now conf data = es_typed_processData lib murmur3 ended now0 now None conf data"

definition es_processData where
  "es_processData lib murmur3 ended now0 now conf data =
     (if es_Version conf = ''3'' then es3_processData lib murmur3 ended now0 now conf data
      else if es_Version conf = ''5'' then es5_processData lib murmur3 ended now0 now conf data
      else if es_Version conf = ''6'' then es6_processData lib murmur3 ended now0 now conf data
      else es7_processData lib murmur3 ended now0 now conf data)"

text \<open>\<open>WriteData\<close> on a pump that \<open>Init\<close> has connected.\<close>

definition es_WriteData where
  "es_WriteData lib murmur3 ended now0 now conf data =
     (if data \<noteq> [] then io_log (es_processData lib murmur3 ended now0 now conf data) else io_ret ())"

definition es_Shutdown :: "'s es_lib \<Rightarrow> es_conf \<Rightarrow> ('s, unit) io" where
  "es_Shutdown lib conf = (if \<not> es_DisableBulk conf then el_Flush lib else io_ret ())"

section \<open>Which documents go to which index\<close>

definition es_doctype :: "es_conf \<Rightarrow> string option" where
  "es_doctype conf = (if es_Version conf \<in> {''3'', ''5'', ''6''} then Some (es_DocumentType conf) else None)"

definition es_request_of :: "(string \<Rightarrow> string) \<Rightarrow> es_conf \<Rightarrow> gotime \<Rightarrow> gotime \<Rightarrow> analytics_record \<Rightarrow> es_request" where
  "es_request_of murmur3 conf now0 now r =
     (let (mapping, idn) = getMapping murmur3 r (es_ExtendedStatistics conf) (es_GenerateID conf) (es_DecodeBase64 conf)
      in \<lparr>er_Index = (if es_DisableBulk conf then getIndexName conf now0 else getIndexNameForRecord conf now r),
          er_Type = es_doctype conf, er_Id = idn, er_Doc = mapping\<rparr>)"

fun es_requests ::
  "(string \<Rightarrow> string) \<Rightarrow> es_conf \<Rightarrow> (nat \<Rightarrow> bool) \<Rightarrow> gotime \<Rightarrow> (nat \<Rightarrow> gotime) \<Rightarrow> nat \<Rightarrow> item list \<Rightarrow> es_request list" where
  "es_requests murmur3 conf ended now0 now i [] = []"
| "es_requests murmur3 conf ended now0 now i (v # vs) =
     (case v of
        ItemNil \<Rightarrow> []
      | ItemRecord r \<Rightarrow> if ended i then [] else [es_request_of murmur3 conf now0 (now i) r]) @
     es_requests murmur3 conf ended now0 now (Suc i) vs"

lemma es_records_requests:
  assumes add: "\<And>q s. \<exists>t. el_Add lib q s = (Inr (), t) \<and> view t = view s @ [q]"
    and single: "\<And>q s. \<exists>t. el_Do lib q s = (Inr (), t) \<and> view t = view s @ [q]"
  shows "\<exists>t. es_records lib murmur3 conf (es_doctype conf) (getIndexName conf now0) ended now i data s = (Inr (), t) \<and>
    view t = view s @ es_requests murmur3 conf ended now0 now i data"
proof (induction data arbitrary: i s)
  case Nil
  then show ?case by simp
next
  case (Cons v vs)
  show ?case
  proof (cases "\<exists>r. v = ItemRecord r \<and> \<not> ended i")
    case False
    then have "v = ItemNil \<or> ended i" by (cases v) auto
    with Cons [of "Suc i" s] show ?thesis by (auto split: item.split)
  next
    case True
    then obtain r where r: "v = ItemRecord r" "\<not> ended i" by blast
    let ?q = "es_request_of murmur3 conf now0 (now i) r"
    obtain t where t: "(if es_DisableBulk conf then io_log (el_Do lib ?q) else el_Add lib ?q) s = (Inr (), t)" "view t = view s @ [?q]"
      using add [of ?q s] single [of ?q s] by (cases "es_DisableBulk conf") (auto simp: io_log_run)
    with Cons [of "Suc i" t] r show ?thesis
      by (cases "getMapping murmur3 r (es_ExtendedStatistics conf) (es_GenerateID conf) (es_DecodeBase64 conf)")
        (auto simp: io_bind_def es_request_of_def Let_def split: if_splits)
  qed
qed


text \<open>With TLS an API key is not sent, and the user name is cleared: requests carry no credentials.\<close>

lemma es_ssl_drops_credentials:
  assumes "es_AuthAPIKey conf \<noteq> []" "es_AuthAPIKeyID conf \<noteq> []" "es_UseSSL conf" and "es_client_of tls conf = Inr opts"
  shows "ec_BasicAuth opts = ([], []) \<and> (\<exists>t. ec_HTTP opts = TLSTransport t)"
  using assms by (auto simp: es_client_of_def Let_def split: sum.splits go_error.splits if_splits)

text \<open>If the client can be built after some failures, connecting returns with it.\<close>

lemma es_connect_returns:
  assumes "\<forall>j < k. \<exists>e. getOp (st j) = (Inl (GoErr e), st (Suc j))" and "getOp (st k) = (Inr op, t)"
  shows "es_connect getOp (st 0) = Some (Inr op, t)"
proof -
  have "j \<le> k \<Longrightarrow> es_connect getOp (st (k - j)) = Some (Inr op, t)" for j
  proof (induction j)
    case 0
    with assms(2) show ?case by (subst es_connect.simps) simp
  next
    case (Suc j)
    then obtain e where "getOp (st (k - Suc j)) = (Inl (GoErr e), st (Suc (k - Suc j)))" using assms(1) by fastforce
    moreover have "Suc (k - Suc j) = k - j" using Suc.prems by simp
    ultimately show ?case using Suc by (subst es_connect.simps) simp
  qed
  from this [of k] show ?thesis by simp
qed

definition log_es_lib :: "es_request list es_lib" where
  "log_es_lib = \<lparr>el_Add = \<lambda>q. io_upd (\<lambda>s. s @ [q]), el_Do = \<lambda>q. io_upd (\<lambda>s. s @ [q]), el_Flush = io_ret ()\<rparr>"

definition sample_es_conf :: "bool \<Rightarrow> es_conf" where
  "sample_es_conf disable = \<lparr>es_EnvPrefix = [], es_IndexName = ''tyk'', es_ElasticsearchURL = [], es_EnableSniffing = False,
     es_DocumentType = ''doc'', es_RollingIndex = False, es_ExtendedStatistics = False, es_GenerateID = False,
     es_DecodeBase64 = False, es_Version = ''7'', es_DisableBulk = disable,
     es_BulkConfig = \<lparr>eb_Workers = 0, eb_FlushInterval = 0, eb_BulkActions = 0, eb_BulkSize = 0\<rparr>, es_AuthAPIKeyID = [],
     es_AuthAPIKey = [], es_Username = [], es_Password = [], es_UseSSL = False, es_SSLInsecureSkipVerify = False,
     es_SSLCertFile = [], es_SSLKeyFile = [], es_SSLCAFile = [], es_MCPIndexName = ''mcp''\<rparr>"


end
