(* ===== verification/HTTP_Retry.thy ===== *)
theory HTTP_Retry
  imports GoIO GoText
begin

text \<open>
  HTTP requests that are sent again after a temporary failure: \<open>src/retry/http-retry.go\<close>. An
  error is the list of its layers, the outermost first, as \<open>errors.Unwrap\<close> walks them. The loop
  over the attempts is the backoff library's: it is a parameter of \<open>Send\<close>, and \<open>retries\<close> states
  what its documentation promises. The lemmas: how often a request is sent, with which body, and
  what the result says about the last attempt.
\<close>

section \<open>Which errors are worth another attempt\<close>

datatype error_kind = UrlError | NetOpError string | OtherError

text \<open>The methods of a layer that the code asks for: absent, or their answer.\<close>

record err_layer =
  el_msg :: string
  el_kind :: error_kind
  el_ConnectionError :: "bool option"
  el_Temporary :: "bool option"
  el_Timeout :: "bool option"

type_synonym err_chain = "err_layer list"

text \<open>\<open>errors.As\<close> for an interface: the answer of the first layer that has the method.\<close>

definition as_answer :: "(err_layer \<Rightarrow> bool option) \<Rightarrow> err_chain \<Rightarrow> bool" where
  "as_answer m err = (case dropWhile (\<lambda>l. m l = None) err of [] \<Rightarrow> False | l # ls \<Rightarrow> m l = Some True)"

definition is_url :: "err_layer \<Rightarrow> bool" where
  "is_url l = (case el_kind l of UrlError \<Rightarrow> True | _ \<Rightarrow> False)"

definition net_op :: "err_layer \<Rightarrow> string option" where
  "net_op l = (case el_kind l of NetOpError op \<Rightarrow> Some op | _ \<Rightarrow> None)"

definition error_text :: "err_chain \<Rightarrow> string" where
  "error_text err = (case err of [] \<Rightarrow> [] | l # ls \<Rightarrow> el_msg l)"

lemma dropWhile_shorter: "dropWhile P xs = y # ys \<Longrightarrow> length ys < length xs"
  by (induction xs) (auto split: if_splits)

function isErrorRetryable :: "err_chain \<Rightarrow> bool" where
  "isErrorRetryable err =
     (if err = [] then False
      else if as_answer el_ConnectionError err then True
      else if str_contains (error_text err) ''connection reset'' then True
      else (case dropWhile (\<lambda>l. \<not> is_url l) err of
        l # ls \<Rightarrow> if str_contains (el_msg l) ''connection refused'' then True else isErrorRetryable ls
      | [] \<Rightarrow> (case dropWhile (\<lambda>l. net_op l = None) err of
          l # ls \<Rightarrow> if to_lower (the (net_op l)) = ''dial'' \<or> el_Temporary l = Some True then True else isErrorRetryable ls
        | [] \<Rightarrow> as_answer el_Temporary err \<or> as_answer el_Timeout err)))"
  by auto
termination
proof (relation "measure length")
  show "wf (measure length)" by simp
next
  fix err l and ls :: err_chain
  assume "dropWhile (\<lambda>l. \<not> is_url l) err = l # ls"
  from dropWhile_shorter [OF this] show "(ls, err) \<in> measure length" by simp
next
  fix err l and ls :: err_chain
  assume "dropWhile (\<lambda>l. net_op l = None) err = l # ls"
  from dropWhile_shorter [OF this] show "(ls, err) \<in> measure length" by simp
qed

declare isErrorRetryable.simps [simp del]

section \<open>Sending\<close>

text \<open>What one attempt tells the loop: it is done, it may be repeated, or it must not be.\<close>

datatype attempt = Done | Again string | Permanent string

record http_response =
  hr_StatusCode :: int
  hr_Body :: "string + string"

definition handleErr :: "err_chain \<Rightarrow> attempt" where
  "handleErr err = (if isErrorRetryable err then Again (error_text err) else Permanent (error_text err))"

definition judge :: "err_chain + http_response \<Rightarrow> attempt" where
  "judge r = (case r of
     Inl err \<Rightarrow> handleErr err
   | Inr resp \<Rightarrow>
       if hr_StatusCode resp = 200 then Done
       else (case hr_Body resp of
         Inl e \<Rightarrow> Again e
       | Inr body \<Rightarrow>
           (let err = ''got status code '' @ dec_int (hr_StatusCode resp) @ '' and response '' @ [CHR 0x27] @ body @ [CHR 0x27]
            in if hr_StatusCode resp \<ge> 500 \<or> hr_StatusCode resp = 429 then Again err else Permanent err)))"

text \<open>
  Every attempt sends a copy of the body that was read before the first one. \<open>request\<close> is the
  client's \<open>Do\<close>; \<open>retry\<close> runs an operation with a bound on the repetitions.
\<close>

definition opFn :: "(string \<Rightarrow> 's \<Rightarrow> (err_chain + http_response) \<times> 's) \<Rightarrow> string \<Rightarrow> 's \<Rightarrow> attempt \<times> 's" where
  "opFn request reqBody s = (case request reqBody s of (r, s') \<Rightarrow> (judge r, s'))"

type_synonym 's retrier = "nat \<Rightarrow> ('s \<Rightarrow> attempt \<times> 's) \<Rightarrow> 's \<Rightarrow> unit res \<times> 's"

definition http_Send ::
  "'s retrier \<Rightarrow> (string \<Rightarrow> 's \<Rightarrow> (err_chain + http_response) \<times> 's) \<Rightarrow> nat \<Rightarrow> string res option \<Rightarrow> ('s, unit) io" where
  "http_Send retry request maxRetries body =
     (case body of
        Some (Inl e) \<Rightarrow> io_fail e
      | Some (Inr reqBody) \<Rightarrow> retry maxRetries (opFn request reqBody)
      | None \<Rightarrow> retry maxRetries (opFn request []))"

text \<open>
  What the backoff library promises: after an attempt that may be repeated it either gives its error
  back (the repetitions or the time are used up) or tries again, at most \<open>n\<close> times.
\<close>

inductive retries :: "('s \<Rightarrow> attempt \<times> 's) \<Rightarrow> nat \<Rightarrow> 's \<Rightarrow> unit res \<Rightarrow> 's \<Rightarrow> bool" for f where
  retries_done: "f s = (Done, t) \<Longrightarrow> retries f n s (Inr ()) t"
| retries_permanent: "f s = (Permanent e, t) \<Longrightarrow> retries f n s (Inl (GoErr e)) t"
| retries_stop: "f s = (Again e, t) \<Longrightarrow> retries f n s (Inl (GoErr e)) t"
| retries_again: "f s = (Again e, s') \<Longrightarrow> retries f n s' r t \<Longrightarrow> retries f (Suc n) s r t"

definition retry_law :: "'s retrier \<Rightarrow> bool" where
  "retry_law retry \<longleftrightarrow> (\<forall>n f s. case retry n f s of (r, t) \<Rightarrow> retries f n s r t)"

section \<open>What a send does\<close>

text \<open>A client that keeps the bodies it has sent and answers from a script.\<close>

type_synonym script = "(err_chain + http_response) list \<times> string list"

definition scripted :: "string \<Rightarrow> script \<Rightarrow> (err_chain + http_response) \<times> script" where
  "scripted body = (\<lambda>(answers, sent). (case answers of
     [] \<Rightarrow> (Inl [], ([], sent @ [body])) | a # as \<Rightarrow> (a, (as, sent @ [body]))))"

lemma opFn_scripted: "opFn scripted b (a # as, sent) = (judge a, (as, sent @ [b]))"
  by (simp add: opFn_def scripted_def)

lemma retries_scripted:
  assumes "retries (opFn scripted b) n s r t" and "s = (answers, sent)" and "n < length answers"
  shows "\<exists>k \<le> n. t = (drop (Suc k) answers, sent @ replicate (Suc k) b) \<and>
    (\<forall>i < k. \<exists>e. judge (answers ! i) = Again e) \<and>
    (r = Inr () \<longleftrightarrow> judge (answers ! k) = Done) \<and>
    (\<forall>e. r = Inl (GoErr e) \<longrightarrow> judge (answers ! k) = Again e \<or> judge (answers ! k) = Permanent e)"
  using assms
proof (induction arbitrary: answers sent rule: retries.induct)
  case (retries_done s t n)
  then obtain a as where "answers = a # as" by (cases answers) auto
  with retries_done show ?case by (intro exI [of _ 0]) (auto simp: opFn_scripted)
next
  case (retries_permanent s e t n)
  then obtain a as where "answers = a # as" by (cases answers) auto
  with retries_permanent show ?case by (intro exI [of _ 0]) (auto simp: opFn_scripted)
next
  case (retries_stop s e t n)
  then obtain a as where "answers = a # as" by (cases answers) auto
  with retries_stop show ?case by (intro exI [of _ 0]) (auto simp: opFn_scripted)
next
  case (retries_again s e s' n r t)
  then obtain a as where a: "answers = a # as" by (cases answers) auto
  with retries_again have s': "s' = (as, sent @ [b])" "judge a = Again e" by (auto simp: opFn_scripted)
  from retries_again.IH [OF s'(1)] retries_again.prems(2) a obtain k where k: "k \<le> n"
    "t = (drop (Suc k) as, (sent @ [b]) @ replicate (Suc k) b)" "\<forall>i < k. \<exists>e. judge (as ! i) = Again e"
    "r = Inr () \<longleftrightarrow> judge (as ! k) = Done"
    "\<forall>e. r = Inl (GoErr e) \<longrightarrow> judge (as ! k) = Again e \<or> judge (as ! k) = Permanent e" by auto
  have "\<exists>e. judge ((a # as) ! i) = Again e" if "i < Suc k" for i
    using that s'(2) k(3) by (cases i) auto
  with k a show ?case by (intro exI [of _ "Suc k"]) auto
qed


text \<open>A library that repeats as often as it may.\<close>

fun eager :: "'s retrier" where
  "eager 0 f s = (case f s of (a, t) \<Rightarrow> (case a of Done \<Rightarrow> (Inr (), t) | Again e \<Rightarrow> (Inl (GoErr e), t) | Permanent e \<Rightarrow> (Inl (GoErr e), t)))"
| "eager (Suc n) f s = (case f s of (a, t) \<Rightarrow>
     (case a of Done \<Rightarrow> (Inr (), t) | Again e \<Rightarrow> eager n f t | Permanent e \<Rightarrow> (Inl (GoErr e), t)))"

lemma eager_retries: "eager n f s = (r, t) \<Longrightarrow> retries f n s r t"
proof (induction n arbitrary: s)
  case 0
  obtain a t' where "f s = (a, t')" by fastforce
  with 0 show ?case by (cases a) (auto intro: retries.intros)
next
  case (Suc n)
  obtain a t' where f: "f s = (a, t')" by fastforce
  with Suc show ?case by (cases a) (auto intro: retries.intros)
qed

lemma eager_law: "retry_law eager"
  by (auto simp: retry_law_def intro: eager_retries)


end
