(* ===== verification/Splunk.thy ===== *)
theory Splunk
  imports Event_Values HTTP_Retry "HOL-Library.Sublist"
begin

text \<open>
  The Splunk pump, \<open>src/pumps/splunk.go\<close>: one event for each record, sent one by one or
  collected in a buffer up to a length. Rendering an event as JSON is a parameter, and so is the
  send of a request, which \<open>splunk_send\<close> composes from \<open>src/retry\<close>. The lemmas: which tags
  \<open>FilterTags\<close> keeps, and which requests carry which events.
\<close>

section \<open>Configuration\<close>

record splunk_conf =
  sp_EnvPrefix :: string
  sp_CollectorToken :: string
  sp_CollectorURL :: string
  sp_SSLInsecureSkipVerify :: bool
  sp_SSLCertFile :: string
  sp_SSLKeyFile :: string
  sp_SSLCAFile :: string
  sp_SSLServerName :: string
  sp_ObfuscateAPIKeys :: bool
  sp_ObfuscateAPIKeysLength :: int
  sp_Fields :: "string list"
  sp_IgnoreTagPrefixList :: "string list"
  sp_EnableBatch :: bool
  sp_BatchMaxContentLength :: int
  sp_MaxRetries :: nat

definition maxContentLength :: int where "maxContentLength = 838860800"

record splunk_client =
  sk_Token :: string
  sk_CollectorURL :: string

text \<open>\<open>parse\<close> and \<open>withPath\<close> are \<open>url.Parse\<close> and the rendering of a URL with another path; \<open>tls\<close> loads the certificates.\<close>

definition newSplunkClient ::
  "(string \<Rightarrow> 'u res) \<Rightarrow> ('u \<Rightarrow> string \<Rightarrow> string) \<Rightarrow> (splunk_conf \<Rightarrow> unit res) \<Rightarrow> splunk_conf \<Rightarrow> splunk_client res" where
  "newSplunkClient parse withPath tls conf =
     (if sp_CollectorToken conf = [] \<or> sp_CollectorURL conf = []
      then Inl (GoErr ''Empty settings'')
      else rbind (parse (sp_CollectorURL conf)) (\<lambda>u.
        rbind (case tls conf of Inl (GoErr e) \<Rightarrow> Inl (GoErr (''failed to configure TLS for splunk client: '' @ e)) | r \<Rightarrow> r) (\<lambda>_.
        Inr \<lparr>sk_Token = sp_CollectorToken conf, sk_CollectorURL = withPath u ''/services/collector/event/1.0''\<rparr>)))"

definition splunk_Init ::
  "(string \<Rightarrow> 'u res) \<Rightarrow> ('u \<Rightarrow> string \<Rightarrow> string) \<Rightarrow> (splunk_conf \<Rightarrow> unit res) \<Rightarrow> splunk_conf \<Rightarrow> (splunk_conf \<times> splunk_client) res" where
  "splunk_Init parse withPath tls conf =
     rbind (newSplunkClient parse withPath tls conf) (\<lambda>client.
       Inr (if sp_EnableBatch conf \<and> sp_BatchMaxContentLength conf = 0
            then conf\<lparr>sp_BatchMaxContentLength := maxContentLength\<rparr> else conf, client))"

section \<open>Tags\<close>

text \<open>
  A slice is an array with a length; removing an element moves the following ones in the array,
  which other slices may share. The loop over the elements goes on to the length it started with.
\<close>

type_synonym tag_slice = "string list \<times> nat"

definition remove_at :: "nat \<Rightarrow> tag_slice \<Rightarrow> tag_slice res" where
  "remove_at key = (\<lambda>(arr, len).
     (if Suc key > len then Inl (GoPanic ''slice bounds out of range'')
      else Inr (take key arr @ take (len - Suc key) (drop (Suc key) arr) @ [[]] @ drop len arr, len - 1)))"

definition filter_key :: "string \<Rightarrow> tag_slice \<Rightarrow> nat \<Rightarrow> tag_slice res" where
  "filter_key excludeTag sl key = (if has_prefix (fst sl ! key) excludeTag then remove_at key sl else Inr sl)"

definition filter_prefix :: "tag_slice \<Rightarrow> string \<Rightarrow> tag_slice res" where
  "filter_prefix sl excludeTag = rfold (filter_key excludeTag) sl [0..<snd sl]"

definition FilterTags :: "string list \<Rightarrow> string list \<Rightarrow> tag_slice res" where
  "FilterTags ignored filteredTags = rfold filter_prefix (filteredTags, length filteredTags) ignored"

section \<open>Events\<close>

definition splunk_mapping :: "analytics_record \<Rightarrow> string \<Rightarrow> (string \<times> jval) list" where
  "splunk_mapping r apiKey =
     [(''method'', JStr (r_Method r)), (''host'', JStr (r_Host r)), (''path'', JStr (r_Path r)),
      (''raw_path'', JStr (r_RawPath r)), (''content_length'', JInt (r_ContentLength r)),
      (''user_agent'', JStr (r_UserAgent r)), (''response_code'', JInt (r_ResponseCode r)), (''api_key'', JStr apiKey),
      (''time_stamp'', JTime (r_TimeStamp r)), (''api_version'', JStr (r_APIVersion r)), (''api_name'', JStr (r_APIName r)),
      (''api_id'', JStr (r_APIID r)), (''org_id'', JStr (r_OrgID r)), (''oauth_id'', JStr (r_OauthID r)),
      (''raw_request'', JStr (r_RawRequest r)), (''request_time'', JInt (r_RequestTime r)),
      (''raw_response'', JStr (r_RawResponse r)), (''ip_address'', JStr (r_IPAddress r)), (''geo'', JGeo (r_Geo r)),
      (''network'', JNetwork (r_Network r)), (''latency'', JLatency (r_Latency r)), (''tags'', JTags (r_Tags r)),
      (''alias'', JStr (r_Alias r)), (''track_path'', JBool (r_TrackPath r))]"

definition splunk_default_fields :: "string list" where
  "splunk_default_fields = [''method'', ''path'', ''response_code'', ''api_key'', ''time_stamp'', ''api_version'', ''api_name'',
     ''api_id'', ''org_id'', ''oauth_id'', ''raw_request'', ''request_time'', ''raw_response'', ''ip_address'']"

definition splunk_apiKey :: "splunk_conf \<Rightarrow> string \<Rightarrow> string res" where
  "splunk_apiKey conf apiKey =
     (if sp_ObfuscateAPIKeys conf \<and> int (length apiKey) > sp_ObfuscateAPIKeysLength conf
      then rbind (slice_from (int (length apiKey) - sp_ObfuscateAPIKeysLength conf) apiKey) (\<lambda>k. Inr (''****'' @ k))
      else Inr apiKey)"

text \<open>The loop over the configured fields; filtering replaces the tags of the mapping.\<close>

fun splunk_fields :: "string list \<Rightarrow> (string \<times> jval) list \<Rightarrow> string list \<Rightarrow> event \<Rightarrow> event res" where
  "splunk_fields ignored mapping [] event = Inr event"
| "splunk_fields ignored mapping (field # fs) event =
     (case map_of mapping field of
        None \<Rightarrow> splunk_fields ignored mapping fs event
      | Some v \<Rightarrow>
          rbind (if field = ''tags'' \<and> ignored \<noteq> []
                 then (case v of JTags tags \<Rightarrow>
                         rbind (FilterTags ignored tags) (\<lambda>(arr, len). Inr (JTags (take len arr)))
                       | _ \<Rightarrow> Inl (GoPanic ''interface conversion''))
                 else Inr v) (\<lambda>v.
            splunk_fields ignored (AList.update field v mapping) fs (gomap_set event field v)))"

definition splunk_event :: "splunk_conf \<Rightarrow> analytics_record \<Rightarrow> event res" where
  "splunk_event conf r =
     rbind (splunk_apiKey conf (r_APIKey r)) (\<lambda>apiKey.
       (let mapping = splunk_mapping r apiKey
        in if sp_Fields conf \<noteq> [] then splunk_fields (sp_IgnoreTagPrefixList conf) mapping (sp_Fields conf) []
           else Inr (event_of (filter (\<lambda>(k, v). k \<in> set splunk_default_fields) mapping))))"

definition splunk_encode :: "(i64 \<times> event \<Rightarrow> string res) \<Rightarrow> splunk_conf \<Rightarrow> item \<Rightarrow> string res" where
  "splunk_encode marshal conf v =
     rbind (assert_record v) (\<lambda>r. rbind (splunk_event conf r) (\<lambda>event. marshal (time_unix (r_TimeStamp r), event)))"

section \<open>Sending\<close>

text \<open>\<open>newRequest\<close> builds the request; it can fail on the URL.\<close>

definition splunk_send ::
  "'s retrier \<Rightarrow> (string \<Rightarrow> 's \<Rightarrow> (err_chain + http_response) \<times> 's) \<Rightarrow> unit res \<Rightarrow> splunk_conf \<Rightarrow> string \<Rightarrow> ('s, unit) io" where
  "splunk_send retry request newRequest conf data =
     io_bind (io_res newRequest) (\<lambda>_. http_Send retry request (sp_MaxRetries conf) (Some (Inr data)))"

fun splunk_loop ::
  "(string \<Rightarrow> ('s, unit) io) \<Rightarrow> (item \<Rightarrow> string res) \<Rightarrow> splunk_conf \<Rightarrow> string \<Rightarrow> item list \<Rightarrow> ('s, string) io" where
  "splunk_loop send encode conf batchBuffer [] = io_ret batchBuffer"
| "splunk_loop send encode conf batchBuffer (v # vs) =
     io_bind (io_res (encode v)) (\<lambda>data.
       if sp_EnableBatch conf then
         (if int (length batchBuffer + length data) > sp_BatchMaxContentLength conf
          then io_bind (send batchBuffer) (\<lambda>_. splunk_loop send encode conf data vs)
          else splunk_loop send encode conf (batchBuffer @ data) vs)
       else io_bind (send data) (\<lambda>_. splunk_loop send encode conf batchBuffer vs))"

definition splunk_WriteData ::
  "(string \<Rightarrow> ('s, unit) io) \<Rightarrow> (i64 \<times> event \<Rightarrow> string res) \<Rightarrow> splunk_conf \<Rightarrow> item list \<Rightarrow> ('s, unit) io" where
  "splunk_WriteData send marshal conf data =
     io_bind (splunk_loop send (splunk_encode marshal conf) conf [] data) (\<lambda>batchBuffer.
       if sp_EnableBatch conf \<and> batchBuffer \<noteq> [] then send batchBuffer else io_ret ())"

section \<open>What \<open>FilterTags\<close> keeps\<close>

lemma remove_at_ok:
  assumes "key < len" "len \<le> length arr"
  obtains arr' where "remove_at key (arr, len) = Inr (arr', len - 1)" "length arr' = length arr"
    "take (len - 1) arr' = take key arr @ drop (Suc key) (take len arr)" "drop (len - 1) arr' = [] # drop len arr"
proof
  let ?a = "take key arr @ take (len - Suc key) (drop (Suc key) arr)"
  have len: "length ?a = len - 1" using assms by simp
  show "remove_at key (arr, len) = Inr (?a @ [[]] @ drop len arr, len - 1)" using assms by (simp add: remove_at_def)
  show "length (?a @ [[]] @ drop len arr) = length arr" using assms by simp
  have "take (len - 1) (?a @ [[]] @ drop len arr) = ?a" using len by (metis append_eq_conv_conj)
  then show "take (len - 1) (?a @ [[]] @ drop len arr) = take key arr @ drop (Suc key) (take len arr)"
    by (simp add: drop_take)
  show "drop (len - 1) (?a @ [[]] @ drop len arr) = [] # drop len arr" using len by (metis append_Cons append_Nil append_eq_conv_conj)
qed

text \<open>Nothing but hits is lost, and the array is blank between the end of the slice and \<open>n\<close>.\<close>

definition tag_inv :: "(string \<Rightarrow> bool) \<Rightarrow> string list \<Rightarrow> nat \<Rightarrow> tag_slice \<Rightarrow> bool" where
  "tag_inv hit tags n sl \<longleftrightarrow> (case sl of (arr, len) \<Rightarrow> length arr = length tags \<and> len \<le> n \<and> n \<le> length tags \<and>
     (\<forall>i. len \<le> i \<and> i < n \<longrightarrow> arr ! i = []) \<and>
     subseq (take len arr) tags \<and> filter (\<lambda>t. \<not> hit t) (take len arr) = filter (\<lambda>t. \<not> hit t) tags)"

lemma filter_key_inv:
  assumes inv: "tag_inv hit tags n sl" and p: "p \<noteq> []" "\<And>t. has_prefix t p \<Longrightarrow> hit t" and key: "key < n"
  shows "\<exists>sl'. filter_key p sl key = Inr sl' \<and> tag_inv hit tags n sl'"
proof (cases "has_prefix (fst sl ! key) p")
  case False
  with inv show ?thesis by (simp add: filter_key_def)
next
  case True
  obtain arr len where sl: "sl = (arr, len)" by (cases sl)
  have arr: "length arr = length tags" "len \<le> n" "n \<le> length tags" using inv by (simp_all add: tag_inv_def sl)
  have "arr ! key \<noteq> []" using True p(1) by (auto simp: sl has_prefix_def)
  with inv key have lt: "key < len" unfolding tag_inv_def sl prod.case by (meson not_le)
  obtain arr' where a: "remove_at key (arr, len) = Inr (arr', len - 1)" "length arr' = length arr"
    "take (len - 1) arr' = take key arr @ drop (Suc key) (take len arr)" "drop (len - 1) arr' = [] # drop len arr"
    using remove_at_ok [OF lt, of arr] arr by auto
  have split: "take len arr = take key arr @ (arr ! key) # drop (Suc key) (take len arr)"
    using id_take_nth_drop [of key "take len arr"] lt arr by simp
  have "hit (arr ! key)" using True p(2) by (simp add: sl)
  then have "filter (\<lambda>t. \<not> hit t) (take (len - 1) arr') = filter (\<lambda>t. \<not> hit t) (take len arr)"
    unfolding a(3) by (subst (2) split) simp
  moreover have "subseq (xs @ zs) (xs @ x # zs)" for xs zs and x :: string
    by (induction xs) (auto intro: list_emb_Cons)
  then have "subseq (take (len - 1) arr') (take len arr)" unfolding a(3) by (subst (2) split)
  moreover have "arr' ! i = []" if "len - 1 \<le> i" "i < n" for i
  proof -
    have "arr' ! i = ([] # drop len arr) ! (i - (len - 1))" unfolding a(4) [symmetric] using that a(2) arr by simp
    with that inv lt arr show ?thesis by (cases "i - (len - 1)") (auto simp: tag_inv_def sl)
  qed
  ultimately have "tag_inv hit tags n (arr', len - 1)"
    using inv a(2) by (auto simp: tag_inv_def sl dest: subseq_order.trans)
  with a(1) True show ?thesis by (simp add: filter_key_def sl)
qed

lemma filter_prefix_inv:
  assumes "tag_inv hit tags (snd sl) sl" and "p \<noteq> []" "\<And>t. has_prefix t p \<Longrightarrow> hit t"
  shows "\<exists>sl'. filter_prefix sl p = Inr sl' \<and> tag_inv hit tags (snd sl') sl'"
proof -
  have run: "\<exists>sl2. rfold (filter_key p) sl1 ks = Inr sl2 \<and> tag_inv hit tags n sl2"
    if "tag_inv hit tags n sl1" "\<forall>k \<in> set ks. k < n" for n sl1 ks
    using that
  proof (induction ks arbitrary: sl1)
    case (Cons k ks)
    obtain sl2 where "filter_key p sl1 k = Inr sl2" "tag_inv hit tags n sl2"
      using filter_key_inv [OF Cons.prems(1) assms(2,3), of k] Cons.prems(2) by (metis list.set_intros(1))
    with Cons.IH Cons.prems(2) show ?case by simp
  qed simp
  from run [OF assms(1), of "[0..<snd sl]"] obtain sl2 where
    "filter_prefix sl p = Inr sl2" "tag_inv hit tags (snd sl) sl2" by (auto simp: filter_prefix_def)
  then show ?thesis by (auto simp: tag_inv_def)
qed

text \<open>
  If no ignored prefix is empty, \<open>FilterTags\<close> does not panic, keeps every tag that has none of
  the prefixes, in order, and adds nothing; the array it works on, which other pumps share, keeps
  its length.
\<close>

theorem FilterTags_keeps:
  assumes "[] \<notin> set ignored"
  shows "\<exists>arr len. FilterTags ignored tags = Inr (arr, len) \<and> length arr = length tags \<and> len \<le> length tags \<and>
    subseq (take len arr) tags \<and>
    filter (\<lambda>t. \<not> (\<exists>p \<in> set ignored. has_prefix t p)) (take len arr) = filter (\<lambda>t. \<not> (\<exists>p \<in> set ignored. has_prefix t p)) tags"
proof -
  let ?hit = "\<lambda>t. \<exists>p \<in> set ignored. has_prefix t p"
  have "\<exists>sl'. rfold filter_prefix sl ps = Inr sl' \<and> tag_inv ?hit tags (snd sl') sl'"
    if "tag_inv ?hit tags (snd sl) sl" "set ps \<subseteq> set ignored" for sl ps
    using that
  proof (induction ps arbitrary: sl)
    case (Cons p ps)
    have "p \<noteq> []" using Cons.prems(2) assms by auto
    moreover have "?hit t" if "has_prefix t p" for t using that Cons.prems(2) by auto
    ultimately obtain sl2 where "filter_prefix sl p = Inr sl2" "tag_inv ?hit tags (snd sl2) sl2"
      using filter_prefix_inv [OF Cons.prems(1), of p] by blast
    with Cons.IH Cons.prems(2) show ?case by simp
  qed simp
  moreover have "tag_inv ?hit tags (snd (tags, length tags)) (tags, length tags)" by (auto simp: tag_inv_def)
  ultimately obtain sl where "FilterTags ignored tags = Inr sl" "tag_inv ?hit tags (snd sl) sl"
    unfolding FilterTags_def by blast
  then show ?thesis by (cases sl) (auto simp: tag_inv_def)
qed

text \<open>The element after a removed one is not looked at; an empty prefix panics on two tags.\<close>

lemma FilterTags_skips: "FilterTags [''k''] [''ka'', ''kb'', ''c''] = Inr ([''kb'', ''c'', []], 2)"
  by (simp add: FilterTags_def filter_prefix_def filter_key_def remove_at_def has_prefix_def upt_rec)

lemma FilterTags_empty_prefix: "FilterTags [[]] [''a'', ''b''] = Inl (GoPanic ''slice bounds out of range'')"
  by (simp add: FilterTags_def filter_prefix_def filter_key_def remove_at_def has_prefix_def upt_rec)

section \<open>Which requests carry which events\<close>

definition request_ok :: "splunk_conf \<Rightarrow> string list \<Rightarrow> bool" where
  "request_ok conf p \<longleftrightarrow> length p \<le> 1 \<or> int (length (concat p)) \<le> sp_BatchMaxContentLength conf"

lemma splunk_loop_batches:
  assumes send: "\<And>b s. \<exists>t. send b s = (Inr (), t) \<and> view t = view s @ [b]" and batch: "sp_EnableBatch conf"
  shows "map encode data = map Inr es \<Longrightarrow> request_ok conf cur \<Longrightarrow>
    \<exists>t parts cur'. splunk_loop send encode conf (concat cur) data s = (Inr (concat cur'), t) \<and>
      view t = view s @ map concat parts \<and> concat parts @ cur' = cur @ es \<and> list_all (request_ok conf) parts \<and> request_ok conf cur'"
proof (induction data arbitrary: es cur s)
  case Nil
  then show ?case by (intro exI [of _ s] exI [of _ "[]"] exI [of _ cur]) simp
next
  case (Cons v vs)
  then obtain e es' where es: "es = e # es'" "encode v = Inr e" "map encode vs = map Inr es'" by (cases es) auto
  show ?case
  proof (cases "int (length (concat cur) + length e) > sp_BatchMaxContentLength conf")
    case True
    obtain s1 where s1: "send (concat cur) s = (Inr (), s1)" "view s1 = view s @ [concat cur]" using send by blast
    have "request_ok conf [e]" by (simp add: request_ok_def)
    from Cons.IH [OF es(3) this, of s1] obtain t parts cur' where
      "splunk_loop send encode conf e vs s1 = (Inr (concat cur'), t)" "view t = view s1 @ map concat parts"
      "concat parts @ cur' = [e] @ es'" "list_all (request_ok conf) parts" "request_ok conf cur'" by auto
    with s1 True batch es Cons.prems(2) show ?thesis
      by (intro exI [of _ t] exI [of _ "cur # parts"] exI [of _ cur']) (simp add: io_bind_def)
  next
    case False
    then have "request_ok conf (cur @ [e])" by (simp add: request_ok_def)
    from Cons.IH [OF es(3) this, of s] obtain t parts cur' where
      "splunk_loop send encode conf (concat cur @ e) vs s = (Inr (concat cur'), t)" "view t = view s @ map concat parts"
      "concat parts @ cur' = (cur @ [e]) @ es'" "list_all (request_ok conf) parts" "request_ok conf cur'" by auto
    with False batch es show ?thesis
      by (intro exI [of _ t] exI [of _ parts] exI [of _ cur']) (simp add: io_bind_def)
  qed
qed

lemma splunk_loop_single:
  assumes send: "\<And>b s. \<exists>t. send b s = (Inr (), t) \<and> view t = view s @ [b]" and single: "\<not> sp_EnableBatch conf"
  shows "map encode data = map Inr es \<Longrightarrow> \<exists>t. splunk_loop send encode conf [] data s = (Inr [], t) \<and> view t = view s @ es"
proof (induction data arbitrary: es s)
  case Nil
  then show ?case by simp
next
  case (Cons v vs)
  then obtain e es' where es: "es = e # es'" "encode v = Inr e" "map encode vs = map Inr es'" by (cases es) auto
  obtain s1 where "send e s = (Inr (), s1)" "view s1 = view s @ [e]" using send by blast
  with Cons.IH [OF es(3), of s1] es single show ?case by (auto simp: io_bind_def)
qed

text \<open>
  C28. If the sends succeed, the events of a batch are sent in order and each in one request: without
  batching a request for each event; with batching the requests are consecutive events of at most
  the configured length, a larger event alone.
\<close>

theorem splunk_WriteData_sends:
  assumes send: "\<And>b s. \<exists>t. send b s = (Inr (), t) \<and> view t = view s @ [b]"
    and es: "map (splunk_encode marshal conf) data = map Inr es" "[] \<notin> set es"
  shows "\<exists>t parts. splunk_WriteData send marshal conf data s = (Inr (), t) \<and> view t = view s @ map concat parts \<and>
    concat parts = es \<and> list_all (request_ok conf) parts \<and> (\<not> sp_EnableBatch conf \<longrightarrow> parts = map (\<lambda>e. [e]) es)"
proof (cases "sp_EnableBatch conf")
  case False
  from splunk_loop_single [where view = view, OF send this es(1), of s] obtain t where
    "splunk_loop send (splunk_encode marshal conf) conf [] data s = (Inr [], t)" "view t = view s @ es" by blast
  moreover have "map concat (map (\<lambda>e. [e]) es) = es" "concat (map (\<lambda>e. [e]) es) = es" by (induction es) simp_all
  moreover have "list_all (request_ok conf) (map (\<lambda>e. [e]) es)" by (simp add: list_all_iff request_ok_def)
  ultimately show ?thesis using False by (intro exI [of _ t] exI [of _ "map (\<lambda>e. [e]) es"]) (simp add: splunk_WriteData_def io_bind_def)
next
  case True
  have "request_ok conf []" by (simp add: request_ok_def)
  from splunk_loop_batches [where view = view, OF send True es(1) this, of s] obtain t parts cur where
    t: "splunk_loop send (splunk_encode marshal conf) conf [] data s = (Inr (concat cur), t)" "view t = view s @ map concat parts"
    and parts: "concat parts @ cur = es" "list_all (request_ok conf) parts" "request_ok conf cur" by auto
  show ?thesis
  proof (cases "concat cur = []")
    case True
    moreover have "cur = []" using es(2) parts(1) True by (cases cur) auto
    ultimately show ?thesis using t parts \<open>sp_EnableBatch conf\<close>
      by (intro exI [of _ t] exI [of _ parts]) (simp add: splunk_WriteData_def io_bind_def)
  next
    case False
    obtain u where "send (concat cur) t = (Inr (), u)" "view u = view t @ [concat cur]" using send by blast
    with False t parts True show ?thesis
      by (intro exI [of _ u] exI [of _ "parts @ [cur]"]) (simp add: splunk_WriteData_def io_bind_def)
  qed
qed

text \<open>An event above the limit that comes first is preceded by a request without any event.\<close>

lemma splunk_empty_request:
  assumes "\<And>b s. \<exists>t. send b s = (Inr (), t) \<and> view t = view s @ [b]"
    and "sp_EnableBatch conf" and "encode v = Inr e" and "int (length e) > sp_BatchMaxContentLength conf"
  shows "\<exists>t. splunk_loop send encode conf [] [v] s = (Inr e, t) \<and> view t = view s @ [[]]"
  using assms(1) [of "[]" s] assms(2-) by (auto simp: io_bind_def)

theorem FilterTags_keeps_witness:
  "\<exists>arr len. FilterTags [''key-''] [''a'', ''key-1'', ''b''] = Inr (arr, len) \<and>
     filter (\<lambda>t. \<not> has_prefix t ''key-'') (take len arr) = [''a'', ''b'']"
proof -
  have "[] \<notin> set [''key-'']" by simp
  from FilterTags_keeps [OF this, of "[''a'', ''key-1'', ''b'']"] show ?thesis by (auto simp: has_prefix_def)
qed

definition sample_splunk_conf :: splunk_conf where
  "sample_splunk_conf = \<lparr>sp_EnvPrefix = [], sp_CollectorToken = ''t'', sp_CollectorURL = ''u'', sp_SSLInsecureSkipVerify = False,
     sp_SSLCertFile = [], sp_SSLKeyFile = [], sp_SSLCAFile = [], sp_SSLServerName = [], sp_ObfuscateAPIKeys = False,
     sp_ObfuscateAPIKeysLength = 0, sp_Fields = [''path''], sp_IgnoreTagPrefixList = [], sp_EnableBatch = True,
     sp_BatchMaxContentLength = 4, sp_MaxRetries = 0\<rparr>"

theorem splunk_WriteData_sends_witness:
  "\<exists>parts. splunk_WriteData (\<lambda>b log. (Inr (), log @ [b])) (\<lambda>_. Inr ''{}'') sample_splunk_conf
       (replicate 3 (ItemRecord record_zero)) [] = (Inr (), map concat parts) \<and>
     concat parts = [''{}'', ''{}'', ''{}'']"
proof -
  have "splunk_encode (\<lambda>_. Inr ''{}'') sample_splunk_conf (ItemRecord record_zero) = Inr ''{}''"
    by (simp add: splunk_encode_def splunk_event_def splunk_apiKey_def sample_splunk_conf_def splunk_mapping_def)
  then have e: "map (splunk_encode (\<lambda>_. Inr ''{}'') sample_splunk_conf) (replicate 3 (ItemRecord record_zero)) =
      map Inr [''{}'', ''{}'', ''{}'']" by (simp add: numeral_3_eq_3)
  have "[] \<notin> set [''{}'', ''{}'', ''{}'']" by simp
  from splunk_WriteData_sends [where view = "\<lambda>l. l" and send = "\<lambda>b log. (Inr (), log @ [b])", OF _ e this, of "[]"]
  show ?thesis by (auto simp: io_bind_def)
qed

end
