(* ===== verification/AWS_Pumps.thy ===== *)
theory AWS_Pumps
  imports Batching Event_Values
begin

text \<open>
  The pumps for Amazon's services: \<open>src/pumps/kinesis.go\<close> and \<open>src/pumps/sqs.go\<close>. Both cut a
  batch of records by number; the client library is a record of functions over a state. The loops
  need not end: Kinesis' for a batch size of 0, SQS' for a limit of 0. The lemmas: Kinesis' way to
  cut is one more interpretation of \<open>batching\<close>; what is sent, and when the loops do not return.
\<close>

section \<open>Kinesis\<close>

record kinesis_conf =
  kn_EnvPrefix :: string
  kn_StreamName :: string
  kn_Region :: string
  kn_BatchSize :: int
  kn_KMSKeyID :: string

datatype encryption = NoEncryption | KmsEncryption "string option"

text \<open>
  \<open>kl_Describe\<close> tells the encryption of the stream, \<open>kl_Encrypt\<close> starts it (its error says whether
  the stream is in use already), \<open>kl_Key\<close> draws a random number as text.
\<close>

record 's kinesis_lib =
  kl_Describe :: "('s, encryption) io"
  kl_Encrypt :: "string \<Rightarrow> ('s, unit) io"
  kl_InUse :: "string \<Rightarrow> bool"
  kl_Key :: "('s, string) io"
  kl_PutRecords :: "string \<Rightarrow> (string \<times> string) list \<Rightarrow> ('s, unit) io"

definition kinesis_Init :: "'s kinesis_lib \<Rightarrow> kinesis_conf \<Rightarrow> ('s, kinesis_conf) io" where
  "kinesis_Init lib conf =
     (let conf = (if kn_BatchSize conf = 0 then conf\<lparr>kn_BatchSize := 100\<rparr> else conf)
      in if kn_KMSKeyID conf = [] then io_ret conf
         else io_bind (io_try (kl_Describe lib)) (\<lambda>r.
           (case r of
              Inl e \<Rightarrow> io_fail (GoErr (''failed to describe Kinesis stream: '' @ e))
            | Inr (KmsEncryption (Some currentKeyID)) \<Rightarrow>
                if currentKeyID = kn_KMSKeyID conf then io_ret conf
                else io_fail (GoErr ''server-side encryption is already enabled with a different KMS Key ID'')
            | Inr other \<Rightarrow>
                io_bind (io_try (kl_Encrypt lib (kn_KMSKeyID conf))) (\<lambda>r.
                  (case r of
                     Inl e \<Rightarrow> if kl_InUse lib e then io_ret conf
                              else io_fail (GoErr (''failed to enable server-side encryption for Kinesis stream: '' @ e))
                   | Inr u \<Rightarrow> io_ret conf)))))"

partial_function (option) split_loop :: "int \<Rightarrow> 'a list \<Rightarrow> 'a list list \<Rightarrow> 'a list list res option" where
  "split_loop batchSize recs batches =
     (if batchSize < int (length recs) then
        (if batchSize < 0 then Some (Inl (GoPanic ''slice bounds out of range''))
         else split_loop batchSize (drop (nat batchSize) recs) (batches @ [take (nat batchSize) recs]))
      else Some (Inr (batches @ [recs])))"

definition splitIntoBatches :: "'a list \<Rightarrow> int \<Rightarrow> 'a list list res option" where
  "splitIntoBatches recs batchSize = split_loop batchSize recs []"

definition kinesis_fields :: "analytics_record \<Rightarrow> event" where
  "kinesis_fields r = event_of
     [(''timestamp'', JTime (r_TimeStamp r)), (''method'', JStr (r_Method r)), (''path'', JStr (r_Path r)),
      (''raw_path'', JStr (r_RawPath r)), (''response_code'', JInt (r_ResponseCode r)), (''alias'', JStr (r_Alias r)),
      (''api_key'', JStr (r_APIKey r)), (''api_version'', JStr (r_APIVersion r)), (''api_name'', JStr (r_APIName r)),
      (''api_id'', JStr (r_APIID r)), (''org_id'', JStr (r_OrgID r)), (''oauth_id'', JStr (r_OauthID r)),
      (''raw_request'', JStr (r_RawRequest r)), (''request_time_ms'', JInt (r_RequestTime r)),
      (''raw_response'', JStr (r_RawResponse r)), (''ip_address'', JStr (r_IPAddress r)), (''host'', JStr (r_Host r)),
      (''content_length'', JInt (r_ContentLength r)), (''user_agent'', JStr (r_UserAgent r)), (''tags'', JTags (r_Tags r))]"

text \<open>Items that are no records are left out; an event that cannot be rendered is sent empty.\<close>

fun kinesis_entries ::
  "'s kinesis_lib \<Rightarrow> (event \<Rightarrow> string res) \<Rightarrow> item list \<Rightarrow> (string \<times> string) list \<Rightarrow> ('s, (string \<times> string) list) io" where
  "kinesis_entries lib marshal [] entries = io_ret entries"
| "kinesis_entries lib marshal (v # vs) entries =
     (case v of
        ItemNil \<Rightarrow> kinesis_entries lib marshal vs entries
      | ItemRecord r \<Rightarrow>
          io_bind (kl_Key lib) (\<lambda>n.
            kinesis_entries lib marshal vs
              (entries @ [(case marshal (kinesis_fields r) of Inl e \<Rightarrow> [] | Inr json \<Rightarrow> json, n)])))"

definition kinesis_batch ::
  "'s kinesis_lib \<Rightarrow> (event \<Rightarrow> string res) \<Rightarrow> kinesis_conf \<Rightarrow> item list \<Rightarrow> ('s, unit) io" where
  "kinesis_batch lib marshal conf batch =
     io_bind (kinesis_entries lib marshal batch []) (\<lambda>entries.
       if entries = [] then io_ret ()
       else io_log (kl_PutRecords lib (kn_StreamName conf) entries))"

definition kinesis_WriteData ::
  "'s kinesis_lib \<Rightarrow> (event \<Rightarrow> string res) \<Rightarrow> kinesis_conf \<Rightarrow> item list \<Rightarrow> 's \<Rightarrow> (unit res \<times> 's) option" where
  "kinesis_WriteData lib marshal conf data s =
     (case splitIntoBatches data (kn_BatchSize conf) of
        None \<Rightarrow> None
      | Some batches \<Rightarrow> Some (io_bind (io_res batches) (\<lambda>batches. io_for batches (kinesis_batch lib marshal conf)) s))"

section \<open>SQS\<close>

record sqs_conf =
  qs_EnvPrefix :: string
  qs_QueueName :: string
  qs_AWSRegion :: string
  qs_AWSSecret :: string
  qs_AWSKey :: string
  qs_AWSToken :: string
  qs_AWSEndpoint :: string
  qs_AWSMessageGroupID :: string
  qs_AWSMessageIDDeduplicationEnabled :: bool
  qs_AWSDelaySeconds :: int
  qs_AWSSQSBatchLimit :: int

text \<open>
  \<open>sl_Config\<close> loads the configuration of a region, \<open>sl_New\<close> makes a client of it with the options that
  are set: an endpoint, and key, secret and token.
\<close>

record ('c, 'k, 's) sqs_lib =
  sl_Config :: "string \<Rightarrow> ('s, 'c) io"
  sl_New :: "'c \<Rightarrow> string option \<Rightarrow> (string \<times> string \<times> string) option \<Rightarrow> 'k"
  sl_GetQueueUrl :: "'k \<Rightarrow> string \<Rightarrow> ('s, string) io"

definition NewSQSPublisher :: "('c, 'k, 's) sqs_lib \<Rightarrow> sqs_conf \<Rightarrow> ('s, 'k) io" where
  "NewSQSPublisher lib conf =
     io_bind (sl_Config lib (qs_AWSRegion conf)) (\<lambda>cfg.
       io_ret (sl_New lib cfg
         (if qs_AWSEndpoint conf \<noteq> [] then Some (qs_AWSEndpoint conf) else None)
         (if qs_AWSKey conf \<noteq> [] \<and> qs_AWSSecret conf \<noteq> [] then Some (qs_AWSKey conf, qs_AWSSecret conf, qs_AWSToken conf) else None)))"

text \<open>\<open>Init\<close> once the configuration is decoded gives the client and the URL of the queue.\<close>

definition sqs_Init :: "('c, 'k, 's) sqs_lib \<Rightarrow> sqs_conf \<Rightarrow> ('s, 'k \<times> string) io" where
  "sqs_Init lib conf =
     io_bind (io_try (NewSQSPublisher lib conf)) (\<lambda>r.
       (case r of
          Inl e \<Rightarrow> io_fail (GoPanic (''exit: Failed to create sqs client: '' @ e))
        | Inr client \<Rightarrow> io_bind (sl_GetQueueUrl lib client (qs_QueueName conf)) (\<lambda>url. io_ret (client, url))))"

text \<open>A message; the pointers of the struct may be nil.\<close>

record sqs_message =
  qm_MessageBody :: "string option"
  qm_Id :: "string option"
  qm_MessageGroupId :: "string option"
  qm_DelaySeconds :: int
  qm_MessageDeduplicationId :: "string option"

definition sqs_message_zero :: sqs_message where
  "sqs_message_zero = \<lparr>qm_MessageBody = None, qm_Id = None, qm_MessageGroupId = None, qm_DelaySeconds = 0,
     qm_MessageDeduplicationId = None\<rparr>"

text \<open>An item that is no record, or cannot be rendered, leaves an empty message in its place.\<close>

definition sqs_message ::
  "(analytics_record \<Rightarrow> string res) \<Rightarrow> sqs_conf \<Rightarrow> string \<Rightarrow> item \<Rightarrow> sqs_message" where
  "sqs_message marshal conf ulid v =
     (case v of
        ItemNil \<Rightarrow> sqs_message_zero
      | ItemRecord r \<Rightarrow> (case marshal r of
          Inl e \<Rightarrow> sqs_message_zero
        | Inr body \<Rightarrow>
            \<lparr>qm_MessageBody = Some body, qm_Id = Some ulid,
             qm_MessageGroupId = (if qs_AWSMessageGroupID conf \<noteq> [] then Some (qs_AWSMessageGroupID conf) else None),
             qm_DelaySeconds = (if qs_AWSDelaySeconds conf \<noteq> 0 then qs_AWSDelaySeconds conf else 0),
             qm_MessageDeduplicationId = (if qs_AWSMessageIDDeduplicationEnabled conf then Some ulid else None)\<rparr>))"

partial_function (option) sqs_write ::
  "(sqs_message list \<Rightarrow> ('s, unit) io) \<Rightarrow> int \<Rightarrow> sqs_message list \<Rightarrow> int \<Rightarrow> 's \<Rightarrow> (unit res \<times> 's) option" where
  "sqs_write send limit messages i s =
     (if i < int (length messages) then
        (let ends = min (i + limit) (int (length messages))
         in if i < 0 \<or> ends < i then Some (Inl (GoPanic ''slice bounds out of range''), s)
            else (case send (take (nat (ends - i)) (drop (nat i) messages)) s of
              (Inl e, s) \<Rightarrow> Some (Inl e, s)
            | (Inr u, s) \<Rightarrow> sqs_write send limit messages (i + limit) s))
      else Some (Inr (), s))"

text \<open>\<open>ulid j\<close> is the identifier generated for the j-th item.\<close>

definition sqs_WriteData ::
  "(sqs_message list \<Rightarrow> ('s, unit) io) \<Rightarrow> (analytics_record \<Rightarrow> string res) \<Rightarrow> (nat \<Rightarrow> string) \<Rightarrow> sqs_conf \<Rightarrow> item list \<Rightarrow>
     's \<Rightarrow> (unit res \<times> 's) option" where
  "sqs_WriteData send marshal ulid conf data s =
     sqs_write send (qs_AWSSQSBatchLimit conf) (map (\<lambda>(j, v). sqs_message marshal conf (ulid j) v) (zip [0..<length data] data)) 0 s"

text \<open>The given credentials are used only if both the key and the secret are set.\<close>

lemma sqs_Init_ok:
  assumes "sqs_Init lib conf s = (Inr (client, url), t)"
  shows "\<exists>cfg u. sl_Config lib (qs_AWSRegion conf) s = (Inr cfg, u) \<and> sl_GetQueueUrl lib client (qs_QueueName conf) u = (Inr url, t) \<and>
    (\<exists>ends. client = sl_New lib cfg ends (if qs_AWSKey conf \<noteq> [] \<and> qs_AWSSecret conf \<noteq> []
       then Some (qs_AWSKey conf, qs_AWSSecret conf, qs_AWSToken conf) else None))"
proof -
  from assms obtain r u where "io_try (NewSQSPublisher lib conf) s = (Inr r, u)"
    "(case r of Inl e \<Rightarrow> io_fail (GoPanic (''exit: Failed to create sqs client: '' @ e))
      | Inr client \<Rightarrow> io_bind (sl_GetQueueUrl lib client (qs_QueueName conf)) (\<lambda>url. io_ret (client, url))) u = (Inr (client, url), t)"
    unfolding sqs_Init_def io_bind_Inr [of "io_try _"] by blast
  then have u: "io_try (NewSQSPublisher lib conf) s = (Inr (Inr client), u)" "sl_GetQueueUrl lib client (qs_QueueName conf) u = (Inr url, t)"
    by (cases r; auto simp: io_bind_Inr)+
  from u(1) have "NewSQSPublisher lib conf s = (Inr client, u)" by (auto simp: io_try_def split: prod.splits sum.splits go_error.splits)
  then obtain cfg where "sl_Config lib (qs_AWSRegion conf) s = (Inr cfg, u)"
    "client = sl_New lib cfg (if qs_AWSEndpoint conf \<noteq> [] then Some (qs_AWSEndpoint conf) else None)
      (if qs_AWSKey conf \<noteq> [] \<and> qs_AWSSecret conf \<noteq> [] then Some (qs_AWSKey conf, qs_AWSSecret conf, qs_AWSToken conf) else None)"
    unfolding NewSQSPublisher_def by (auto simp: io_bind_Inr)
  with u(2) show ?thesis by blast
qed

section \<open>Kinesis cuts batches\<close>

lemma split_loop_spec:
  assumes "0 < n"
  shows "\<exists>bs. split_loop (int n) recs batches = Some (Inr (batches @ bs)) \<and> concat bs = recs \<and> list_all (\<lambda>b. length b \<le> n) bs \<and> bs \<noteq> []"
proof (induction "length recs" arbitrary: recs batches rule: less_induct)
  case less
  show ?case
  proof (cases "n < length recs")
    case False
    then show ?thesis by (subst split_loop.simps) (intro exI [of _ "[recs]"], simp)
  next
    case True
    then have "length (drop n recs) < length recs" using assms by simp
    from less [OF this, of "batches @ [take n recs]"] obtain bs where
      "split_loop (int n) (drop n recs) (batches @ [take n recs]) = Some (Inr ((batches @ [take n recs]) @ bs))"
      "concat bs = drop n recs" "list_all (\<lambda>b. length b \<le> n) bs" by blast
    with True show ?thesis by (subst split_loop.simps) (intro exI [of _ "take n recs # bs"], simp)
  qed
qed

definition kinesis_split :: "nat \<Rightarrow> 'a list \<Rightarrow> 'a list list" where
  "kinesis_split n xs = (case splitIntoBatches xs (int n) of Some (Inr bs) \<Rightarrow> bs | _ \<Rightarrow> [])"

lemma splitIntoBatches_eq: "0 < n \<Longrightarrow> splitIntoBatches xs (int n) = Some (Inr (kinesis_split n xs))"
  using split_loop_spec [of n xs "[]"] by (auto simp: kinesis_split_def splitIntoBatches_def)

interpretation kinesis: batching kinesis_split
proof
  fix n :: nat and xs :: "'a list"
  assume "0 < n"
  from split_loop_spec [OF this, of xs "[]"] show "concat (kinesis_split n xs) = xs"
    by (auto simp: kinesis_split_def splitIntoBatches_def)
next
  fix n :: nat and ys xs :: "'a list"
  assume "0 < n" "ys \<in> set (kinesis_split n xs)"
  then show "length ys \<le> n" using split_loop_spec [of n xs "[]"]
    by (auto simp: kinesis_split_def splitIntoBatches_def list_all_iff)
qed

text \<open>With a batch size of 0 the loop only ends if there is nothing to cut.\<close>

lemma split_loop_zero:
  assumes "split_loop b recs batches = Some r" and "b = 0"
  shows "recs = []"
proof -
  have "b = 0 \<longrightarrow> recs = []"
    by (rule split_loop.raw_induct [where P = "\<lambda>b recs batches r. b = 0 \<longrightarrow> recs = []", OF _ assms(1)]) (auto split: if_splits)
  with assms(2) show ?thesis by simp
qed

text \<open>The entries of the records of a batch, with keys drawn in order.\<close>

definition entry_data :: "(event \<Rightarrow> string res) \<Rightarrow> item \<Rightarrow> string option" where
  "entry_data marshal v = (case v of ItemNil \<Rightarrow> None
     | ItemRecord r \<Rightarrow> Some (case marshal (kinesis_fields r) of Inl e \<Rightarrow> [] | Inr json \<Rightarrow> json))"

lemma kinesis_entries_data:
  assumes key: "\<And>s. \<exists>n t. kl_Key lib s = (Inr n, t) \<and> view t = view s"
  shows "\<exists>es t. kinesis_entries lib marshal batch entries s = (Inr (entries @ es), t) \<and> view t = view s \<and>
    map fst es = List.map_filter (entry_data marshal) batch"
proof (induction batch arbitrary: entries s)
  case Nil
  then show ?case by simp
next
  case (Cons v vs)
  show ?case
  proof (cases v)
    case ItemNil
    with Cons show ?thesis by (simp add: entry_data_def map_filter_def)
  next
    case (ItemRecord r)
    let ?json = "case marshal (kinesis_fields r) of Inl e \<Rightarrow> [] | Inr json \<Rightarrow> json"
    obtain n t where n: "kl_Key lib s = (Inr n, t)" "view t = view s" using key by blast
    from Cons.IH [of "entries @ [(?json, n)]" t] obtain es u where
      "kinesis_entries lib marshal vs (entries @ [(?json, n)]) t = (Inr ((entries @ [(?json, n)]) @ es), u)" "view u = view t"
      "map fst es = List.map_filter (entry_data marshal) vs" by blast
    with n ItemRecord show ?thesis
      by (intro exI [of _ "(?json, n) # es"] exI [of _ u]) (simp add: io_bind_def entry_data_def map_filter_def)
  qed
qed


section \<open>SQS sends slices\<close>

lemma sqs_write_slices:
  assumes "0 < n"
  shows "sqs_write send (int n) messages (int i) s = Some (io_for (slices_from n messages i) send s)"
proof (induction "length messages - i" arbitrary: i s rule: less_induct)
  case less
  show ?case
  proof (cases "i < length messages")
    case False
    then show ?thesis by (subst sqs_write.simps, subst slices_from.simps) simp
  next
    case True
    let ?e = "if i + n > length messages then length messages else i + n"
    have cut: "nat (min (int i + int n) (int (length messages)) - int i) = ?e - i" by auto
    have head: "slices_from n messages i = take (?e - i) (drop i messages) # slices_from n messages (i + n)"
      using True assms by (subst slices_from.simps) (auto simp: Let_def)
    obtain r t where rt: "send (take (?e - i) (drop i messages)) s = (r, t)" by fastforce
    have IH: "sqs_write send (int n) messages (int i + int n) t = Some (io_for (slices_from n messages (i + n)) send t)"
      using less [of "i + n" t] True assms by simp
    have rec: "sqs_write send (int n) messages (int i) s = (case r of Inl e \<Rightarrow> Some (Inl e, t)
        | Inr u \<Rightarrow> sqs_write send (int n) messages (int i + int n) t)"
      using True assms by (subst sqs_write.simps) (auto simp: Let_def cut rt split: sum.split)
    show ?thesis unfolding rec head io_for.simps io_bind_def rt prod.case
      by (cases r) (simp_all add: IH)
  qed
qed

definition stuck :: "(sqs_message list \<Rightarrow> ('s, unit) io) \<Rightarrow> int \<Rightarrow> sqs_message list \<Rightarrow> int \<Rightarrow> bool" where
  "stuck send limit messages i \<longleftrightarrow>
     limit = 0 \<and> 0 \<le> i \<and> i < int (length messages) \<and> (\<forall>s. \<exists>t. send [] s = (Inr (), t))"

lemma sqs_write_stuck:
  assumes "stuck send limit messages i"
  shows "sqs_write send limit messages i s = None"
proof (rule ccontr)
  assume "sqs_write send limit messages i s \<noteq> None"
  then obtain x where x: "sqs_write send limit messages i s = Some x" by blast
  have "\<not> stuck send limit messages i"
  proof (rule sqs_write.raw_induct [where P = "\<lambda>send limit messages i s x. \<not> stuck send limit messages i", OF _ x])
    fix f and send :: "sqs_message list \<Rightarrow> ('s, unit) io" and limit messages i s x
    assume IH: "\<And>send limit messages i s y. f send limit messages i s = Some y \<Longrightarrow> \<not> stuck (send :: sqs_message list \<Rightarrow> ('s, unit) io) limit messages i"
      and run: "(if i < int (length messages)
        then let ends = min (i + limit) (int (length messages))
             in if i < 0 \<or> ends < i then Some (Inl (GoPanic ''slice bounds out of range''), s)
                else (case send (take (nat (ends - i)) (drop (nat i) messages)) s of
                  (Inl e, s) \<Rightarrow> Some (Inl e, s) | (Inr u, s) \<Rightarrow> f send limit messages (i + limit) s)
        else Some (Inr (), s)) = Some x"
    show "\<not> stuck send limit messages i"
    proof
      assume st: "stuck send limit messages i"
      then obtain t where "send [] s = (Inr (), t)" unfolding stuck_def by blast
      with st run have "f send limit messages i t = Some x" by (simp add: stuck_def Let_def)
      with IH st show False by blast
    qed
  qed
  with assms show False by simp
qed


section \<open>The properties on concrete inputs\<close>

definition sample_kinesis_lib :: "string list kinesis_lib" where
  "sample_kinesis_lib = \<lparr>kl_Describe = io_ret NoEncryption, kl_Encrypt = \<lambda>_. io_ret (), kl_InUse = \<lambda>_. False,
     kl_Key = io_ret ''7'', kl_PutRecords = \<lambda>_ es. io_upd (\<lambda>s. s @ map fst es)\<rparr>"

definition sample_kinesis_conf :: "int \<Rightarrow> kinesis_conf" where
  "sample_kinesis_conf n = \<lparr>kn_EnvPrefix = [], kn_StreamName = ''s'', kn_Region = [], kn_BatchSize = n, kn_KMSKeyID = []\<rparr>"


definition sample_sqs_conf :: "int \<Rightarrow> sqs_conf" where
  "sample_sqs_conf n = \<lparr>qs_EnvPrefix = [], qs_QueueName = ''q'', qs_AWSRegion = [], qs_AWSSecret = [], qs_AWSKey = [],
     qs_AWSToken = [], qs_AWSEndpoint = [], qs_AWSMessageGroupID = [], qs_AWSMessageIDDeduplicationEnabled = False,
     qs_AWSDelaySeconds = 0, qs_AWSSQSBatchLimit = n\<rparr>"


end
