(* ===== verification/Prometheus.thy ===== *)
theory Prometheus
  imports GoIO Event_Values
begin

text \<open>
  The Prometheus pump, \<open>src/pumps/prometheus.go\<close>. A metric counts records, or observes a time of
  each record, by the values of its labels; counters are collected in a map during a write and added
  to the vectors of the client library at its end. The library is a record of functions over a
  registry. The lemmas: what a counter has counted, via the \<open>group_loop\<close> contract, and the records
  that make a histogram panic.
\<close>

section \<open>Metrics\<close>

record counter_struct =
  cs_labelValues :: "string list"
  cs_count :: i64

record histogram_counter =
  hc_totalRequestTime :: i64
  hc_hits :: i64
  hc_labelValues :: "string list"

record prom_metric =
  pm_Name :: string
  pm_Help :: string
  pm_MetricType :: string
  pm_Buckets :: "f64 list"
  pm_ObfuscateAPIKeys :: bool
  pm_ObfuscateAPIKeysLength :: int
  pm_Labels :: "string list"
  pm_MCPOnly :: bool
  pm_enabled :: bool
  pm_counterVec :: bool
  pm_histogramVec :: bool
  pm_counterMap :: "(string, counter_struct) gomap"
  pm_histogramMap :: "(string, histogram_counter) gomap"
  pm_aggregatedObservations :: bool

record prom_conf =
  pc_EnvPrefix :: string
  pc_Addr :: string
  pc_Path :: string
  pc_AggregateObservations :: bool
  pc_DisabledMetrics :: "string list"
  pc_TrackAllPaths :: bool
  pc_CustomMetrics :: "prom_metric list"

text \<open>The client library: creating and registering a vector, adding to and observing with one.\<close>

record 's prom_lib =
  pl_Counter :: "string \<Rightarrow> string \<Rightarrow> string list \<Rightarrow> ('s, unit) io"
  pl_Histogram :: "string \<Rightarrow> string \<Rightarrow> f64 list \<Rightarrow> string list \<Rightarrow> ('s, unit) io"
  pl_Add :: "string \<Rightarrow> string list \<Rightarrow> f64 \<Rightarrow> ('s, unit) io"
  pl_Observe :: "string \<Rightarrow> string list \<Rightarrow> f64 \<Rightarrow> ('s, unit) io"

record 's prom_pump =
  pr_allMetrics :: "prom_metric list"
  pr_reg :: 's

definition counterType :: string where "counterType = ''counter''"
definition histogramType :: string where "histogramType = ''histogram''"
definition prometheusUnknownPath :: string where "prometheusUnknownPath = ''unknown''"
definition metricTykLatency :: string where "metricTykLatency = ''tyk_latency''"

definition prom_buckets :: "f64 list" where
  "prom_buckets = map f_of_int [1, 2, 5, 7, 10, 15, 20, 25, 30, 40, 50, 60, 70, 80, 90, 100, 200, 300, 400, 500, 1000, 2000,
     5000, 10000, 30000, 60000]"

text \<open>\<open>float64\<close> of a \<open>uint64\<close>.\<close>

definition f_of_uint :: "i64 \<Rightarrow> f64" where
  "f_of_uint w = Fin (fl (of_int (uint w)))"

definition basic_metric :: "string \<Rightarrow> string \<Rightarrow> string \<Rightarrow> f64 list \<Rightarrow> string list \<Rightarrow> prom_metric" where
  "basic_metric name help mtype bkts labels =
     \<lparr>pm_Name = name, pm_Help = help, pm_MetricType = mtype, pm_Buckets = bkts, pm_ObfuscateAPIKeys = False,
      pm_ObfuscateAPIKeysLength = 0, pm_Labels = labels, pm_MCPOnly = False, pm_enabled = False, pm_counterVec = False,
      pm_histogramVec = False, pm_counterMap = [], pm_histogramMap = [], pm_aggregatedObservations = False\<rparr>"

definition CreateBasicMetrics :: "prom_metric list" where
  "CreateBasicMetrics =
     [basic_metric ''tyk_http_status'' ''HTTP status codes per API'' counterType [] [''code'', ''api''],
      basic_metric ''tyk_http_status_per_path'' ''HTTP status codes per API path and method'' counterType []
        [''code'', ''api'', ''path'', ''method''],
      basic_metric ''tyk_http_status_per_key'' ''HTTP status codes per API key'' counterType [] [''code'', ''key''],
      basic_metric ''tyk_http_status_per_oauth_client'' ''HTTP status codes per oAuth client id'' counterType []
        [''code'', ''client_id''],
      basic_metric ''tyk_latency'' ''Latency added by Tyk, Total Latency, upstream latency, and gateway latency per API''
        histogramType prom_buckets [''type'', ''api'']]"

section \<open>Start\<close>

definition ensureLabels :: "prom_metric \<Rightarrow> prom_metric" where
  "ensureLabels pm =
     (if pm_MetricType pm = histogramType
      then pm\<lparr>pm_Labels := ''type'' # filter (\<lambda>label. label \<noteq> ''type'') (pm_Labels pm)\<rparr> else pm)"

text \<open>The configured buckets are not used.\<close>

definition InitVec :: "'s prom_lib \<Rightarrow> prom_metric \<Rightarrow> ('s, prom_metric) io" where
  "InitVec lib pm =
     (if pm_MetricType pm = counterType then
        io_bind (pl_Counter lib (pm_Name pm) (pm_Help pm) (pm_Labels pm)) (\<lambda>_.
          io_ret (pm\<lparr>pm_counterVec := True, pm_counterMap := [], pm_enabled := True\<rparr>))
      else if pm_MetricType pm = histogramType then
        (let pm = ensureLabels pm
         in io_bind (pl_Histogram lib (pm_Name pm) (pm_Help pm) prom_buckets (pm_Labels pm)) (\<lambda>_.
              io_ret (pm\<lparr>pm_histogramVec := True, pm_histogramMap := [], pm_enabled := True\<rparr>)))
      else io_fail (GoErr (''invalid metric type:'' @ pm_MetricType pm)))"

definition on_reg :: "('s, 'a) io \<Rightarrow> ('s prom_pump, 'a) io" where
  "on_reg m = io_on pr_reg (\<lambda>r p. p\<lparr>pr_reg := r\<rparr>) m"

definition add_metric :: "prom_metric \<Rightarrow> ('s prom_pump, unit) io" where
  "add_metric m = io_upd (\<lambda>p. p\<lparr>pr_allMetrics := pr_allMetrics p @ [m]\<rparr>)"

text \<open>Base metrics stay in the list when their start fails, custom metrics do not.\<close>

definition initBaseMetrics :: "'s prom_lib \<Rightarrow> prom_conf \<Rightarrow> ('s prom_pump, unit) io" where
  "initBaseMetrics lib conf =
     io_bind (io_get pr_allMetrics) (\<lambda>metrics.
     io_bind (io_upd (\<lambda>p. p\<lparr>pr_allMetrics := []\<rparr>)) (\<lambda>_.
       io_for (filter (\<lambda>m. pm_Name m \<notin> set (pc_DisabledMetrics conf)) metrics) (\<lambda>m.
         let m = m\<lparr>pm_aggregatedObservations := pc_AggregateObservations conf\<rparr>
         in io_bind (io_try (on_reg (InitVec lib m))) (\<lambda>r. add_metric (case r of Inl e \<Rightarrow> m | Inr m' \<Rightarrow> m')))))"

definition InitCustomMetrics :: "'s prom_lib \<Rightarrow> prom_conf \<Rightarrow> ('s prom_pump, unit) io" where
  "InitCustomMetrics lib conf =
     io_for (pc_CustomMetrics conf) (\<lambda>m.
       let m = m\<lparr>pm_aggregatedObservations := pc_AggregateObservations conf\<rparr>
       in io_bind (io_try (on_reg (InitVec lib m))) (\<lambda>r. case r of Inl e \<Rightarrow> io_ret () | Inr m' \<Rightarrow> add_metric m'))"

text \<open>\<open>New\<close> and \<open>Init\<close>, without the listener.\<close>

definition prom_New :: "'s \<Rightarrow> 's prom_pump" where
  "prom_New reg = \<lparr>pr_allMetrics = CreateBasicMetrics, pr_reg = reg\<rparr>"

definition prom_Init :: "'s prom_lib \<Rightarrow> prom_conf \<Rightarrow> ('s prom_pump, prom_conf) io" where
  "prom_Init lib conf =
     (let conf = (if pc_Path conf = [] then conf\<lparr>pc_Path := ''/metrics''\<rparr> else conf)
      in if pc_Addr conf = [] then io_fail (GoErr ''Prometheus listen_addr not set'')
         else io_bind (initBaseMetrics lib conf) (\<lambda>_. io_bind (InitCustomMetrics lib conf) (\<lambda>_. io_ret conf)))"

section \<open>Labels\<close>

definition obfuscateAPIKey :: "prom_metric \<Rightarrow> string \<Rightarrow> string" where
  "obfuscateAPIKey pm apiKey =
     (if \<not> pm_ObfuscateAPIKeys pm then apiKey
      else if length apiKey > 4 then ''****'' @ drop (length apiKey - 4) apiKey else ''--'')"

definition label_mapping :: "analytics_record \<Rightarrow> string \<Rightarrow> (string \<times> string) list" where
  "label_mapping r apiKey =
     [(''host'', r_Host r), (''method'', r_Method r), (''path'', r_Path r), (''code'', itoa (r_ResponseCode r)),
      (''response_code'', itoa (r_ResponseCode r)), (''api_key'', apiKey), (''key'', apiKey),
      (''time_stamp'', time_string (r_TimeStamp r)), (''api_version'', r_APIVersion r), (''api_name'', r_APIName r),
      (''api'', r_APIID r), (''api_id'', r_APIID r), (''org_id'', r_OrgID r), (''client_id'', r_OauthID r),
      (''oauth_id'', r_OauthID r), (''request_time'', itoa (r_RequestTime r)),
      (''latency_total'', itoa (la_Total (r_Latency r))), (''latency_upstream'', itoa (la_Upstream (r_Latency r))),
      (''latency_gateway'', itoa (la_Gateway (r_Latency r))), (''ip_address'', r_IPAddress r), (''alias'', r_Alias r),
      (''mcp_method'', mc_JSONRPCMethod (r_MCPStats r)), (''mcp_primitive_type'', mc_PrimitiveType (r_MCPStats r)),
      (''mcp_primitive_name'', mc_PrimitiveName (r_MCPStats r))]"

definition GetLabelsValues :: "prom_metric \<Rightarrow> analytics_record \<Rightarrow> string list" where
  "GetLabelsValues pm decoded =
     (let mapping = label_mapping decoded (obfuscateAPIKey pm (r_APIKey decoded))
      in List.map_filter (map_of mapping) (pm_Labels pm))"

section \<open>Counting and observing\<close>

definition metric_Inc :: "prom_metric \<Rightarrow> string list \<Rightarrow> prom_metric res" where
  "metric_Inc pm values =
     (if pm_MetricType pm = counterType then
        (let key = str_join ''--'' values
         in Inr (pm\<lparr>pm_counterMap := gomap_set (pm_counterMap pm) key
              (case gomap_get (pm_counterMap pm) key of
                 Some currentValue \<Rightarrow> currentValue\<lparr>cs_count := cs_count currentValue + 1\<rparr>
               | None \<Rightarrow> \<lparr>cs_labelValues = values, cs_count = 1\<rparr>)\<rparr>))
      else Inl (GoErr (''invalid metric type:'' @ pm_MetricType pm)))"

text \<open>The first value is taken for a latency type if it looks like one.\<close>

definition latency_labels :: "string list \<Rightarrow> string list" where
  "latency_labels values =
     (case values of
        v # vs \<Rightarrow> if v \<in> {''total'', ''upstream'', ''gateway''} then v # vs else ''total'' # values
      | [] \<Rightarrow> [''total''])"

definition metric_Observe :: "'s prom_lib \<Rightarrow> prom_metric \<Rightarrow> i64 \<Rightarrow> string list \<Rightarrow> ('s, prom_metric) io" where
  "metric_Observe lib pm requestTime values =
     (if pm_MetricType pm = histogramType then
        (let labelValues = latency_labels values
         in if pm_aggregatedObservations pm then
              (let key = str_join ''--'' labelValues
               in io_ret (pm\<lparr>pm_histogramMap := gomap_set (pm_histogramMap pm) key
                    (case gomap_get (pm_histogramMap pm) key of
                       Some c \<Rightarrow> c\<lparr>hc_hits := hc_hits c + 1, hc_totalRequestTime := hc_totalRequestTime c + requestTime\<rparr>
                     | None \<Rightarrow> \<lparr>hc_totalRequestTime = requestTime, hc_hits = 1, hc_labelValues = labelValues\<rparr>)\<rparr>))
            else if \<not> pm_histogramVec pm then io_fail (GoErr ''histogram vector is nil'')
            else io_bind (pl_Observe lib (pm_Name pm) labelValues (f_of_int requestTime)) (\<lambda>_. io_ret pm))
      else io_fail (GoErr (''invalid metric type:'' @ pm_MetricType pm)))"

definition getAverageRequestTime :: "histogram_counter \<Rightarrow> f64" where
  "getAverageRequestTime c = f_of_uint (hc_totalRequestTime c div hc_hits c)"

definition nil_vec :: "bool \<Rightarrow> ('s, unit) io \<Rightarrow> ('s, unit) io" where
  "nil_vec present m = (if present then m else io_fail (GoPanic ''invalid memory address or nil pointer dereference''))"

definition metric_Expose :: "'s prom_lib \<Rightarrow> prom_metric \<Rightarrow> ('s, prom_metric) io" where
  "metric_Expose lib pm =
     (if pm_MetricType pm = counterType then
        io_bind (io_for (pm_counterMap pm) (\<lambda>(k, value).
          nil_vec (pm_counterVec pm) (pl_Add lib (pm_Name pm) (cs_labelValues value) (f_of_uint (cs_count value))))) (\<lambda>_.
            io_ret (pm\<lparr>pm_counterMap := []\<rparr>))
      else if pm_MetricType pm = histogramType then
        (if pm_aggregatedObservations pm then
           io_bind (io_for (pm_histogramMap pm) (\<lambda>(k, value).
             nil_vec (pm_histogramVec pm) (pl_Observe lib (pm_Name pm) (hc_labelValues value) (getAverageRequestTime value)))) (\<lambda>_.
               io_ret (pm\<lparr>pm_histogramMap := []\<rparr>))
         else io_ret pm)
      else io_fail (GoErr (''invalid metric type:'' @ pm_MetricType pm)))"

section \<open>Writing\<close>

definition put_metric :: "nat \<Rightarrow> prom_metric \<Rightarrow> ('s prom_pump, unit) io" where
  "put_metric i m = io_upd (\<lambda>p. p\<lparr>pr_allMetrics := (pr_allMetrics p)[i := m]\<rparr>)"

text \<open>A step on the i-th metric whose error is logged.\<close>

definition logged_on :: "nat \<Rightarrow> (prom_metric \<Rightarrow> ('s, prom_metric) io) \<Rightarrow> ('s prom_pump, unit) io" where
  "logged_on i f =
     io_bind (io_get (\<lambda>p. pr_allMetrics p ! i)) (\<lambda>m.
     io_bind (io_try (on_reg (f m))) (\<lambda>r. case r of Inl e \<Rightarrow> io_ret () | Inr m' \<Rightarrow> put_metric i m'))"

definition observeLatencyMetrics :: "'s prom_lib \<Rightarrow> nat \<Rightarrow> analytics_record \<Rightarrow> string list \<Rightarrow> ('s prom_pump, unit) io" where
  "observeLatencyMetrics lib i r values =
     io_for [(''total'', r_RequestTime r), (''upstream'', la_Upstream (r_Latency r)), (''gateway'', la_Gateway (r_Latency r))]
       (\<lambda>(name, value). logged_on i (\<lambda>m. metric_Observe lib m value (name # values)))"

definition processMetric :: "'s prom_lib \<Rightarrow> analytics_record \<Rightarrow> nat \<Rightarrow> ('s prom_pump, unit) io" where
  "processMetric lib r i =
     io_bind (io_get (\<lambda>p. pr_allMetrics p ! i)) (\<lambda>metric.
       if \<not> pm_enabled metric then io_ret ()
       else if pm_MCPOnly metric \<and> \<not> IsMCPRecord r then io_ret ()
       else (let values = GetLabelsValues metric r
             in if pm_MetricType metric = counterType then
                  (if pm_counterVec metric then logged_on i (\<lambda>m. io_res (metric_Inc m values)) else io_ret ())
                else if pm_MetricType metric = histogramType then
                  (if pm_histogramVec metric then
                     (if pm_Name metric = metricTykLatency then observeLatencyMetrics lib i r values
                      else logged_on i (\<lambda>m. metric_Observe lib m (r_RequestTime r) values))
                   else io_ret ())
                else io_ret ()))"

definition known_path :: "prom_conf \<Rightarrow> analytics_record \<Rightarrow> analytics_record" where
  "known_path conf r = (if \<not> (pc_TrackAllPaths conf \<or> r_TrackPath r) then r\<lparr>r_Path := prometheusUnknownPath\<rparr> else r)"

text \<open>\<open>done i\<close> is whether the context has ended when the i-th record is looked at.\<close>

fun prom_records :: "'s prom_lib \<Rightarrow> prom_conf \<Rightarrow> (nat \<Rightarrow> bool) \<Rightarrow> nat \<Rightarrow> item list \<Rightarrow> ('s prom_pump, unit) io" where
  "prom_records lib conf ended i [] = io_ret ()"
| "prom_records lib conf ended i (v # vs) =
     (if ended i then io_fail (GoErr (''prometheus pump couldn'' @ [CHR 0x27] @ ''t write all the analytics records''))
      else io_bind (io_res (assert_record v)) (\<lambda>r.
           io_bind (io_get (\<lambda>p. length (pr_allMetrics p))) (\<lambda>n.
           io_bind (io_for [0..<n] (processMetric lib (known_path conf r))) (\<lambda>_.
             prom_records lib conf ended (Suc i) vs))))"

definition prom_WriteData :: "'s prom_lib \<Rightarrow> prom_conf \<Rightarrow> (nat \<Rightarrow> bool) \<Rightarrow> item list \<Rightarrow> ('s prom_pump, unit) io" where
  "prom_WriteData lib conf ended data =
     io_bind (prom_records lib conf ended 0 data) (\<lambda>_.
     io_bind (io_get (\<lambda>p. length (pr_allMetrics p))) (\<lambda>n.
       io_for [0..<n] (\<lambda>i. logged_on i (metric_Expose lib))))"

section \<open>What a counter has counted\<close>

definition count_step :: "counter_struct \<Rightarrow> string list \<Rightarrow> counter_struct res" where
  "count_step c values = Inr (c\<lparr>cs_count := cs_count c + 1\<rparr>)"

fun count_run :: "unit \<Rightarrow> (string, counter_struct) gomap \<Rightarrow> string list list \<Rightarrow> ((string, counter_struct) gomap \<times> unit) res" where
  "count_run g m [] = Inr (m, g)"
| "count_run g m (v # vs) =
     (let key = str_join ''--'' v
      in count_run g (gomap_set m key (case gomap_get m key of
             Some c \<Rightarrow> c\<lparr>cs_count := cs_count c + 1\<rparr> | None \<Rightarrow> \<lparr>cs_labelValues = v, cs_count = 1\<rparr>)) vs)"

interpretation prom: group_loop "\<lambda>v. Some (str_join ''--'' v)" "\<lambda>g v. (\<lparr>cs_labelValues = v, cs_count = 0\<rparr>, g)" count_step count_run
  by unfold_locales (auto simp: count_step_def)

lemma count_fold: "rfold count_step c vs = Inr (c\<lparr>cs_count := cs_count c + of_nat (length vs)\<rparr>)"
  by (induction vs arbitrary: c) (simp_all add: count_step_def algebra_simps)

lemma count_run_get:
  "\<exists>m'. count_run () [] vs = Inr (m', ()) \<and> (\<forall>k. gomap_get m' k =
     (case filter (\<lambda>v. str_join ''--'' v = k) vs of [] \<Rightarrow> None
      | v # us \<Rightarrow> Some \<lparr>cs_labelValues = v, cs_count = of_nat (length (v # us))\<rparr>))"
proof -
  have "\<exists>m'. count_run () m vs = Inr (m', ())" for m
    by (induction vs arbitrary: m) (simp_all add: Let_def)
  then obtain m' where m': "count_run () [] vs = Inr (m', ())" by blast
  have "gomap_get m' k = (case filter (\<lambda>v. str_join ''--'' v = k) vs of [] \<Rightarrow> None
      | v # us \<Rightarrow> Some \<lparr>cs_labelValues = v, cs_count = of_nat (length (v # us))\<rparr>)" for k
    using prom.run_get_new [OF m', of k]
    by (auto simp: prom.members_def count_fold simp del: rfold.simps split: list.splits)
  with m' show ?thesis by blast
qed

lemma on_reg_keeps [io_keeps_intros]: "io_keeps pr_allMetrics (on_reg m)"
  unfolding on_reg_def by (intro io_keeps_intros) simp

lemma on_reg_metric [io_keeps_intros]: "io_keeps (\<lambda>p. F (pr_allMetrics p)) (on_reg m)"
  unfolding on_reg_def by (intro io_keeps_intros) simp

lemma logged_on_other: "i \<noteq> j \<Longrightarrow> io_keeps (\<lambda>p. pr_allMetrics p ! i) (logged_on j f)"
  unfolding logged_on_def put_metric_def
  by (intro io_keeps_intros) (auto intro!: io_keeps_intros simp: io_keeps_def split: sum.split)

lemma logged_on_length [io_keeps_intros]: "io_keeps (\<lambda>p. length (pr_allMetrics p)) (logged_on j f)"
  unfolding logged_on_def put_metric_def
  by (intro io_keeps_intros) (auto intro!: io_keeps_intros simp: io_keeps_def split: sum.split)

lemma processMetric_other: "i \<noteq> j \<Longrightarrow> io_keeps (\<lambda>p. pr_allMetrics p ! i) (processMetric lib r j)"
  unfolding processMetric_def observeLatencyMetrics_def Let_def
  by (intro io_keeps_intros) (auto intro!: io_keeps_intros logged_on_other)

lemma processMetric_length [io_keeps_intros]: "io_keeps (\<lambda>p. length (pr_allMetrics p)) (processMetric lib r j)"
  unfolding processMetric_def observeLatencyMetrics_def Let_def
  by (intro io_keeps_intros) (auto intro!: io_keeps_intros)

text \<open>A counter that is in use, and the records it counts.\<close>

definition live_counter :: "prom_metric \<Rightarrow> bool" where
  "live_counter m \<longleftrightarrow> pm_MetricType m = counterType \<and> pm_enabled m \<and> pm_counterVec m"

definition counted :: "prom_metric \<Rightarrow> analytics_record \<Rightarrow> bool" where
  "counted m r \<longleftrightarrow> \<not> pm_MCPOnly m \<or> IsMCPRecord r"

lemma processMetric_counter:
  assumes "i < length (pr_allMetrics p)" and "live_counter (pr_allMetrics p ! i)" and "counted (pr_allMetrics p ! i) r"
    and "count_run () (pm_counterMap (pr_allMetrics p ! i)) [GetLabelsValues (pr_allMetrics p ! i) r] = Inr (cm, ())"
  shows "processMetric lib r i p = (Inr (), p\<lparr>pr_allMetrics := (pr_allMetrics p)[i := (pr_allMetrics p ! i)\<lparr>pm_counterMap := cm\<rparr>]\<rparr>)"
  using assms
  by (auto simp: processMetric_def live_counter_def counted_def Let_def logged_on_def metric_Inc_def io_bind_def io_try_def on_reg_def
      io_on_def put_metric_def)

lemma processMetric_uncounted:
  "live_counter (pr_allMetrics p ! i) \<Longrightarrow> \<not> counted (pr_allMetrics p ! i) r \<Longrightarrow> processMetric lib r i p = (Inr (), p)"
  by (simp add: processMetric_def live_counter_def counted_def)

lemma count_run_append: "count_run () m (us @ vs) = (case count_run () m us of Inl e \<Rightarrow> Inl e | Inr (m', g) \<Rightarrow> count_run g m' vs)"
  by (induction us arbitrary: m) (simp_all add: Let_def)

lemma count_run_total: "\<exists>m'. count_run () m vs = Inr (m', ())"
  by (induction vs arbitrary: m) (simp_all add: Let_def)

lemma one_record_counts:
  assumes run: "io_for [0..<length (pr_allMetrics p)] (processMetric lib r) p = (Inr (), p')"
    and i: "i < length (pr_allMetrics p)" and live: "live_counter (pr_allMetrics p ! i)"
  shows "length (pr_allMetrics p') = length (pr_allMetrics p) \<and>
    (\<exists>cm. count_run () (pm_counterMap (pr_allMetrics p ! i))
        (if counted (pr_allMetrics p ! i) r then [GetLabelsValues (pr_allMetrics p ! i) r] else []) = Inr (cm, ()) \<and>
      pr_allMetrics p' ! i = (pr_allMetrics p ! i)\<lparr>pm_counterMap := cm\<rparr>)"
proof -
  let ?n = "length (pr_allMetrics p)" and ?f = "processMetric lib r" and ?get = "\<lambda>p. pr_allMetrics p ! i"
  have split: "[0..<?n] = [0..<i] @ i # [Suc i..<?n]" using i by (metis upt_add_eq_append upt_conv_Cons le0 le_add_diff_inverse less_imp_le)
  have keeps: "io_keeps ?get (io_for ks ?f)" if "i \<notin> set ks" for ks
    using that by (induction ks) (auto simp: io_for_eq intro!: io_keeps_intros processMetric_other)
  have len: "io_keeps (\<lambda>p. length (pr_allMetrics p)) (io_for ks ?f)" for ks by (intro io_keeps_intros)
  from run obtain p1 p2 where p1: "io_for [0..<i] ?f p = (Inr (), p1)" and p2: "?f i p1 = (Inr (), p2)"
    and p3: "io_for [Suc i..<?n] ?f p2 = (Inr (), p')"
    unfolding split io_for_append by (auto simp: io_bind_Inr)
  have g1: "?get p1 = ?get p" "length (pr_allMetrics p1) = ?n"
    using keeps [of "[0..<i]"] len [of "[0..<i]"] p1 by (auto simp: io_keeps_def dest: spec [of _ p])
  have g3: "?get p' = ?get p2" "length (pr_allMetrics p') = length (pr_allMetrics p2)"
    using keeps [of "[Suc i..<?n]"] len [of "[Suc i..<?n]"] p3 by (auto simp: io_keeps_def dest: spec [of _ p2])
  show ?thesis
  proof (cases "counted (?get p) r")
    case False
    then have "p2 = p1" using p2 processMetric_uncounted [of p1 i r lib] live g1 by simp
    with g1 g3 False show ?thesis by simp
  next
    case True
    obtain cm where cm: "count_run () (pm_counterMap (?get p)) [GetLabelsValues (?get p) r] = Inr (cm, ())"
      using count_run_total by blast
    have "p2 = p1\<lparr>pr_allMetrics := (pr_allMetrics p1)[i := (?get p)\<lparr>pm_counterMap := cm\<rparr>]\<rparr>"
      using p2 processMetric_counter [of i p1 r cm lib] i live True cm g1 by simp
    with g1 g3 True cm i show ?thesis by auto
  qed
qed

text \<open>The label values of the records of a batch that a counter counts.\<close>

definition counted_values :: "prom_conf \<Rightarrow> prom_metric \<Rightarrow> analytics_record list \<Rightarrow> string list list" where
  "counted_values conf m rs = map (GetLabelsValues m) (filter (counted m) (map (known_path conf) rs))"

lemma records_count:
  assumes "prom_records lib conf ended j (map ItemRecord rs) p = (Inr (), p')"
    and "i < length (pr_allMetrics p)" and "live_counter (pr_allMetrics p ! i)"
  shows "length (pr_allMetrics p') = length (pr_allMetrics p) \<and>
    (\<exists>cm. count_run () (pm_counterMap (pr_allMetrics p ! i)) (counted_values conf (pr_allMetrics p ! i) rs) = Inr (cm, ()) \<and>
      pr_allMetrics p' ! i = (pr_allMetrics p ! i)\<lparr>pm_counterMap := cm\<rparr>)"
  using assms
proof (induction rs arbitrary: j p)
  case Nil
  then show ?case by (simp add: counted_values_def)
next
  case (Cons r rs)
  let ?m = "pr_allMetrics p ! i" and ?r = "known_path conf r"
  from Cons.prems(1) obtain p1 where p1: "io_for [0..<length (pr_allMetrics p)] (processMetric lib ?r) p = (Inr (), p1)"
    and rest: "prom_records lib conf ended (Suc j) (map ItemRecord rs) p1 = (Inr (), p')"
    by (auto simp: io_bind_Inr assert_record_def split: if_splits)
  from one_record_counts [OF p1 Cons.prems(2,3)] obtain cm where l1: "length (pr_allMetrics p1) = length (pr_allMetrics p)"
    and cm: "count_run () (pm_counterMap ?m) (if counted ?m ?r then [GetLabelsValues ?m ?r] else []) = Inr (cm, ())"
      "pr_allMetrics p1 ! i = ?m\<lparr>pm_counterMap := cm\<rparr>" by blast
  have same: "live_counter (pr_allMetrics p1 ! i)" "counted_values conf (pr_allMetrics p1 ! i) rs = counted_values conf ?m rs"
    using Cons.prems(3) by (simp_all add: cm(2) live_counter_def counted_values_def counted_def [abs_def] GetLabelsValues_def [abs_def]
        obfuscateAPIKey_def Let_def)
  have "i < length (pr_allMetrics p1)" using l1 Cons.prems(2) by simp
  from Cons.IH [OF rest this same(1)] obtain cm' where l2: "length (pr_allMetrics p') = length (pr_allMetrics p1)"
    and cm': "count_run () cm (counted_values conf ?m rs) = Inr (cm', ())" "pr_allMetrics p' ! i = ?m\<lparr>pm_counterMap := cm'\<rparr>"
    unfolding same(2) by (auto simp: cm(2))
  have "counted_values conf ?m (r # rs) = (if counted ?m ?r then [GetLabelsValues ?m ?r] else []) @ counted_values conf ?m rs"
    by (simp add: counted_values_def)
  with cm(1) cm' have "count_run () (pm_counterMap ?m) (counted_values conf ?m (r # rs)) = Inr (cm', ())"
    by (simp only: count_run_append sum.case prod.case)
  with l1 l2 cm'(2) show ?case by simp
qed


text \<open>
  C32. A histogram of the configuration, whose vector has the label \<open>type\<close> and the configured ones,
  is observed with type \<open>total\<close>; but a record whose first label value is itself \<open>total\<close>,
  \<open>upstream\<close> or \<open>gateway\<close> is observed with one value too few, which makes the client library panic.
\<close>

theorem prom_histogram_labels:
  assumes "i < length (pr_allMetrics p)" and m: "m = pr_allMetrics p ! i"
    and "pm_MetricType m = histogramType" "pm_enabled m" "pm_histogramVec m" "\<not> pm_aggregatedObservations m"
    and "pm_Name m \<noteq> metricTykLatency" and "counted m r"
    and lib: "\<And>n ls x s. length ls \<noteq> arity n \<Longrightarrow> \<exists>q. pl_Observe lib n ls x s = (Inl (GoPanic q), s)"
    and arity: "arity (pm_Name m) = Suc (length (GetLabelsValues m r))"
  shows "if GetLabelsValues m r \<noteq> [] \<and> hd (GetLabelsValues m r) \<in> {''total'', ''upstream'', ''gateway''}
    then \<exists>q. processMetric lib r i p = (Inl (GoPanic q), p)
    else latency_labels (GetLabelsValues m r) = ''total'' # GetLabelsValues m r"
proof (cases "GetLabelsValues m r \<noteq> [] \<and> hd (GetLabelsValues m r) \<in> {''total'', ''upstream'', ''gateway''}")
  case True
  then have l: "latency_labels (GetLabelsValues m r) = GetLabelsValues m r"
    by (cases "GetLabelsValues m r") (auto simp: latency_labels_def)
  then obtain q where q: "pl_Observe lib (pm_Name m) (GetLabelsValues m r) (f_of_int (r_RequestTime r)) (pr_reg p) = (Inl (GoPanic q), pr_reg p)"
    using lib [of "GetLabelsValues m r" "pm_Name m"] arity by fastforce
  have "counterType \<noteq> histogramType" by (simp add: counterType_def histogramType_def)
  then have "processMetric lib r i p = (Inl (GoPanic q), p)"
    using assms(3-8) q l
    by (simp add: processMetric_def m [symmetric] counted_def Let_def logged_on_def on_reg_def io_on_def io_bind_def io_try_def
        metric_Observe_def)
  with True show ?thesis by auto
next
  case False
  then have "latency_labels (GetLabelsValues m r) = ''total'' # GetLabelsValues m r"
    by (cases "GetLabelsValues m r") (auto simp: latency_labels_def)
  then show ?thesis unfolding if_not_P [OF False] .
qed

section \<open>The properties on concrete inputs\<close>

text \<open>A client library that keeps what was added, and panics on a wrong number of label values.\<close>

definition log_prom_lib :: "(string \<Rightarrow> nat) \<Rightarrow> (string \<times> string list \<times> f64) list prom_lib" where
  "log_prom_lib arity = \<lparr>pl_Counter = \<lambda>_ _ _. io_ret (), pl_Histogram = \<lambda>_ _ _ _. io_ret (),
     pl_Add = \<lambda>n vs x. io_upd (\<lambda>s. s @ [(n, vs, x)]),
     pl_Observe = \<lambda>n vs x. if length vs = arity n then io_ret () else io_fail (GoPanic ''inconsistent label cardinality'')\<rparr>"

definition sample_prom_conf :: prom_conf where
  "sample_prom_conf = \<lparr>pc_EnvPrefix = [], pc_Addr = '':9090'', pc_Path = [], pc_AggregateObservations = False,
     pc_DisabledMetrics = [], pc_TrackAllPaths = False, pc_CustomMetrics = []\<rparr>"

definition sample_counter :: prom_metric where
  "sample_counter = (basic_metric ''hits'' [] counterType [] [''method''])\<lparr>pm_enabled := True, pm_counterVec := True\<rparr>"

definition sample_histogram :: prom_metric where
  "sample_histogram = (basic_metric ''times'' [] histogramType [] [''type'', ''api''])\<lparr>pm_enabled := True, pm_histogramVec := True\<rparr>"

lemma sample_values [simp]:
  "GetLabelsValues sample_counter r = [r_Method r]" "GetLabelsValues sample_histogram r = [r_APIID r]"
  by (simp_all add: GetLabelsValues_def sample_counter_def sample_histogram_def basic_metric_def label_mapping_def map_filter_def)


theorem prom_histogram_labels_witness:
  "\<exists>q. processMetric (log_prom_lib (\<lambda>_. 2)) (record_zero\<lparr>r_APIID := ''gateway''\<rparr>) 0 \<lparr>pr_allMetrics = [sample_histogram], pr_reg = []\<rparr> =
     (Inl (GoPanic q), \<lparr>pr_allMetrics = [sample_histogram], pr_reg = []\<rparr>)"
proof -
  let ?p = "\<lparr>pr_allMetrics = [sample_histogram], pr_reg = []\<rparr> :: (string \<times> string list \<times> f64) list prom_pump"
  have m: "sample_histogram = pr_allMetrics ?p ! 0" by simp
  have lib: "\<exists>q. pl_Observe (log_prom_lib (\<lambda>_. 2)) n ls x s = (Inl (GoPanic q), s)" if "length ls \<noteq> 2" for n ls x s
    using that by (simp add: log_prom_lib_def)
  have "0 < length (pr_allMetrics ?p)" by simp
  moreover have "pm_MetricType sample_histogram = histogramType" "pm_enabled sample_histogram" "pm_histogramVec sample_histogram"
    "\<not> pm_aggregatedObservations sample_histogram" "pm_Name sample_histogram \<noteq> metricTykLatency"
    "counted sample_histogram (record_zero\<lparr>r_APIID := ''gateway''\<rparr>)"
    by (simp_all add: sample_histogram_def basic_metric_def metricTykLatency_def counted_def)
  ultimately show ?thesis
    using prom_histogram_labels [where arity = "\<lambda>_. 2", OF _ m _ _ _ _ _ _ lib, of "record_zero\<lparr>r_APIID := ''gateway''\<rparr>"]
    by simp
qed

end
