(* ===== verification/Hybrid.thy ===== *)
theory Hybrid
  imports Aggregate_Groups Aggregate_MCP GoIO
begin

text \<open>
  The hybrid pump, \<open>src/pumps/hybrid.go\<close>: the connection to MDCB over RPC, the login, the retries
  at start, and the write, which sends a batch as it is or as aggregates. The RPC library, the JSON
  rendering and the backoff library are parameters. The lemmas: the function client is never used
  while it is nil, an attempt is repeated at most three times, and which calls a write makes.
\<close>

section \<open>Configuration\<close>

record hybrid_conf =
  hy_EnvPrefix :: string
  hy_ConnectionString :: string
  hy_RPCKey :: string
  hy_APIKey :: string
  hy_IgnoreTagPrefixList :: "string list"
  hy_CallTimeout :: i64
  hy_RPCPoolSize :: int
  hy_aggregationTime :: i64
  hy_Aggregated :: bool
  hy_TrackAllPaths :: bool
  hy_StoreAnalyticsPerMinute :: bool
  hy_EnableMCPAggregation :: bool
  hy_UseSSL :: bool
  hy_SSLInsecureSkipVerify :: bool

definition DefaultRPCCallTimeout :: i64 where
  "DefaultRPCCallTimeout = 10"

definition hybrid_CheckDefaults :: "hybrid_conf \<Rightarrow> hybrid_conf" where
  "hybrid_CheckDefaults conf =
     (let conf = (if hy_CallTimeout conf = 0 then conf\<lparr>hy_CallTimeout := DefaultRPCCallTimeout\<rparr> else conf);
          conf = (if hy_Aggregated conf
                  then conf\<lparr>hy_aggregationTime := (if hy_StoreAnalyticsPerMinute conf then 1 else 60)\<rparr> else conf)
      in if hy_RPCPoolSize conf = 0 then conf\<lparr>hy_RPCPoolSize := 5\<rparr> else conf)"

section \<open>The connection\<close>

text \<open>
  What the library is given: the addresses, the TLS setting and the pool, and the identifier of the
  connection that the dial function announces. \<open>clientSingleton\<close> and \<open>funcClientSingleton\<close> are set
  and cleared together, so one component stands for both; \<open>hb_connected\<close> is the atomic value, None
  before its first store.
\<close>

record rpc_client =
  rc_Addr :: string
  rc_TLS :: "bool option"
  rc_Conns :: int
  rc_connID :: string

record 'w hybrid =
  hb_client :: "rpc_client option"
  hb_connected :: "bool option"
  hb_ts :: last_ts
  hb_world :: 'w

datatype rpc_arg = RpcNil | RpcString string
datatype rpc_value = RpcBool bool | RpcOther

text \<open>
  The library: the flag a call returns tells whether it has opened a connection, which runs
  \<open>onConnectFunc\<close>.
\<close>

record 'w rpc_lib =
  rl_NewV4 :: "('w, string) io"
  rl_Start :: "rpc_client \<Rightarrow> 'w \<Rightarrow> bool \<times> 'w"
  rl_Call :: "rpc_client \<Rightarrow> string \<Rightarrow> rpc_arg \<Rightarrow> i64 \<Rightarrow> 'w \<Rightarrow> rpc_value res \<times> bool \<times> 'w"
  rl_Stop :: "rpc_client \<Rightarrow> 'w \<Rightarrow> 'w"

definition onConnectFunc :: "bool \<Rightarrow> 'w hybrid \<Rightarrow> 'w hybrid" where
  "onConnectFunc opened s = (if opened then s\<lparr>hb_connected := Some True\<rparr> else s)"

definition callRPCFn :: "'w rpc_lib \<Rightarrow> hybrid_conf \<Rightarrow> string \<Rightarrow> rpc_arg \<Rightarrow> ('w hybrid, rpc_value) io" where
  "callRPCFn lib conf funcName request s =
     (case hb_client s of
        None \<Rightarrow> (Inl (GoPanic ''nil pointer dereference''), s)
      | Some c \<Rightarrow>
          (case rl_Call lib c funcName request (hy_CallTimeout conf * dur_second) (hb_world s) of
             (r, opened, w) \<Rightarrow> (r, onConnectFunc opened (s\<lparr>hb_world := w\<rparr>))))"

text \<open>What the dial function writes on a new connection, after \<open>dial\<close> has opened it.\<close>

definition getDialFn ::
  "(i64 \<Rightarrow> i64 \<Rightarrow> bool option \<Rightarrow> string \<Rightarrow> ('w, 'c) io) \<Rightarrow> ('c \<Rightarrow> string \<Rightarrow> ('w, unit) io) \<Rightarrow> string \<Rightarrow> hybrid_conf \<Rightarrow> string \<Rightarrow>
     ('w, 'c) io" where
  "getDialFn dial wr connID config addr =
     io_bind (dial (hy_CallTimeout config * dur_second) (30 * dur_second)
       (if hy_UseSSL config then Some (hy_SSLInsecureSkipVerify config) else None) addr) (\<lambda>conn.
     io_bind (io_for [''proto2'', [char_of (length connID)], connID] (\<lambda>d. wr conn d)) (\<lambda>_. io_ret conn))"

definition startClient :: "'w rpc_lib \<Rightarrow> rpc_client \<Rightarrow> ('w hybrid, unit) io" where
  "startClient lib c s =
     (case rl_Start lib c (hb_world s) of
        (opened, w) \<Rightarrow> (Inr (), onConnectFunc opened (s\<lparr>hb_client := Some c, hb_world := w\<rparr>)))"

definition connectRPC :: "'w rpc_lib \<Rightarrow> hybrid_conf \<Rightarrow> ('w hybrid, unit) io" where
  "connectRPC lib conf =
     io_bind (io_on hb_world (\<lambda>w s. s\<lparr>hb_world := w\<rparr>) (rl_NewV4 lib)) (\<lambda>connID.
     if length connID > 255 then io_fail (GoErr ''connID is too long'')
     else io_bind (startClient lib
            \<lparr>rc_Addr = hy_ConnectionString conf, rc_TLS = (if hy_UseSSL conf then Some (hy_SSLInsecureSkipVerify conf) else None),
             rc_Conns = hy_RPCPoolSize conf, rc_connID = connID\<rparr>) (\<lambda>_.
          io_bind (callRPCFn lib conf ''Ping'' RpcNil) (\<lambda>_. io_ret ())))"

text \<open>\<open>ErrRPCLogin\<close> is told apart from the other errors by its identity.\<close>

datatype login_answer = LoggedIn | WrongLogin | LoginError string

definition RPCLogin :: "'w rpc_lib \<Rightarrow> hybrid_conf \<Rightarrow> ('w hybrid, login_answer) io" where
  "RPCLogin lib conf s =
     (if hb_connected s \<noteq> Some True then (Inr (LoginError ''client is not connected to RPC server''), s)
      else io_bind (io_try (callRPCFn lib conf ''Login'' (RpcString (hy_APIKey conf)))) (\<lambda>logged.
        case logged of
          Inl err \<Rightarrow> io_ret (LoginError err)
        | Inr (RpcBool ok) \<Rightarrow> io_ret (if \<not> ok then WrongLogin else LoggedIn)
        | Inr RpcOther \<Rightarrow> io_fail (GoPanic ''interface conversion'')) s)"

definition login_err :: "login_answer \<Rightarrow> unit res" where
  "login_err a = (case a of LoggedIn \<Rightarrow> Inr () | WrongLogin \<Rightarrow> Inl (GoErr ''RPC login incorrect'') | LoginError e \<Rightarrow> Inl (GoErr e))"

definition loginFn :: "'w rpc_lib \<Rightarrow> hybrid_conf \<Rightarrow> ('w hybrid, unit) io" where
  "loginFn lib conf = io_bind (RPCLogin lib conf) (\<lambda>a. io_res (login_err a))"

text \<open>\<open>retry n\<close> is the backoff library's loop with at most \<open>n\<close> repetitions.\<close>

type_synonym 's io_retrier = "nat \<Rightarrow> ('s, unit) io \<Rightarrow> ('s, unit) io"

definition retryAndLog :: "'s io_retrier \<Rightarrow> ('s, unit) io \<Rightarrow> ('s, unit) io" where
  "retryAndLog retry fn = retry 3 fn"

definition connectAndLogin :: "'w hybrid io_retrier \<Rightarrow> 'w rpc_lib \<Rightarrow> hybrid_conf \<Rightarrow> bool \<Rightarrow> ('w hybrid, unit) io" where
  "connectAndLogin rt lib conf retry =
     (let connectFn = (if retry then retryAndLog rt (connectRPC lib conf) else connectRPC lib conf);
          login = (if retry then retryAndLog rt (loginFn lib conf) else loginFn lib conf)
      in io_bind connectFn (\<lambda>_. login))"

definition hybrid_Init :: "'w hybrid io_retrier \<Rightarrow> 'w rpc_lib \<Rightarrow> hybrid_conf \<Rightarrow> ('w hybrid, hybrid_conf) io" where
  "hybrid_Init rt lib conf =
     (if hy_ConnectionString conf = [] then io_fail (GoErr ''empty connection_string'')
      else let conf = hybrid_CheckDefaults conf
           in io_bind (connectAndLogin rt lib conf True) (\<lambda>_. io_ret conf))"

definition hybrid_Shutdown :: "'w rpc_lib \<Rightarrow> ('w hybrid, unit) io" where
  "hybrid_Shutdown lib s =
     (case hb_client s of
        None \<Rightarrow> (Inl (GoPanic ''nil pointer dereference''), s)
      | Some c \<Rightarrow> (Inr (), s\<lparr>hb_client := None, hb_connected := Some False, hb_world := rl_Stop lib c (hb_world s)\<rparr>))"

section \<open>Writing\<close>

text \<open>The three renderings by \<open>encoding/json\<close>, each of which may fail.\<close>

record json_lib =
  jl_records :: "item list \<Rightarrow> string res"
  jl_aggregates :: "(string, aggregate) gomap \<Rightarrow> string res"
  jl_mcp :: "(string, mcp_aggregate) gomap \<Rightarrow> string res"

text \<open>An aggregation reads and moves the time stamps of the aggregates.\<close>

definition with_ts :: "(last_ts \<Rightarrow> ('a \<times> last_ts) res) \<Rightarrow> ('w hybrid, 'a) io" where
  "with_ts f s = (case f (hb_ts s) of Inl e \<Rightarrow> (Inl e, s) | Inr (x, ts) \<Rightarrow> (Inr x, s\<lparr>hb_ts := ts\<rparr>))"

definition sendMCPAggregates :: "'w rpc_lib \<Rightarrow> json_lib \<Rightarrow> hybrid_conf \<Rightarrow> item list \<Rightarrow> ('w hybrid, unit) io" where
  "sendMCPAggregates lib json conf data =
     io_bind (with_ts (AggregateMCPData data (hy_ConnectionString conf) (hy_aggregationTime conf))) (\<lambda>aggs.
     if aggs = [] then io_ret ()
     else io_bind (io_res (jl_mcp json aggs)) (\<lambda>j.
          io_bind (callRPCFn lib conf ''PurgeAnalyticsDataMCPAggregated'' (RpcString j)) (\<lambda>_. io_ret ())))"

definition hybrid_send :: "'w rpc_lib \<Rightarrow> json_lib \<Rightarrow> hybrid_conf \<Rightarrow> item list \<Rightarrow> ('w hybrid, unit) io" where
  "hybrid_send lib json conf data =
     (if \<not> hy_Aggregated conf
      then io_bind (io_res (jl_records json data)) (\<lambda>j.
           io_bind (callRPCFn lib conf ''PurgeAnalyticsData'' (RpcString j)) (\<lambda>_. io_ret ()))
      else io_bind (with_ts (AggregateData data (hy_TrackAllPaths conf) (hy_IgnoreTagPrefixList conf) (hy_ConnectionString conf)
             (hy_aggregationTime conf))) (\<lambda>aggs.
           io_bind (io_res (jl_aggregates json aggs)) (\<lambda>j.
           io_bind (callRPCFn lib conf ''PurgeAnalyticsDataAggregated'' (RpcString j)) (\<lambda>_.
           if hy_EnableMCPAggregation conf then sendMCPAggregates lib json conf data else io_ret ()))))"

definition hybrid_WriteData ::
  "'w hybrid io_retrier \<Rightarrow> 'w rpc_lib \<Rightarrow> json_lib \<Rightarrow> hybrid_conf \<Rightarrow> item list \<Rightarrow> ('w hybrid, unit) io" where
  "hybrid_WriteData rt lib json conf data =
     (if data = [] then io_ret ()
      else io_bind (RPCLogin lib conf) (\<lambda>a.
           io_bind (case a of
               LoggedIn \<Rightarrow> io_ret ()
             | WrongLogin \<Rightarrow> io_res (login_err WrongLogin)
             | LoginError e \<Rightarrow> connectAndLogin rt lib conf False) (\<lambda>_.
           hybrid_send lib json conf data)))"

section \<open>Which calls are made\<close>

text \<open>\<open>view\<close> lists the calls that the library has made.\<close>

definition rpc_logs :: "('w \<Rightarrow> (string \<times> rpc_arg) list) \<Rightarrow> 'w rpc_lib \<Rightarrow> bool" where
  "rpc_logs view lib \<longleftrightarrow>
     (\<forall>w. view (snd (rl_NewV4 lib w)) = view w) \<and> (\<forall>c w. view (snd (rl_Start lib c w)) = view w) \<and>
     (\<forall>c f a n w. view (snd (snd (rl_Call lib c f a n w))) = view w @ [(f, a)])"

text \<open>At most \<open>k\<close> calls, of functions in \<open>N\<close>, and no aggregation.\<close>

definition makes :: "('w \<Rightarrow> (string \<times> rpc_arg) list) \<Rightarrow> nat \<Rightarrow> string set \<Rightarrow> ('w hybrid, 'a) io \<Rightarrow> bool" where
  "makes view k N m \<longleftrightarrow> (\<forall>s r t. m s = (r, t) \<longrightarrow> hb_ts t = hb_ts s \<and>
     (\<exists>xs. view (hb_world t) = view (hb_world s) @ xs \<and> fst ` set xs \<subseteq> N \<and> length xs \<le> k))"

named_theorems makes_intros

lemma makesI:
  assumes "\<And>s r t. m s = (r, t) \<Longrightarrow> hb_ts t = hb_ts s \<and> (\<exists>xs. view (hb_world t) = view (hb_world s) @ xs \<and> fst ` set xs \<subseteq> N \<and> length xs \<le> k)"
  shows "makes view k N m"
  using assms by (auto simp: makes_def)

lemma makesE:
  assumes "makes view k N m" and "m s = (r, t)"
  obtains xs where "hb_ts t = hb_ts s" "view (hb_world t) = view (hb_world s) @ xs" "fst ` set xs \<subseteq> N" "length xs \<le> k"
  using assms unfolding makes_def by metis

lemma makes_basic [makes_intros]: "makes view k N (io_ret x)" "makes view k N (io_fail e)" "makes view k N (io_res q)"
  by (auto simp: makes_def io_res_def)

lemma makes_mono: "makes view k N m \<Longrightarrow> k \<le> k' \<Longrightarrow> N \<subseteq> N' \<Longrightarrow> makes view k' N' m"
  unfolding makes_def by (meson order_trans)

lemma makes_bind [makes_intros]:
  assumes "makes view k N m" and "\<And>x. makes view l N (f x)"
  shows "makes view (k + l) N (io_bind m f)"
proof (rule makesI)
  fix s r t
  assume "io_bind m f s = (r, t)"
  then show "hb_ts t = hb_ts s \<and> (\<exists>xs. view (hb_world t) = view (hb_world s) @ xs \<and> fst ` set xs \<subseteq> N \<and> length xs \<le> k + l)"
  proof (cases rule: io_bind_cases)
    case (1 e)
    from makesE [OF assms(1) 1(1)] show ?thesis by (metis trans_le_add1)
  next
    case (2 x s')
    from makesE [OF assms(1) 2(1)] obtain xs where xs: "hb_ts s' = hb_ts s" "view (hb_world s') = view (hb_world s) @ xs"
      "fst ` set xs \<subseteq> N" "length xs \<le> k" by metis
    from makesE [OF assms(2) 2(2)] obtain ys where ys: "hb_ts t = hb_ts s'" "view (hb_world t) = view (hb_world s') @ ys"
      "fst ` set ys \<subseteq> N" "length ys \<le> l" by metis
    from xs ys show ?thesis by (intro conjI exI [of _ "xs @ ys"]) auto
  qed
qed

lemma makes_try [makes_intros]: "makes view k N m \<Longrightarrow> makes view k N (io_try m)"
  by (rule makesI) (auto simp: io_try_def split: prod.splits sum.splits go_error.splits elim!: makesE)

text \<open>What the backoff library promises of \<open>RetryNotify\<close> with a bound on the repetitions.\<close>

inductive io_retries :: "('s, unit) io \<Rightarrow> nat \<Rightarrow> 's \<Rightarrow> unit res \<Rightarrow> 's \<Rightarrow> bool" for f where
  io_retries_done: "f s = (Inr (), t) \<Longrightarrow> io_retries f n s (Inr ()) t"
| io_retries_panic: "f s = (Inl (GoPanic p), t) \<Longrightarrow> io_retries f n s (Inl (GoPanic p)) t"
| io_retries_stop: "f s = (Inl (GoErr e), t) \<Longrightarrow> io_retries f n s (Inl (GoErr e)) t"
| io_retries_again: "f s = (Inl (GoErr e), s') \<Longrightarrow> io_retries f n s' r t \<Longrightarrow> io_retries f (Suc n) s r t"

definition io_retry_law :: "'s io_retrier \<Rightarrow> bool" where
  "io_retry_law retry \<longleftrightarrow> (\<forall>n f s. case retry n f s of (r, t) \<Rightarrow> io_retries f n s r t)"

lemma makes_retry:
  assumes "io_retry_law retry" and "makes view k N f"
  shows "makes view (Suc n * k) N (retry n f)"
proof (rule makesI)
  fix s r t
  assume "retry n f s = (r, t)"
  with assms(1) have "io_retries f n s r t" unfolding io_retry_law_def by (metis case_prod_conv)
  then show "hb_ts t = hb_ts s \<and> (\<exists>xs. view (hb_world t) = view (hb_world s) @ xs \<and> fst ` set xs \<subseteq> N \<and> length xs \<le> Suc n * k)"
  proof (induction rule: io_retries.induct)
    case (io_retries_again s e s' n r t)
    from makesE [OF assms(2) io_retries_again.hyps(1)] obtain xs where xs: "hb_ts s' = hb_ts s"
      "view (hb_world s') = view (hb_world s) @ xs" "fst ` set xs \<subseteq> N" "length xs \<le> k" by metis
    from io_retries_again.IH obtain ys where ys: "hb_ts t = hb_ts s'" "view (hb_world t) = view (hb_world s') @ ys"
      "fst ` set ys \<subseteq> N" "length ys \<le> Suc n * k" by blast
    from xs ys show ?case by (intro conjI exI [of _ "xs @ ys"]) auto
  qed (erule makesE [OF assms(2)], force)+
qed

lemma onConnectFunc_simps [simp]:
  "hb_ts (onConnectFunc opened s) = hb_ts s" "hb_world (onConnectFunc opened s) = hb_world s"
  "hb_client (onConnectFunc opened s) = hb_client s"
  by (simp_all add: onConnectFunc_def)

lemma callRPCFn_Inr:
  assumes "rpc_logs view lib" and "callRPCFn lib conf f a s = (Inr x, t)"
  shows "hb_ts t = hb_ts s \<and> view (hb_world t) = view (hb_world s) @ [(f, a)]"
proof -
  from assms(2) obtain c where c: "hb_client s = Some c" by (auto simp: callRPCFn_def split: option.splits)
  obtain r opened w where q: "rl_Call lib c f a (hy_CallTimeout conf * dur_second) (hb_world s) = (r, opened, w)"
    using prod_cases3 by blast
  from assms(1) q have "view w = view (hb_world s) @ [(f, a)]" unfolding rpc_logs_def by (metis snd_conv)
  with assms(2) c q show ?thesis by (auto simp: callRPCFn_def)
qed

lemma makes_call:
  assumes "rpc_logs view lib" and "f \<in> N" and "1 \<le> k"
  shows "makes view k N (callRPCFn lib conf f a)"
proof (rule makesI)
  fix s r t
  assume run: "callRPCFn lib conf f a s = (r, t)"
  show "hb_ts t = hb_ts s \<and> (\<exists>xs. view (hb_world t) = view (hb_world s) @ xs \<and> fst ` set xs \<subseteq> N \<and> length xs \<le> k)"
  proof (cases "hb_client s")
    case None
    with run show ?thesis by (auto simp: callRPCFn_def)
  next
    case (Some c)
    obtain r' opened w where q: "rl_Call lib c f a (hy_CallTimeout conf * dur_second) (hb_world s) = (r', opened, w)"
      using prod_cases3 by blast
    from assms(1) q have "view w = view (hb_world s) @ [(f, a)]" unfolding rpc_logs_def by (metis snd_conv)
    with Some q run assms(2,3) show ?thesis by (intro conjI exI [of _ "[(f, a)]"]) (auto simp: callRPCFn_def)
  qed
qed

lemma makes_NewV4:
  "rpc_logs view lib \<Longrightarrow> makes view 0 N (io_on hb_world (\<lambda>w s. s\<lparr>hb_world := w\<rparr>) (rl_NewV4 lib))"
  by (rule makesI) (auto simp: io_on_run rpc_logs_def dest: spec [where P = "\<lambda>w. view (snd (rl_NewV4 lib w)) = view w"]; metis snd_conv)

lemma makes_Start: "rpc_logs view lib \<Longrightarrow> makes view 0 N (startClient lib c)"
  by (rule makesI) (auto simp: startClient_def rpc_logs_def split: prod.splits; metis snd_conv)

lemma makes_connectRPC:
  assumes "rpc_logs view lib"
  shows "makes view 1 {''Ping''} (connectRPC lib conf)"
proof -
  have ping: "makes view (1 + 0) {''Ping''} (io_bind (callRPCFn lib conf ''Ping'' RpcNil) (\<lambda>_. io_ret ()))"
    by (intro makes_bind makes_call makes_intros assms) simp_all
  have start: "makes view (0 + (1 + 0)) {''Ping''} (io_bind (startClient lib c)
      (\<lambda>_. io_bind (callRPCFn lib conf ''Ping'' RpcNil) (\<lambda>_. io_ret ())))" for c
    by (rule makes_bind [OF makes_Start [OF assms] ping])
  have "makes view (0 + (0 + (1 + 0))) {''Ping''} (connectRPC lib conf)"
    unfolding connectRPC_def
  proof (rule makes_bind [OF makes_NewV4 [OF assms]], split if_split, intro conjI impI)
    show "makes view (0 + (1 + 0)) {''Ping''} (io_fail (GoErr ''connID is too long''))" by (intro makes_intros)
  qed (rule start)
  then show ?thesis by simp
qed

lemma makes_login:
  assumes "rpc_logs view lib"
  shows "makes view 1 {''Login''} (RPCLogin lib conf)"
proof (rule makesI)
  let ?m = "io_bind (io_try (callRPCFn lib conf ''Login'' (RpcString (hy_APIKey conf)))) (\<lambda>logged. case logged of
      Inl err \<Rightarrow> io_ret (LoginError err) | Inr (RpcBool ok) \<Rightarrow> io_ret (if \<not> ok then WrongLogin else LoggedIn)
    | Inr RpcOther \<Rightarrow> io_fail (GoPanic ''interface conversion''))"
  have m: "makes view (1 + 0) {''Login''} ?m"
  proof (rule makes_bind)
    show "makes view 1 {''Login''} (io_try (callRPCFn lib conf ''Login'' (RpcString (hy_APIKey conf))))"
      by (intro makes_try makes_call assms) simp_all
  qed (auto intro!: makes_basic split: sum.split rpc_value.split)
  fix s r t
  assume "RPCLogin lib conf s = (r, t)"
  then show "hb_ts t = hb_ts s \<and> (\<exists>xs. view (hb_world t) = view (hb_world s) @ xs \<and> fst ` set xs \<subseteq> {''Login''} \<and> length xs \<le> 1)"
    by (auto simp: RPCLogin_def split: if_splits elim!: makesE [OF m])
qed

lemma makes_loginFn: "rpc_logs view lib \<Longrightarrow> makes view 1 {''Login''} (loginFn lib conf)"
  unfolding loginFn_def using makes_bind [OF makes_login makes_basic(3)] by fastforce

lemma makes_connectAndLogin:
  assumes "rpc_logs view lib"
  shows "makes view 2 {''Ping'', ''Login''} (connectAndLogin rt lib conf False)"
proof -
  have "makes view (1 + 1) {''Ping'', ''Login''} (connectAndLogin rt lib conf False)"
    unfolding connectAndLogin_def Let_def if_False
    by (intro makes_bind makes_mono [OF makes_connectRPC [OF assms]] makes_mono [OF makes_loginFn [OF assms]]) auto
  then show ?thesis by (simp add: numeral_2_eq_2)
qed

text \<open>At start a connection is tried at most four times, and then a login at most four times.\<close>

lemma hybrid_Init_attempts:
  assumes "rpc_logs view lib" and "io_retry_law rt"
  shows "makes view 8 {''Ping'', ''Login''} (hybrid_Init rt lib conf)"
proof -
  have "makes view (Suc 3 * 1 + Suc 3 * 1) {''Ping'', ''Login''} (connectAndLogin rt lib (hybrid_CheckDefaults conf) True)"
    unfolding connectAndLogin_def retryAndLog_def Let_def if_True
    by (intro makes_bind makes_retry [OF assms(2)] makes_mono [OF makes_connectRPC [OF assms(1)]]
        makes_mono [OF makes_loginFn [OF assms(1)]]) auto
  from makes_bind [OF this makes_basic(1) [where k = 0]]
  have "makes view 8 {''Ping'', ''Login''} (io_bind (connectAndLogin rt lib (hybrid_CheckDefaults conf) True) (\<lambda>_. io_ret x))" for x :: hybrid_conf
    by simp
  then show ?thesis by (simp add: hybrid_Init_def Let_def makes_basic)
qed

text \<open>The calls that hand a batch over: its records as they are, or its aggregates, and then those of MCP.\<close>

definition hybrid_payload :: "json_lib \<Rightarrow> hybrid_conf \<Rightarrow> item list \<Rightarrow> last_ts \<Rightarrow> (string \<times> rpc_arg) list res" where
  "hybrid_payload json conf data ts =
     (if \<not> hy_Aggregated conf
      then rbind (jl_records json data) (\<lambda>j. Inr [(''PurgeAnalyticsData'', RpcString j)])
      else rbind (AggregateData data (hy_TrackAllPaths conf) (hy_IgnoreTagPrefixList conf) (hy_ConnectionString conf)
             (hy_aggregationTime conf) ts) (\<lambda>(aggs, ts).
           rbind (jl_aggregates json aggs) (\<lambda>j.
           rbind (if hy_EnableMCPAggregation conf
                  then rbind (AggregateMCPData data (hy_ConnectionString conf) (hy_aggregationTime conf) ts) (\<lambda>(mcp, ts).
                    if mcp = [] then Inr []
                    else rbind (jl_mcp json mcp) (\<lambda>j. Inr [(''PurgeAnalyticsDataMCPAggregated'', RpcString j)]))
                  else Inr []) (\<lambda>rest.
           Inr ((''PurgeAnalyticsDataAggregated'', RpcString j) # rest)))))"

lemma with_ts_Inr: "with_ts f s = (Inr x, t) \<longleftrightarrow> (\<exists>ts. f (hb_ts s) = Inr (x, ts) \<and> t = s\<lparr>hb_ts := ts\<rparr>)"
  by (auto simp: with_ts_def split: sum.splits)

lemma io_res_Inr: "io_res r s = (Inr x, t) \<longleftrightarrow> r = Inr x \<and> t = s"
  by (auto simp: io_res_def)

lemma sendMCPAggregates_calls:
  assumes "rpc_logs view lib" and "sendMCPAggregates lib json conf data s = (Inr (), t)"
  shows "\<exists>mcp ts rest. AggregateMCPData data (hy_ConnectionString conf) (hy_aggregationTime conf) (hb_ts s) = Inr (mcp, ts) \<and>
    (if mcp = [] then rest = [] else \<exists>j. jl_mcp json mcp = Inr j \<and> rest = [(''PurgeAnalyticsDataMCPAggregated'', RpcString j)]) \<and>
    view (hb_world t) = view (hb_world s) @ rest"
  using assms(2)
  by (auto simp: sendMCPAggregates_def io_bind_Inr with_ts_Inr io_res_Inr split: if_splits dest!: callRPCFn_Inr [OF assms(1)])

lemma hybrid_send_calls:
  assumes "rpc_logs view lib" and "hybrid_send lib json conf data s = (Inr (), t)"
  shows "\<exists>sent. hybrid_payload json conf data (hb_ts s) = Inr sent \<and> view (hb_world t) = view (hb_world s) @ sent"
proof (cases "hy_Aggregated conf")
  case False
  with assms(2) show ?thesis
    by (auto simp: hybrid_send_def hybrid_payload_def io_bind_Inr io_res_Inr dest!: callRPCFn_Inr [OF assms(1)])
next
  case True
  with assms(2) obtain aggs ts j x s' where agg: "AggregateData data (hy_TrackAllPaths conf) (hy_IgnoreTagPrefixList conf)
      (hy_ConnectionString conf) (hy_aggregationTime conf) (hb_ts s) = Inr (aggs, ts)" and j: "jl_aggregates json aggs = Inr j"
    and call: "callRPCFn lib conf ''PurgeAnalyticsDataAggregated'' (RpcString j) (s\<lparr>hb_ts := ts\<rparr>) = (Inr x, s')"
    and rest: "(if hy_EnableMCPAggregation conf then sendMCPAggregates lib json conf data else io_ret ()) s' = (Inr (), t)"
    by (auto simp: hybrid_send_def io_bind_Inr with_ts_Inr io_res_Inr)
  from callRPCFn_Inr [OF assms(1) call] have s': "hb_ts s' = ts"
    "view (hb_world s') = view (hb_world s) @ [(''PurgeAnalyticsDataAggregated'', RpcString j)]" by simp_all
  show ?thesis
  proof (cases "hy_EnableMCPAggregation conf")
    case False
    with rest agg j s' True show ?thesis by (auto simp: hybrid_payload_def)
  next
    case mcp: True
    with rest have send: "sendMCPAggregates lib json conf data s' = (Inr (), t)" by simp
    from sendMCPAggregates_calls [OF assms(1) send] obtain m ts' rest' where
      m: "AggregateMCPData data (hy_ConnectionString conf) (hy_aggregationTime conf) ts = Inr (m, ts')"
      and r: "if m = [] then rest' = [] else \<exists>j. jl_mcp json m = Inr j \<and> rest' = [(''PurgeAnalyticsDataMCPAggregated'', RpcString j)]"
      and v: "view (hb_world t) = view (hb_world s') @ rest'" unfolding s'(1) by blast
    show ?thesis
    proof (cases "m = []")
      case True
      with mcp \<open>hy_Aggregated conf\<close> agg j s'(2) m r v show ?thesis by (simp add: hybrid_payload_def)
    next
      case False
      with r obtain j' where "jl_mcp json m = Inr j'" "rest' = [(''PurgeAnalyticsDataMCPAggregated'', RpcString j')]" by auto
      with False mcp \<open>hy_Aggregated conf\<close> agg j s'(2) m v show ?thesis by (simp add: hybrid_payload_def)
    qed
  qed
qed

text \<open>
  C34. A write that succeeds has made at most three calls to log in, and then exactly the calls that
  hand the batch over, in order: the records, or the aggregates and, if there are any and they are
  enabled, the MCP aggregates.
\<close>

theorem hybrid_WriteData_sends:
  assumes "rpc_logs view lib" and "data \<noteq> []" and "hybrid_WriteData rt lib json conf data s = (Inr (), t)"
  shows "\<exists>pre sent. view (hb_world t) = view (hb_world s) @ pre @ sent \<and> fst ` set pre \<subseteq> {''Ping'', ''Login''} \<and>
    length pre \<le> 3 \<and> hybrid_payload json conf data (hb_ts s) = Inr sent"
proof -
  let ?again = "\<lambda>a. (case a of LoggedIn \<Rightarrow> io_ret () | WrongLogin \<Rightarrow> io_res (login_err WrongLogin)
    | LoginError e \<Rightarrow> connectAndLogin rt lib conf False)"
  from assms(2,3) obtain u s' where pre: "io_bind (RPCLogin lib conf) ?again s = (Inr u, s')"
    and send: "hybrid_send lib json conf data s' = (Inr (), t)"
    by (auto simp: hybrid_WriteData_def io_bind_Inr)
  have "makes view (1 + 2) {''Ping'', ''Login''} (io_bind (RPCLogin lib conf) ?again)"
    by (intro makes_bind makes_mono [OF makes_login [OF assms(1)]])
      (auto split: login_answer.split intro!: makes_basic makes_connectAndLogin assms(1))
  from makesE [OF this pre] obtain xs where xs: "hb_ts s' = hb_ts s" "view (hb_world s') = view (hb_world s) @ xs"
    "fst ` set xs \<subseteq> {''Ping'', ''Login''}" "length xs \<le> 1 + 2" by metis
  from hybrid_send_calls [OF assms(1) send] xs(1,2) obtain sent where
    "hybrid_payload json conf data (hb_ts s) = Inr sent" "view (hb_world t) = view (hb_world s) @ xs @ sent" by auto
  with xs(3,4) show ?thesis by (intro exI [of _ xs] exI [of _ sent]) simp
qed

section \<open>The client is never nil when it is used\<close>

definition hybrid_ok :: "'w hybrid \<Rightarrow> bool" where
  "hybrid_ok s \<longleftrightarrow> (hb_connected s = Some True \<longrightarrow> hb_client s \<noteq> None)"

text \<open>The library gives errors, not panics, and a login is answered with a truth value.\<close>

definition rpc_errors :: "'w rpc_lib \<Rightarrow> bool" where
  "rpc_errors lib \<longleftrightarrow> (\<forall>w p. fst (rl_NewV4 lib w) \<noteq> Inl (GoPanic p)) \<and>
     (\<forall>c f a n w p. fst (rl_Call lib c f a n w) \<noteq> Inl (GoPanic p)) \<and> (\<forall>c a n w. fst (rl_Call lib c ''Login'' a n w) \<noteq> Inr RpcOther)"

definition json_errors :: "json_lib \<Rightarrow> bool" where
  "json_errors json \<longleftrightarrow> (\<forall>x p. jl_records json x \<noteq> Inl (GoPanic p)) \<and> (\<forall>x p. jl_aggregates json x \<noteq> Inl (GoPanic p)) \<and>
     (\<forall>x p. jl_mcp json x \<noteq> Inl (GoPanic p))"

text \<open>From a state in \<open>P\<close> the call does not panic, keeps \<open>hybrid_ok\<close>, and a result satisfies \<open>Q\<close>.\<close>

definition hb_safe :: "('w hybrid \<Rightarrow> bool) \<Rightarrow> ('w hybrid, 'a) io \<Rightarrow> ('a \<Rightarrow> 'w hybrid \<Rightarrow> bool) \<Rightarrow> bool" where
  "hb_safe P m Q \<longleftrightarrow> (\<forall>s r t. P s \<longrightarrow> m s = (r, t) \<longrightarrow>
     hybrid_ok t \<and> (case r of Inl (GoPanic p) \<Rightarrow> False | Inl (GoErr e) \<Rightarrow> True | Inr x \<Rightarrow> Q x t))"

abbreviation hb_ready :: "'w hybrid \<Rightarrow> bool" where
  "hb_ready s \<equiv> hb_client s \<noteq> None"

lemma ready_ok: "hb_ready s \<Longrightarrow> hybrid_ok s"
  by (simp add: hybrid_ok_def)

lemma hb_safeD:
  assumes "hb_safe P m Q" and "P s" and "m s = (r, t)"
  shows "hybrid_ok t \<and> (case r of Inl (GoPanic p) \<Rightarrow> False | Inl (GoErr e) \<Rightarrow> True | Inr x \<Rightarrow> Q x t)"
  using assms unfolding hb_safe_def by blast

lemma hb_safe_bind:
  assumes "hb_safe P m Q" and "\<And>x. hb_safe (Q x) (f x) R"
  shows "hb_safe P (io_bind m f) R"
  unfolding hb_safe_def
proof (intro allI impI)
  fix s r t
  assume "P s" and "io_bind m f s = (r, t)"
  from this(2) show "hybrid_ok t \<and> (case r of Inl (GoPanic p) \<Rightarrow> False | Inl (GoErr e) \<Rightarrow> True | Inr x \<Rightarrow> R x t)"
  proof (cases rule: io_bind_cases)
    case (1 e)
    with assms(1) \<open>P s\<close> show ?thesis unfolding hb_safe_def by (fastforce split: go_error.splits)
  next
    case (2 x s')
    with assms(1) \<open>P s\<close> have "Q x s'" unfolding hb_safe_def by fastforce
    with assms(2) [of x] 2(2) show ?thesis unfolding hb_safe_def by blast
  qed
qed

lemma hb_safe_ret: "(\<And>s. P s \<Longrightarrow> hybrid_ok s \<and> Q x s) \<Longrightarrow> hb_safe P (io_ret x) Q"
  by (simp add: hb_safe_def)

lemma hb_safe_res: "(\<And>p. r \<noteq> Inl (GoPanic p)) \<Longrightarrow> (\<And>s. P s \<Longrightarrow> hybrid_ok s) \<Longrightarrow> hb_safe P (io_res r) (\<lambda>_. P)"
  by (auto simp: hb_safe_def io_res_def split: sum.splits go_error.splits)

lemma hb_safe_with_ts:
  "(\<And>ts p. f ts \<noteq> Inl (GoPanic p)) \<Longrightarrow> hb_safe hb_ready (with_ts f) (\<lambda>_. hb_ready)"
  by (auto simp: hb_safe_def with_ts_def hybrid_ok_def split: sum.splits go_error.splits)

lemma hb_safe_call:
  assumes "rpc_errors lib"
  shows "hb_safe hb_ready (callRPCFn lib conf f a) (\<lambda>x t. hb_ready t \<and> (f = ''Login'' \<longrightarrow> x \<noteq> RpcOther))"
  unfolding hb_safe_def
proof (intro allI impI)
  fix s r t
  assume "hb_ready s" and run: "callRPCFn lib conf f a s = (r, t)"
  then obtain c where c: "hb_client s = Some c" by blast
  obtain r' opened w where q: "rl_Call lib c f a (hy_CallTimeout conf * dur_second) (hb_world s) = (r', opened, w)"
    using prod_cases3 by blast
  have "r' \<noteq> Inl (GoPanic p)" for p using assms q unfolding rpc_errors_def by (metis fst_conv)
  moreover have "f = ''Login'' \<longrightarrow> r' \<noteq> Inr RpcOther" using assms q unfolding rpc_errors_def by (metis fst_conv)
  ultimately show "hybrid_ok t \<and> (case r of Inl (GoPanic p) \<Rightarrow> False | Inl (GoErr e) \<Rightarrow> True
      | Inr x \<Rightarrow> hb_ready t \<and> (f = ''Login'' \<longrightarrow> x \<noteq> RpcOther))"
    using run c q by (auto simp: callRPCFn_def hybrid_ok_def split: sum.splits go_error.splits)
qed

lemma hb_safe_connectRPC:
  assumes "rpc_errors lib"
  shows "hb_safe hybrid_ok (connectRPC lib conf) (\<lambda>_. hb_ready)"
  unfolding connectRPC_def
proof (rule hb_safe_bind [where Q = "\<lambda>_. hybrid_ok"], goal_cases)
  case 1
  show ?case using assms
    by (auto simp: hb_safe_def io_on_run rpc_errors_def hybrid_ok_def split: sum.splits go_error.splits; metis fst_conv)
next
  case (2 connID)
  have start: "hb_safe hybrid_ok (startClient lib c) (\<lambda>_. hb_ready)" for c
    by (auto simp: hb_safe_def startClient_def hybrid_ok_def split: prod.splits)
  have ping: "hb_safe hb_ready (io_bind (callRPCFn lib conf ''Ping'' RpcNil) (\<lambda>_. io_ret ())) (\<lambda>_. hb_ready)"
    by (rule hb_safe_bind [OF hb_safe_call [OF assms]]) (auto intro: hb_safe_ret ready_ok)
  show ?case using hb_safe_bind [OF start ping] by (auto simp: hb_safe_def)
qed

lemma hb_safe_RPCLogin:
  assumes "rpc_errors lib"
  shows "hb_safe hybrid_ok (RPCLogin lib conf) (\<lambda>a t. hybrid_ok t \<and> (a = LoggedIn \<longrightarrow> hb_ready t))"
  unfolding hb_safe_def
proof (intro allI impI)
  fix s r t
  assume ok: "hybrid_ok s" and run: "RPCLogin lib conf s = (r, t)"
  show "hybrid_ok t \<and> (case r of Inl (GoPanic p) \<Rightarrow> False | Inl (GoErr e) \<Rightarrow> True
      | Inr a \<Rightarrow> hybrid_ok t \<and> (a = LoggedIn \<longrightarrow> hb_ready t))"
  proof (cases "hb_connected s = Some True")
    case False
    with run ok show ?thesis by (auto simp: RPCLogin_def)
  next
    case True
    with ok have ready: "hb_ready s" by (simp add: hybrid_ok_def)
    obtain r' t' where call: "callRPCFn lib conf ''Login'' (RpcString (hy_APIKey conf)) s = (r', t')" by fastforce
    from hb_safeD [OF hb_safe_call [OF assms] ready call]
    have "hybrid_ok t' \<and> (case r' of Inl (GoPanic p) \<Rightarrow> False | Inl (GoErr e) \<Rightarrow> True | Inr x \<Rightarrow> hb_ready t' \<and> x \<noteq> RpcOther)"
      by (simp split: sum.splits go_error.splits)
    with True run call show ?thesis
      by (auto simp: RPCLogin_def io_bind_def io_try_def split: sum.splits go_error.splits rpc_value.splits if_splits)
  qed
qed

lemma hb_safe_connectAndLogin:
  assumes "rpc_errors lib"
  shows "hb_safe hybrid_ok (connectAndLogin rt lib conf False) (\<lambda>_. hb_ready)"
proof -
  have "hb_safe (\<lambda>t. hybrid_ok t \<and> (a = LoggedIn \<longrightarrow> hb_ready t)) (io_res (login_err a)) (\<lambda>_. hb_ready)" for a
    by (auto simp: hb_safe_def io_res_def login_err_def split: login_answer.splits)
  then have "hb_safe hybrid_ok (loginFn lib conf) (\<lambda>_. hb_ready)"
    unfolding loginFn_def by (rule hb_safe_bind [OF hb_safe_RPCLogin [OF assms]])
  then have "hb_safe hb_ready (loginFn lib conf) (\<lambda>_. hb_ready)" by (auto simp: hb_safe_def intro: ready_ok)
  from hb_safe_bind [OF hb_safe_connectRPC [OF assms] this] show ?thesis
    by (simp add: connectAndLogin_def)
qed

lemma hb_safe_ready:
  assumes "rpc_errors lib"
  shows "hb_safe hb_ready (callRPCFn lib conf f a) (\<lambda>_. hb_ready)"
  using hb_safe_call [OF assms, of conf f a] by (auto simp: hb_safe_def split: sum.splits go_error.splits)

text \<open>
  Also after a shutdown: a write does not use the client while it is nil, it connects again.
\<close>

theorem hybrid_WriteData_no_panic:
  assumes lib: "rpc_errors lib" and json: "json_errors json" and "ItemNil \<notin> set data"
    and ok: "\<And>r. ItemRecord r \<in> set data \<Longrightarrow> r_ResponseCode r = -1 \<Longrightarrow> r_APIID r = []"
  shows "hb_safe hybrid_ok (hybrid_WriteData rt lib json conf data) (\<lambda>_. hybrid_ok)"
proof -
  have agg: "hb_safe hb_ready (with_ts (AggregateData data tap pre db n)) (\<lambda>_. hb_ready)" for tap pre db n
  proof (rule hb_safe_with_ts)
    fix ts p
    have "\<exists>m ts'. AggregateData data tap pre db n ts = Inr (m, ts')" using assms(3) ok by (intro AggregateData_defined)
    then show "AggregateData data tap pre db n ts \<noteq> Inl (GoPanic p)" by auto
  qed
  have mcp: "hb_safe hb_ready (with_ts (AggregateMCPData data db n)) (\<lambda>_. hb_ready)" for db n
  proof (rule hb_safe_with_ts)
    fix ts p
    have "\<exists>m ts'. AggregateMCPData data db n ts = Inr (m, ts')" using ok by (intro AggregateMCPData_defined)
    then show "AggregateMCPData data db n ts \<noteq> Inl (GoPanic p)" by auto
  qed
  have call: "hb_safe hb_ready (io_bind (callRPCFn lib conf f a) (\<lambda>_. io_ret ())) (\<lambda>_. hybrid_ok)" for f a
    by (rule hb_safe_bind [OF hb_safe_ready [OF lib]]) (auto intro: hb_safe_ret ready_ok)
  have js: "hb_safe hb_ready (io_res (jl_records json x)) (\<lambda>_. hb_ready)" "hb_safe hb_ready (io_res (jl_aggregates json y)) (\<lambda>_. hb_ready)"
    "hb_safe hb_ready (io_res (jl_mcp json z)) (\<lambda>_. hb_ready)" for x y z
    using json unfolding json_errors_def by (intro hb_safe_res ready_ok; blast)+
  have none: "hb_safe hb_ready (io_ret ()) (\<lambda>_. hybrid_ok)" by (intro hb_safe_ret) (simp add: ready_ok)
  have sendMCP: "hb_safe hb_ready (sendMCPAggregates lib json conf data) (\<lambda>_. hybrid_ok)"
    unfolding sendMCPAggregates_def
    by (rule hb_safe_bind [OF mcp], split if_split, intro conjI impI none hb_safe_bind [OF js(3) call])
  have send: "hb_safe hb_ready (hybrid_send lib json conf data) (\<lambda>_. hybrid_ok)"
    unfolding hybrid_send_def
    by (split if_split, intro conjI impI hb_safe_bind [OF js(1) call] hb_safe_bind [OF agg] hb_safe_bind [OF js(2)] hb_safe_bind [OF hb_safe_ready [OF lib]])
      (use sendMCP none in auto)
  have again: "hb_safe (\<lambda>t. hybrid_ok t \<and> (a = LoggedIn \<longrightarrow> hb_ready t)) (case a of LoggedIn \<Rightarrow> io_ret ()
      | WrongLogin \<Rightarrow> io_res (login_err WrongLogin) | LoginError e \<Rightarrow> connectAndLogin rt lib conf False) (\<lambda>_. hb_ready)" for a
    using hb_safe_connectAndLogin [OF lib, of rt conf]
    by (cases a) (auto simp: hb_safe_def login_err_def)
  show ?thesis
    unfolding hybrid_WriteData_def
    by (split if_split, intro conjI impI hb_safe_bind [OF hb_safe_RPCLogin [OF lib]] hb_safe_bind [OF again send]) (simp add: hb_safe_ret)
qed

lemma hybrid_Shutdown_ok: "hybrid_Shutdown lib s = (Inr (), t) \<Longrightarrow> hybrid_ok t \<and> hb_client t = None"
  by (auto simp: hybrid_Shutdown_def hybrid_ok_def split: option.splits)

section \<open>A run\<close>

text \<open>A server that accepts every login and keeps the calls it has seen.\<close>

definition sample_rpc :: "(string \<times> rpc_arg) list rpc_lib" where
  "sample_rpc = \<lparr>rl_NewV4 = io_ret ''u'', rl_Start = \<lambda>c w. (False, w),
     rl_Call = \<lambda>c f a n w. (Inr (if f = ''Login'' then RpcBool True else RpcOther), True, w @ [(f, a)]), rl_Stop = \<lambda>c w. w\<rparr>"

definition sample_json :: json_lib where
  "sample_json = \<lparr>jl_records = \<lambda>x. Inr ''r'', jl_aggregates = \<lambda>x. Inr ''a'', jl_mcp = \<lambda>x. Inr ''m''\<rparr>"

definition sample_hybrid_conf :: hybrid_conf where
  "sample_hybrid_conf = \<lparr>hy_EnvPrefix = [], hy_ConnectionString = ''c'', hy_RPCKey = ''o'', hy_APIKey = ''k'',
     hy_IgnoreTagPrefixList = [], hy_CallTimeout = 10, hy_RPCPoolSize = 5, hy_aggregationTime = 60, hy_Aggregated = False,
     hy_TrackAllPaths = False, hy_StoreAnalyticsPerMinute = False, hy_EnableMCPAggregation = False, hy_UseSSL = False,
     hy_SSLInsecureSkipVerify = False\<rparr>"

theorem hybrid_WriteData_sends_witness:
  "\<exists>t. hybrid_WriteData (\<lambda>n f. f) sample_rpc sample_json sample_hybrid_conf [ItemRecord record_zero]
      \<lparr>hb_client = None, hb_connected = None, hb_ts = [], hb_world = []\<rparr> = (Inr (), t) \<and>
    hb_world t = [(''Ping'', RpcNil), (''Login'', RpcString ''k''), (''PurgeAnalyticsData'', RpcString ''r'')]"
proof -
  let ?s = "\<lparr>hb_client = None, hb_connected = None, hb_ts = [], hb_world = []\<rparr> :: (string \<times> rpc_arg) list hybrid"
  have law: "rpc_logs (\<lambda>w. w) sample_rpc" by (simp add: rpc_logs_def sample_rpc_def)
  obtain t where run: "hybrid_WriteData (\<lambda>n f. f) sample_rpc sample_json sample_hybrid_conf [ItemRecord record_zero] ?s = (Inr (), t)"
    and w: "hb_world t = [(''Ping'', RpcNil), (''Login'', RpcString ''k''), (''PurgeAnalyticsData'', RpcString ''r'')]"
    by (simp add: hybrid_WriteData_def RPCLogin_def connectAndLogin_def connectRPC_def loginFn_def login_err_def hybrid_send_def
        callRPCFn_def startClient_def onConnectFunc_def io_bind_def io_try_def io_on_def io_res_def
        sample_rpc_def sample_json_def sample_hybrid_conf_def)
  have "[ItemRecord record_zero] \<noteq> []" by simp
  from hybrid_WriteData_sends [where view = "\<lambda>w. w", OF law this run]
  have "\<exists>pre sent. hb_world t = pre @ sent \<and> sent = [(''PurgeAnalyticsData'', RpcString ''r'')]"
    by (auto simp: hybrid_payload_def sample_hybrid_conf_def sample_json_def)
  with run w show ?thesis by blast
qed

end
