(* ===== verification/Moesif.thy ===== *)
theory Moesif
  imports Event_Values GoFloat
begin

text \<open>
  The Moesif pump, \<open>src/pumps/moesif.go\<close>: the raw request and response cut into headers and body,
  the masking of both, the user a request belongs to, the sampling and the application
  configuration. The parser and the printer of JSON, the random percentages, the clock and the API
  client are parameters. The lemmas: what masking hides and what it leaves, how many of the
  percentages let an event through, and which requests stop the pump.
\<close>

section \<open>JSON values\<close>

datatype json = JvNull | JvBool bool | JvNum f64 | JvStr string | JvArr "json list" | JvObj "(string \<times> json) list"

type_synonym json_map = "(string, json) gomap"

definition as_num :: "json \<Rightarrow> f64 option" where
  "as_num v = (case v of JvNum x \<Rightarrow> Some x | _ \<Rightarrow> None)"

definition as_str :: "json \<Rightarrow> string option" where
  "as_str v = (case v of JvStr s \<Rightarrow> Some s | _ \<Rightarrow> None)"

definition as_obj :: "json \<Rightarrow> json_map option" where
  "as_obj v = (case v of JvObj kvs \<Rightarrow> Some kvs | _ \<Rightarrow> None)"

definition get_num :: "json_map \<Rightarrow> string \<Rightarrow> f64 option" where
  "get_num m k = Option.bind (gomap_get m k) as_num"

definition get_str :: "json_map \<Rightarrow> string \<Rightarrow> string option" where
  "get_str m k = Option.bind (gomap_get m k) as_str"

definition get_obj :: "json_map \<Rightarrow> string \<Rightarrow> json_map option" where
  "get_obj m k = Option.bind (gomap_get m k) as_obj"

text \<open>
  \<open>json.Unmarshal\<close> into a map: an object is merged into it, \<open>null\<close> clears it, all else is an error.
\<close>

definition unmarshal_map :: "(string \<Rightarrow> json option) \<Rightarrow> string \<Rightarrow> json_map \<Rightarrow> json_map option" where
  "unmarshal_map parse s m =
     (case parse s of
        Some (JvObj kvs) \<Rightarrow> Some (fold (\<lambda>(k, v) m. gomap_set m k v) kvs m)
      | Some JvNull \<Rightarrow> Some []
      | _ \<Rightarrow> None)"

section \<open>Masking\<close>

definition stars :: string where
  "stars = ''*****''"

fun contains :: "string list \<Rightarrow> string \<Rightarrow> bool" where
  "contains [] str = False"
| "contains (value # arr) str = (value = str \<or> contains arr str)"

lemma contains_set [simp]: "contains arr str = (str \<in> set arr)"
  by (induction arr) auto

fun mask_value :: "string list \<Rightarrow> string \<Rightarrow> json \<Rightarrow> json" where
  "mask_value maskBody key (JvObj kvs) =
     (if contains maskBody key then JvStr stars else JvObj (map (\<lambda>(k, v). (k, mask_value maskBody k v)) kvs))"
| "mask_value maskBody key v = (if contains maskBody key then JvStr stars else v)"

definition maskData :: "json_map \<Rightarrow> string list \<Rightarrow> json_map" where
  "maskData data maskBody = map (\<lambda>(k, v). (k, mask_value maskBody k v)) data"

text \<open>The body is rendered again, or sent as it is if it is not an object; \<open>None\<close> stands for \<open>null\<close>.\<close>

record json_codec =
  jc_parse :: "string \<Rightarrow> json option"
  jc_print :: "json_map option \<Rightarrow> string"

definition maskRawBody :: "json_codec \<Rightarrow> string \<Rightarrow> string list \<Rightarrow> string" where
  "maskRawBody codec rawBody maskBody =
     (case jc_parse codec rawBody of
        Some JvNull \<Rightarrow> b64_encode (jc_print codec None)
      | _ \<Rightarrow>
          (case unmarshal_map (jc_parse codec) rawBody [] of
             Some maskedBody \<Rightarrow>
               b64_encode (jc_print codec (Some (if maskBody \<noteq> [] then maskData maskedBody maskBody else maskedBody)))
           | None \<Rightarrow> b64_encode rawBody))"

section \<open>Raw requests and responses\<close>

definition crlf :: string where
  "crlf = [CHR 0x0D, CHR 0x0A]"

definition toLowerCase :: "json_map \<Rightarrow> json_map" where
  "toLowerCase headers = fold (\<lambda>(k, v) m. gomap_set m (to_lower k) v) headers []"

fun header_lines :: "json_map \<Rightarrow> string list \<Rightarrow> json_map" where
  "header_lines ret [] = ret"
| "header_lines ret (l # ls) =
     header_lines (case split_once '':'' l of None \<Rightarrow> ret | Some (k, v) \<Rightarrow> gomap_set ret k (JvStr (trim_space v))) ls"

definition decodeHeaders :: "string \<Rightarrow> string list \<Rightarrow> json_map" where
  "decodeHeaders headers maskHeaders = toLowerCase (maskData (header_lines [] (drop 1 (scan_lines headers))) maskHeaders)"

record raw_decoded =
  rd_headers :: json_map
  rd_body :: "string option"

definition decodeRawData :: "json_codec \<Rightarrow> string \<Rightarrow> string list \<Rightarrow> string list \<Rightarrow> bool \<Rightarrow> raw_decoded" where
  "decodeRawData codec raw maskHeaders maskBody disableCaptureBody =
     (case split_once (crlf @ crlf) raw of
        None \<Rightarrow> \<lparr>rd_headers = decodeHeaders raw maskHeaders, rd_body = None\<rparr>
      | Some (h, b) \<Rightarrow> \<lparr>rd_headers = decodeHeaders h maskHeaders,
          rd_body = (if \<not> disableCaptureBody then Some (maskRawBody codec b maskBody) else None)\<rparr>)"

definition buildURI :: "string \<Rightarrow> string \<Rightarrow> string" where
  "buildURI raw defaultPath =
     (case split_once crlf raw of
        None \<Rightarrow> defaultPath
      | Some (line, rest) \<Rightarrow> (let requestPath = str_fields line in if length requestPath \<ge> 3 then requestPath ! 1 else defaultPath))"

section \<open>Users\<close>

definition fetchIDFromHeader :: "json_map \<Rightarrow> json_map \<Rightarrow> string \<Rightarrow> string" where
  "fetchIDFromHeader requestHeaders responseHeaders headerName =
     (case get_str responseHeaders (to_lower headerName) of
        Some resuid \<Rightarrow> resuid
      | None \<Rightarrow> (case get_str requestHeaders (to_lower headerName) of Some requid \<Rightarrow> requid | None \<Rightarrow> []))"

text \<open>\<open>strings.SplitAfter(token, tokenType)[1]\<close> is what follows the first token type, with the next one if there is one.\<close>

definition fetchTokenPayload :: "string \<Rightarrow> string \<Rightarrow> string res" where
  "fetchTokenPayload token tokenType =
     (case split_once tokenType token of
        None \<Rightarrow> Inl (GoPanic ''index out of range'')
      | Some (a, rest) \<Rightarrow>
          Inr (trim_space (case split_once tokenType rest of None \<Rightarrow> rest | Some (b, c) \<Rightarrow> b @ tokenType)))"

definition parseAuthorizationHeader :: "(string \<Rightarrow> json option) \<Rightarrow> string \<Rightarrow> string \<Rightarrow> string res" where
  "parseAuthorizationHeader parse token field =
     (if token \<noteq> []
      then (case b64_url_decode token of
          None \<Rightarrow> Inr []
        | Some d \<Rightarrow> (case unmarshal_map parse d [] of
            None \<Rightarrow> Inr []
          | Some parsedJSON \<Rightarrow> (case gomap_get parsedJSON field of
              None \<Rightarrow> Inr []
            | Some (JvStr s) \<Rightarrow> Inr s
            | Some _ \<Rightarrow> Inl (GoPanic ''interface conversion''))))
      else Inr [])"

record moesif_conf =
  mf_EnvPrefix :: string
  mf_ApplicationID :: string
  mf_RequestHeaderMasks :: "string list"
  mf_ResponseHeaderMasks :: "string list"
  mf_RequestBodyMasks :: "string list"
  mf_ResponseBodyMasks :: "string list"
  mf_DisableCaptureRequestBody :: bool
  mf_DisableCaptureResponseBody :: bool
  mf_UserIDHeader :: string
  mf_CompanyIDHeader :: string
  mf_EnableBulk :: bool
  mf_BulkConfig :: json_map
  mf_AuthorizationHeaderName :: string
  mf_AuthorizationUserIdField :: string

definition token_user :: "(string \<Rightarrow> json option) \<Rightarrow> string \<Rightarrow> string \<Rightarrow> string res" where
  "token_user parse token field =
     (if str_contains token ''Basic''
      then rbind (fetchTokenPayload token ''Basic'') (\<lambda>basicToken.
           (case b64_decode basicToken of None \<Rightarrow> Inr [] | Some d \<Rightarrow> Inr (hd (split_char CHR '':'' d))))
      else if str_contains token ''Bearer''
      then rbind (fetchTokenPayload token ''Bearer'') (\<lambda>bearerToken.
           (let splitToken = split_char CHR ''.'' bearerToken
            in if length splitToken \<ge> 2 then parseAuthorizationHeader parse (splitToken ! 1) field else Inr []))
      else (let splitToken = split_char CHR ''.'' token
            in if length splitToken \<ge> 2 then parseAuthorizationHeader parse (splitToken ! 1) field
               else parseAuthorizationHeader parse token field))"

definition moesif_userID ::
  "(string \<Rightarrow> json option) \<Rightarrow> moesif_conf \<Rightarrow> json_map \<Rightarrow> json_map \<Rightarrow> analytics_record \<Rightarrow> string res" where
  "moesif_userID parse conf reqHeaders rspHeaders record =
     (let userID = (if mf_UserIDHeader conf \<noteq> [] then fetchIDFromHeader reqHeaders rspHeaders (mf_UserIDHeader conf) else [])
      in if userID \<noteq> [] then Inr userID
         else if r_Alias record \<noteq> [] then Inr (r_Alias record)
         else if r_OauthID record \<noteq> [] then Inr (r_OauthID record)
         else if reqHeaders = [] then Inr []
         else (let authHeaderName = (if mf_AuthorizationHeaderName conf \<noteq> [] then to_lower (mf_AuthorizationHeaderName conf)
                                     else ''authorization'');
                   authUserIdField = (if mf_AuthorizationUserIdField conf \<noteq> [] then to_lower (mf_AuthorizationUserIdField conf)
                                      else ''sub'')
               in case get_str reqHeaders authHeaderName of None \<Rightarrow> Inr [] | Some token \<Rightarrow> token_user parse token authUserIdField))"

section \<open>The pump\<close>

record 'w moesif =
  mo_samplingPercentage :: int
  mo_eTag :: string
  mo_lastUpdatedTime :: gotime
  mo_appConfig :: json_map
  mo_userSampleRateMap :: json_map
  mo_companySampleRateMap :: json_map
  mo_world :: 'w

text \<open>An answer with a configuration: the \<open>X-Moesif-Config-Etag\<close> header and the body or the error of reading it.\<close>

record config_response =
  cr_ETag :: "string option"
  cr_Body :: "string + string"

record moesif_event =
  me_ReqTime :: gotime
  me_Uri :: string
  me_Verb :: string
  me_ApiVersion :: string
  me_IpAddress :: string
  me_ReqHeaders :: json_map
  me_ReqBody :: "string option"
  me_RspTime :: gotime
  me_Status :: i64
  me_RspHeaders :: json_map
  me_RspBody :: "string option"
  me_TransferEncoding :: string
  me_SessionToken :: string
  me_UserId :: string
  me_CompanyId :: string
  me_APIName :: string
  me_Tags :: "string list"
  me_Direction :: string
  me_Weight :: int

record 'w moesif_lib =
  ml_QueueEvent :: "moesif_event \<Rightarrow> ('w, unit) io"
  ml_GetETag :: "'w \<Rightarrow> string"
  ml_GetAppConfig :: "('w, config_response) io"
  ml_Flush :: "('w, unit) io"

definition on_world :: "('w, 'a) io \<Rightarrow> ('w moesif, 'a) io" where
  "on_world = io_on mo_world (\<lambda>w s. s\<lparr>mo_world := w\<rparr>)"

definition parseConfiguration :: "(string \<Rightarrow> json option) \<Rightarrow> gotime \<Rightarrow> config_response \<Rightarrow> ('w moesif, unit) io" where
  "parseConfiguration parse now response s =
     (let s = (case cr_ETag response of Some e \<Rightarrow> s\<lparr>mo_eTag := e\<rparr> | None \<Rightarrow> s)
      in case cr_Body response of
           Inl err \<Rightarrow> (Inl (GoPanic (''exit: Couldn't parse configuration: '' @ err)), s)
         | Inr respBody \<Rightarrow>
             (let s = (case unmarshal_map parse respBody (mo_appConfig s) of
                         None \<Rightarrow> s
                       | Some cfg \<Rightarrow>
                           s\<lparr>mo_appConfig := cfg,
                             mo_samplingPercentage := (case get_num cfg ''sample_rate'' of Some r \<Rightarrow> f_to_int r | None \<Rightarrow> mo_samplingPercentage s),
                             mo_userSampleRateMap := (case get_obj cfg ''user_sample_rate'' of Some m \<Rightarrow> m | None \<Rightarrow> mo_userSampleRateMap s),
                             mo_companySampleRateMap := (case get_obj cfg ''company_sample_rate'' of Some m \<Rightarrow> m
                                                          | None \<Rightarrow> mo_companySampleRateMap s)\<rparr>)
              in (Inr (), s\<lparr>mo_lastUpdatedTime := now\<rparr>)))"

definition getSamplingPercentage :: "'w moesif \<Rightarrow> string \<Rightarrow> string \<Rightarrow> int" where
  "getSamplingPercentage s userID companyID =
     (case (if userID \<noteq> [] then get_num (mo_userSampleRateMap s) userID else None) of
        Some r \<Rightarrow> f_to_int r
      | None \<Rightarrow> (case (if companyID \<noteq> [] then get_num (mo_companySampleRateMap s) companyID else None) of
          Some r \<Rightarrow> f_to_int r
        | None \<Rightarrow> (case get_num (mo_appConfig s) ''sample_rate'' of Some r \<Rightarrow> f_to_int r | None \<Rightarrow> 100)))"

text \<open>The options of the client: the endpoint and the sizes, zero where they are not set.\<close>

definition bulk_int :: "json_map \<Rightarrow> string \<Rightarrow> int res" where
  "bulk_int m k = (case gomap_get m k of
     None \<Rightarrow> Inr 0 | Some (JvNum x) \<Rightarrow> Inr (f_to_int x) | Some _ \<Rightarrow> Inl (GoPanic ''interface conversion''))"

definition moesif_options :: "moesif_conf \<Rightarrow> (string \<times> int \<times> int \<times> int) res" where
  "moesif_options conf =
     (if mf_EnableBulk conf \<and> mf_BulkConfig conf \<noteq> []
      then rbind (bulk_int (mf_BulkConfig conf) ''event_queue_size'') (\<lambda>eventQueueSize.
           rbind (bulk_int (mf_BulkConfig conf) ''batch_size'') (\<lambda>batchSize.
           rbind (bulk_int (mf_BulkConfig conf) ''timer_wake_up_seconds'') (\<lambda>timerWakeupSeconds.
           Inr (case get_str (mf_BulkConfig conf) ''api_endpoint'' of Some e \<Rightarrow> e | None \<Rightarrow> [],
                eventQueueSize, batchSize, timerWakeupSeconds))))
      else Inr ([], 0, 0, 0))"

definition moesif_Init ::
  "(string \<Rightarrow> json option) \<Rightarrow> (string \<Rightarrow> string \<times> int \<times> int \<times> int \<Rightarrow> 'w \<Rightarrow> 'w) \<Rightarrow> 'w moesif_lib \<Rightarrow> gotime \<Rightarrow> moesif_conf \<Rightarrow>
     ('w moesif, unit) io" where
  "moesif_Init parse newAPI lib now conf =
     io_bind (io_res (moesif_options conf)) (\<lambda>opts.
     io_bind (io_upd (\<lambda>s. s\<lparr>mo_world := newAPI (mf_ApplicationID conf) opts (mo_world s), mo_samplingPercentage := 100,
       mo_lastUpdatedTime := now\<rparr>)) (\<lambda>_.
     io_bind (io_try (on_world (ml_GetAppConfig lib))) (\<lambda>r.
     case r of Inl e \<Rightarrow> io_ret () | Inr response \<Rightarrow> parseConfiguration parse now response)))"

section \<open>Writing\<close>

definition fatal_b64 :: "string \<Rightarrow> string res" where
  "fatal_b64 s = (case b64_decode s of Some d \<Rightarrow> Inr d | None \<Rightarrow> Inl (GoPanic ''exit: illegal base64 data''))"

text \<open>An item that is no record is sent as the zero record.\<close>

definition item_record :: "item \<Rightarrow> analytics_record" where
  "item_record v = (case v of ItemRecord r \<Rightarrow> r | ItemNil \<Rightarrow> record_zero)"

text \<open>The event of a record, but for its weight.\<close>

definition moesif_event_of :: "json_codec \<Rightarrow> moesif_conf \<Rightarrow> analytics_record \<Rightarrow> moesif_event res" where
  "moesif_event_of codec conf record =
     rbind (fatal_b64 (r_RawRequest record)) (\<lambda>rawReq.
     rbind (fatal_b64 (r_RawResponse record)) (\<lambda>rawRsp.
     (let req = decodeRawData codec rawReq (mf_RequestHeaderMasks conf) (mf_RequestBodyMasks conf) (mf_DisableCaptureRequestBody conf);
          rsp = decodeRawData codec rawRsp (mf_ResponseHeaderMasks conf) (mf_ResponseBodyMasks conf) (mf_DisableCaptureResponseBody conf)
      in rbind (moesif_userID (jc_parse codec) conf (rd_headers req) (rd_headers rsp) record) (\<lambda>userID.
         Inr \<lparr>me_ReqTime = time_in (r_TimeStamp record) ''UTC'' 0, me_Uri = buildURI rawReq (r_Path record),
           me_Verb = r_Method record, me_ApiVersion = r_APIVersion record, me_IpAddress = r_IPAddress record,
           me_ReqHeaders = rd_headers req, me_ReqBody = rd_body req,
           me_RspTime = time_in (time_add (r_TimeStamp record) (r_RequestTime record * 1000000)) ''UTC'' 0,
           me_Status = r_ResponseCode record, me_RspHeaders = rd_headers rsp, me_RspBody = rd_body rsp,
           me_TransferEncoding = ''base64'', me_SessionToken = r_APIKey record, me_UserId = userID,
           me_CompanyId = (if mf_CompanyIDHeader conf \<noteq> []
             then fetchIDFromHeader (rd_headers req) (rd_headers rsp) (mf_CompanyIDHeader conf) else []),
           me_APIName = r_APIName record, me_Tags = r_Tags record, me_Direction = ''Incoming'', me_Weight = 0\<rparr>))))"

definition event_weight :: "int \<Rightarrow> int" where
  "event_weight samplingPercentage = (if samplingPercentage = 0 then 1 else 100 div samplingPercentage)"

text \<open>The configuration is fetched again when its tag has changed, at most once a minute.\<close>

definition refresh_config :: "(string \<Rightarrow> json option) \<Rightarrow> 'w moesif_lib \<Rightarrow> gotime \<Rightarrow> ('w moesif, unit) io" where
  "refresh_config parse lib now s =
     (if ml_GetETag lib (mo_world s) \<noteq> [] \<and> mo_eTag s \<noteq> [] \<and> mo_eTag s \<noteq> ml_GetETag lib (mo_world s) \<and>
         time_after now (time_add (mo_lastUpdatedTime s) dur_minute)
      then io_bind (io_try (on_world (ml_GetAppConfig lib))) (\<lambda>r.
           case r of Inl e \<Rightarrow> io_ret () | Inr response \<Rightarrow> parseConfiguration parse now response) s
      else (Inr (), s))"

text \<open>\<open>randomPercentage\<close> and \<open>now\<close> are drawn for each item.\<close>

definition moesif_record ::
  "json_codec \<Rightarrow> 'w moesif_lib \<Rightarrow> moesif_conf \<Rightarrow> item \<times> int \<times> gotime \<Rightarrow> ('w moesif, unit) io" where
  "moesif_record codec lib conf = (\<lambda>(v, randomPercentage, now).
     io_bind (io_res (moesif_event_of codec conf (item_record v))) (\<lambda>event.
     io_bind (io_upd (\<lambda>s. s\<lparr>mo_samplingPercentage := getSamplingPercentage s (me_UserId event) (me_CompanyId event)\<rparr>)) (\<lambda>_.
     io_bind (io_get mo_samplingPercentage) (\<lambda>samplingPercentage.
     if samplingPercentage < randomPercentage then io_ret ()
     else io_bind (io_log (on_world (ml_QueueEvent lib (event\<lparr>me_Weight := event_weight samplingPercentage\<rparr>)))) (\<lambda>_.
          refresh_config (jc_parse codec) lib now)))))"

definition moesif_WriteData ::
  "json_codec \<Rightarrow> 'w moesif_lib \<Rightarrow> moesif_conf \<Rightarrow> (item \<times> int \<times> gotime) list \<Rightarrow> ('w moesif, unit) io" where
  "moesif_WriteData codec lib conf data = io_for data (moesif_record codec lib conf)"

definition moesif_Shutdown :: "'w moesif_lib \<Rightarrow> moesif_conf \<Rightarrow> ('w moesif, unit) io" where
  "moesif_Shutdown lib conf = (if mf_EnableBulk conf then on_world (ml_Flush lib) else io_ret ())"

section \<open>What masking hides\<close>

text \<open>The value under a path of keys; arrays have no keys.\<close>

fun json_at :: "string list \<Rightarrow> json \<Rightarrow> json option" where
  "json_at [] v = Some v"
| "json_at (k # ks) (JvObj kvs) = (case gomap_get kvs k of None \<Rightarrow> None | Some v \<Rightarrow> json_at ks v)"
| "json_at (k # ks) v = None"

lemma maskData_get: "gomap_get (maskData m hide) k = map_option (mask_value hide k) (gomap_get m k)"
  by (induction m) (auto simp: maskData_def)

lemma mask_value_masked: "k \<in> set hide \<Longrightarrow> mask_value hide k v = JvStr stars"
  by (cases v) auto

lemma mask_value_obj: "k \<notin> set hide \<Longrightarrow> mask_value hide k (JvObj kvs) = JvObj (maskData kvs hide)"
  by (simp add: maskData_def)

lemma mask_value_leaf: "k \<notin> set hide \<Longrightarrow> as_obj v = None \<Longrightarrow> mask_value hide k v = v"
  by (cases v) (auto simp: as_obj_def)

lemma json_at_leaf: "as_obj v = None \<Longrightarrow> ks \<noteq> [] \<Longrightarrow> json_at ks v = None"
  by (cases v; cases ks) (auto simp: as_obj_def)

lemma mask_at:
  "json_at (ks @ [k]) (JvObj (maskData m hide)) =
     (if set ks \<inter> set hide \<noteq> {} then None
      else if k \<in> set hide then map_option (\<lambda>_. JvStr stars) (json_at (ks @ [k]) (JvObj m))
      else map_option (mask_value hide k) (json_at (ks @ [k]) (JvObj m)))"
proof (induction ks arbitrary: m)
  case Nil
  then show ?case by (auto simp: maskData_get mask_value_masked split: option.split)
next
  case (Cons k' ks)
  show ?case
  proof (cases "gomap_get m k'")
    case None
    then show ?thesis by (simp add: maskData_get)
  next
    case (Some v)
    show ?thesis
    proof (cases "k' \<in> set hide")
      case True
      with Some show ?thesis by (simp add: maskData_get mask_value_masked json_at_leaf as_obj_def)
    next
      case False
      show ?thesis
      proof (cases "as_obj v")
        case None
        with Some False show ?thesis by (simp add: maskData_get mask_value_leaf json_at_leaf)
      next
        case (Some kvs)
        then have "v = JvObj kvs" by (cases v) (auto simp: as_obj_def)
        with \<open>gomap_get m k' = Some v\<close> False Cons.IH [of kvs] show ?thesis
          by (simp add: maskData_get mask_value_obj del: mask_value.simps)
      qed
    qed
  qed
qed

lemma toLowerCase_get:
  assumes "gomap_get (toLowerCase m) l = Some v"
  shows "\<exists>k. (k, v) \<in> set m \<and> to_lower k = l"
proof -
  have "gomap_get (fold (\<lambda>(k, v) m. gomap_set m (to_lower k) v) m acc) l = Some v \<Longrightarrow>
      gomap_get acc l = Some v \<or> (\<exists>k. (k, v) \<in> set m \<and> to_lower k = l)" for acc
  proof (induction m arbitrary: acc)
    case (Cons kv m)
    obtain k v' where kv: "kv = (k, v')" by fastforce
    with Cons.IH [of "gomap_set acc (to_lower k) v'"] Cons.prems show ?case
      by (auto simp: update_conv' split: if_splits)
  qed simp
  with assms show ?thesis by (fastforce simp: toLowerCase_def)
qed

lemma header_lines_keys:
  "(k, v) \<in> set (header_lines ret ls) \<Longrightarrow> k \<in> fst ` set ret \<or> (\<exists>l \<in> set ls. \<exists>t. l = k @ '':'' @ t)"
proof (induction ls arbitrary: ret)
  case (Cons l ls)
  show ?case
  proof (cases "split_once '':'' l")
    case None
    with Cons show ?thesis by auto
  next
    case (Some p)
    obtain k' v' where p: "p = (k', v')" by fastforce
    with Some have l: "l = k' @ '':'' @ v'" using split_once_Some [of "'':''" l k' v'] by simp
    have keys: "fst ` set (gomap_set ret k' x) = insert k' (fst ` set ret)" for x :: json by (induction ret) auto
    from Cons.prems Some p have "(k, v) \<in> set (header_lines (gomap_set ret k' (JvStr (trim_space v'))) ls)" by simp
    from Cons.IH [OF this] have "k = k' \<or> k \<in> fst ` set ret \<or> (\<exists>l \<in> set ls. \<exists>t. l = k @ '':'' @ t)" by (simp add: keys)
    with l show ?thesis by auto
  qed
qed force

text \<open>
  C12. Masking hides the value under every masked key at every depth of objects, leaves every other
  value that is no object (arrays with all they hold included) and loses no key; a header is
  hidden if every spelling of its name in the message is masked.
\<close>

theorem moesif_masks:
  "(k \<in> set hide \<longrightarrow> json_at (ks @ [k]) (JvObj (maskData m hide)) \<in> {None, Some (JvStr stars)}) \<and>
   (set (k # ks) \<inter> set hide = {} \<and> json_at (ks @ [k]) (JvObj m) = Some v \<and> as_obj v = None \<longrightarrow>
      json_at (ks @ [k]) (JvObj (maskData m hide)) = Some v) \<and>
   map fst (maskData m hide) = map fst m \<and>
   ((\<forall>line name t. line \<in> set (scan_lines headers) \<and> line = name @ '':'' @ t \<and> to_lower name = h \<longrightarrow> name \<in> set hide) \<longrightarrow>
      gomap_get (decodeHeaders headers hide) h \<in> {None, Some (JvStr stars)})"
proof (intro conjI impI)
  show "json_at (ks @ [k]) (JvObj (maskData m hide)) \<in> {None, Some (JvStr stars)}" if "k \<in> set hide"
    using that by (auto simp: mask_at)
  show "json_at (ks @ [k]) (JvObj (maskData m hide)) = Some v"
    if "set (k # ks) \<inter> set hide = {} \<and> json_at (ks @ [k]) (JvObj m) = Some v \<and> as_obj v = None"
    using that by (auto simp: mask_at mask_value_leaf)
  show "map fst (maskData m hide) = map fst m" by (induction m) (auto simp: maskData_def)
next
  assume all: "\<forall>line name t. line \<in> set (scan_lines headers) \<and> line = name @ '':'' @ t \<and> to_lower name = h \<longrightarrow> name \<in> set hide"
  show "gomap_get (decodeHeaders headers hide) h \<in> {None, Some (JvStr stars)}"
  proof (cases "gomap_get (decodeHeaders headers hide) h")
    case (Some w)
    then obtain name where n: "(name, w) \<in> set (maskData (header_lines [] (drop 1 (scan_lines headers))) hide)" "to_lower name = h"
      unfolding decodeHeaders_def by (blast dest: toLowerCase_get)
    then obtain v' where v': "(name, v') \<in> set (header_lines [] (drop 1 (scan_lines headers)))" "w = mask_value hide name v'"
      by (auto simp: maskData_def)
    from header_lines_keys [OF v'(1)] obtain line t where "line \<in> set (drop 1 (scan_lines headers))" "line = name @ '':'' @ t" by auto
    with all n(2) have "name \<in> set hide" using set_drop_subset by fastforce
    with v'(2) Some show ?thesis by (simp add: mask_value_masked)
  qed simp
qed

theorem moesif_masks_witness:
  "json_at [''a'', ''pw''] (JvObj (maskData [(''a'', JvObj [(''pw'', JvStr ''x''), (''n'', JvBool True)])] [''pw''])) =
     Some (JvStr ''*****'') \<and>
   json_at [''a'', ''n''] (JvObj (maskData [(''a'', JvObj [(''pw'', JvStr ''x''), (''n'', JvBool True)])] [''pw''])) =
     Some (JvBool True)"
proof -
  let ?m = "[(''a'', JvObj [(''pw'', JvStr ''x''), (''n'', JvBool True)])]"
  note p = moesif_masks [of "''pw''" "[''pw'']" "[''a'']" ?m] and q = moesif_masks [of "''n''" "[''pw'']" "[''a'']" ?m "JvBool True"]
  have "json_at [''a'', ''pw''] (JvObj (maskData ?m [''pw''])) \<noteq> None" by (simp add: maskData_def)
  with p q show ?thesis by (auto simp: stars_def as_obj_def)
qed

text \<open>The masks are compared before the names are lowered: another spelling of a masked header is sent in clear.\<close>

lemma moesif_header_case:
  "decodeHeaders (''GET / HTTP/1.1'' @ crlf @ ''Authorization: x'') [''authorization''] = [(''authorization'', JvStr ''x'')]"
proof -
  have low: "to_lower ''Authorization'' = ''authorization''" by code_simp
  have trim: "trim_space '' x'' = ''x''" by code_simp
  have "scan_lines (''GET / HTTP/1.1'' @ crlf @ ''Authorization: x'') = [''GET / HTTP/1.1'', ''Authorization: x'']"
    by (simp add: scan_lines_def crlf_def drop_cr_def)
  moreover have "split_once '':'' ''Authorization: x'' = Some (''Authorization'', '' x'')"
    by (simp add: has_prefix_def)
  ultimately show ?thesis
    by (simp add: decodeHeaders_def toLowerCase_def maskData_def low trim del: split_once.simps)
qed

text \<open>Objects in an array are not masked.\<close>

lemma moesif_array_unmasked:
  "maskData [(''users'', JvArr [JvObj [(''pw'', JvStr ''x'')]])] [''pw''] = [(''users'', JvArr [JvObj [(''pw'', JvStr ''x'')]])]"
  by code_simp

section \<open>Sampling\<close>

text \<open>
  Of the hundred percentages that can be drawn, those up to and including the sampling percentage
  let an event through: with a percentage of 0 one in a hundred is still sent, and with 99 all are.
\<close>

theorem moesif_sampling:
  assumes "moesif_event_of codec conf (item_record v) = Inr event"
    and queue: "\<And>e w. \<exists>w'. ml_QueueEvent lib e w = (Inr (), w') \<and> queued w' = queued w @ [e]"
    and tag: "\<And>w. ml_GetETag lib w = []"
    and pct: "pct = getSamplingPercentage s (me_UserId event) (me_CompanyId event)"
  shows "(\<exists>t. moesif_WriteData codec lib conf [(v, r, now)] s = (Inr (), t) \<and>
      queued (mo_world t) = queued (mo_world s) @ (if r \<le> pct then [event\<lparr>me_Weight := event_weight pct\<rparr>] else [])) \<and>
    (0 \<le> pct \<longrightarrow> card {r. 0 \<le> r \<and> r < 100 \<and> r \<le> pct} = (if pct < 99 then nat (pct + 1) else 100))"
proof -
  obtain w' where w': "ml_QueueEvent lib (event\<lparr>me_Weight := event_weight pct\<rparr>) (mo_world s) = (Inr (), w')"
    "queued w' = queued (mo_world s) @ [event\<lparr>me_Weight := event_weight pct\<rparr>]" using queue by blast
  have run: "\<exists>t. moesif_WriteData codec lib conf [(v, r, now)] s = (Inr (), t) \<and>
      queued (mo_world t) = queued (mo_world s) @ (if r \<le> pct then [event\<lparr>me_Weight := event_weight pct\<rparr>] else [])"
  proof -
    let ?s = "s\<lparr>mo_samplingPercentage := pct\<rparr>"
    have send: "io_log (on_world (ml_QueueEvent lib (event\<lparr>me_Weight := event_weight pct\<rparr>))) ?s = (Inr (), ?s\<lparr>mo_world := w'\<rparr>)"
      using w'(1) by (simp add: io_log_def io_bind_def io_try_def on_world_def io_on_def)
    have refresh: "refresh_config (jc_parse codec) lib now t = (Inr (), t)" for t by (simp add: refresh_config_def tag)
    have "moesif_record codec lib conf (v, r, now) s =
        (if pct < r then (Inr (), ?s) else (Inr (), ?s\<lparr>mo_world := w'\<rparr>))"
      by (simp add: moesif_record_def assms(1) pct [symmetric] io_bind_ok [of "io_log _", OF send] refresh)
    with w'(2) show ?thesis by (simp add: moesif_WriteData_def io_bind_def)
  qed
  have "{r. 0 \<le> r \<and> r < 100 \<and> r \<le> pct} = {0..<min 100 (pct + 1)}" by auto
  then have "0 \<le> pct \<longrightarrow> card {r. 0 \<le> r \<and> r < 100 \<and> r \<le> pct} = (if pct < 99 then nat (pct + 1) else 100)"
    by (simp add: min_def)
  with run show ?thesis by blast
qed

definition sample_moesif_conf :: moesif_conf where
  "sample_moesif_conf = \<lparr>mf_EnvPrefix = [], mf_ApplicationID = ''app'', mf_RequestHeaderMasks = [], mf_ResponseHeaderMasks = [],
     mf_RequestBodyMasks = [], mf_ResponseBodyMasks = [], mf_DisableCaptureRequestBody = False,
     mf_DisableCaptureResponseBody = False, mf_UserIDHeader = [], mf_CompanyIDHeader = [], mf_EnableBulk = False,
     mf_BulkConfig = [], mf_AuthorizationHeaderName = [], mf_AuthorizationUserIdField = []\<rparr>"

definition sample_moesif :: "moesif_event list moesif" where
  "sample_moesif = \<lparr>mo_samplingPercentage = 100, mo_eTag = [], mo_lastUpdatedTime = time_zero,
     mo_appConfig = [(''sample_rate'', JvNum (Fin 0))], mo_userSampleRateMap = [], mo_companySampleRateMap = [], mo_world = []\<rparr>"

definition sample_moesif_lib :: "moesif_event list moesif_lib" where
  "sample_moesif_lib = \<lparr>ml_QueueEvent = \<lambda>e. io_upd (\<lambda>w. w @ [e]), ml_GetETag = \<lambda>w. [],
     ml_GetAppConfig = io_fail (GoErr ''none''), ml_Flush = io_ret ()\<rparr>"

definition sample_codec :: json_codec where
  "sample_codec = \<lparr>jc_parse = \<lambda>s. None, jc_print = \<lambda>m. []\<rparr>"

text \<open>With a sampling rate of 0 the percentage 0 lets the event through.\<close>

theorem moesif_sampling_witness:
  "\<exists>t e. moesif_WriteData sample_codec sample_moesif_lib sample_moesif_conf [(ItemRecord record_zero, 0, time_zero)] sample_moesif =
     (Inr (), t) \<and> mo_world t = [e] \<and> card {r. 0 \<le> r \<and> r < 100 \<and> r \<le> (0::int)} = 1"
proof -
  have "\<exists>e. moesif_event_of sample_codec sample_moesif_conf (item_record (ItemRecord record_zero)) = Inr e \<and>
      me_UserId e = [] \<and> me_CompanyId e = []"
    by (simp add: item_record_def moesif_event_of_def record_zero_def fatal_b64_def b64_decode_def decodeRawData_def crlf_def
        decodeHeaders_def scan_lines_def toLowerCase_def maskData_def moesif_userID_def sample_moesif_conf_def sample_codec_def Let_def)
  then obtain e where e: "moesif_event_of sample_codec sample_moesif_conf (item_record (ItemRecord record_zero)) = Inr e"
    "me_UserId e = []" "me_CompanyId e = []" by blast
  have queue: "\<exists>w'. ml_QueueEvent sample_moesif_lib e w = (Inr (), w') \<and> w' = w @ [e]" for e w
    by (simp add: sample_moesif_lib_def)
  have tag: "ml_GetETag sample_moesif_lib w = []" for w by (simp add: sample_moesif_lib_def)
  have pct: "0 = getSamplingPercentage sample_moesif (me_UserId e) (me_CompanyId e)"
    using e by (simp add: getSamplingPercentage_def sample_moesif_def get_num_def as_num_def f_to_int_def)
  from moesif_sampling [where queued = "\<lambda>w. w" and r = 0, OF e(1) queue tag pct, of time_zero]
  show ?thesis by (fastforce simp: sample_moesif_def)
qed

section \<open>Requests that stop the pump\<close>

text \<open>
  A token whose user field is not a string makes the pump panic, and a request that is no base64
  makes it exit.
\<close>

lemma parseAuthorizationHeader_panic:
  assumes "token \<noteq> []" "b64_url_decode token = Some d" "unmarshal_map parse d [] = Some m" "gomap_get m field = Some v" "as_str v = None"
  shows "parseAuthorizationHeader parse token field = Inl (GoPanic ''interface conversion'')"
  using assms by (cases v) (auto simp: parseAuthorizationHeader_def as_str_def)

lemma moesif_fatal:
  "b64_decode (r_RawRequest r) = None \<Longrightarrow> moesif_event_of codec conf r = Inl (GoPanic ''exit: illegal base64 data'')"
  by (simp add: moesif_event_of_def fatal_b64_def)

end
