(* ===== verification/Text_Sinks.thy ===== *)
theory Text_Sinks
  imports Event_Values
begin

text \<open>
  The two pumps that write text: \<open>src/pumps/csv.go\<close>, a file of records for each hour, and
  \<open>src/pumps/stdout.go\<close>, records as log lines. Of the operating system only the names and the
  contents of files are modelled. The lemmas: what a file holds after the writes of an hour, which
  failures are not reported, and that a payload is one line.
\<close>

section \<open>The CSV format\<close>

text \<open>\<open>csv.Writer\<close>: a field is quoted if it holds a separator, or starts with white space.\<close>

definition csv_needs_quotes :: "string \<Rightarrow> bool" where
  "csv_needs_quotes f \<longleftrightarrow> f \<noteq> [] \<and>
     (f = [CHR 0x5C, CHR ''.''] \<or> set f \<inter> {CHR '','', CHR 0x22, CHR 0x0D, CHR 0x0A} \<noteq> {} \<or>
      (\<exists>w \<in> set space_runes. has_prefix f w))"

definition csv_field :: "string \<Rightarrow> string" where
  "csv_field f = (if csv_needs_quotes f then CHR 0x22 # replace_char CHR 0x22 [CHR 0x22, CHR 0x22] f @ [CHR 0x22] else f)"

definition csv_row :: "string list \<Rightarrow> string" where
  "csv_row fs = str_join '','' (map csv_field fs) @ [CHR 0x0A]"

section \<open>The CSV pump\<close>

record csv_conf =
  cv_EnvPrefix :: string
  cv_CSVDir :: string

text \<open>\<open>mkdirAll\<close> is the operating system's; its error is only logged.\<close>

definition csv_Init :: "(string \<Rightarrow> ('s, unit) io) \<Rightarrow> csv_conf \<Rightarrow> ('s, unit) io" where
  "csv_Init mkdirAll conf = io_log (mkdirAll (cv_CSVDir conf))"

definition csv_file_name :: "gotime \<Rightarrow> string" where
  "csv_file_name t = dec_int (time_year t) @ ''-'' @ month_name (time_month t) @ ''-'' @ dec_int (time_day t) @ ''-'' @
     dec_int (time_hour t) @ ''.csv''"

text \<open>
  The rows go to a buffer of 4096 bytes. \<open>opened\<close> tells whether there is a file behind it: without one
  the first write that does not fit fails. The result comes with the bytes that were accepted.
\<close>

definition csv_put :: "bool \<Rightarrow> string \<Rightarrow> string list \<Rightarrow> string res" where
  "csv_put opened buf fs =
     (if opened \<or> length (buf @ csv_row fs) \<le> 4096 then Inr (buf @ csv_row fs) else Inl (GoErr ''invalid argument''))"

fun csv_loop :: "bool \<Rightarrow> string \<Rightarrow> item list \<Rightarrow> unit res \<times> string" where
  "csv_loop opened buf [] = (Inr (), buf)"
| "csv_loop opened buf (v # vs) =
     (case v of
        ItemNil \<Rightarrow> (Inl (GoErr ''couldn't convert to analytics.AnalyticsRecord''), buf)
      | ItemRecord decoded \<Rightarrow>
          (case csv_put opened buf (GetLineValues decoded) of
             Inl e \<Rightarrow> (Inl e, buf)
           | Inr buf \<Rightarrow> csv_loop opened buf vs))"

text \<open>
  \<open>join\<close> is \<open>path.Join\<close>, \<open>can_open\<close> tells whether the file can be created or opened, and \<open>spilled\<close>
  how many bytes have left the buffer when the write ends early; \<open>Flush\<close> writes all of them.
\<close>

type_synonym file_system = "(string, string) gomap"

definition csv_WriteData ::
  "(string \<Rightarrow> string \<Rightarrow> string) \<Rightarrow> (string \<Rightarrow> bool) \<Rightarrow> nat \<Rightarrow> gotime \<Rightarrow> csv_conf \<Rightarrow> item list \<Rightarrow> (file_system, unit) io" where
  "csv_WriteData join can_open spilled curtime conf data fs =
     (let fname = join (cv_CSVDir conf) (csv_file_name curtime);
          opened = can_open fname;
          appendHeader = gomap_get fs fname = None;
          old = (case gomap_get fs fname of None \<Rightarrow> [] | Some s \<Rightarrow> s);
          (r, bytes) = (case (if appendHeader then csv_put opened [] GetFieldNames else Inr []) of
                          Inl e \<Rightarrow> (Inl e, [])
                        | Inr buf \<Rightarrow> csv_loop opened buf data)
      in (r, if opened then gomap_set fs fname (old @ (if r = Inr () then bytes else take spilled bytes)) else fs))"

lemma csv_loop_rows:
  "csv_loop True buf (map ItemRecord rs) = (Inr (), buf @ concat (map (csv_row \<circ> GetLineValues) rs))"
  by (induction rs arbitrary: buf) (simp_all add: csv_put_def)

text \<open>The writes of an hour leave one header and the rows of all records, in order.\<close>

lemma csv_WriteData_new:
  assumes "can_open (join (cv_CSVDir conf) (csv_file_name now))" and "gomap_get fs (join (cv_CSVDir conf) (csv_file_name now)) = None"
  shows "\<exists>fs'. csv_WriteData join can_open k now conf (map ItemRecord rs) fs = (Inr (), fs') \<and>
    gomap_get fs' (join (cv_CSVDir conf) (csv_file_name now)) = Some (csv_row GetFieldNames @ concat (map (csv_row \<circ> GetLineValues) rs))"
  using assms by (simp add: csv_WriteData_def csv_put_def csv_loop_rows gomap_get_set)

theorem csv_WriteData_appends:
  assumes "can_open fname" and "fname = join (cv_CSVDir conf) (csv_file_name now)" and "gomap_get fs fname = Some old"
  shows "\<exists>fs'. csv_WriteData join can_open k now conf (map ItemRecord rs) fs = (Inr (), fs') \<and>
    gomap_get fs' fname = Some (old @ concat (map (csv_row \<circ> GetLineValues) rs)) \<and>
    (\<forall>g. g \<noteq> fname \<longrightarrow> gomap_get fs' g = gomap_get fs g)"
  using assms by (simp add: csv_WriteData_def csv_loop_rows gomap_get_set)

text \<open>A file that cannot be opened is not reported while the rows fit the buffer: the records are lost.\<close>

lemma csv_WriteData_unopened:
  assumes "\<not> can_open (join (cv_CSVDir conf) (csv_file_name now))"
    and "gomap_get fs (join (cv_CSVDir conf) (csv_file_name now)) = Some old" and "length (csv_row (GetLineValues r)) \<le> 4096"
  shows "csv_WriteData join can_open k now conf [ItemRecord r] fs = (Inr (), fs)"
  using assms by (simp add: csv_WriteData_def csv_put_def)

text \<open>A quote inside a field is doubled, so a quoted field ends at its own closing quote.\<close>

lemma csv_field_quoted: "csv_needs_quotes f \<Longrightarrow> \<exists>t. csv_field f = CHR 0x22 # t @ [CHR 0x22]"
  by (simp add: csv_field_def)

section \<open>Payloads on one line\<close>

definition removeWhitespaces :: "string \<Rightarrow> string" where
  "removeWhitespaces s = concat (map (\<lambda>c. if c = CHR 0x0A then '' '' else if c = CHR 0x0D \<or> c = CHR 0x09 then [] else [c]) s)"

text \<open>\<open>compactJSON\<close> is \<open>json.Valid\<close> and \<open>json.Compact\<close>: None for what is no JSON.\<close>

definition transformHTTPPayload :: "(string \<Rightarrow> string option) \<Rightarrow> string \<Rightarrow> string" where
  "transformHTTPPayload compactJSON raw =
     (if raw = [] then raw
      else (case split_once [CHR 0x0D, CHR 0x0A, CHR 0x0D, CHR 0x0A] raw of
          Some (headers, body) \<Rightarrow>
            (case compactJSON body of Some c \<Rightarrow> removeWhitespaces headers @ '' '' @ c | None \<Rightarrow> removeWhitespaces raw)
        | None \<Rightarrow> removeWhitespaces raw))"

definition one_line :: "string \<Rightarrow> bool" where
  "one_line s \<longleftrightarrow> set s \<inter> {CHR 0x0A, CHR 0x0D, CHR 0x09} = {}"

lemma removeWhitespaces_line: "one_line (removeWhitespaces s)"
  by (induction s) (auto simp: removeWhitespaces_def one_line_def)

text \<open>A payload is one line: no line break is left in it.\<close>

theorem transformHTTPPayload_line:
  assumes "\<And>b c. compactJSON b = Some c \<Longrightarrow> one_line c"
  shows "one_line (transformHTTPPayload compactJSON raw)"
proof -
  have app: "one_line (a @ b) \<longleftrightarrow> one_line a \<and> one_line b" for a b by (auto simp: one_line_def)
  have nil: "one_line []" and sp: "one_line '' ''" by (auto simp: one_line_def)
  show ?thesis
    using assms removeWhitespaces_line nil
    by (auto simp: transformHTTPPayload_def app sp simp del: append_Cons append_Nil split: option.split)
qed

lemma removeWhitespaces_keeps: "one_line s \<Longrightarrow> removeWhitespaces s = s"
  by (induction s) (auto simp: removeWhitespaces_def one_line_def)

section \<open>The stdout pump\<close>

record stdout_conf =
  so_EnvPrefix :: string
  so_Format :: string
  so_LogFieldName :: string
  so_UseLegacyPayloadFormat :: bool

definition stdout_Init :: "stdout_conf \<Rightarrow> stdout_conf" where
  "stdout_Init conf = (if so_LogFieldName conf = [] then conf\<lparr>so_LogFieldName := ''tyk-analytics-record''\<rparr> else conf)"

text \<open>What is written for a record: a JSON entry at its own time, or a line of the logger.\<close>

datatype stdout_line = JSONEntry gotime string analytics_record | LogEntry string analytics_record

definition stdout_entry :: "(string \<Rightarrow> string option) \<Rightarrow> stdout_conf \<Rightarrow> gotime \<Rightarrow> analytics_record \<Rightarrow> stdout_line" where
  "stdout_entry compactJSON conf now decoded =
     (if so_Format conf = ''json''
      then JSONEntry now (so_LogFieldName conf)
        (if \<not> so_UseLegacyPayloadFormat conf
         then decoded\<lparr>r_RawRequest := transformHTTPPayload compactJSON (r_RawRequest decoded),
                r_RawResponse := transformHTTPPayload compactJSON (r_RawResponse decoded)\<rparr>
         else decoded)
      else LogEntry (so_LogFieldName conf) decoded)"

text \<open>\<open>ended i\<close>: the context has ended at the i-th item; the write then returns at once.\<close>

fun stdout_loop ::
  "(string \<Rightarrow> string option) \<Rightarrow> stdout_conf \<Rightarrow> (nat \<Rightarrow> bool) \<Rightarrow> (nat \<Rightarrow> gotime) \<Rightarrow> nat \<Rightarrow> item list \<Rightarrow> (stdout_line list, unit) io" where
  "stdout_loop compactJSON conf ended now i [] = io_ret ()"
| "stdout_loop compactJSON conf ended now i (v # vs) =
     (if ended i then io_ret ()
      else io_bind (io_res (assert_record v)) (\<lambda>decoded.
           io_bind (io_upd (\<lambda>out. out @ [stdout_entry compactJSON conf (now i) decoded])) (\<lambda>_.
           stdout_loop compactJSON conf ended now (Suc i) vs)))"

definition stdout_WriteData where
  "stdout_WriteData compactJSON conf ended now data = stdout_loop compactJSON conf ended now 0 data"

lemma stdout_loop_prefix:
  "\<exists>n t. stdout_loop compactJSON conf ended now i (map ItemRecord rs) out = (Inr (), t) \<and> n \<le> length rs \<and>
     t = out @ map (\<lambda>j. stdout_entry compactJSON conf (now (i + j)) (rs ! j)) [0..<n] \<and>
     (\<forall>j < n. \<not> ended (i + j)) \<and> (n < length rs \<longrightarrow> ended (i + n))"
proof (induction rs arbitrary: i out)
  case (Cons r rs)
  show ?case
  proof (cases "ended i")
    case True
    then show ?thesis by (intro exI [of _ 0]) auto
  next
    case False
    let ?e = "stdout_entry compactJSON conf (now i) r"
    from Cons.IH [of "Suc i" "out @ [?e]"] obtain n t where
      n: "stdout_loop compactJSON conf ended now (Suc i) (map ItemRecord rs) (out @ [?e]) = (Inr (), t)" "n \<le> length rs"
        "t = (out @ [?e]) @ map (\<lambda>j. stdout_entry compactJSON conf (now (Suc i + j)) (rs ! j)) [0..<n]"
        "\<forall>j < n. \<not> ended (Suc i + j)" "n < length rs \<longrightarrow> ended (Suc i + n)" by blast
    have "map (\<lambda>j. stdout_entry compactJSON conf (now (i + j)) ((r # rs) ! j)) [0..<Suc n] =
        ?e # map (\<lambda>j. stdout_entry compactJSON conf (now (Suc i + j)) (rs ! j)) [0..<n]"
      by (simp add: upt_conv_Cons map_Suc_upt [symmetric] del: upt_Suc)
    moreover have "\<forall>j < Suc n. \<not> ended (i + j)" using n(4) False by (auto simp: less_Suc_eq_0_disj)
    ultimately show ?thesis using n False by (intro exI [of _ "Suc n"]) (auto simp: assert_record_def)
  qed
qed (auto intro: exI [of _ 0])

end
