(* ===== verification/Statsd_Pumps.thy ===== *)
theory Statsd_Pumps
  imports Event_Values GoFloat
begin

text \<open>
  The two StatsD pumps, \<open>src/pumps/statsd.go\<close> and \<open>src/pumps/dogstatsd.go\<close>: the fields of a record
  a metric is made of, its tags, and the write. The clients, the rendering of a value as JSON and the
  lowering of letters are parameters. The lemmas: which metrics a write sends, and what an unknown
  tag does.
\<close>

section \<open>StatsD\<close>

record statsd_conf =
  sd_EnvPrefix :: string
  sd_Address :: string
  sd_Fields :: "string list"
  sd_Tags :: "string list"
  sd_SeparatedMethod :: bool

text \<open>\<open>connect\<close> tries again, five seconds later, until a socket is there.\<close>

partial_function (option) statsd_connect :: "('s, 'c) io \<Rightarrow> 's \<Rightarrow> ('c res \<times> 's) option" where
  "statsd_connect createSocket s =
     (case createSocket s of (r, s') \<Rightarrow>
        (case r of Inl e \<Rightarrow> (case e of GoErr m \<Rightarrow> statsd_connect createSocket s' | GoPanic p \<Rightarrow> Some (Inl (GoPanic p), s'))
         | Inr c \<Rightarrow> Some (Inr c, s')))"

definition statsd_Init :: "('s, 'c) io \<Rightarrow> 's \<Rightarrow> (unit res \<times> 's) option" where
  "statsd_Init createSocket s =
     map_option (\<lambda>(r, s'). (case r of Inl e \<Rightarrow> (Inl e, s') | Inr c \<Rightarrow> (Inr (), s'))) (statsd_connect createSocket s)"

definition isTimingField :: "string \<Rightarrow> bool" where
  "isTimingField field = (field \<in> set [''request_time'', ''latency_total'', ''latency_upstream'', ''latency_gateway''])"

text \<open>\<open>time.Unix\<close> gives a time in the local zone.\<close>

definition statsd_getMappings :: "string \<times> int \<Rightarrow> bool \<Rightarrow> analytics_record \<Rightarrow> event" where
  "statsd_getMappings lcl separatedMethod decoded =
     (let unixTime = time_in ((r_TimeStamp decoded)\<lparr>t_nsec := 0\<rparr>) (fst lcl) (snd lcl);
          sanitizedTime = replace_char CHR '':'' ''-'' (time_string unixTime);
          path = trim_right_char CHR ''/'' (r_Path decoded)
      in event_of ([(''path'', JStr (r_Method decoded @ path)), (''response_code'', JInt (r_ResponseCode decoded)),
           (''api_key'', JStr (r_APIKey decoded)), (''time_stamp'', JStr sanitizedTime), (''api_version'', JStr (r_APIVersion decoded)),
           (''api_name'', JStr (r_APIName decoded)), (''api_id'', JStr (r_APIID decoded)), (''org_id'', JStr (r_OrgID decoded)),
           (''oauth_id'', JStr (r_OauthID decoded)), (''raw_request'', JStr (r_RawRequest decoded)),
           (''request_time'', JInt (r_RequestTime decoded)), (''latency_total'', JInt (la_Total (r_Latency decoded))),
           (''latency_upstream'', JInt (la_Upstream (r_Latency decoded))), (''latency_gateway'', JInt (la_Gateway (r_Latency decoded))),
           (''raw_response'', JStr (r_RawResponse decoded)), (''ip_address'', JStr (r_IPAddress decoded))] @
           (if separatedMethod then [(''path'', JStr path), (''method'', JStr (r_Method decoded))] else [])))"

text \<open>The tags of a metric, joined and without quotes and blanks; a tag that is no field is \<open>null\<close>.\<close>

definition statsd_metricTags :: "(jval \<Rightarrow> string) \<Rightarrow> (string \<Rightarrow> string) \<Rightarrow> string list \<Rightarrow> event \<Rightarrow> string" where
  "statsd_metricTags marshal lower tags mapping =
     filter (\<lambda>c. c \<noteq> CHR 0x22 \<and> c \<noteq> CHR '' '')
       (str_join ''.'' (map (\<lambda>t. lower (marshal (case gomap_get mapping t of None \<Rightarrow> JNil | Some v \<Rightarrow> v))) tags))"

definition sendTimingMetric :: "(string \<Rightarrow> i64 \<Rightarrow> ('s, unit) io) \<Rightarrow> string \<Rightarrow> string \<Rightarrow> i64 \<Rightarrow> ('s, unit) io" where
  "sendTimingMetric timing field metricTags v = io_log (timing (field @ ''.'' @ metricTags) v)"

definition statsd_record ::
  "(string \<Rightarrow> i64 \<Rightarrow> ('s, unit) io) \<Rightarrow> (jval \<Rightarrow> string) \<Rightarrow> (string \<Rightarrow> string) \<Rightarrow> string \<times> int \<Rightarrow> statsd_conf \<Rightarrow> item \<Rightarrow>
     ('s, unit) io" where
  "statsd_record timing marshal lower lcl conf v =
     io_bind (io_res (assert_record v)) (\<lambda>decoded.
       let mapping = statsd_getMappings lcl (sd_SeparatedMethod conf) decoded;
           metricTags = statsd_metricTags marshal lower (sd_Tags conf) mapping
       in io_for (sd_Fields conf) (\<lambda>f.
            if isTimingField f
            then (case gomap_get mapping f of Some (JInt iv) \<Rightarrow> sendTimingMetric timing f metricTags iv | _ \<Rightarrow> io_ret ())
            else io_ret ()))"

text \<open>The client is closed whatever happens; an error of closing is only logged.\<close>

definition statsd_WriteData ::
  "('s, 'c) io \<Rightarrow> ('c \<Rightarrow> string \<Rightarrow> i64 \<Rightarrow> ('s, unit) io) \<Rightarrow> ('c \<Rightarrow> 's \<Rightarrow> 's) \<Rightarrow> (jval \<Rightarrow> string) \<Rightarrow> (string \<Rightarrow> string) \<Rightarrow> string \<times> int \<Rightarrow>
     statsd_conf \<Rightarrow> item list \<Rightarrow> 's \<Rightarrow> (unit res \<times> 's) option" where
  "statsd_WriteData createSocket timing close marshal lower lcl conf data s =
     (if data = [] then Some (Inr (), s)
      else (case statsd_connect createSocket s of
          None \<Rightarrow> None
        | Some (Inl e, s') \<Rightarrow> Some (Inl e, s')
        | Some (Inr c, s') \<Rightarrow>
            (case io_for data (statsd_record (timing c) marshal lower lcl conf) s' of (r, t) \<Rightarrow> Some (r, close c t))))"

text \<open>The value of a timing field.\<close>

definition timing_value :: "analytics_record \<Rightarrow> string \<Rightarrow> i64" where
  "timing_value r f = (if f = ''request_time'' then r_RequestTime r else if f = ''latency_total'' then la_Total (r_Latency r)
     else if f = ''latency_upstream'' then la_Upstream (r_Latency r) else la_Gateway (r_Latency r))"

lemma timing_field: "isTimingField f \<Longrightarrow> gomap_get (statsd_getMappings lcl sep r) f = Some (JInt (timing_value r f))"
  by (auto simp: isTimingField_def statsd_getMappings_def event_of_def timing_value_def Let_def update_conv')

lemma io_for_log:
  assumes "\<And>x s. x \<in> set xs \<Longrightarrow> \<exists>t. f x s = (Inr (), t) \<and> view t = view s @ g x"
  shows "\<exists>t. io_for xs f s = (Inr (), t) \<and> view t = view s @ concat (map g xs)"
  using assms
proof (induction xs arbitrary: s)
  case (Cons x xs)
  obtain t where t: "f x s = (Inr (), t)" "view t = view s @ g x" using Cons.prems [of x s] by auto
  from Cons.IH [of t] Cons.prems obtain u where "io_for xs f t = (Inr (), u)" "view u = view t @ concat (map g xs)"
    by (metis list.set_intros(2))
  with t show ?case by (simp add: io_bind_def)
qed simp

text \<open>
  Every configured timing field of every record is sent, in order, under its name and the tags; other
  fields are ignored.
\<close>

theorem statsd_WriteData_metrics:
  assumes "statsd_connect createSocket s = Some (Inr c, s')" and "data = map ItemRecord rs" and "rs \<noteq> []"
    and timing: "\<And>m v s. \<exists>t. timing c m v s = (Inr (), t) \<and> view t = view s @ [(m, v)]"
    and "\<And>t. view (close c t) = view t"
  shows "\<exists>t. statsd_WriteData createSocket timing close marshal lower lcl conf data s = Some (Inr (), t) \<and>
    view t = view s' @ concat (map (\<lambda>r. map (\<lambda>f. (f @ ''.'' @ statsd_metricTags marshal lower (sd_Tags conf)
      (statsd_getMappings lcl (sd_SeparatedMethod conf) r), timing_value r f)) (filter isTimingField (sd_Fields conf))) rs)"
proof -
  let ?m = "statsd_getMappings lcl (sd_SeparatedMethod conf)"
  let ?tags = "\<lambda>r. statsd_metricTags marshal lower (sd_Tags conf) (?m r)"
  have send: "\<exists>t. sendTimingMetric (timing c) f tags v s = (Inr (), t) \<and> view t = view s @ [(f @ ''.'' @ tags, v)]" for f tags v s
  proof -
    from timing obtain t where t: "timing c (f @ ''.'' @ tags) v s = (Inr (), t)" "view t = view s @ [(f @ ''.'' @ tags, v)]" by blast
    from io_log_run(1) [of "timing c (f @ ''.'' @ tags) v", OF t(1)] t(2) show ?thesis by (simp add: sendTimingMetric_def)
  qed
  have one: "\<exists>t. statsd_record (timing c) marshal lower lcl conf (ItemRecord r) s = (Inr (), t) \<and>
      view t = view s @ concat (map (\<lambda>f. if isTimingField f then [(f @ ''.'' @ ?tags r, timing_value r f)] else []) (sd_Fields conf))" for r s
    unfolding statsd_record_def assert_record_def Let_def
    by (simp, rule io_for_log) (auto simp: timing_field intro: send [simplified])
  have "concat (map (\<lambda>f. if isTimingField f then [g f] else []) fs) = map g (filter isTimingField fs)" for g :: "string \<Rightarrow> string \<times> i64" and fs
    by (induction fs) auto
  with one have one': "\<exists>t. statsd_record (timing c) marshal lower lcl conf (ItemRecord r) s = (Inr (), t) \<and>
      view t = view s @ map (\<lambda>f. (f @ ''.'' @ ?tags r, timing_value r f)) (filter isTimingField (sd_Fields conf))" for r s by simp
  have "\<exists>t. io_for (map ItemRecord rs) (statsd_record (timing c) marshal lower lcl conf) s' = (Inr (), t) \<and>
      view t = view s' @ concat (map (\<lambda>v. case v of ItemRecord r \<Rightarrow>
        map (\<lambda>f. (f @ ''.'' @ ?tags r, timing_value r f)) (filter isTimingField (sd_Fields conf)) | ItemNil \<Rightarrow> []) (map ItemRecord rs))"
    by (rule io_for_log) (auto intro: one' [simplified])
  then obtain t where "io_for (map ItemRecord rs) (statsd_record (timing c) marshal lower lcl conf) s' = (Inr (), t)"
    "view t = view s' @ concat (map (\<lambda>r. map (\<lambda>f. (f @ ''.'' @ ?tags r, timing_value r f)) (filter isTimingField (sd_Fields conf))) rs)"
    by (auto simp: comp_def)
  with assms(1-3,5) show ?thesis by (simp add: statsd_WriteData_def)
qed

section \<open>DogStatsD\<close>

record dogstatsd_conf =
  dd_EnvPrefix :: string
  dd_Namespace :: string
  dd_Address :: string
  dd_SampleRate :: f64
  dd_AsyncUDS :: bool
  dd_AsyncUDSWriteTimeout :: i64
  dd_Buffered :: bool
  dd_BufferedMaxMessages :: int
  dd_Tags :: "string list"

text \<open>The options of the client and what is set on it: the messages per payload, the write timeout, the name space and the tags.\<close>

record dogstatsd_client =
  dc_Address :: string
  dc_MaxMessagesPerPayload :: int
  dc_WriteTimeoutUDS :: "i64 option"
  dc_Namespace :: string
  dc_Tags :: "string list"

definition dogstatsd_defaults :: "dogstatsd_conf \<Rightarrow> dogstatsd_conf" where
  "dogstatsd_defaults conf =
     (let conf = (if dd_Namespace conf = [] then conf\<lparr>dd_Namespace := ''default''\<rparr> else conf);
          conf = conf\<lparr>dd_Namespace := dd_Namespace conf @ ''.''\<rparr>;
          conf = (if dd_SampleRate conf = f_zero then conf\<lparr>dd_SampleRate := Fin 1\<rparr> else conf);
          conf = (if dd_Buffered conf \<and> dd_BufferedMaxMessages conf = 0 then conf\<lparr>dd_BufferedMaxMessages := 16\<rparr> else conf)
      in if dd_AsyncUDSWriteTimeout conf = 0 then conf\<lparr>dd_AsyncUDSWriteTimeout := 1\<rparr> else conf)"

definition dogstatsd_client_of :: "dogstatsd_conf \<Rightarrow> dogstatsd_client" where
  "dogstatsd_client_of conf =
     \<lparr>dc_Address = dd_Address conf, dc_MaxMessagesPerPayload = (if dd_Buffered conf then dd_BufferedMaxMessages conf else 1),
      dc_WriteTimeoutUDS = (if dd_AsyncUDS conf then Some (dd_AsyncUDSWriteTimeout conf * dur_second) else None),
      dc_Namespace = dd_Namespace conf, dc_Tags = [''tyk-pump'']\<rparr>"

definition dogstatsd_Init :: "(dogstatsd_client \<Rightarrow> ('s, unit) io) \<Rightarrow> dogstatsd_conf \<Rightarrow> ('s, dogstatsd_conf) io" where
  "dogstatsd_Init newClient conf =
     (let conf = dogstatsd_defaults conf
      in io_bind (io_try (newClient (dogstatsd_client_of conf))) (\<lambda>r. case r of
           Inl e \<Rightarrow> io_fail (GoErr (''unable to connect to dogstatsd client: unable to create new dogstatsd client: '' @ e))
         | Inr u \<Rightarrow> io_ret conf))"

definition dog_default_tags :: "analytics_record \<Rightarrow> string list" where
  "dog_default_tags decoded =
     [''path:'' @ r_Path decoded, ''method:'' @ r_Method decoded, ''response_code:'' @ itoa (r_ResponseCode decoded),
      ''api_version:'' @ r_APIVersion decoded, ''api_name:'' @ r_APIName decoded, ''api_id:'' @ r_APIID decoded,
      ''org_id:'' @ r_OrgID decoded, ''tracked:'' @ fmt_bool (r_TrackPath decoded)] @
     (if r_OauthID decoded \<noteq> [] then [''oauth_id:'' @ r_OauthID decoded] else [])"

text \<open>One configured tag: an error, nothing for a request without OAuth, or its value.\<close>

definition dog_tag :: "analytics_record \<Rightarrow> string \<Rightarrow> string list res" where
  "dog_tag decoded tag =
     (if tag = ''method'' then Inr [''method:'' @ r_Method decoded]
      else if tag = ''response_code'' then Inr [''response_code:'' @ itoa (r_ResponseCode decoded)]
      else if tag = ''api_version'' then Inr [''api_version:'' @ r_APIVersion decoded]
      else if tag = ''api_name'' then Inr [''api_name:'' @ r_APIName decoded]
      else if tag = ''api_id'' then Inr [''api_id:'' @ r_APIID decoded]
      else if tag = ''org_id'' then Inr [''org_id:'' @ r_OrgID decoded]
      else if tag = ''tracked'' then Inr [''tracked:'' @ fmt_bool (r_TrackPath decoded)]
      else if tag = ''path'' then Inr [''path:'' @ trim_right_char CHR ''/'' (r_Path decoded)]
      else if tag = ''oauth_id'' then Inr (if r_OauthID decoded = [] then [] else [''oauth_id:'' @ r_OauthID decoded])
      else Inl (GoErr (''undefined tag '' @ [CHR 0x27] @ tag @ [CHR 0x27])))"

fun dog_conf_tags :: "analytics_record \<Rightarrow> string list \<Rightarrow> string list res" where
  "dog_conf_tags decoded [] = Inr []"
| "dog_conf_tags decoded (tag # tags) =
     rbind (dog_tag decoded tag) (\<lambda>v. rbind (dog_conf_tags decoded tags) (\<lambda>vs. Inr (v @ vs)))"

definition dog_tags :: "dogstatsd_conf \<Rightarrow> analytics_record \<Rightarrow> string list res" where
  "dog_tags conf decoded =
     (if dd_Tags conf = [] then Inr (dog_default_tags decoded) else dog_conf_tags decoded (dd_Tags conf))"

definition dogstatsd_WriteData ::
  "(string \<Rightarrow> f64 \<Rightarrow> string list \<Rightarrow> f64 \<Rightarrow> ('s, unit) io) \<Rightarrow> dogstatsd_conf \<Rightarrow> item list \<Rightarrow> ('s, unit) io" where
  "dogstatsd_WriteData histogram conf data =
     io_for data (\<lambda>v.
       io_bind (io_res (assert_record v)) (\<lambda>decoded.
       io_bind (io_res (dog_tags conf decoded)) (\<lambda>tags.
       io_log (histogram ''request_time'' (f_of_int (r_RequestTime decoded)) tags (dd_SampleRate conf)))))"

definition dogstatsd_Shutdown :: "('s, unit) io \<Rightarrow> dogstatsd_conf \<Rightarrow> ('s, unit) io" where
  "dogstatsd_Shutdown flush conf = (if dd_Buffered conf then flush else io_ret ())"

definition dog_known :: "string list" where
  "dog_known = [''method'', ''response_code'', ''api_version'', ''api_name'', ''api_id'', ''org_id'', ''tracked'', ''path'', ''oauth_id'']"

lemma dog_tag_known: "is_ok (dog_tag r tag) \<longleftrightarrow> tag \<in> set dog_known"
  by (auto simp: dog_tag_def dog_known_def is_ok_def)

lemma dog_conf_tags_known: "is_ok (dog_conf_tags r tags) \<longleftrightarrow> set tags \<subseteq> set dog_known"
proof (induction tags)
  case (Cons tag tags)
  show ?case using dog_tag_known [of r tag] Cons
    by (cases "dog_tag r tag"; cases "dog_conf_tags r tags") (auto simp: is_ok_def)
qed (simp add: is_ok_def)

text \<open>
  With an unknown tag nothing of a batch is sent, and the write reports it; otherwise every record is
  one value of the histogram, in order.
\<close>

theorem dogstatsd_WriteData_all_or_none:
  assumes "\<And>n x tags rate s. \<exists>t. histogram n x tags rate s = (Inr (), t) \<and> view t = view s @ [(x, tags)]" and "rs \<noteq> []"
  shows "if set (dd_Tags conf) \<subseteq> set dog_known
    then \<exists>t. dogstatsd_WriteData histogram conf (map ItemRecord rs) s = (Inr (), t) \<and>
      view t = view s @ map (\<lambda>r. (f_of_int (r_RequestTime r), projr (dog_tags conf r))) rs
    else \<exists>e. dogstatsd_WriteData histogram conf (map ItemRecord rs) s = (Inl e, s)"
proof (cases "set (dd_Tags conf) \<subseteq> set dog_known")
  case True
  then have ok: "\<exists>ts. dog_tags conf r = Inr ts" for r
    using dog_conf_tags_known [of r "dd_Tags conf"] by (auto simp: dog_tags_def is_ok_def split: sum.splits)
  have "\<exists>t. dogstatsd_WriteData histogram conf (map ItemRecord rs) s = (Inr (), t) \<and>
      view t = view s @ concat (map (\<lambda>v. case v of ItemRecord r \<Rightarrow> [(f_of_int (r_RequestTime r), projr (dog_tags conf r))] | ItemNil \<Rightarrow> [])
        (map ItemRecord rs))"
    unfolding dogstatsd_WriteData_def
  proof (rule io_for_log)
    fix v s
    assume "v \<in> set (map ItemRecord rs)"
    then obtain r where v: "v = ItemRecord r" by auto
    from ok obtain ts where ts: "dog_tags conf r = Inr ts" by blast
    from assms(1) obtain t where t: "histogram ''request_time'' (f_of_int (r_RequestTime r)) ts (dd_SampleRate conf) s = (Inr (), t)"
      "view t = view s @ [(f_of_int (r_RequestTime r), ts)]" by blast
    from io_log_run(1) [of "histogram ''request_time'' (f_of_int (r_RequestTime r)) ts (dd_SampleRate conf)", OF t(1)] t(2) ts v
    show "\<exists>t. io_bind (io_res (assert_record v)) (\<lambda>decoded. io_bind (io_res (dog_tags conf decoded)) (\<lambda>tags.
        io_log (histogram ''request_time'' (f_of_int (r_RequestTime decoded)) tags (dd_SampleRate conf)))) s = (Inr (), t) \<and>
      view t = view s @ (case v of ItemRecord r \<Rightarrow> [(f_of_int (r_RequestTime r), projr (dog_tags conf r))] | ItemNil \<Rightarrow> [])"
      by (simp add: assert_record_def)
  qed
  with True show ?thesis by (auto simp: comp_def)
next
  case False
  from \<open>rs \<noteq> []\<close> obtain r rs' where rs: "rs = r # rs'" by (cases rs) auto
  from False have "dd_Tags conf \<noteq> []" by auto
  with False dog_conf_tags_known [of r "dd_Tags conf"] obtain e where "dog_tags conf r = Inl e"
    by (auto simp: dog_tags_def is_ok_def split: sum.splits)
  with False rs show ?thesis by (simp add: dogstatsd_WriteData_def assert_record_def io_bind_def)
qed

end
