(* ===== verification/HTTP_Headers.thy ===== *)
theory HTTP_Headers
  imports GoText
begin

text \<open>
  What the pumps use of \<open>http.Header\<close>, a map from names in their canonical spelling to the values in
  the order they were added, and of the other text functions that only they need: integers are parsed
  back from their digits, a separator of several bytes is cut at or searched for. The lemmas: an
  integer survives printing and parsing, a name is canonical after one step, a value that was added
  under any spelling of a name is found under every other.
\<close>

section \<open>Text\<close>

text \<open>\<open>strconv.ParseInt(s, 10, 64)\<close> and \<open>strconv.Atoi\<close>.\<close>

definition is_digit :: "char \<Rightarrow> bool" where
  "is_digit c = (48 \<le> (of_char c :: nat) \<and> (of_char c :: nat) \<le> 57)"

definition parse_int :: "string \<Rightarrow> i64 option" where
  "parse_int s =
     (let signed = (s \<noteq> [] \<and> (hd s = CHR ''+'' \<or> hd s = CHR ''-''));
          ds = (if signed then tl s else s);
          v = (if signed \<and> hd s = CHR ''-'' then - int (dec_val ds) else int (dec_val ds))
      in if ds = [] \<or> \<not> list_all is_digit ds \<or> v < - (2 ^ 63) \<or> 2 ^ 63 \<le> v then None else Some (of_int v))"

lemma dec_nat_hd: "hd (dec_nat n) \<noteq> CHR ''+''" "hd (dec_nat n) \<noteq> CHR ''-''"
  using dec_nat_digits [of "hd (dec_nat n)" n] by (auto simp: hd_in_set)

lemma parse_int_itoa: "parse_int (itoa x) = Some x"
proof -
  have r: "- (2 ^ 63) \<le> sint x" "sint x < 2 ^ 63" using sint_range_size [of x] by (simp_all add: word_size)
  have d: "list_all is_digit (dec_nat n)" for n by (auto simp: list_all_iff is_digit_def dest: dec_nat_digits)
  show ?thesis
    using r by (auto simp: parse_int_def itoa_def dec_int_def dec_nat_hd d dec_val_dec_nat Let_def)
qed

text \<open>\<open>strings.Split\<close> with a separator that is not empty; \<open>k\<close> bytes of a separator are still to be skipped.\<close>

fun split_from :: "string \<Rightarrow> string \<Rightarrow> nat \<Rightarrow> string \<Rightarrow> string list" where
  "split_from sep w k [] = [w]"
| "split_from sep w (Suc k) (c # s) = split_from sep w k s"
| "split_from sep w 0 (c # s) =
     (if has_prefix (c # s) sep then w # split_from sep [] (length sep - 1) s else split_from sep (w @ [c]) 0 s)"

definition str_split :: "string \<Rightarrow> string \<Rightarrow> string list" where
  "str_split sep s = split_from sep [] 0 s"

lemma has_prefix_length: "has_prefix s p \<Longrightarrow> length p \<le> length s"
  by (auto elim: has_prefixE)

text \<open>\<open>strings.Index\<close> and \<open>strings.LastIndex\<close>: \<open>-1\<close> when there is none.\<close>

fun str_index :: "string \<Rightarrow> string \<Rightarrow> int" where
  "str_index s sub =
     (if has_prefix s sub then 0
      else (case s of [] \<Rightarrow> - 1 | c # t \<Rightarrow> (let i = str_index t sub in if i < 0 then - 1 else i + 1)))"

fun str_last_index :: "string \<Rightarrow> string \<Rightarrow> int" where
  "str_last_index [] sub = (if sub = [] then 0 else - 1)"
| "str_last_index (c # t) sub =
     (let i = str_last_index t sub in if 0 \<le> i then i + 1 else if has_prefix (c # t) sub then 0 else - 1)"

declare str_index.simps [simp del]

lemma str_index_bounds: "- 1 \<le> str_index s sub \<and> str_index s sub \<le> int (length s)"
  by (induction s sub rule: str_index.induct) (subst (1 2) str_index.simps, auto simp: Let_def split: list.splits)

lemma str_last_index_bounds:
  "- 1 \<le> str_last_index s sub \<and> (0 \<le> str_last_index s sub \<longrightarrow> str_last_index s sub + int (length sub) \<le> int (length s))"
  by (induction s sub rule: str_last_index.induct) (auto simp: Let_def dest: has_prefix_length)

section \<open>Headers\<close>

type_synonym http_header = "(string, string list) gomap"

text \<open>The bytes of a token: letters, digits and some marks, here by their codes.\<close>

definition token_char :: "char \<Rightarrow> bool" where
  "token_char c = (let n = (of_char c :: nat)
     in 48 \<le> n \<and> n \<le> 57 \<or> 65 \<le> n \<and> n \<le> 90 \<or> 97 \<le> n \<and> n \<le> 122 \<or>
        n \<in> set [33, 35, 36, 37, 38, 39, 42, 43, 45, 46, 94, 95, 96, 124, 126])"

fun canon_from :: "bool \<Rightarrow> string \<Rightarrow> string" where
  "canon_from upper [] = []"
| "canon_from upper (c # s) = (if upper then to_upper_char c else to_lower_char c) # canon_from (c = CHR ''-'') s"

text \<open>\<open>textproto.CanonicalMIMEHeaderKey\<close>: a name with another byte than those of a token stays as it is.\<close>

definition canonical_key :: "string \<Rightarrow> string" where
  "canonical_key k = (if list_all token_char k then canon_from True k else k)"

definition header_add :: "http_header \<Rightarrow> string \<Rightarrow> string \<Rightarrow> http_header" where
  "header_add h k v =
     (let ck = canonical_key k
      in gomap_set h ck ((case gomap_get h ck of None \<Rightarrow> [] | Some vs \<Rightarrow> vs) @ [v]))"

definition header_get :: "http_header \<Rightarrow> string \<Rightarrow> string" where
  "header_get h k = (case gomap_get h (canonical_key k) of Some (v # vs) \<Rightarrow> v | _ \<Rightarrow> [])"

lemma of_char_case:
  "(of_char (to_upper_char c) :: nat) = (let n = of_char c in if 97 \<le> n \<and> n \<le> 122 then n - 32 else n)"
  "(of_char (to_lower_char c) :: nat) = (let n = of_char c in if 65 \<le> n \<and> n \<le> 90 then n + 32 else n)"
  using of_char_less [of c] by (auto simp: to_upper_char_def to_lower_char_def Let_def of_char_of)

lemma char_eq_code: "c = d \<longleftrightarrow> (of_char c :: nat) = of_char d"
  by simp

lemma letter_up: "token_char (to_upper_char c) = token_char c"
proof (cases "97 \<le> (of_char c :: nat) \<and> (of_char c :: nat) \<le> 122")
  case True
  then have "65 \<le> (of_char (to_upper_char c) :: nat) \<and> (of_char (to_upper_char c) :: nat) \<le> 90"
    unfolding of_char_case Let_def by auto
  with True show ?thesis unfolding token_char_def Let_def by blast
qed (auto simp: to_upper_char_def)

lemma letter_low: "token_char (to_lower_char c) = token_char c"
proof (cases "65 \<le> (of_char c :: nat) \<and> (of_char c :: nat) \<le> 90")
  case True
  then have "97 \<le> (of_char (to_lower_char c) :: nat) \<and> (of_char (to_lower_char c) :: nat) \<le> 122"
    unfolding of_char_case Let_def by simp
  with True show ?thesis unfolding token_char_def Let_def by blast
qed (auto simp: to_lower_char_def)

lemma case_char_idem [simp]:
  "to_upper_char (to_upper_char c) = to_upper_char c" "to_lower_char (to_lower_char c) = to_lower_char c"
  "to_upper_char c = CHR ''-'' \<longleftrightarrow> c = CHR ''-''" "to_lower_char c = CHR ''-'' \<longleftrightarrow> c = CHR ''-''"
  "token_char (to_upper_char c) = token_char c" "token_char (to_lower_char c) = token_char c"
proof -
  show "to_upper_char (to_upper_char c) = to_upper_char c" "to_lower_char (to_lower_char c) = to_lower_char c"
    unfolding char_eq_code of_char_case by (auto simp: Let_def)
  have m: "d = CHR ''-'' \<longleftrightarrow> (of_char d :: nat) = 45" for d
    by (subst char_eq_code) simp
  show "to_upper_char c = CHR ''-'' \<longleftrightarrow> c = CHR ''-''" "to_lower_char c = CHR ''-'' \<longleftrightarrow> c = CHR ''-''"
    unfolding m of_char_case by (auto simp: Let_def)
  show "token_char (to_upper_char c) = token_char c" "token_char (to_lower_char c) = token_char c"
    by (simp_all add: letter_up letter_low)
qed

lemma canon_from_idem: "canon_from u (canon_from u s) = canon_from u s"
  by (induction u s rule: canon_from.induct) auto

lemma canon_from_token: "list_all token_char (canon_from u s) = list_all token_char s"
  by (induction u s rule: canon_from.induct) auto

lemma canonical_key_idem [simp]: "canonical_key (canonical_key k) = canonical_key k"
  by (simp add: canonical_key_def canon_from_idem canon_from_token)

lemma header_get_add:
  "header_get (header_add h k v) k' =
     (if canonical_key k = canonical_key k'
      then (case gomap_get h (canonical_key k) of Some (w # ws) \<Rightarrow> w | _ \<Rightarrow> v) else header_get h k')"
  by (auto simp: header_get_def header_add_def Let_def update_conv' split: option.splits list.splits)

end
