(* ===== verification/Timestream.thy ===== *)
theory Timestream
  imports Batching Analytics_Record HTTP_Headers
begin

text \<open>
  The Timestream pump, \<open>src/pumps/timestream.go\<close>: the start, the dimensions and measures of a record,
  the batches of at most 100 records and the write. The client, the parser of HTTP messages and the
  printing of floats are parameters. The lemmas: the loop over the iterator is the loop over the slices
  of the batch, so that what is stored is a prefix of the records; the floating-point division that
  counts the chunks is exact; the chunks of a response are the response; no value that is sent is empty.
\<close>

section \<open>Numbers of chunks\<close>

text \<open>\<open>int(math.Ceil(float64(n) / float64(k)))\<close>.\<close>

definition f_ceil :: "f64 \<Rightarrow> f64" where
  "f_ceil v = (case v of Fin x \<Rightarrow> Fin (of_int \<lceil>x\<rceil>) | _ \<Rightarrow> v)"

definition ceil_div :: "nat \<Rightarrow> nat \<Rightarrow> int" where
  "ceil_div n k = f_to_int (f_ceil (f_div (f_of_int (of_nat n)) (f_of_int (of_nat k))))"

section \<open>Configuration and client\<close>

record timestream_conf =
  tc_EnvPrefix :: string
  tc_AWSRegion :: string
  tc_TableName :: string
  tc_DatabaseName :: string
  tc_Dimensions :: "string list"
  tc_Measures :: "string list"
  tc_WriteRateLimit :: bool
  tc_ReadGeoFromRequest :: bool
  tc_WriteZeroValues :: bool
  tc_NameMappings :: "(string, string) gomap"

datatype measure_type = Bigint | Double | Varchar

record measure_value =
  mv_Name :: string
  mv_Value :: string
  mv_Type :: measure_type

text \<open>A dimension is its name and its value; its type is always \<open>VARCHAR\<close>.\<close>

type_synonym dimension = "string \<times> string"

record timestream_record =
  tr_Dimensions :: "dimension list"
  tr_MeasureName :: string
  tr_MeasureValues :: "measure_value list"
  tr_Time :: string

text \<open>What the client returns: some of the records were rejected, with their reasons, or another error.\<close>

datatype write_error = Rejected "string option list" string | WriteFailed string

text \<open>The pump's own settings of the client: the time of a connection and of a request, in nanoseconds.\<close>

definition timestream_timeout :: "int \<Rightarrow> int" where
  "timestream_timeout t = (let timeout = t * 1000000000 in if timeout \<le> 0 then 30 * 1000000000 else timeout)"

text \<open>
  \<open>Init\<close> after decoding and the environment variables. A client that cannot be made ends the process.
\<close>

definition timestream_Init ::
  "(string \<Rightarrow> int \<Rightarrow> 'c res) \<Rightarrow> int \<Rightarrow> timestream_conf \<Rightarrow> 'c res" where
  "timestream_Init NewClient timeout conf =
     (if tc_Measures conf = [] \<or> tc_Dimensions conf = []
      then Inl (GoErr ''missing \"measures\" or \"dimensions\" in pump configuration'')
      else (case NewClient (tc_AWSRegion conf) (timestream_timeout timeout) of
          Inl (GoErr e) \<Rightarrow> Inl (GoPanic (''exit: Failed to create timestream client: '' @ e))
        | Inl (GoPanic p) \<Rightarrow> Inl (GoPanic p)
        | Inr c \<Rightarrow> Inr c))"

section \<open>Dimensions\<close>

definition nameMap :: "timestream_conf \<Rightarrow> string \<Rightarrow> string" where
  "nameMap conf fieldName = (case gomap_get (tc_NameMappings conf) fieldName of Some v \<Rightarrow> v | None \<Rightarrow> fieldName)"

definition dimension_fields :: "analytics_record \<Rightarrow> (string, string) gomap" where
  "dimension_fields decoded =
     [(''Method'', r_Method decoded), (''Host'', r_Host decoded), (''Path'', r_Path decoded),
      (''RawPath'', r_RawPath decoded), (''APIKey'', r_APIKey decoded), (''APIVersion'', r_APIVersion decoded),
      (''APIName'', r_APIName decoded), (''APIID'', r_APIID decoded), (''OrgID'', r_OrgID decoded),
      (''OauthID'', r_OauthID decoded)]"

definition GetAnalyticsRecordDimensions :: "timestream_conf \<Rightarrow> analytics_record \<Rightarrow> dimension list" where
  "GetAnalyticsRecordDimensions conf decoded =
     (let dimensionFields = filter (\<lambda>(k, v). v \<noteq> []) (dimension_fields decoded)
      in List.map_filter (\<lambda>key. map_option (\<lambda>v. (nameMap conf key, v)) (gomap_get dimensionFields key)) (tc_Dimensions conf))"

section \<open>Measures\<close>

text \<open>\<open>chars[a:b]\<close> with \<open>a \<le> b \<le> len(chars)\<close>.\<close>

definition chunkString :: "string \<Rightarrow> nat \<Rightarrow> string list" where
  "chunkString chars chunkSize =
     (if chunkSize = 0 then [chars]
      else map (\<lambda>i. take (min (i * chunkSize + chunkSize) (length chars) - i * chunkSize) (drop (i * chunkSize) chars))
             [0..<nat (ceil_div (length chars) chunkSize)])"

text \<open>The loop of \<open>mapToVarChar\<close> over the sorted keys: the first entry has no separator before it.\<close>

fun varchar_loop :: "(string, string) gomap \<Rightarrow> bool \<Rightarrow> string \<Rightarrow> string list \<Rightarrow> string" where
  "varchar_loop dictionary first out [] = out"
| "varchar_loop dictionary first out (key # ks) =
     (let keyval = (case gomap_get dictionary key of Some v \<Rightarrow> v | None \<Rightarrow> [])
      in varchar_loop dictionary False
           (if first then key @ '':'' @ keyval else out @ '';'' @ key @ '':'' @ keyval) ks)"

definition mapToVarChar :: "(string, string) gomap \<Rightarrow> string" where
  "mapToVarChar dictionary = varchar_loop dictionary True [] (sort (gomap_keys dictionary))"

text \<open>The headers of a message that is stored in base64; the parser is a parameter.\<close>

definition load_headers :: "(string \<Rightarrow> http_header option) \<Rightarrow> string \<Rightarrow> http_header option" where
  "load_headers parse raw = (case b64_decode raw of None \<Rightarrow> None | Some bytes \<Rightarrow> parse bytes)"

definition float_measures :: "(f64 \<Rightarrow> string) \<Rightarrow> timestream_conf \<Rightarrow> analytics_record \<Rightarrow> (string, measure_value) gomap" where
  "float_measures fmt conf decoded =
     (let geo = r_Geo decoded; zeros = tc_WriteZeroValues conf;
          lat = lo_Latitude (geo_Location geo); lon = lo_Longitude (geo_Location geo)
      in (if ci_GeoNameID (geo_City geo) \<noteq> 0 \<or> zeros
          then [(''GeoData.City.GeoNameID'', \<lparr>mv_Name = nameMap conf ''GeoData.City.GeoNameID'',
                   mv_Value = utoa (ci_GeoNameID (geo_City geo)), mv_Type = Bigint\<rparr>)] else [])
       @ (if lat \<noteq> f_zero \<or> zeros
          then [(''GeoData.Location.Latitude'', \<lparr>mv_Name = nameMap conf ''GeoData.Location.Latitude'',
                   mv_Value = fmt lat, mv_Type = Double\<rparr>)] else [])
       @ (if lon \<noteq> f_zero \<or> zeros
          then [(''GeoData.Location.Longitude'', \<lparr>mv_Name = nameMap conf ''GeoData.Location.Longitude'',
                   mv_Value = fmt lon, mv_Type = Double\<rparr>)] else []))"

text \<open>The limits are read from the headers of the response; a header that is no number is left out.\<close>

definition rate_limits :: "(string \<Rightarrow> http_header option) \<Rightarrow> analytics_record \<Rightarrow> (string, i64) gomap" where
  "rate_limits readResponse decoded =
     (case load_headers readResponse (r_RawResponse decoded) of None \<Rightarrow> []
      | Some h \<Rightarrow> List.map_filter (\<lambda>(measure, name). map_option (\<lambda>i. (measure, i)) (parse_int (header_get h name)))
          [(''RateLimit.Limit'', ''X-Ratelimit-Limit''), (''Ratelimit.Remaining'', ''X-Ratelimit-Remaining''),
           (''Ratelimit.Reset'', ''X-Ratelimit-Reset'')])"

definition int_measures :: "(string \<Rightarrow> http_header option) \<Rightarrow> timestream_conf \<Rightarrow> analytics_record \<Rightarrow> (string, i64) gomap" where
  "int_measures readResponse conf decoded =
     [(''ContentLength'', r_ContentLength decoded), (''ResponseCode'', r_ResponseCode decoded),
      (''RequestTime'', r_RequestTime decoded),
      (''NetworkStats.OpenConnections'', ns_OpenConnections (r_Network decoded)),
      (''NetworkStats.ClosedConnection'', ns_ClosedConnection (r_Network decoded)),
      (''NetworkStats.BytesIn'', ns_BytesIn (r_Network decoded)),
      (''NetworkStats.BytesOut'', ns_BytesOut (r_Network decoded)),
      (''Latency.Total'', la_Total (r_Latency decoded)), (''Latency.Upstream'', la_Upstream (r_Latency decoded))] @
     (if tc_WriteRateLimit conf then rate_limits readResponse decoded else [])"

definition string_measures :: "(string \<Rightarrow> http_header option) \<Rightarrow> timestream_conf \<Rightarrow> analytics_record \<Rightarrow> (string, string) gomap" where
  "string_measures readRequest conf decoded =
     (let iso = geo_Country (r_Geo decoded);
          names = mapToVarChar (ci_Names (geo_City (r_Geo decoded)));
          geo = (if tc_ReadGeoFromRequest conf
                 then (case load_headers readRequest (r_RawRequest decoded) of None \<Rightarrow> (iso, names)
                       | Some h \<Rightarrow> (if iso = [] then header_get h ''Cloudfront-Viewer-Country'' else iso,
                                    if names = [] then header_get h ''Cloudfront-Viewer-City'' else names))
                 else (iso, names))
      in [(''UserAgent'', r_UserAgent decoded), (''RawRequest'', r_RawRequest decoded), (''IPAddress'', r_IPAddress decoded),
          (''GeoData.Country.ISOCode'', fst geo), (''GeoData.City.Names'', snd geo),
          (''GeoData.Location.TimeZone'', lo_TimeZone (geo_Location (r_Geo decoded)))])"

definition measure_fields ::
  "(f64 \<Rightarrow> string) \<Rightarrow> (string \<Rightarrow> http_header option) \<Rightarrow> (string \<Rightarrow> http_header option) \<Rightarrow> timestream_conf \<Rightarrow> analytics_record \<Rightarrow>
     (string, measure_value) gomap" where
  "measure_fields fmt readRequest readResponse conf decoded =
     fold (\<lambda>(k, v) m. if v \<noteq> [] then gomap_set m k \<lparr>mv_Name = nameMap conf k, mv_Value = v, mv_Type = Varchar\<rparr> else m)
       (string_measures readRequest conf decoded)
       (fold (\<lambda>(k, v) m. if v \<noteq> 0 \<or> tc_WriteZeroValues conf
                then gomap_set m k \<lparr>mv_Name = nameMap conf k, mv_Value = itoa v, mv_Type = Bigint\<rparr> else m)
         (int_measures readResponse conf decoded) (float_measures fmt conf decoded))"

text \<open>The response is cut into values of at most 2048 bytes, after their number.\<close>

definition response_measures :: "timestream_conf \<Rightarrow> string \<Rightarrow> measure_value list" where
  "response_measures conf rawResponse =
     (let chunks = chunkString rawResponse 2048
      in \<lparr>mv_Name = nameMap conf ''RawResponseSize'', mv_Value = itoa (of_nat (length chunks)), mv_Type = Bigint\<rparr> #
         map (\<lambda>(i, c). \<lparr>mv_Name = nameMap conf ''RawResponse'' @ dec_nat i, mv_Value = c, mv_Type = Varchar\<rparr>)
           (enumerate 0 chunks))"

definition GetAnalyticsRecordMeasures ::
  "(f64 \<Rightarrow> string) \<Rightarrow> (string \<Rightarrow> http_header option) \<Rightarrow> (string \<Rightarrow> http_header option) \<Rightarrow> timestream_conf \<Rightarrow> analytics_record \<Rightarrow>
     measure_value list" where
  "GetAnalyticsRecordMeasures fmt readRequest readResponse conf decoded =
     (let measureFieldsMapping = measure_fields fmt readRequest readResponse conf decoded
      in List.map_filter (gomap_get measureFieldsMapping) (tc_Measures conf) @
         (if ''RawResponse'' \<in> set (tc_Measures conf) then response_measures conf (r_RawResponse decoded) else []))"

section \<open>Records, batches and the write\<close>

text \<open>\<open>UnixNano\<close> as an \<open>int64\<close>, which wraps outside the years 1678 to 2262.\<close>

definition unix_nano :: "gotime \<Rightarrow> i64" where
  "unix_nano t = of_int (t_sec t * 1000000000 + t_nsec t)"

definition MapAnalyticRecord2TimestreamMultimeasureRecord ::
  "(f64 \<Rightarrow> string) \<Rightarrow> (string \<Rightarrow> http_header option) \<Rightarrow> (string \<Rightarrow> http_header option) \<Rightarrow> timestream_conf \<Rightarrow> analytics_record \<Rightarrow>
     timestream_record" where
  "MapAnalyticRecord2TimestreamMultimeasureRecord fmt readRequest readResponse conf decoded =
     \<lparr>tr_Dimensions = GetAnalyticsRecordDimensions conf decoded, tr_MeasureName = ''request_metrics'',
      tr_MeasureValues = GetAnalyticsRecordMeasures fmt readRequest readResponse conf decoded,
      tr_Time = itoa (unix_nano (r_TimeStamp decoded))\<rparr>"

text \<open>The records of one call of the iterator; \<open>cur\<close> is the number of the batch.\<close>

fun records_from :: "(analytics_record \<Rightarrow> 'r) \<Rightarrow> item list \<Rightarrow> nat list \<Rightarrow> 'r list res" where
  "records_from toRecord data [] = Inr []"
| "records_from toRecord data (i # is) =
     rbind (assert_record (data ! i)) (\<lambda>decoded. rbind (records_from toRecord data is) (\<lambda>rs. Inr (toRecord decoded # rs)))"

definition timestream_batch :: "(analytics_record \<Rightarrow> 'r) \<Rightarrow> item list \<Rightarrow> nat \<Rightarrow> 'r list res" where
  "timestream_batch toRecord data cur = records_from toRecord data [cur * 100..<min (100 * (cur + 1)) (length data)]"

definition timestream_max :: "item list \<Rightarrow> int" where
  "timestream_max data = ceil_div (length data) 100 - 1"

text \<open>
  The loop of \<open>WriteData\<close> over the iterator of \<open>BuildTimestreamInputIterator\<close>, from batch \<open>cur\<close>,
  which is there. A rejection is logged with the reason of the first rejected record.
\<close>

definition timestream_write :: "('r list \<Rightarrow> ('s, write_error option) io) \<Rightarrow> 'r list \<Rightarrow> ('s, unit) io" where
  "timestream_write WriteRecords records =
     io_bind (WriteRecords records) (\<lambda>err. case err of
         None \<Rightarrow> io_ret ()
       | Some (WriteFailed e) \<Rightarrow> io_fail (GoErr e)
       | Some (Rejected (Some reason # rest) e) \<Rightarrow> io_fail (GoErr e)
       | Some (Rejected (None # rest) e) \<Rightarrow> io_fail (GoPanic ''nil pointer dereference'')
       | Some (Rejected [] e) \<Rightarrow> io_fail (GoPanic ''index out of range''))"

function timestream_loop ::
  "(analytics_record \<Rightarrow> 'r) \<Rightarrow> ('r list \<Rightarrow> ('s, write_error option) io) \<Rightarrow> item list \<Rightarrow> nat \<Rightarrow> ('s, unit) io" where
  "timestream_loop toRecord WriteRecords data cur =
     io_bind (io_res (timestream_batch toRecord data cur)) (\<lambda>records.
     io_bind (timestream_write WriteRecords records) (\<lambda>_.
       if int cur < timestream_max data then timestream_loop toRecord WriteRecords data (cur + 1) else io_ret ()))"
  by auto
termination by (relation "measure (\<lambda>(f, w, data, cur). nat (timestream_max data - int cur))") auto

declare timestream_loop.simps [simp del]

definition timestream_WriteData ::
  "(f64 \<Rightarrow> string) \<Rightarrow> (string \<Rightarrow> http_header option) \<Rightarrow> (string \<Rightarrow> http_header option) \<Rightarrow>
     (string \<Rightarrow> string \<Rightarrow> timestream_record list \<Rightarrow> ('s, write_error option) io) \<Rightarrow> timestream_conf \<Rightarrow> item list \<Rightarrow> ('s, unit) io" where
  "timestream_WriteData fmt readRequest readResponse WriteRecords conf data =
     (if - 1 < timestream_max data
      then timestream_loop (MapAnalyticRecord2TimestreamMultimeasureRecord fmt readRequest readResponse conf)
             (WriteRecords (tc_DatabaseName conf) (tc_TableName conf)) data 0
      else io_ret ())"

section \<open>Properties\<close>

lemma ceil_div_exact:
  assumes "n < 2 ^ 53" and "0 < k" and "k < 2 ^ 53"
  shows "ceil_div n k = \<lceil>(of_nat n :: rat) / of_nat k\<rceil>"
proof -
  have f: "f_of_int (of_nat m) = Fin (of_nat m)" if "m < 2 ^ 53" for m
  proof -
    have s: "sint (of_nat m :: i64) = int m" using that by (intro sint_of_nat64) simp
    have "int m < 2 ^ 53" using that by (metis of_nat_less_iff of_nat_numeral of_nat_power)
    then have "\<bar>int m\<bar> < 2 ^ 53" by simp
    then show ?thesis using f_of_int_exact [of "of_nat m"] unfolding s by simp
  qed
  let ?c = "\<lceil>(of_nat n :: rat) / of_nat k\<rceil>"
  have "(of_nat n :: rat) * 1 \<le> of_nat n * of_nat k" using assms(2) by (intro mult_left_mono) auto
  then have "(of_nat n :: rat) / of_nat k \<le> of_nat n" using assms(2) by (simp add: divide_le_eq)
  then have "?c \<le> int n" by (simp add: ceiling_le_iff)
  moreover have "0 \<le> ?c" by (metis ceiling_mono ceiling_zero divide_nonneg_nonneg of_nat_0_le_iff)
  moreover have "int n < 2 ^ 53" using assms(1) by (metis of_nat_less_iff of_nat_numeral of_nat_power)
  moreover have "- (2 ^ 63) \<le> c \<and> c < 2 ^ 63 \<and> \<not> c < 0" if "c \<le> int n" "0 \<le> c" "int n < 2 ^ 53" for c
    using that by simp
  ultimately have "- (2 ^ 63) \<le> ?c \<and> ?c < 2 ^ 63 \<and> \<not> ?c < 0" by blast
  then have "f_to_int (Fin (of_int ?c)) = ?c" by (simp only: f_to_int_def Let_def f64.case floor_of_int of_int_less_0_iff if_False if_True simp_thms)
  moreover have "ceil_div n k = f_to_int (Fin (of_int \<lceil>fl ((of_nat n :: rat) / of_nat k)\<rceil>))"
    unfolding ceil_div_def f [OF assms(1)] f [OF assms(3)] using assms(2) by (simp add: f_ceil_def)
  ultimately show ?thesis by (simp only: ceiling_fl_quotient [OF assms(1,2)])
qed

lemma ceil_div_less:
  assumes "n < 2 ^ 53" and "0 < k" and "k < 2 ^ 53"
  shows "int i < ceil_div n k \<longleftrightarrow> i * k < n"
proof -
  have "int i < \<lceil>(of_nat n :: rat) / of_nat k\<rceil> \<longleftrightarrow> of_int (int i) < (of_nat n :: rat) / of_nat k"
    by (rule less_ceiling_iff)
  also have "\<dots> \<longleftrightarrow> (of_nat (i * k) :: rat) < of_nat n" using assms(2) by (simp add: less_divide_eq)
  finally show ?thesis by (simp only: ceil_div_exact [OF assms] of_nat_less_iff)
qed

lemma records_from_run:
  "(\<And>i. i \<in> set is \<Longrightarrow> i < length rs) \<Longrightarrow>
     records_from f (map ItemRecord rs) is = Inr (map (\<lambda>i. f (rs ! i)) is)"
  by (induction "is") auto

lemma timestream_batch_run:
  "timestream_batch f (map ItemRecord rs) cur = Inr (map f (take 100 (drop (cur * 100) rs)))"
proof -
  have "map (\<lambda>i. rs ! i) [cur * 100..<min (100 * (cur + 1)) (length rs)] = take 100 (drop (cur * 100) rs)"
    by (rule nth_equalityI) (auto simp: min_def split: if_splits)
  then have "map (\<lambda>i. f (rs ! i)) [cur * 100..<min (100 * (cur + 1)) (length rs)] = map f (take 100 (drop (cur * 100) rs))"
    by (metis (no_types, lifting) list.map_comp comp_def map_eq_conv)
  then show ?thesis unfolding timestream_batch_def by (subst records_from_run) auto
qed

text \<open>The iterator walks through the slices of the batch.\<close>

lemma timestream_loop_slices:
  assumes "length rs < 2 ^ 53" and "cur * 100 < length rs"
  shows "timestream_loop f w (map ItemRecord rs) cur =
    io_for (slices_from 100 rs (cur * 100)) (\<lambda>xs. timestream_write w (map f xs))"
  using assms(2)
proof (induction "length rs - cur * 100" arbitrary: cur rule: less_induct)
  case less
  have more: "int cur < timestream_max (map ItemRecord rs) \<longleftrightarrow> (cur + 1) * 100 < length rs"
    using ceil_div_less [of "length rs" 100 "cur + 1"] assms(1) by (simp add: timestream_max_def) linarith
  have head: "slices_from 100 rs (cur * 100) = take 100 (drop (cur * 100) rs) # slices_from 100 rs ((cur + 1) * 100)"
    using less.prems by (subst slices_from.simps) (auto simp: Let_def add.commute)
  have rest: "(if int cur < timestream_max (map ItemRecord rs) then timestream_loop f w (map ItemRecord rs) (cur + 1) else io_ret ())
      = io_for (slices_from 100 rs ((cur + 1) * 100)) (\<lambda>xs. timestream_write w (map f xs))"
  proof (cases "(cur + 1) * 100 < length rs")
    case True
    then show ?thesis unfolding more by (simp only: if_True) (rule less.hyps, use less.prems True in auto)
  next
    case False
    then have "slices_from 100 rs ((cur + 1) * 100) = []" by (subst slices_from.simps) simp
    with False show ?thesis unfolding more by (simp add: io_for_eq)
  qed
  show ?case
    unfolding head io_for_eq by (subst timestream_loop.simps) (simp only: timestream_batch_run rest io_res_simps io_bind_ret)
qed

lemma timestream_WriteData_slices:
  assumes "length rs < 2 ^ 53"
  shows "timestream_WriteData fmt rq rp w conf (map ItemRecord rs) =
    io_for (slices 100 rs) (\<lambda>xs. timestream_write (w (tc_DatabaseName conf) (tc_TableName conf))
      (map (MapAnalyticRecord2TimestreamMultimeasureRecord fmt rq rp conf) xs))"
proof (cases "rs = []")
  case True
  have "\<not> int 0 < ceil_div 0 100" using ceil_div_less [of 0 100 0] by simp
  then show ?thesis
    using True by (simp add: timestream_WriteData_def timestream_max_def slices_def slices_from.simps io_for_eq)
next
  case False
  have "int 0 < ceil_div (length rs) 100" using ceil_div_less [of "length rs" 100 0] assms False by simp
  then show ?thesis
    using timestream_loop_slices [of rs 0] assms False by (simp add: timestream_WriteData_def timestream_max_def slices_def)
qed


lemma ceil_div_nat:
  assumes "n < 2 ^ 53" and "0 < k" and "k < 2 ^ 53"
  shows "int (nat (ceil_div n k)) = ceil_div n k" and "i < nat (ceil_div n k) \<longleftrightarrow> i * k < n"
proof -
  have "0 \<le> ceil_div n k"
    unfolding ceil_div_exact [OF assms] by (metis ceiling_mono ceiling_zero divide_nonneg_nonneg of_nat_0_le_iff)
  then show "int (nat (ceil_div n k)) = ceil_div n k" by simp
  with ceil_div_less [OF assms, of i] show "i < nat (ceil_div n k) \<longleftrightarrow> i * k < n" by (metis of_nat_less_iff)
qed

lemma chunkString_bound:
  assumes "0 < n" and "n < 2 ^ 53" and "length s < 2 ^ 53" and "c \<in> set (chunkString s n)"
  shows "c \<noteq> [] \<and> length c \<le> n"
proof -
  from assms(1,4) obtain i where i: "i < nat (ceil_div (length s) n)"
    "c = take (min (i * n + n) (length s) - i * n) (drop (i * n) s)" by (auto simp: chunkString_def)
  from i(1) have "i * n < length s" by (simp only: ceil_div_nat [OF assms(3,1,2)])
  with i(2) assms(1) show ?thesis by (auto simp: min_def)
qed

text \<open>
  The chunks of a response, joined, are the response; each of them is within the size of a
  \<open>VARCHAR\<close> and none is empty. Their number, which is computed with floating-point numbers, is exact.
\<close>

theorem chunkString_roundtrip:
  assumes "0 < n" and "n < 2 ^ 53" and "length s < 2 ^ 53"
  shows "concat (chunkString s n) = s \<and> (\<forall>c \<in> set (chunkString s n). c \<noteq> [] \<and> length c \<le> n) \<and>
    int (length (chunkString s n)) = \<lceil>(of_nat (length s) :: rat) / of_nat n\<rceil>"
proof -
  let ?m = "nat (ceil_div (length s) n)"
  let ?c = "\<lambda>i. take (min (i * n + n) (length s) - i * n) (drop (i * n) s)"
  have chunks: "chunkString s n = map ?c [0..<?m]" using assms(1) by (simp add: chunkString_def)
  have joined: "concat (map ?c [0..<j]) = take (j * n) s" for j
  proof (induction j)
    case (Suc j)
    have "take (j * n) s @ ?c j = take (j * n + n) s"
      by (auto simp: take_add min_def)
    with Suc show ?case by (simp add: add.commute)
  qed simp
  have "\<not> ?m * n < length s" using ceil_div_nat(2) [OF assms(3,1,2), of ?m] by simp
  with joined [of ?m] have "concat (chunkString s n) = s" by (simp add: chunks)
  moreover have "int (length (chunkString s n)) = ceil_div (length s) n"
    unfolding chunks by (simp only: length_map length_upt diff_zero ceil_div_nat(1) [OF assms(3,1,2)])
  ultimately show ?thesis using chunkString_bound [OF assms] ceil_div_exact [OF assms(3,1,2)] by metis
qed

text \<open>Every stored text measure is non-empty, before and after the response is added.\<close>

definition filled :: "(string, measure_value) gomap \<Rightarrow> bool" where
  "filled m = (\<forall>k v. gomap_get m k = Some v \<longrightarrow> mv_Type v = Varchar \<longrightarrow> mv_Value v \<noteq> [])"

lemma filled_fold:
  assumes "filled m" and "\<And>k v m. filled m \<Longrightarrow> filled (f (k, v) m)"
  shows "filled (fold f kvs m)"
  using assms by (induction kvs arbitrary: m) auto

lemma filled_set: "filled m \<Longrightarrow> (mv_Type v = Varchar \<longrightarrow> mv_Value v \<noteq> []) \<Longrightarrow> filled (gomap_set m k v)"
  by (simp add: filled_def update_conv')

lemma filled_append: "filled m \<Longrightarrow> filled n \<Longrightarrow> filled (m @ n)"
  by (auto simp: filled_def map_add_def split: option.splits)

lemma in_map_filter: "y \<in> set (List.map_filter f xs) \<longleftrightarrow> (\<exists>x \<in> set xs. f x = Some y)"
  by (force simp: List.map_filter_def)

lemma measure_fields_filled: "filled (measure_fields fmt rq rp conf decoded)"
proof -
  have "filled (float_measures fmt conf decoded)"
    unfolding float_measures_def Let_def by (intro filled_append) (auto simp: filled_def)
  then show ?thesis
    unfolding measure_fields_def by (intro filled_fold) (auto intro!: filled_set)
qed

text \<open>
  Timestream takes no empty strings, and the pump sends none: every dimension of a record and every
  text measure, the chunks of the response among them, has a value that is not empty.
\<close>

theorem timestream_values_filled:
  assumes "length (r_RawResponse decoded) < 2 ^ 53"
  shows "(\<forall>(n, v) \<in> set (GetAnalyticsRecordDimensions conf decoded). v \<noteq> []) \<and>
    (\<forall>m \<in> set (GetAnalyticsRecordMeasures fmt readRequest readResponse conf decoded). mv_Type m = Varchar \<longrightarrow> mv_Value m \<noteq> [])"
proof
  show "\<forall>(n, v) \<in> set (GetAnalyticsRecordDimensions conf decoded). v \<noteq> []"
    unfolding GetAnalyticsRecordDimensions_def Let_def
    by (auto simp: in_map_filter dest!: map_of_SomeD)
  have resp: "mv_Value m \<noteq> []" if "m \<in> set (response_measures conf (r_RawResponse decoded))" "mv_Type m = Varchar" for m
    using that chunkString_bound [of 2048 "r_RawResponse decoded"] assms
    by (auto simp: response_measures_def Let_def in_set_enumerate_eq)
  show "\<forall>m \<in> set (GetAnalyticsRecordMeasures fmt readRequest readResponse conf decoded). mv_Type m = Varchar \<longrightarrow> mv_Value m \<noteq> []"
    using measure_fields_filled [of fmt readRequest readResponse conf decoded] resp
    unfolding GetAnalyticsRecordMeasures_def Let_def
    by (auto simp: in_map_filter filled_def split: if_splits)
qed

text \<open>The loop over the keys is the joining of the entries: city names are written as in a CSV line.\<close>

lemma varchar_loop_join:
  "varchar_loop m False out ks = out @ concat (map (\<lambda>k. '';'' @ k @ '':'' @ (case gomap_get m k of None \<Rightarrow> [] | Some v \<Rightarrow> v)) ks)"
  by (induction ks arbitrary: out) (auto simp: Let_def split: option.splits)

lemma str_join_Cons: "str_join sep (x # xs) = x @ concat (map (\<lambda>y. sep @ y) xs)"
  by (induction xs arbitrary: x) auto

lemma mapToVarChar_city_names: "mapToVarChar m = city_names m"
proof (cases "sort (gomap_keys m)")
  case Nil
  then show ?thesis by (simp add: mapToVarChar_def city_names_def)
next
  case (Cons k ks)
  then show ?thesis
    by (simp add: mapToVarChar_def city_names_def str_join_Cons varchar_loop_join comp_def split: option.splits)
qed

section \<open>Witnesses\<close>

definition sample_timestream_conf :: timestream_conf where
  "sample_timestream_conf = \<lparr>tc_EnvPrefix = [], tc_AWSRegion = ''eu'', tc_TableName = ''t'', tc_DatabaseName = ''db'',
     tc_Dimensions = [''Method''], tc_Measures = [''UserAgent'', ''RawResponse''], tc_WriteRateLimit = False,
     tc_ReadGeoFromRequest = False, tc_WriteZeroValues = False, tc_NameMappings = []\<rparr>"

definition sample_write_records ::
  "string \<Rightarrow> string \<Rightarrow> timestream_record list \<Rightarrow> (timestream_record list, write_error option) io" where
  "sample_write_records db tbl recs s = (Inr None, s @ recs)"


theorem chunkString_roundtrip_witness:
  "concat (chunkString ''abcde'' 2) = ''abcde'' \<and> int (length (chunkString ''abcde'' 2)) = \<lceil>5 / 2 :: rat\<rceil>"
  using chunkString_roundtrip [of 2 "''abcde''"] by simp

theorem timestream_values_filled_witness:
  "\<forall>m \<in> set (GetAnalyticsRecordMeasures (\<lambda>_. ''0'') (\<lambda>_. None) (\<lambda>_. None) sample_timestream_conf
      (record_zero\<lparr>r_UserAgent := ''curl'', r_RawResponse := ''abc''\<rparr>)). mv_Type m = Varchar \<longrightarrow> mv_Value m \<noteq> []"
  using timestream_values_filled [of "record_zero\<lparr>r_UserAgent := ''curl'', r_RawResponse := ''abc''\<rparr>"] by simp

end
