(* ===== verification/Resurface.thy ===== *)
theory Resurface
  imports Event_Values HTTP_Headers "HOL-Library.Multiset"
begin

text \<open>
  The Resurface pump, \<open>src/pumps/resurface.go\<close>: how the raw messages of a record are taken apart, the
  loop of the worker, and the protocol between \<open>WriteData\<close>, \<open>Flush\<close> and the worker on the channel of
  batches, as a step relation. The logger library and \<open>url.Parse\<close> are parameters. The lemmas: for which
  records the worker panics, a flush logs every batch that was accepted and ends, and what goes wrong
  when a write overlaps with it.
\<close>

section \<open>Raw messages\<close>

text \<open>\<open>strings.SplitN(s, sep, 2)\<close> copied into two elements of an array of empty strings.\<close>

definition split_two :: "string \<Rightarrow> string \<Rightarrow> string \<times> string" where
  "split_two sep s = (case split_once sep s of Some (a, b) \<Rightarrow> (a, b) | None \<Rightarrow> (s, []))"

definition crlf :: string where
  "crlf = [CHR 0x0D, CHR 0x0A]"

text \<open>First line, headers, body and trailers of a message.\<close>

definition split_message :: "string \<Rightarrow> string \<times> string \<times> string" where
  "split_message raw =
     (let (first, rest) = split_two crlf raw;
          (headers, body) = split_two (crlf @ crlf) rest
      in (first, headers, body))"

definition parseHeaders :: "string \<Rightarrow> http_header option \<Rightarrow> http_header" where
  "parseHeaders headersString existingHeaders =
     fold (\<lambda>line headers.
         (let header = str_split '': '' line
          in if length header < 2 then headers else header_add headers (header ! 0) (header ! 1)))
       (str_split crlf headersString) (case existingHeaders of Some h \<Rightarrow> h | None \<Rightarrow> [])"

text \<open>\<open>strings.Fields(s)[k]\<close>.\<close>

definition field_at :: "string \<Rightarrow> nat \<Rightarrow> string res" where
  "field_at s k = (if k < length (str_fields s) then Inr (str_fields s ! k) else Inl (GoPanic ''index out of range''))"

definition slice_to :: "int \<Rightarrow> string \<Rightarrow> string res" where
  "slice_to k s = (if k < 0 \<or> k > int (length s) then Inl (GoPanic ''slice bounds out of range'') else Inr (take (nat k) s))"

text \<open>What the pump fills in of a request and a response; the body is its text, the URL is the library's.\<close>

record 'u http_request =
  rq_Method :: string
  rq_Host :: string
  rq_URL :: 'u
  rq_Header :: http_header
  rq_Body :: string
  rq_RequestURI :: string

record http_response =
  rp_StatusCode :: i64
  rp_Header :: http_header
  rp_Body :: string

text \<open>The fields of the record that are sent along, when they are not empty.\<close>

definition tyk_fields :: "analytics_record \<Rightarrow> (string, string) gomap" where
  "tyk_fields rec = filter (\<lambda>(k, v). v \<noteq> [])
     [(''tyk-API-ID'', r_APIID rec), (''tyk-API-Key'', r_APIKey rec), (''tyk-API-Name'', r_APIName rec),
      (''tyk-API-Version'', r_APIVersion rec), (''tyk-Oauth-ID'', r_OauthID rec), (''tyk-Org-ID'', r_OrgID rec)]"

definition request_path :: "string \<Rightarrow> string \<Rightarrow> string" where
  "request_path path rawPath =
     (let idx = str_index rawPath ''?'';
          path = (if path = [] then rawPath else if idx \<noteq> - 1 then path @ drop (nat idx) rawPath else path)
      in if \<not> str_contains path ''://'' \<and> \<not> has_prefix path ''/'' then ''/'' @ path else path)"

text \<open>The headers after the last chunk of the body are added to those before it.\<close>

definition split_trailers :: "http_header \<Rightarrow> string \<Rightarrow> (http_header \<times> string) res" where
  "split_trailers resHeaders body =
     (if body \<noteq> [] \<and> header_get resHeaders ''Transfer-Encoding'' = ''chunked'' \<and> header_get resHeaders ''Trailer'' \<noteq> []
      then (let lastChunkIndex = str_last_index body (''0'' @ crlf) + 3
            in rbind (slice_from lastChunkIndex body) (\<lambda>trailers.
               rbind (slice_to lastChunkIndex body) (\<lambda>chunks.
                 Inr (parseHeaders trailers (Some resHeaders), chunks))))
      else Inr (resHeaders, body))"

definition mapRawData ::
  "(string \<Rightarrow> 'u option) \<Rightarrow> ('u \<Rightarrow> bool) \<Rightarrow> analytics_record \<Rightarrow>
     ('u http_request \<times> http_response \<times> (string, string) gomap) res" where
  "mapRawData url_Parse isAbs rec =
     (case b64_decode (r_RawRequest rec) of None \<Rightarrow> Inl (GoErr ''illegal base64 data'') | Some rawReq \<Rightarrow>
     (case b64_decode (r_RawResponse rec) of None \<Rightarrow> Inl (GoErr ''illegal base64 data'') | Some rawRes \<Rightarrow>
       (let (req0, req1, req2) = split_message rawReq; (res0, res1, res2) = split_message rawRes in
        rbind (if r_Method rec = [] then field_at req0 0 else Inr (r_Method rec)) (\<lambda>m.
        rbind (field_at req0 1) (\<lambda>rawPath.
        let path = request_path (r_RawPath rec) rawPath in
        (case url_Parse path of None \<Rightarrow> Inl (GoErr ''parse'') | Some parsedURL \<Rightarrow>
          (let reqHeaders = parseHeaders req1 None;
               reqHeaders = (if header_get reqHeaders ''X-FORWARDED-FOR'' = []
                             then header_add reqHeaders ''X-FORWARDED-FOR'' (r_IPAddress rec) else reqHeaders);
               host = (if r_Host rec = [] then header_get reqHeaders ''Host'' else r_Host rec)
           in
           rbind (if r_ResponseCode rec = 0
                  then rbind (field_at res0 1) (\<lambda>code.
                    (case parse_int code of None \<Rightarrow> Inl (GoErr ''strconv.Atoi'') | Some n \<Rightarrow> Inr n))
                  else Inr (r_ResponseCode rec)) (\<lambda>status.
           rbind (split_trailers (parseHeaders res1 None) res2) (\<lambda>(resHeaders, body).
             Inr (\<lparr>rq_Method = m, rq_Host = host, rq_URL = parsedURL, rq_Header = reqHeaders, rq_Body = req2,
                    rq_RequestURI = (if isAbs parsedURL then path else [])\<rparr>,
                  \<lparr>rp_StatusCode = status, rp_Header = resHeaders, rp_Body = body\<rparr>, tyk_fields rec))))))))))"

section \<open>The worker\<close>

text \<open>
  One batch in \<open>writeData\<close>: what is no record, has no raw data or cannot be parsed is logged and
  skipped. A panic ends the process, since nothing recovers it in the worker's goroutine.
\<close>

definition resurface_record ::
  "(string \<Rightarrow> 'u option) \<Rightarrow> ('u \<Rightarrow> bool) \<Rightarrow>
     (http_response \<Rightarrow> 'u http_request \<Rightarrow> i64 \<Rightarrow> i64 \<Rightarrow> (string, string) gomap \<Rightarrow> ('s, unit) io) \<Rightarrow> item \<Rightarrow> ('s, unit) io" where
  "resurface_record url_Parse isAbs sendHttp v =
     (case v of ItemNil \<Rightarrow> io_ret ()
      | ItemRecord decoded \<Rightarrow>
          (if r_RawRequest decoded = [] \<and> r_RawResponse decoded = [] then io_ret ()
           else (case mapRawData url_Parse isAbs decoded of
               Inl (GoErr e) \<Rightarrow> io_ret ()
             | Inl (GoPanic p) \<Rightarrow> io_fail (GoPanic p)
             | Inr (req, resp, customFields) \<Rightarrow>
                 sendHttp resp req (time_unix (r_TimeStamp decoded) * 1000) (r_RequestTime decoded) customFields)))"

definition resurface_batch ::
  "(string \<Rightarrow> 'u option) \<Rightarrow> ('u \<Rightarrow> bool) \<Rightarrow>
     (http_response \<Rightarrow> 'u http_request \<Rightarrow> i64 \<Rightarrow> i64 \<Rightarrow> (string, string) gomap \<Rightarrow> ('s, unit) io) \<Rightarrow> item list \<Rightarrow> ('s, unit) io" where
  "resurface_batch url_Parse isAbs sendHttp data = io_for data (resurface_record url_Parse isAbs sendHttp)"

lemma split_trailers_ok: "length body \<noteq> 1 \<Longrightarrow> is_ok (split_trailers h body)"
  using str_last_index_bounds [of body "''0'' @ crlf"]
  by (cases body) (auto simp: split_trailers_def slice_from_def slice_to_def crlf_def Let_def is_ok_conv)


text \<open>The crash of the worker at such a record, and what the parser loses of others.\<close>

lemma resurface_record_crashes:
  assumes "r_RawRequest rec = []" and "r_RawResponse rec = b64_encode rawRes" and "rawRes \<noteq> []" and "r_Method rec = ''GET''"
  shows "resurface_record url_Parse isAbs sendHttp (ItemRecord rec) s = (Inl (GoPanic ''index out of range''), s)"
proof -
  have "b64_encode rawRes \<noteq> []" using assms(3) by (cases rawRes rule: b64_encode.cases) (auto simp: Let_def)
  moreover have "b64_decode [] = Some []" by code_simp
  ultimately show ?thesis
    by (simp add: resurface_record_def mapRawData_def assms b64_decode_encode
        split_message_def split_two_def crlf_def field_at_def str_fields_def io_fail_def Let_def split: prod.splits option.splits)
qed

lemma parseHeaders_truncates: "header_get (parseHeaders ''Location: a: b'' None) ''Location'' = ''a''"
  by code_simp

lemma split_message_loses_body: "split_message (''GET / HTTP/1.1'' @ crlf @ crlf @ ''x'') = (''GET / HTTP/1.1'', crlf @ ''x'', [])"
  by code_simp

section \<open>The channel of batches\<close>

text \<open>
  The goroutines that call \<open>WriteData\<close> or \<open>Flush\<close>, by what they do next; the flag tells a call from
  \<open>Flush\<close>. The channel holds five batches. \<open>rs_logged\<close> is what the worker has taken from the channel.
\<close>

datatype 'b thread = T_Write 'b | T_Send 'b | T_Flush | T_Select bool | T_Resend bool 'b | T_Close bool | T_Wait | T_Done

record 'b rs_state =
  rs_chan :: "'b list"
  rs_closed :: bool
  rs_worker :: bool
  rs_enabled :: bool
  rs_logged :: "'b list"
  rs_panic :: bool

definition initWorker :: "'b rs_state \<Rightarrow> 'b rs_state" where
  "initWorker s = s\<lparr>rs_chan := [], rs_closed := False, rs_worker := True, rs_enabled := True\<rparr>"

text \<open>
  \<open>Init\<close> after decoding and the environment variables: a logger that is not enabled is an error, and
  then no worker runs.
\<close>

record resurface_conf =
  rc_EnvPrefix :: string
  rc_URL :: string
  rc_Rules :: string
  rc_Queue :: "string list"

definition resurface_Init ::
  "(string \<Rightarrow> string \<Rightarrow> string list \<Rightarrow> 'l res) \<Rightarrow> ('l \<Rightarrow> bool) \<Rightarrow> resurface_conf \<Rightarrow> 'b rs_state \<Rightarrow> ('l \<times> 'b rs_state) res" where
  "resurface_Init NewHttpLogger Enabled conf s =
     rbind (NewHttpLogger (rc_Rules conf) (rc_URL conf) (rc_Queue conf)) (\<lambda>logger.
       if Enabled logger then Inr (logger, initWorker s) else Inl (GoErr ''logger is not enabled''))"

text \<open>Sending on a closed channel and closing it again panic.\<close>

definition rs_send :: "'b \<Rightarrow> 'b rs_state \<Rightarrow> 'b rs_state" where
  "rs_send b s = (if rs_closed s then s\<lparr>rs_panic := True\<rparr> else s\<lparr>rs_chan := rs_chan s @ [b]\<rparr>)"

definition rs_close :: "'b rs_state \<Rightarrow> 'b rs_state" where
  "rs_close s = (if rs_closed s then s\<lparr>rs_panic := True\<rparr> else s\<lparr>rs_closed := True\<rparr>)"

definition can_send :: "'b rs_state \<Rightarrow> bool" where
  "can_send s = (rs_closed s \<or> length (rs_chan s) < 5)"

definition write_returns_to :: "bool \<Rightarrow> 'b thread" where
  "write_returns_to flush = (if flush then T_Wait else T_Done)"

inductive thread_step :: "'b thread \<times> 'b rs_state \<Rightarrow> 'b thread \<times> 'b rs_state \<Rightarrow> bool" where
  write_on: "rs_enabled s \<Longrightarrow> thread_step (T_Write b, s) (T_Send b, s)"
| write_off: "\<not> rs_enabled s \<Longrightarrow> thread_step (T_Write b, s) (T_Select False, s)"
| send: "can_send s \<Longrightarrow> thread_step (T_Send b, s) (T_Done, rs_send b s)"
| send_cancelled: "thread_step (T_Send b, s) (T_Done, s)"
| flush: "thread_step (T_Flush, s) (T_Select True, s\<lparr>rs_enabled := False\<rparr>)"
| peek: "rs_chan s = b # bs \<Longrightarrow> thread_step (T_Select f, s) (T_Resend f b, s\<lparr>rs_chan := bs\<rparr>)"
| peek_closed: "rs_chan s = [] \<Longrightarrow> rs_closed s \<Longrightarrow> thread_step (T_Select f, s) (write_returns_to f, s)"
| select_default: "rs_chan s = [] \<Longrightarrow> \<not> rs_closed s \<Longrightarrow> thread_step (T_Select f, s) (write_returns_to f, rs_close s)"
| select_cancelled: "thread_step (T_Select False, s) (T_Done, rs_close s)"
| resend: "can_send s \<Longrightarrow> thread_step (T_Resend f b, s) (T_Close f, rs_send b s)"
| close: "thread_step (T_Close f, s) (write_returns_to f, rs_close s)"
| wait: "\<not> rs_worker s \<Longrightarrow> thread_step (T_Wait, s) (T_Done, initWorker s)"

inductive worker_step :: "'b rs_state \<Rightarrow> 'b rs_state \<Rightarrow> bool" where
  log_batch: "rs_worker s \<Longrightarrow> rs_chan s = b # bs \<Longrightarrow> worker_step s (s\<lparr>rs_chan := bs, rs_logged := rs_logged s @ [b]\<rparr>)"
| worker_ends: "rs_worker s \<Longrightarrow> rs_chan s = [] \<Longrightarrow> rs_closed s \<Longrightarrow> worker_step s (s\<lparr>rs_worker := False\<rparr>)"

text \<open>A step of the process: of the worker or of one thread, as long as nothing has panicked.\<close>

inductive pump_step :: "'b thread list \<times> 'b rs_state \<Rightarrow> 'b thread list \<times> 'b rs_state \<Rightarrow> bool" where
  worker: "\<not> rs_panic s \<Longrightarrow> worker_step s s' \<Longrightarrow> pump_step (ts, s) (ts, s')"
| thread: "\<not> rs_panic s \<Longrightarrow> i < length ts \<Longrightarrow> thread_step (ts ! i, s) (t, s') \<Longrightarrow> pump_step (ts, s) (ts[i := t], s')"

inductive_cases thread_stepE: "thread_step (t, s) (t', s')"
inductive_cases worker_stepE: "worker_step s s'"
inductive_cases pump_stepE: "pump_step (ts, s) c"

text \<open>The pump after \<open>Init\<close>, with batches that wait.\<close>

definition rs_running :: "'b list \<Rightarrow> 'b rs_state" where
  "rs_running bs = \<lparr>rs_chan = bs, rs_closed = False, rs_worker = True, rs_enabled = True, rs_logged = [], rs_panic = False\<rparr>"

section \<open>A flush on its own\<close>

text \<open>
  The invariant of a flush that nothing overlaps, for the batches \<open>bs\<close> that were waiting: which of them
  are logged, in the channel or in the hands of the flush.
\<close>

fun flush_inv :: "'b list \<Rightarrow> 'b thread \<Rightarrow> 'b rs_state \<Rightarrow> bool" where
  "flush_inv bs T_Flush s = (\<not> rs_closed s \<and> rs_worker s \<and> length (rs_chan s) \<le> 5 \<and> mset (rs_logged s @ rs_chan s) = mset bs)"
| "flush_inv bs (T_Select f) s = (f \<and> \<not> rs_closed s \<and> rs_worker s \<and> length (rs_chan s) \<le> 5 \<and> mset (rs_logged s @ rs_chan s) = mset bs)"
| "flush_inv bs (T_Resend f b) s = (f \<and> \<not> rs_closed s \<and> rs_worker s \<and> length (rs_chan s) < 5 \<and> mset (b # rs_logged s @ rs_chan s) = mset bs)"
| "flush_inv bs (T_Close f) s = (f \<and> \<not> rs_closed s \<and> rs_worker s \<and> length (rs_chan s) \<le> 5 \<and> mset (rs_logged s @ rs_chan s) = mset bs)"
| "flush_inv bs T_Wait s = (rs_closed s \<and> (rs_worker s \<or> rs_chan s = []) \<and> mset (rs_logged s @ rs_chan s) = mset bs)"
| "flush_inv bs T_Done s = (\<not> rs_closed s \<and> rs_worker s \<and> rs_enabled s \<and> rs_chan s = [] \<and> mset (rs_logged s) = mset bs)"
| "flush_inv bs _ s = False"

definition flush_ok :: "'b list \<Rightarrow> 'b thread list \<times> 'b rs_state \<Rightarrow> bool" where
  "flush_ok bs c = (\<exists>t. fst c = [t] \<and> \<not> rs_panic (snd c) \<and> flush_inv bs t (snd c))"

lemma flush_worker_step: "worker_step s s' \<Longrightarrow> flush_inv bs t s \<Longrightarrow> flush_inv bs t s' \<and> rs_panic s' = rs_panic s"
  by (erule worker_stepE; cases t) auto

lemma flush_thread_step:
  "thread_step (t, s) (t', s') \<Longrightarrow> flush_inv bs t s \<Longrightarrow> \<not> rs_panic s \<Longrightarrow> flush_inv bs t' s' \<and> \<not> rs_panic s'"
  by (erule thread_stepE)
     (auto simp: write_returns_to_def rs_send_def rs_close_def initWorker_def can_send_def)

lemma flush_ok_step: "pump_step c c' \<Longrightarrow> flush_ok bs c \<Longrightarrow> flush_ok bs c'"
  unfolding flush_ok_def
  by (cases c; clarsimp, erule pump_stepE) (auto dest: flush_worker_step flush_thread_step)

lemma resurface_Init_runs:
  "resurface_Init NewHttpLogger Enabled conf \<lparr>rs_chan = [], rs_closed = False, rs_worker = False, rs_enabled = False, rs_logged = [], rs_panic = False\<rparr> =
     Inr (l, s) \<Longrightarrow> s = rs_running []"
  by (auto simp: resurface_Init_def rbind_eq_Inr initWorker_def rs_running_def split: if_splits)

lemma flush_ok_init: "length bs \<le> 5 \<Longrightarrow> flush_ok bs ([T_Flush], rs_running bs)"
  by (simp add: flush_ok_def rs_running_def)

lemma flush_ok_run: "(pump_step ^^ n) ([T_Flush], rs_running bs) c \<Longrightarrow> length bs \<le> 5 \<Longrightarrow> flush_ok bs c"
  by (induction n arbitrary: c) (auto simp: flush_ok_init intro: flush_ok_step)

text \<open>Every step brings the flush nearer to its end.\<close>

fun thread_rank :: "'b thread \<Rightarrow> nat" where
  "thread_rank T_Flush = 5"
| "thread_rank (T_Select f) = 4"
| "thread_rank (T_Resend f b) = 4"
| "thread_rank (T_Close f) = 2"
| "thread_rank T_Wait = 1"
| "thread_rank _ = 0"

definition flush_rank :: "'b thread list \<times> 'b rs_state \<Rightarrow> nat" where
  "flush_rank c = sum_list (map thread_rank (fst c)) + length (rs_chan (snd c)) +
     (if rs_worker (snd c) \<and> fst c \<noteq> [T_Done] then 1 else 0)"

lemma flush_rank_step: "pump_step c c' \<Longrightarrow> flush_ok bs c \<Longrightarrow> flush_rank c' < flush_rank c"
  unfolding flush_ok_def
  by (cases c; clarsimp, erule pump_stepE)
     (auto simp: flush_rank_def write_returns_to_def rs_send_def rs_close_def initWorker_def elim!: thread_stepE worker_stepE)

lemma flush_rank_run:
  "(pump_step ^^ n) ([T_Flush], rs_running bs) c \<Longrightarrow> length bs \<le> 5 \<Longrightarrow> n + flush_rank c \<le> 6 + length bs"
proof (induction n arbitrary: c)
  case 0
  then have "c = ([T_Flush], rs_running bs)" by simp
  then show ?case by (simp add: flush_rank_def rs_running_def)
next
  case (Suc n)
  then obtain d where d: "(pump_step ^^ n) ([T_Flush], rs_running bs) d" "pump_step d c" by auto
  with Suc.IH [OF d(1)] Suc.prems(2) flush_rank_step [OF d(2) flush_ok_run [OF d(1)]] show ?case by simp
qed

lemma flush_progress: "flush_ok bs c \<Longrightarrow> fst c \<noteq> [T_Done] \<Longrightarrow> \<exists>c'. pump_step c c'"
proof -
  assume ok: "flush_ok bs c" and "fst c \<noteq> [T_Done]"
  then obtain t s where c: "c = ([t], s)" "\<not> rs_panic s" "flush_inv bs t s" "t \<noteq> T_Done" by (cases c) (auto simp: flush_ok_def)
  have thread': "\<exists>c'. pump_step c c'" if "thread_step (t, s) (t', s')" for t' s'
    using pump_step.thread [of s 0 "[t]" t' s'] that c by auto
  have worker': "\<exists>c'. pump_step c c'" if "worker_step s s'" for s'
    using pump_step.worker [OF c(2) that] c by auto
  show ?thesis
  proof (cases t)
    case (T_Select f)
    show ?thesis
    proof (cases "rs_chan s")
      case Nil
      with c(3) T_Select have "thread_step (t, s) (write_returns_to f, rs_close s)" by (simp add: thread_step.select_default)
      then show ?thesis by (rule thread')
    next
      case (Cons b bs')
      then have "thread_step (t, s) (T_Resend f b, s\<lparr>rs_chan := bs'\<rparr>)" unfolding T_Select by (rule thread_step.peek)
      then show ?thesis by (rule thread')
    qed
  next
    case T_Wait
    show ?thesis
    proof (cases "rs_worker s")
      case True
      with c(3) T_Wait have "\<exists>s'. worker_step s s'"
        by (cases "rs_chan s") (auto intro: worker_step.log_batch worker_step.worker_ends)
      then show ?thesis by (blast intro: worker')
    next
      case False
      with T_Wait have "thread_step (t, s) (T_Done, initWorker s)" by (simp add: thread_step.wait)
      then show ?thesis by (rule thread')
    qed
  next
    case (T_Resend f b)
    with c(3) have "thread_step (t, s) (T_Close f, rs_send b s)" by (simp add: thread_step.resend can_send_def)
    then show ?thesis by (rule thread')
  next
    case T_Flush
    then show ?thesis using thread' [OF thread_step.flush [of s, folded T_Flush]] by blast
  next
    case (T_Close f)
    then show ?thesis using thread' [OF thread_step.close [of f s, folded T_Close]] by blast
  qed (use c in auto)
qed


lemma thread_at:
  "\<not> rs_panic s \<Longrightarrow> thread_step (t, s) (t', s') \<Longrightarrow> pump_step (ts @ t # us, s) (ts @ t' # us, s')"
  using pump_step.thread [of s "length ts" "ts @ t # us" t' s'] by simp

lemmas one_thread = thread_at [of _ _ _ _ "[]" "[]", simplified]
lemmas second_thread = thread_at [of _ _ _ _ "[u]" "[]" for u, simplified]

text \<open>Batches that a flush finds waiting can change their order: it takes the first and sends it again.\<close>

lemma resurface_Flush_reorders:
  "\<exists>s. pump_step\<^sup>*\<^sup>* ([T_Flush], rs_running [b, b']) ([T_Wait], s) \<and> rs_logged s @ rs_chan s = [b', b]"
proof -
  let ?s = "\<lambda>bs c. \<lparr>rs_chan = bs, rs_closed = c, rs_worker = True, rs_enabled = False, rs_logged = [], rs_panic = False\<rparr>"
  have "pump_step ([T_Flush], rs_running [b, b']) ([T_Select True], ?s [b, b'] False)"
    by (rule one_thread) (use thread_step.flush [of "rs_running [b, b']"] in \<open>simp_all add: rs_running_def\<close>)
  moreover have "pump_step ([T_Select True], ?s [b, b'] False) ([T_Resend True b], ?s [b'] False)"
    by (rule one_thread) (use thread_step.peek [of "?s [b, b'] False" b "[b']" True] in simp_all)
  moreover have "pump_step ([T_Resend True b], ?s [b'] False) ([T_Close True], ?s [b', b] False)"
    by (rule one_thread) (use thread_step.resend [of "?s [b'] False" True b] in \<open>simp_all add: can_send_def rs_send_def\<close>)
  moreover have "pump_step ([T_Close True], ?s [b', b] False) ([T_Wait], ?s [b', b] True)"
    by (rule one_thread) (use thread_step.close [of True "?s [b', b] False"] in \<open>simp_all add: rs_close_def write_returns_to_def\<close>)
  ultimately have "pump_step\<^sup>*\<^sup>* ([T_Flush], rs_running [b, b']) ([T_Wait], ?s [b', b] True)"
    by (meson rtranclp.rtrancl_refl rtranclp.rtrancl_into_rtrancl)
  then show ?thesis by (intro exI [of _ "?s [b', b] True"]) simp
qed

text \<open>A write that found the pump enabled before a flush began sends on the closed channel.\<close>

lemma resurface_overlap_panics:
  "\<exists>ts s. pump_step\<^sup>*\<^sup>* ([T_Write b, T_Flush], rs_running []) (ts, s) \<and> rs_panic s"
proof -
  let ?s = "\<lambda>e c p. \<lparr>rs_chan = [], rs_closed = c, rs_worker = True, rs_enabled = e, rs_logged = [], rs_panic = p\<rparr>"
  have "pump_step ([T_Write b, T_Flush], rs_running []) ([T_Send b, T_Flush], ?s True False False)"
    using thread_at [of "rs_running []" "T_Write b" "T_Send b" "rs_running []" "[]" "[T_Flush]"] thread_step.write_on [of "rs_running []" b]
    by (simp add: rs_running_def)
  moreover have "pump_step ([T_Send b, T_Flush], ?s True False False) ([T_Send b, T_Select True], ?s False False False)"
    by (rule second_thread) (use thread_step.flush [of "?s True False False"] in simp_all)
  moreover have "pump_step ([T_Send b, T_Select True], ?s False False False) ([T_Send b, T_Wait], ?s False True False)"
    by (rule second_thread)
       (use thread_step.select_default [of "?s False False False" True] in \<open>simp_all add: write_returns_to_def rs_close_def\<close>)
  moreover have "pump_step ([T_Send b, T_Wait], ?s False True False) ([T_Done, T_Wait], ?s False True True)"
    using thread_at [of "?s False True False" "T_Send b" T_Done "?s False True True" "[]" "[T_Wait]"] thread_step.send [of "?s False True False" b]
    by (simp add: can_send_def rs_send_def)
  ultimately have "pump_step\<^sup>*\<^sup>* ([T_Write b, T_Flush], rs_running []) ([T_Done, T_Wait], ?s False True True)"
    by (meson rtranclp.rtrancl_refl rtranclp.rtrancl_into_rtrancl)
  then show ?thesis by (intro exI [of _ "[T_Done, T_Wait]"] exI [of _ "?s False True True"]) simp
qed



end
