(* ===== verification/Kafka.thy ===== *)
theory Kafka
  imports Event_Values GoFloat
begin

text \<open>
  The Kafka pump, \<open>src/pumps/kafka.go\<close>, with \<open>NewTLSConfig\<close> of \<open>src/pumps/common.go\<close>: the TLS
  configuration, the SASL mechanism, the timeout in its different forms, the writer's configuration, the
  message of a record and the write. The file system, the certificate parsers, the parsers of durations
  and floats, the JSON codec and the Kafka client are parameters. The lemmas: when a TLS configuration
  is refused, what a timeout means in each form, and what a write sends.
\<close>

section \<open>TLS\<close>

record tls_conf =
  tl_CertFile :: string
  tl_KeyFile :: string
  tl_CAFile :: string
  tl_ServerName :: string
  tl_InsecureSkipVerify :: bool

record ('c, 'p) tls_config =
  tx_InsecureSkipVerify :: bool
  tx_ServerName :: string
  tx_Certificates :: "'c list"
  tx_RootCAs :: "'p option"

definition NewTLSConfig ::
  "(string \<Rightarrow> string \<Rightarrow> 'c option) \<Rightarrow> (string \<Rightarrow> string option) \<Rightarrow> (string \<Rightarrow> 'p option) \<Rightarrow> bool \<Rightarrow> tls_conf \<Rightarrow>
     ('c, 'p) tls_config res" where
  "NewTLSConfig LoadX509KeyPair ReadFile AppendCertsFromPEM has_log cfg =
     (if \<not> has_log then Inl (GoErr ''logger cannot be nil'')
      else
        rbind (if tl_CertFile cfg \<noteq> [] \<and> tl_KeyFile cfg \<noteq> []
               then (case LoadX509KeyPair (tl_CertFile cfg) (tl_KeyFile cfg) of
                   None \<Rightarrow> Inl (GoErr ''failed to load cert/key pair'') | Some cert \<Rightarrow> Inr [cert])
               else Inr []) (\<lambda>certs.
        rbind (if tl_CAFile cfg \<noteq> []
               then (case ReadFile (tl_CAFile cfg) of None \<Rightarrow> Inl (GoErr ''failed to read CA certificate file'')
                 | Some caPem \<Rightarrow> (case AppendCertsFromPEM caPem of
                     None \<Rightarrow> Inl (GoErr ''failed to parse CA certificate from file'') | Some pool \<Rightarrow> Inr (Some pool)))
               else Inr None) (\<lambda>pool.
          Inr \<lparr>tx_InsecureSkipVerify = tl_InsecureSkipVerify cfg, tx_ServerName = tl_ServerName cfg,
               tx_Certificates = certs, tx_RootCAs = pool\<rparr>)))"

text \<open>The warnings the function logs, for the same configuration.\<close>

definition tls_warnings :: "tls_conf \<Rightarrow> string list" where
  "tls_warnings cfg =
     (if (tl_CertFile cfg = []) \<noteq> (tl_KeyFile cfg = []) then [''set both to enable mTLS''] else []) @
     (if tl_InsecureSkipVerify cfg then [''Server certificate validation will be skipped''] else [])"

section \<open>Configuration\<close>

text \<open>A timeout is what the decoder found: a text, a number, or anything else.\<close>

datatype timeout_value = TO_string string | TO_float f64 | TO_other

record kafka_conf =
  kc_EnvPrefix :: string
  kc_Broker :: "string list"
  kc_ClientId :: string
  kc_Topic :: string
  kc_Timeout :: timeout_value
  kc_Compressed :: bool
  kc_MetaData :: "(string, string) gomap"
  kc_UseSSL :: bool
  kc_SSLInsecureSkipVerify :: bool
  kc_SSLCertFile :: string
  kc_SSLKeyFile :: string
  kc_SSLCAFile :: string
  kc_SASLMechanism :: string
  kc_Username :: string
  kc_Password :: string
  kc_Algorithm :: string
  kc_BatchBytes :: i64

fun f_mul :: "f64 \<Rightarrow> f64 \<Rightarrow> f64" where
  "f_mul (Fin x) (Fin y) = Fin (fl (x * y))"
| "f_mul (Inf a) (Inf b) = Inf (a \<noteq> b)"
| "f_mul (Inf a) (Fin y) = (if y = 0 then NaN else Inf (a \<noteq> (y < 0)))"
| "f_mul (Fin x) (Inf b) = (if x = 0 then NaN else Inf (b \<noteq> (x < 0)))"
| "f_mul _ _ = NaN"

text \<open>
  A text is a duration or else a number of seconds; a number is truncated to whole seconds. What cannot
  be parsed ends the process, any other value is no timeout.
\<close>

definition kafka_timeout :: "(string \<Rightarrow> i64 option) \<Rightarrow> (string \<Rightarrow> f64 option) \<Rightarrow> timeout_value \<Rightarrow> i64 res" where
  "kafka_timeout ParseDuration ParseFloat v =
     (case v of
        TO_string s \<Rightarrow> (case ParseDuration s of Some d \<Rightarrow> Inr d
          | None \<Rightarrow> (case ParseFloat s of None \<Rightarrow> Inl (GoPanic ''exit: Failed to parse timeout'')
              | Some x \<Rightarrow> Inr (of_int (f_to_int (f_mul x (f_of_int dur_second))))))
      | TO_float x \<Rightarrow> Inr (of_int (f_to_int x) * dur_second)
      | TO_other \<Rightarrow> Inr 0)"

datatype 'm sasl_mechanism = Plain string string | Scram 'm

definition kafka_mechanism :: "(bool \<Rightarrow> string \<Rightarrow> string \<Rightarrow> 'm option) \<Rightarrow> kafka_conf \<Rightarrow> 'm sasl_mechanism option res" where
  "kafka_mechanism scramMechanism conf =
     (if kc_SASLMechanism conf = [] then Inr None
      else if kc_SASLMechanism conf \<in> set [''PLAIN'', ''plain''] then Inr (Some (Plain (kc_Username conf) (kc_Password conf)))
      else if kc_SASLMechanism conf \<in> set [''SCRAM'', ''scram'']
      then (case scramMechanism (kc_Algorithm conf \<in> set [''sha-512'', ''SHA-512'']) (kc_Username conf) (kc_Password conf) of
          None \<Rightarrow> Inl (GoPanic ''exit: Failed initialize kafka mechanism'') | Some m \<Rightarrow> Inr (Some (Scram m)))
      else Inr None)"

record ('c, 'p, 'm) writer_config =
  wc_Brokers :: "string list"
  wc_Topic :: string
  wc_ClientID :: string
  wc_TLS :: "('c, 'p) tls_config option"
  wc_SASLMechanism :: "'m sasl_mechanism option"
  wc_DialTimeout :: i64
  wc_WriteTimeout :: i64
  wc_ReadTimeout :: i64
  wc_Compressed :: bool
  wc_BatchBytes :: i64

text \<open>
  \<open>Init\<close> after decoding and the environment variables of the pump, of which the timeout is read by its
  own name; \<open>batchBytes\<close> is what the writer's configuration holds before.
\<close>

definition kafka_Init ::
  "(string \<Rightarrow> string \<Rightarrow> 'c option) \<Rightarrow> (string \<Rightarrow> string option) \<Rightarrow> (string \<Rightarrow> 'p option) \<Rightarrow>
     (bool \<Rightarrow> string \<Rightarrow> string \<Rightarrow> 'm option) \<Rightarrow> (string \<Rightarrow> i64 option) \<Rightarrow> (string \<Rightarrow> f64 option) \<Rightarrow> (string \<Rightarrow> string) \<Rightarrow>
     i64 \<Rightarrow> kafka_conf \<Rightarrow> ('c, 'p, 'm) writer_config res" where
  "kafka_Init LoadX509KeyPair ReadFile AppendCertsFromPEM scramMechanism ParseDuration ParseFloat getenv batchBytes conf =
     (let env = getenv ''TYK_PMP_PUMPS_KAFKA_META_TIMEOUT'';
          conf = (if env \<noteq> [] then conf\<lparr>kc_Timeout := TO_string env\<rparr> else conf)
      in
      rbind (if kc_UseSSL conf
             then (case NewTLSConfig LoadX509KeyPair ReadFile AppendCertsFromPEM True
                     \<lparr>tl_CertFile = kc_SSLCertFile conf, tl_KeyFile = kc_SSLKeyFile conf, tl_CAFile = kc_SSLCAFile conf,
                      tl_ServerName = [], tl_InsecureSkipVerify = kc_SSLInsecureSkipVerify conf\<rparr> of
                 Inl (GoErr e) \<Rightarrow> Inl (GoErr (''failed to initialize Kafka pump SSL configuration: '' @ e))
               | Inl (GoPanic p) \<Rightarrow> Inl (GoPanic p)
               | Inr t \<Rightarrow> Inr (Some t))
             else Inr None) (\<lambda>tls.
      rbind (kafka_mechanism scramMechanism conf) (\<lambda>mechanism.
      rbind (kafka_timeout ParseDuration ParseFloat (kc_Timeout conf)) (\<lambda>timeout.
        Inr \<lparr>wc_Brokers = kc_Broker conf, wc_Topic = kc_Topic conf, wc_ClientID = kc_ClientId conf, wc_TLS = tls,
             wc_SASLMechanism = mechanism, wc_DialTimeout = timeout, wc_WriteTimeout = timeout, wc_ReadTimeout = timeout,
             wc_Compressed = kc_Compressed conf,
             wc_BatchBytes = (if i64_lt (kc_BatchBytes conf) 0 then batchBytes else kc_BatchBytes conf)\<rparr>))))"

section \<open>Messages\<close>

definition kafka_fields :: "analytics_record \<Rightarrow> event" where
  "kafka_fields decoded = event_of
     [(''timestamp'', JTime (r_TimeStamp decoded)), (''method'', JStr (r_Method decoded)), (''path'', JStr (r_Path decoded)),
      (''raw_path'', JStr (r_RawPath decoded)), (''response_code'', JInt (r_ResponseCode decoded)), (''alias'', JStr (r_Alias decoded)),
      (''api_key'', JStr (r_APIKey decoded)), (''api_version'', JStr (r_APIVersion decoded)), (''api_name'', JStr (r_APIName decoded)),
      (''api_id'', JStr (r_APIID decoded)), (''org_id'', JStr (r_OrgID decoded)), (''oauth_id'', JStr (r_OauthID decoded)),
      (''raw_request'', JStr (r_RawRequest decoded)), (''request_time_ms'', JInt (r_RequestTime decoded)),
      (''raw_response'', JStr (r_RawResponse decoded)), (''ip_address'', JStr (r_IPAddress decoded)), (''host'', JStr (r_Host decoded)),
      (''content_length'', JInt (r_ContentLength decoded)), (''user_agent'', JStr (r_UserAgent decoded)), (''tags'', JTags (r_Tags decoded))]"

definition kafka_message :: "kafka_conf \<Rightarrow> analytics_record \<Rightarrow> event" where
  "kafka_message conf decoded = fold (\<lambda>(k, v) m. gomap_set m k (JStr v)) (kc_MetaData conf) (kafka_fields decoded)"

text \<open>The values of the messages; one that cannot be rendered is logged and sent without a value.\<close>

fun kafka_messages :: "(event \<Rightarrow> string option) \<Rightarrow> kafka_conf \<Rightarrow> item list \<Rightarrow> string option list res" where
  "kafka_messages marshal conf [] = Inr []"
| "kafka_messages marshal conf (v # vs) =
     rbind (assert_record v) (\<lambda>decoded.
     rbind (kafka_messages marshal conf vs) (\<lambda>ms. Inr (marshal (kafka_message conf decoded) # ms)))"

definition kafka_WriteData ::
  "(event \<Rightarrow> string option) \<Rightarrow> (('c, 'p, 'm) writer_config \<Rightarrow> string option list \<Rightarrow> ('s, unit) io) \<Rightarrow>
     ('c, 'p, 'm) writer_config \<Rightarrow> kafka_conf \<Rightarrow> item list \<Rightarrow> ('s, unit) io" where
  "kafka_WriteData marshal WriteMessages writerConfig conf data =
     io_bind (io_res (kafka_messages marshal conf data)) (\<lambda>messages. io_log (WriteMessages writerConfig messages))"

section \<open>Properties\<close>

text \<open>
  A TLS configuration is made exactly if there is a logger, the certificate pair that is named in full
  loads and the named file of authorities is read and parsed; with half a pair there is no client
  certificate, and verification is switched off only by the setting for it.
\<close>

lemma NewTLSConfig_made:
  "(\<exists>t. NewTLSConfig pair file pem has_log cfg = Inr t) \<longleftrightarrow>
     has_log \<and> (tl_CertFile cfg = [] \<or> tl_KeyFile cfg = [] \<or> pair (tl_CertFile cfg) (tl_KeyFile cfg) \<noteq> None) \<and>
     (tl_CAFile cfg = [] \<or> (\<exists>p. file (tl_CAFile cfg) = Some p \<and> pem p \<noteq> None))"
  by (auto simp: NewTLSConfig_def split: option.splits if_splits)

lemma NewTLSConfig_fields:
  "NewTLSConfig pair file pem has_log cfg = Inr t \<Longrightarrow>
     tx_InsecureSkipVerify t = tl_InsecureSkipVerify cfg \<and>
     (tx_Certificates t = [] \<longleftrightarrow> tl_CertFile cfg = [] \<or> tl_KeyFile cfg = []) \<and> (tx_RootCAs t = None \<longleftrightarrow> tl_CAFile cfg = [])"
  by (auto simp: NewTLSConfig_def split: option.splits if_splits)

text \<open>
  A whole number of seconds below two months means the same as a number and as a text that is a
  number, but a fraction is cut off a number and kept of a text: half a second is no timeout at all as
  a number.
\<close>

lemma kafka_timeout_forms:
  "0 \<le> n \<Longrightarrow> n < 9000000 \<Longrightarrow> ParseDuration s = None \<Longrightarrow> ParseFloat s = Some (Fin (of_int n)) \<Longrightarrow>
     kafka_timeout ParseDuration ParseFloat (TO_string s) = kafka_timeout ParseDuration ParseFloat (TO_float (Fin (of_int n)))"
  "kafka_timeout ParseDuration ParseFloat (TO_float (Fin (1 / 2))) = Inr 0"
proof -
  assume n: "0 \<le> n" "n < 9000000" and p: "ParseDuration s = None" "ParseFloat s = Some (Fin (of_int n))"
  have sec: "f_of_int dur_second = Fin (of_int 1000000000)"
    using f_of_int_exact [of dur_second] by (simp add: dur_second_def)
  have "\<bar>n * 1000000000\<bar> < 2 ^ 53" using n by simp
  then have "fl (of_int n * of_int 1000000000) = of_int (n * 1000000000)"
    by (metis fl_of_int of_int_mult)
  then have "f_mul (Fin (of_int n)) (f_of_int dur_second) = Fin (of_int (n * 1000000000))" unfolding sec by simp
  moreover have whole: "f_to_int (Fin (of_int m)) = m" if "0 \<le> m" "m < 2 ^ 63" for m
    using that by (simp add: f_to_int_def Let_def)
  from n have "0 \<le> n * 1000000000" "n * 1000000000 < 2 ^ 63" "n < 2 ^ 63" by simp_all
  ultimately have "f_to_int (f_mul (Fin (of_int n)) (f_of_int dur_second)) = n * 1000000000" "f_to_int (Fin (of_int n)) = n"
    using whole n(1) by metis+
  then show "kafka_timeout ParseDuration ParseFloat (TO_string s) = kafka_timeout ParseDuration ParseFloat (TO_float (Fin (of_int n)))"
    by (simp add: kafka_timeout_def p) (simp add: dur_second_def)
next
  show "kafka_timeout ParseDuration ParseFloat (TO_float (Fin (1 / 2))) = Inr 0"
    using floor_eq_iff [of "1 / 2 :: rat" 0] by (simp add: kafka_timeout_def f_to_int_def Let_def)
qed

text \<open>The metadata of the configuration replace the fields of the record.\<close>

lemma kafka_message_get:
  "gomap_get (kafka_message conf r) k =
     (case gomap_get (rev (kc_MetaData conf)) k of Some v \<Rightarrow> Some (JStr v) | None \<Rightarrow> gomap_get (kafka_fields r) k)"
proof -
  have "gomap_get (fold (\<lambda>(k, v) m. gomap_set m k (JStr v)) md m) k =
      (case gomap_get (rev md) k of Some v \<Rightarrow> Some (JStr v) | None \<Rightarrow> gomap_get m k)" for md :: "(string, string) gomap" and m
    by (induction md arbitrary: m) (auto simp: update_conv' map_add_def split: option.splits)
  then show ?thesis by (simp add: kafka_message_def)
qed

text \<open>
  A write sends all records of the batch in one call, one message for each in their order, with the
  metadata in place of the fields of the same name, and returns no error whatever the client returns.
\<close>

theorem kafka_WriteData_sends:
  assumes "\<And>ms s. WriteMessages wc ms s = (if fails s then Inl (GoErr err) else Inr (), s @ [ms])"
  shows "kafka_WriteData marshal WriteMessages wc conf (map ItemRecord rs) s =
    (Inr (), s @ [map (\<lambda>r. marshal (kafka_message conf r)) rs])"
proof -
  have m: "kafka_messages marshal conf (map ItemRecord rs) = Inr (map (\<lambda>r. marshal (kafka_message conf r)) rs)"
    by (induction rs) simp_all
  show ?thesis unfolding kafka_WriteData_def m 
    by (cases "fails s") (simp_all add: io_log_run assms)
qed

section \<open>Witnesses\<close>

definition sample_kafka_conf :: kafka_conf where
  "sample_kafka_conf = \<lparr>kc_EnvPrefix = [], kc_Broker = [''localhost:9092''], kc_ClientId = ''tyk'', kc_Topic = ''hits'',
     kc_Timeout = TO_float (Fin 60), kc_Compressed = False, kc_MetaData = [(''method'', ''x'')], kc_UseSSL = False,
     kc_SSLInsecureSkipVerify = False, kc_SSLCertFile = [], kc_SSLKeyFile = [], kc_SSLCAFile = [], kc_SASLMechanism = [],
     kc_Username = [], kc_Password = [], kc_Algorithm = [], kc_BatchBytes = 0\<rparr>"

definition sample_write_messages :: "(unit, unit, unit) writer_config \<Rightarrow> string option list \<Rightarrow> (string option list list, unit) io" where
  "sample_write_messages wc ms s = (if s = [] then Inl (GoErr ''down'') else Inr (), s @ [ms])"

definition sample_writer :: "(unit, unit, unit) writer_config" where
  "sample_writer = \<lparr>wc_Brokers = [], wc_Topic = ''hits'', wc_ClientID = [], wc_TLS = None, wc_SASLMechanism = None, wc_DialTimeout = 0,
     wc_WriteTimeout = 0, wc_ReadTimeout = 0, wc_Compressed = False, wc_BatchBytes = 0\<rparr>"

theorem kafka_WriteData_sends_witness:
  "kafka_WriteData (\<lambda>m. case gomap_get m ''method'' of Some (JStr v) \<Rightarrow> Some v | _ \<Rightarrow> None) sample_write_messages sample_writer sample_kafka_conf
     (map ItemRecord [record_zero]) [] = (Inr (), [[Some ''x'']])"
proof -
  have "gomap_get (kafka_message sample_kafka_conf record_zero) ''method'' = Some (JStr ''x'')"
    by (simp add: kafka_message_get sample_kafka_conf_def)
  then show ?thesis
    using kafka_WriteData_sends [of sample_write_messages sample_writer "\<lambda>s. s = []" "''down''" _ sample_kafka_conf "[record_zero]" "[]"]
    by (simp add: sample_write_messages_def)
qed

end
