(* ===== verification/Log_Pumps.thy ===== *)
theory Log_Pumps
  imports Event_Values
begin

text \<open>
  The pumps that hand each record to a log service: \<open>src/pumps/syslog.go\<close>, \<open>graylog.go\<close>,
  \<open>logzio.go\<close>, \<open>segment.go\<close>, and \<open>dummy.go\<close>, which hands on nothing. The clients, the JSON codec and
  the parser of durations are parameters; the printing of a Go map by package \<open>fmt\<close> is modelled. The
  lemmas: a syslog message is one line, a write stops only at the end of its context, the checks of the
  configurations, and which errors end the process.
\<close>

section \<open>Printing a map\<close>

text \<open>The values of the map: texts, numbers with the name of their type, times.\<close>

datatype fmt_val = FStr string | FInt string i64 | FTime gotime

text \<open>The verb \<open>%s\<close>: it is not defined for numbers, which are printed as bad arguments.\<close>

definition fmt_s :: "fmt_val \<Rightarrow> string" where
  "fmt_s v = (case v of FStr s \<Rightarrow> s | FInt t i \<Rightarrow> ''%!s('' @ t @ ''='' @ itoa i @ '')'' | FTime t \<Rightarrow> time_string t)"

definition fmt_map :: "(string, fmt_val) gomap \<Rightarrow> string" where
  "fmt_map m = ''map['' @ str_join '' ''
     (map (\<lambda>k. k @ '':'' @ (case gomap_get m k of None \<Rightarrow> [] | Some v \<Rightarrow> fmt_s v)) (sort (gomap_keys m))) @ '']''"

section \<open>Syslog\<close>

record syslog_conf =
  sl_EnvPrefix :: string
  sl_Transport :: string
  sl_NetworkAddr :: string
  sl_LogLevel :: i64
  sl_Tag :: string

definition syslog_initConfigs :: "syslog_conf \<Rightarrow> syslog_conf res" where
  "syslog_initConfigs conf =
     (let conf = (if sl_Transport conf = [] then conf\<lparr>sl_Transport := ''udp''\<rparr> else conf)
      in if sl_Transport conf \<noteq> ''udp'' \<and> sl_Transport conf \<noteq> ''tcp'' \<and> sl_Transport conf \<noteq> ''tls''
         then Inl (GoPanic ''exit: Chosen invalid Transport type'')
         else Inr (if sl_NetworkAddr conf = [] then conf\<lparr>sl_NetworkAddr := ''localhost:5140''\<rparr> else conf))"

definition syslog_initWriter :: "(string \<Rightarrow> string \<Rightarrow> i64 \<Rightarrow> string \<Rightarrow> 'w res) \<Rightarrow> syslog_conf \<Rightarrow> 'w res" where
  "syslog_initWriter Dial conf =
     (let tag = (if sl_Tag conf \<noteq> [] then sl_Tag conf else ''syslog-pump'')
      in (case Dial (sl_Transport conf) (sl_NetworkAddr conf) (sl_LogLevel conf) tag of
           Inl (GoErr e) \<Rightarrow> Inl (GoPanic (''exit: failed to connect to Syslog Daemon: '' @ e))
         | Inl (GoPanic p) \<Rightarrow> Inl (GoPanic p)
         | Inr w \<Rightarrow> Inr w))"

text \<open>The pump has its own timeout and filters beside those every pump embeds.\<close>

record syslog_pump =
  sp_timeout :: int
  sp_filters :: analytics_filters

definition syslog_SetTimeout :: "int \<Rightarrow> syslog_pump \<Rightarrow> syslog_pump" where
  "syslog_SetTimeout t p = p\<lparr>sp_timeout := t\<rparr>"

definition syslog_SetFilters :: "analytics_filters \<Rightarrow> syslog_pump \<Rightarrow> syslog_pump" where
  "syslog_SetFilters f p = p\<lparr>sp_filters := f\<rparr>"

text \<open>\<open>Init\<close> after decoding and the environment variables.\<close>

definition syslog_Init :: "(string \<Rightarrow> string \<Rightarrow> i64 \<Rightarrow> string \<Rightarrow> 'w res) \<Rightarrow> syslog_conf \<Rightarrow> (syslog_conf \<times> 'w) res" where
  "syslog_Init Dial conf =
     rbind (syslog_initConfigs conf) (\<lambda>conf. rbind (syslog_initWriter Dial conf) (\<lambda>w. Inr (conf, w)))"

definition escape_newlines :: "string \<Rightarrow> string" where
  "escape_newlines s = replace_char CHR 0x0A [CHR 0x5C, CHR ''n''] s"

definition syslog_fields :: "analytics_record \<Rightarrow> (string, fmt_val) gomap" where
  "syslog_fields decoded =
     [(''timestamp'', FTime (r_TimeStamp decoded)), (''method'', FStr (r_Method decoded)), (''path'', FStr (r_Path decoded)),
      (''raw_path'', FStr (r_RawPath decoded)), (''response_code'', FInt ''int'' (r_ResponseCode decoded)),
      (''alias'', FStr (r_Alias decoded)), (''api_key'', FStr (r_APIKey decoded)), (''api_version'', FStr (r_APIVersion decoded)),
      (''api_name'', FStr (r_APIName decoded)), (''api_id'', FStr (r_APIID decoded)), (''org_id'', FStr (r_OrgID decoded)),
      (''oauth_id'', FStr (r_OauthID decoded)), (''raw_request'', FStr (escape_newlines (r_RawRequest decoded))),
      (''request_time_ms'', FInt ''int64'' (r_RequestTime decoded)),
      (''raw_response'', FStr (escape_newlines (r_RawResponse decoded))), (''ip_address'', FStr (r_IPAddress decoded)),
      (''host'', FStr (r_Host decoded)), (''content_length'', FInt ''int64'' (r_ContentLength decoded)),
      (''user_agent'', FStr (r_UserAgent decoded))]"

definition syslog_message :: "analytics_record \<Rightarrow> string" where
  "syslog_message decoded = fmt_map (syslog_fields decoded)"

text \<open>The end of the context is looked for before each record; the result of a write is ignored.\<close>

fun syslog_WriteData :: "('s, bool) io \<Rightarrow> (string \<Rightarrow> ('s, unit) io) \<Rightarrow> item list \<Rightarrow> ('s, unit) io" where
  "syslog_WriteData ctxDone writer [] = io_ret ()"
| "syslog_WriteData ctxDone writer (v # vs) =
     io_bind ctxDone (\<lambda>over.
       if over then io_ret ()
       else io_bind (io_res (assert_record v)) (\<lambda>decoded.
            io_bind (io_log (writer (syslog_message decoded))) (\<lambda>_. syslog_WriteData ctxDone writer vs)))"

section \<open>Graylog\<close>

record graylog_conf =
  gl_EnvPrefix :: string
  gl_Host :: string
  gl_Port :: int
  gl_Tags :: "string list"

definition graylog_Init :: "(string \<Rightarrow> int \<Rightarrow> 'c) \<Rightarrow> graylog_conf \<Rightarrow> graylog_conf \<times> 'c" where
  "graylog_Init gelf_New conf =
     (let conf = (if gl_Host conf = [] then conf\<lparr>gl_Host := ''localhost''\<rparr> else conf);
          conf = (if gl_Port conf = 0 then conf\<lparr>gl_Port := 1000\<rparr> else conf)
      in (conf, gelf_New (gl_Host conf) (gl_Port conf)))"

definition graylog_mapping :: "analytics_record \<Rightarrow> string \<Rightarrow> string \<Rightarrow> event" where
  "graylog_mapping record rReq rResp =
     [(''method'', JStr (r_Method record)), (''path'', JStr (r_Path record)), (''response_code'', JInt (r_ResponseCode record)),
      (''api_key'', JStr (r_APIKey record)), (''api_version'', JStr (r_APIVersion record)), (''api_name'', JStr (r_APIName record)),
      (''api_id'', JStr (r_APIID record)), (''org_id'', JStr (r_OrgID record)), (''oauth_id'', JStr (r_OauthID record)),
      (''raw_request'', JStr rReq), (''request_time'', JInt (r_RequestTime record)), (''ip_address'', JStr (r_IPAddress record)),
      (''raw_response'', JStr rResp)]"

text \<open>The tags of the configuration choose the fields; a tag that is no field is left out.\<close>

definition graylog_message :: "graylog_conf \<Rightarrow> event \<Rightarrow> event" where
  "graylog_message conf mapping =
     fold (\<lambda>key m. (case gomap_get mapping key of Some v \<Rightarrow> gomap_set m key v | None \<Rightarrow> m)) (gl_Tags conf) []"

text \<open>A call of \<open>log.Fatal\<close> when a result is missing.\<close>

definition or_fatal :: "'a option \<Rightarrow> 'a res" where
  "or_fatal v = (case v of Some x \<Rightarrow> Inr x | None \<Rightarrow> Inl (GoPanic ''exit''))"

definition graylog_record ::
  "(event \<Rightarrow> string option) \<Rightarrow> ('c \<Rightarrow> string \<Rightarrow> ('s, unit) io) \<Rightarrow> graylog_conf \<Rightarrow> 'c \<Rightarrow> item \<Rightarrow> ('s, unit) io" where
  "graylog_record marshal clientLog conf client v =
     io_bind (io_res (rbind (assert_record v) (\<lambda>record.
         rbind (or_fatal (b64_decode (r_RawRequest record))) (\<lambda>rReq.
         rbind (or_fatal (b64_decode (r_RawResponse record))) (\<lambda>rResp.
         rbind (or_fatal (marshal (graylog_message conf (graylog_mapping record rReq rResp)))) (\<lambda>message.
           or_fatal (marshal [(''host'', JStr ''tyk-pumps''), (''timestamp'', JInt (time_unix (r_TimeStamp record))),
                              (''message'', JStr message)]))))))) (clientLog client)"

text \<open>
  The write; without a client it connects, calls itself and goes on. \<open>gelf.New\<close> always returns a
  client, so the call of itself has one.
\<close>

definition graylog_WriteData ::
  "(string \<Rightarrow> int \<Rightarrow> 'c) \<Rightarrow> (event \<Rightarrow> string option) \<Rightarrow> ('c \<Rightarrow> string \<Rightarrow> ('s, unit) io) \<Rightarrow> graylog_conf \<Rightarrow> 'c option \<Rightarrow> item list \<Rightarrow>
     ('s, unit) io" where
  "graylog_WriteData gelf_New marshal clientLog conf client data =
     (let loop = (\<lambda>c. io_for data (graylog_record marshal clientLog conf c))
      in (case client of Some c \<Rightarrow> loop c
          | None \<Rightarrow> (let c = gelf_New (gl_Host conf) (gl_Port conf) in io_bind (loop c) (\<lambda>_. loop c))))"

section \<open>Logz.io\<close>

record logzio_conf =
  lz_EnvPrefix :: string
  lz_CheckDiskSpace :: bool
  lz_DiskThreshold :: int
  lz_DrainDuration :: string
  lz_QueueDir :: string
  lz_Token :: string
  lz_URL :: string

definition NewLogzioPumpConfig :: "string \<Rightarrow> i64 \<Rightarrow> logzio_conf" where
  "NewLogzioPumpConfig tempDir now =
     \<lparr>lz_EnvPrefix = [], lz_CheckDiskSpace = True, lz_DiskThreshold = 98, lz_DrainDuration = ''3s'',
      lz_QueueDir = tempDir @ ''/logzio-buffer/'' @ itoa now, lz_Token = [], lz_URL = ''https://listener.logz.io:8071''\<rparr>"

definition NewLogzioClient ::
  "(string \<Rightarrow> i64 option) \<Rightarrow> (string \<Rightarrow> bool \<Rightarrow> int \<Rightarrow> i64 \<Rightarrow> string \<Rightarrow> string \<Rightarrow> 'c option) \<Rightarrow> logzio_conf \<Rightarrow> 'c res" where
  "NewLogzioClient ParseDuration lg_New conf =
     (if lz_Token conf = [] then Inl (GoErr ''token is required'')
      else (case ParseDuration (lz_DrainDuration conf) of
          None \<Rightarrow> Inl (GoErr ''failed to parse drain_duration'')
        | Some drainDuration \<Rightarrow>
            (if lz_DiskThreshold conf < 0 \<or> lz_DiskThreshold conf > 100
             then Inl (GoErr ''threshold has to be between 0 and 100'')
             else (case lg_New (lz_Token conf) (lz_CheckDiskSpace conf) (lz_DiskThreshold conf) drainDuration (lz_QueueDir conf) (lz_URL conf) of
                 None \<Rightarrow> Inl (GoErr ''failed to create new logzio sender'') | Some l \<Rightarrow> Inr l))))"

definition logzio_mapping :: "analytics_record \<Rightarrow> event" where
  "logzio_mapping decoded =
     [(''@timestamp'', JTime (r_TimeStamp decoded)), (''http_method'', JStr (r_Method decoded)), (''request_uri'', JStr (r_Path decoded)),
      (''response_code'', JInt (r_ResponseCode decoded)), (''api_key'', JStr (r_APIKey decoded)),
      (''api_version'', JStr (r_APIVersion decoded)), (''api_name'', JStr (r_APIName decoded)), (''api_id'', JStr (r_APIID decoded)),
      (''org_id'', JStr (r_OrgID decoded)), (''oauth_id'', JStr (r_OauthID decoded)), (''raw_request'', JStr (r_RawRequest decoded)),
      (''request_time_ms'', JInt (r_RequestTime decoded)), (''raw_response'', JStr (r_RawResponse decoded)),
      (''ip_address'', JStr (r_IPAddress decoded))]"

text \<open>The error of \<open>Send\<close> is ignored; one of the codec ends the loop.\<close>

definition logzio_WriteData :: "(event \<Rightarrow> string option) \<Rightarrow> (string \<Rightarrow> ('s, unit) io) \<Rightarrow> item list \<Rightarrow> ('s, unit) io" where
  "logzio_WriteData marshal send data =
     io_for data (\<lambda>v. io_bind (io_res (assert_record v)) (\<lambda>decoded.
       (case marshal (logzio_mapping decoded) of
          None \<Rightarrow> io_fail (GoErr ''failed to marshal decoded data'') | Some event \<Rightarrow> io_log (send event))))"

section \<open>Segment and the dummy pump\<close>

record segment_conf =
  sg_EnvPrefix :: string
  sg_WriteKey :: string

text \<open>\<open>Init\<close> of Segment after decoding and the environment variables.\<close>

definition segment_Init :: "(string \<Rightarrow> 'c) \<Rightarrow> segment_conf \<Rightarrow> 'c" where
  "segment_Init segment_New conf = segment_New (sg_WriteKey conf)"

text \<open>A record as JSON and back as a map of properties.\<close>

definition ToJSONMap :: "('a \<Rightarrow> string option) \<Rightarrow> (string \<Rightarrow> 'p option) \<Rightarrow> 'a \<Rightarrow> 'p option" where
  "ToJSONMap marshal unmarshal obj = (case marshal obj of None \<Rightarrow> None | Some ev \<Rightarrow> unmarshal ev)"

definition WriteDataRecord ::
  "(analytics_record \<Rightarrow> string option) \<Rightarrow> (string \<Rightarrow> 'p option) \<Rightarrow> (string \<Rightarrow> string \<Rightarrow> 'p \<Rightarrow> ('s, unit) io) \<Rightarrow> analytics_record \<Rightarrow> ('s, unit) io" where
  "WriteDataRecord marshal unmarshal track record =
     (case ToJSONMap marshal unmarshal record of None \<Rightarrow> io_ret ()
      | Some properties \<Rightarrow> io_log (track ''Hit'' (r_APIKey record) properties))"

definition segment_WriteData ::
  "(analytics_record \<Rightarrow> string option) \<Rightarrow> (string \<Rightarrow> 'p option) \<Rightarrow> (string \<Rightarrow> string \<Rightarrow> 'p \<Rightarrow> ('s, unit) io) \<Rightarrow> item list \<Rightarrow> ('s, unit) io" where
  "segment_WriteData marshal unmarshal track data =
     io_for data (\<lambda>v. io_bind (io_res (assert_record v)) (WriteDataRecord marshal unmarshal track))"

definition dummy_WriteData :: "item list \<Rightarrow> ('s, unit) io" where
  "dummy_WriteData data = io_ret ()"

section \<open>Properties\<close>

lemma set_str_join: "c \<in> set (str_join sep xs) \<Longrightarrow> c \<in> set sep \<or> (\<exists>x \<in> set xs. c \<in> set x)"
  by (induction sep xs rule: str_join.induct) auto

lemma itoa_no_newline: "CHR 0x0A \<notin> set (itoa x)"
proof -
  have "CHR 0x0A \<notin> set (dec_nat n)" for n using dec_nat_digits [of "CHR 0x0A" n] by auto
  then show ?thesis by (simp add: itoa_def dec_int_def)
qed

lemma fmt_map_one_line:
  assumes "\<And>k v. (k, v) \<in> set m \<Longrightarrow> CHR 0x0A \<notin> set k \<and> CHR 0x0A \<notin> set (fmt_s v)"
  shows "CHR 0x0A \<notin> set (fmt_map m)"
proof -
  let ?entry = "\<lambda>k. k @ '':'' @ (case gomap_get m k of None \<Rightarrow> [] | Some v \<Rightarrow> fmt_s v)"
  have entry: "CHR 0x0A \<notin> set (?entry k)" if k: "k \<in> set (gomap_keys m)" for k
  proof -
    from k obtain v where v: "gomap_get m k = Some v" by (auto simp: gomap_keys_get)
    with assms [OF map_of_SomeD [OF v]] show ?thesis by simp
  qed
  have "CHR 0x0A \<notin> set (str_join '' '' (map ?entry (sort (gomap_keys m))))"
  proof
    assume "CHR 0x0A \<in> set (str_join '' '' (map ?entry (sort (gomap_keys m))))"
    from set_str_join [OF this] have "\<exists>k \<in> set (gomap_keys m). CHR 0x0A \<in> set (?entry k)" by simp
    with entry show False by blast
  qed
  then show ?thesis by (simp add: fmt_map_def)
qed

text \<open>
  C38. A record becomes a syslog message of a single line, whatever its raw request and response hold, if
  none of its other texts has a newline.
\<close>

theorem syslog_message_one_line:
  assumes "list_all (\<lambda>s. CHR 0x0A \<notin> set s)
    [r_Method r, r_Path r, r_RawPath r, r_Alias r, r_APIKey r, r_APIVersion r, r_APIName r, r_APIID r, r_OrgID r, r_OauthID r,
     r_IPAddress r, r_Host r, r_UserAgent r, time_string (r_TimeStamp r)]"
  shows "CHR 0x0A \<notin> set (syslog_message r)"
proof -
  have esc: "CHR 0x0A \<notin> set (escape_newlines s)" for s
    unfolding escape_newlines_def by (rule replace_char_gone) simp
  have int: "CHR 0x0A \<notin> set (fmt_s (FInt t i))" if "CHR 0x0A \<notin> set t" for t i
    using that itoa_no_newline [of i] by (simp add: fmt_s_def)
  show ?thesis
    unfolding syslog_message_def syslog_fields_def
    by (rule fmt_map_one_line) (use assms in \<open>auto simp: esc int, auto simp: fmt_s_def esc\<close>)
qed

text \<open>
  A syslog write never returns an error: it hands the messages of the records on in their order until
  the context ends, and all of them if it does not.
\<close>

theorem syslog_WriteData_prefix:
  assumes "\<And>s. \<exists>b t. ctxDone s = (Inr b, t) \<and> view t = view s"
    and "\<And>m s. \<exists>r t. writer m s = (r, t) \<and> (\<forall>p. r \<noteq> Inl (GoPanic p)) \<and> view t = view s @ [m]"
  shows "\<exists>k t. k \<le> length rs \<and> syslog_WriteData ctxDone writer (map ItemRecord rs) s = (Inr (), t) \<and>
    view t = view s @ map syslog_message (take k rs) \<and> ((\<forall>s. fst (ctxDone s) \<noteq> Inr True) \<longrightarrow> k = length rs)"
proof (induction rs arbitrary: s)
  case Nil
  then show ?case by simp
next
  case (Cons r rs)
  obtain b t where t: "ctxDone s = (Inr b, t)" "view t = view s" using assms(1) by blast
  show ?case
  proof (cases b)
    case True
    then have "syslog_WriteData ctxDone writer (map ItemRecord (r # rs)) s = (Inr (), t)" using t by (simp add: io_bind_ok)
    with t True show ?thesis by (intro exI [of _ 0] exI [of _ t]) (auto intro: exI [of _ s])
  next
    case False
    obtain q u where u: "writer (syslog_message r) t = (q, u)" "\<forall>p. q \<noteq> Inl (GoPanic p)" "view u = view t @ [syslog_message r]"
      using assms(2) by blast
    have "io_log (writer (syslog_message r)) t = (Inr (), u)"
      using u(1,2) io_log_run [of "writer (syslog_message r)" t] by (cases q) (auto, metis go_error.exhaust)
    with t False have step: "syslog_WriteData ctxDone writer (map ItemRecord (r # rs)) s = syslog_WriteData ctxDone writer (map ItemRecord rs) u"
      by (simp add: io_bind_ok)
    from Cons.IH [of u] obtain k v where "k \<le> length rs" "syslog_WriteData ctxDone writer (map ItemRecord rs) u = (Inr (), v)"
      "view v = view u @ map syslog_message (take k rs)" "(\<forall>s. fst (ctxDone s) \<noteq> Inr True) \<longrightarrow> k = length rs" by blast
    with step u t show ?thesis by (intro exI [of _ "Suc k"] exI [of _ v]) simp
  qed
qed

text \<open>Numbers are printed as bad arguments of the verb, and a newline of another field breaks the line.\<close>

lemma syslog_prints_numbers_badly: "fmt_s (FInt ''int'' 200) = ''%!s(int=200)''"
  by code_simp

text \<open>The transports a syslog pump can have, and the settings of Logz.io that give a client.\<close>

lemma syslog_initConfigs_cases:
  "syslog_initConfigs conf =
     (if sl_Transport conf \<in> set ['''', ''udp'', ''tcp'', ''tls'']
      then Inr (conf\<lparr>sl_Transport := (if sl_Transport conf = [] then ''udp'' else sl_Transport conf),
                     sl_NetworkAddr := (if sl_NetworkAddr conf = [] then ''localhost:5140'' else sl_NetworkAddr conf)\<rparr>)
      else Inl (GoPanic ''exit: Chosen invalid Transport type''))"
  by (auto simp: syslog_initConfigs_def Let_def)

lemma NewLogzioClient_made:
  "NewLogzioClient ParseDuration lg_New conf = Inr c \<longleftrightarrow>
     lz_Token conf \<noteq> [] \<and> 0 \<le> lz_DiskThreshold conf \<and> lz_DiskThreshold conf \<le> 100 \<and>
     (\<exists>d. ParseDuration (lz_DrainDuration conf) = Some d \<and>
        lg_New (lz_Token conf) (lz_CheckDiskSpace conf) (lz_DiskThreshold conf) d (lz_QueueDir conf) (lz_URL conf) = Some c)"
  by (auto simp: NewLogzioClient_def split: option.splits)

text \<open>One record whose raw data are no base64 ends the process.\<close>

lemma graylog_bad_data_exits:
  "b64_decode (r_RawRequest r) = None \<Longrightarrow> graylog_record marshal clientLog conf c (ItemRecord r) s = (Inl (GoPanic ''exit''), s)"
  by (simp add: graylog_record_def or_fatal_def)

text \<open>The fields of a Graylog message are exactly those named by the tags.\<close>

lemma graylog_message_get:
  "gomap_get (graylog_message conf m) k = (if k \<in> set (gl_Tags conf) then gomap_get m k else None)"
proof -
  have "gomap_get (fold (\<lambda>key a. (case gomap_get m key of Some v \<Rightarrow> gomap_set a key v | None \<Rightarrow> a)) ks a) k =
      (if k \<in> set ks \<and> gomap_get m k \<noteq> None then gomap_get m k else gomap_get a k)" for ks a
    by (induction ks arbitrary: a) (auto simp: update_conv' split: option.splits)
  then show ?thesis by (auto simp: graylog_message_def)
qed

section \<open>Witnesses\<close>

theorem syslog_message_one_line_witness:
  "CHR 0x0A \<notin> set (syslog_message (record_zero\<lparr>r_RawRequest := ''GET / HTTP/1.1'' @ [CHR 0x0D, CHR 0x0A]\<rparr>))"
proof -
  have "CHR 0x0A \<notin> set (time_string time_zero)" by code_simp
  then show ?thesis
    using syslog_message_one_line [of "record_zero\<lparr>r_RawRequest := ''GET / HTTP/1.1'' @ [CHR 0x0D, CHR 0x0A]\<rparr>"]
    by (simp add: record_zero_def)
qed

theorem syslog_WriteData_prefix_witness:
  "\<exists>k t. k \<le> Suc 0 \<and> syslog_WriteData (\<lambda>s. (Inr False, s)) (\<lambda>m s. (Inl (GoErr ''down''), s @ [m])) [ItemRecord record_zero] [] = (Inr (), t) \<and>
     t = map syslog_message (take k [record_zero]) \<and> k = Suc 0"
  using syslog_WriteData_prefix [where ctxDone = "\<lambda>s. (Inr False, s)" and writer = "\<lambda>m s. (Inl (GoErr ''down''), s @ [m])"
      and view = "\<lambda>s. s" and rs = "[record_zero]" and s = "[]"] by (simp del: syslog_WriteData.simps add: exI [of Not False])

end
