(* ===== verification/Influx.thy ===== *)
theory Influx
  imports Event_Values
begin

text \<open>
  The two InfluxDB pumps, \<open>src/pumps/influx.go\<close> and \<open>src/pumps/influx2.go\<close>: connecting, the start
  of the second with its lookups, the tags and fields of a point, and the writes. The clients and the
  JSON codec are parameters. The lemmas: which points a write sends, what becomes of a connection that
  succeeds only when it is tried again, and what the start of the second pump has checked.
\<close>

section \<open>Tags and fields of a point\<close>

text \<open>\<open>strings.Trim(s, "\"")\<close>.\<close>

definition trim_quotes :: "string \<Rightarrow> string" where
  "trim_quotes s = trim_right_char CHR 0x22 (dropWhile (\<lambda>c. c = CHR 0x22) s)"

text \<open>The value of a name in the map of a record; a name that is not there is \<open>nil\<close>.\<close>

definition mapping_value :: "event \<Rightarrow> string \<Rightarrow> jval" where
  "mapping_value mapping k = (case gomap_get mapping k of Some v \<Rightarrow> v | None \<Rightarrow> JNil)"

definition influx_tags :: "(jval \<Rightarrow> string option) \<Rightarrow> string list \<Rightarrow> event \<Rightarrow> (string, string) gomap" where
  "influx_tags marshal tags mapping =
     fold (\<lambda>t m. gomap_set m t (case marshal (mapping_value mapping t) of None \<Rightarrow> [] | Some b \<Rightarrow> trim_quotes b)) tags []"

definition influx_fields :: "string list \<Rightarrow> event \<Rightarrow> event" where
  "influx_fields fs mapping = fold (\<lambda>f m. gomap_set m f (mapping_value mapping f)) fs []"

definition influx_mapping :: "analytics_record \<Rightarrow> event" where
  "influx_mapping decoded =
     [(''method'', JStr (r_Method decoded)), (''path'', JStr (r_Path decoded)), (''response_code'', JInt (r_ResponseCode decoded)),
      (''api_key'', JStr (r_APIKey decoded)), (''time_stamp'', JTime (r_TimeStamp decoded)), (''api_version'', JStr (r_APIVersion decoded)),
      (''api_name'', JStr (r_APIName decoded)), (''api_id'', JStr (r_APIID decoded)), (''org_id'', JStr (r_OrgID decoded)),
      (''oauth_id'', JStr (r_OauthID decoded)), (''raw_request'', JStr (r_RawRequest decoded)),
      (''request_time'', JInt (r_RequestTime decoded)), (''raw_response'', JStr (r_RawResponse decoded)),
      (''ip_address'', JStr (r_IPAddress decoded))]"

section \<open>InfluxDB 1\<close>

record influx_conf =
  ix_EnvPrefix :: string
  ix_DatabaseName :: string
  ix_Addr :: string
  ix_Username :: string
  ix_Password :: string
  ix_Fields :: "string list"
  ix_Tags :: "string list"

text \<open>
  \<open>connect\<close> tries again after five seconds, as often as it fails, but returns the client of its own
  attempt: nil when that one failed.
\<close>

partial_function (option) influx_connect :: "('s, 'c) io \<Rightarrow> 's \<Rightarrow> ('c option res \<times> 's) option" where
  "influx_connect NewHTTPClient s =
     (case NewHTTPClient s of (r, s') \<Rightarrow>
        (case r of
           Inr c \<Rightarrow> Some (Inr (Some c), s')
         | Inl e \<Rightarrow> (case e of
             GoPanic p \<Rightarrow> Some (Inl (GoPanic p), s')
           | GoErr m \<Rightarrow> Option.bind (influx_connect NewHTTPClient s')
               (\<lambda>q. Some (case q of (rr, s'') \<Rightarrow> ((case rr of Inl e' \<Rightarrow> Inl e' | Inr c \<Rightarrow> Inr None), s''))))))"

text \<open>The start only connects.\<close>

definition influx_Init :: "('s, 'c) io \<Rightarrow> 's \<Rightarrow> (unit res \<times> 's) option" where
  "influx_Init NewHTTPClient s =
     map_option (\<lambda>(r, s'). ((case r of Inl e \<Rightarrow> Inl e | Inr c \<Rightarrow> Inr ()), s')) (influx_connect NewHTTPClient s)"

text \<open>The points of a batch; one that the client refuses is logged and left out.\<close>

fun influx_points ::
  "(jval \<Rightarrow> string option) \<Rightarrow> ((string, string) gomap \<Rightarrow> event \<Rightarrow> 'p option) \<Rightarrow> influx_conf \<Rightarrow> item list \<Rightarrow> 'p list res" where
  "influx_points marshal NewPoint conf [] = Inr []"
| "influx_points marshal NewPoint conf (v # vs) =
     rbind (assert_record v) (\<lambda>decoded.
     rbind (influx_points marshal NewPoint conf vs) (\<lambda>ps.
       Inr ((case NewPoint (influx_tags marshal (ix_Tags conf) (influx_mapping decoded)) (influx_fields (ix_Fields conf) (influx_mapping decoded)) of
               None \<Rightarrow> [] | Some pt \<Rightarrow> [pt]) @ ps)))"

text \<open>The client is closed whatever happens; the error of the write is ignored.\<close>

definition influx_WriteData ::
  "('s, 'c) io \<Rightarrow> (jval \<Rightarrow> string option) \<Rightarrow> ((string, string) gomap \<Rightarrow> event \<Rightarrow> 'p option) \<Rightarrow> ('c \<Rightarrow> string \<Rightarrow> 'p list \<Rightarrow> ('s, unit) io) \<Rightarrow>
     ('c \<Rightarrow> 's \<Rightarrow> 's) \<Rightarrow> influx_conf \<Rightarrow> item list \<Rightarrow> 's \<Rightarrow> (unit res \<times> 's) option" where
  "influx_WriteData NewHTTPClient marshal NewPoint clientWrite clientClose conf data s =
     (case influx_connect NewHTTPClient s of
        None \<Rightarrow> None
      | Some (Inl e, s') \<Rightarrow> Some (Inl e, s')
      | Some (Inr None, s') \<Rightarrow> Some (Inl (GoPanic ''nil pointer dereference''), s')
      | Some (Inr (Some c), s') \<Rightarrow>
          (case io_bind (io_res (influx_points marshal NewPoint conf data))
                  (\<lambda>bp. io_log (clientWrite c (ix_DatabaseName conf) bp)) s' of (r, t) \<Rightarrow> Some (r, clientClose c t)))"

section \<open>InfluxDB 2\<close>

record retention_rule =
  rr_EverySeconds :: i64
  rr_ShardGroupDurationSeconds :: i64
  rr_Type :: string

record new_bucket =
  nb_Description :: string
  nb_RetentionRules :: "retention_rule list"

record influx2_conf =
  i2_EnvPrefix :: string
  i2_BucketName :: string
  i2_OrgName :: string
  i2_Addr :: string
  i2_Token :: string
  i2_Fields :: "string list"
  i2_Tags :: "string list"
  i2_Flush :: bool
  i2_CreateMissingBucket :: bool
  i2_NewBucketConfig :: new_bucket

text \<open>A bucket as the client library takes it.\<close>

record bucket =
  bk_Name :: string
  bk_OrgID :: string
  bk_Description :: string
  bk_Rp :: string
  bk_SchemaType :: string
  bk_RetentionRules :: "retention_rule list"

text \<open>The operations of the client; a result that is a pointer can be missing.\<close>

record ('s, 'p) influx2_client =
  ic_Ready :: "('s, string option) io"
  ic_FindOrganizationByName :: "string \<Rightarrow> ('s, string option) io"
  ic_CreateBucket :: "bucket \<Rightarrow> ('s, bucket option) io"
  ic_FindBucketByName :: "string \<Rightarrow> ('s, unit) io"
  ic_WritePoint :: "string \<Rightarrow> string \<Rightarrow> 'p \<Rightarrow> ('s, unit) io"
  ic_Flush :: "string \<Rightarrow> string \<Rightarrow> ('s, unit) io"
  ic_Close :: "('s, unit) io"

definition deref :: "'a option \<Rightarrow> 'a res" where
  "deref v = (case v of Some x \<Rightarrow> Inr x | None \<Rightarrow> Inl (GoPanic ''nil pointer dereference''))"

text \<open>The error of a call, with a text before it.\<close>

definition wrap_err :: "string \<Rightarrow> ('s, 'a) io \<Rightarrow> ('s, 'a) io" where
  "wrap_err msg m = io_bind (io_try m) (\<lambda>r. case r of Inl e \<Rightarrow> io_fail (GoErr (msg @ e)) | Inr x \<Rightarrow> io_ret x)"

definition influx2_createBucket :: "('s, 'p) influx2_client \<Rightarrow> influx2_conf \<Rightarrow> string \<Rightarrow> ('s, bucket option) io" where
  "influx2_createBucket cl conf orgID =
     ic_CreateBucket cl \<lparr>bk_Name = i2_BucketName conf, bk_OrgID = orgID, bk_Description = nb_Description (i2_NewBucketConfig conf),
       bk_Rp = [], bk_SchemaType = ''implicit'', bk_RetentionRules = nb_RetentionRules (i2_NewBucketConfig conf)\<rparr>"

text \<open>\<open>Init\<close> after decoding and the environment variables; a bucket that cannot be created may be there already.\<close>

definition influx2_Init :: "('s, 'p) influx2_client \<Rightarrow> influx2_conf \<Rightarrow> ('s, unit) io" where
  "influx2_Init cl conf =
     io_bind (ic_Ready cl) (\<lambda>status.
     io_bind (io_res (deref status)) (\<lambda>ready.
       if ready \<noteq> ''ready'' then io_fail (GoErr (''InfluxDB2 server is not ready: '' @ ready))
       else
         io_bind (wrap_err ''error looking up InfluxDB2 organization: '' (ic_FindOrganizationByName cl (i2_OrgName conf))) (\<lambda>org.
         io_bind (io_res (deref org)) (\<lambda>orgId.
         io_bind (if i2_CreateMissingBucket conf
                  then io_bind (io_try (influx2_createBucket cl conf orgId)) (\<lambda>r. io_ret (case r of Inl e \<Rightarrow> None | Inr b \<Rightarrow> b))
                  else io_ret None) (\<lambda>bucket.
           (if bucket = None then wrap_err ''error looking up InfluxDB2 bucket: '' (ic_FindBucketByName cl (i2_BucketName conf))
            else io_ret ()))))))"

definition influx2_mapping :: "analytics_record \<Rightarrow> event" where
  "influx2_mapping ar = influx_mapping ar @
     [(''total_latency'', JInt (la_Total (r_Latency ar))), (''upstream_latency'', JInt (la_Upstream (r_Latency ar)))]"

definition influx2_WriteData ::
  "('s, 'p) influx2_client \<Rightarrow> (jval \<Rightarrow> string option) \<Rightarrow> ((string, string) gomap \<Rightarrow> event \<Rightarrow> 'p) \<Rightarrow> influx2_conf \<Rightarrow> item list \<Rightarrow>
     ('s, unit) io" where
  "influx2_WriteData cl marshal NewPoint conf data =
     io_bind (io_for data (\<lambda>v. io_bind (io_res (assert_record v)) (\<lambda>ar.
         ic_WritePoint cl (i2_OrgName conf) (i2_BucketName conf)
           (NewPoint (influx_tags marshal (i2_Tags conf) (influx2_mapping ar)) (influx_fields (i2_Fields conf) (influx2_mapping ar))))))
       (\<lambda>_. if i2_Flush conf then ic_Flush cl (i2_OrgName conf) (i2_BucketName conf) else io_ret ())"

definition influx2_Shutdown :: "('s, 'p) influx2_client \<Rightarrow> influx2_conf \<Rightarrow> ('s, unit) io" where
  "influx2_Shutdown cl conf = io_bind (ic_Flush cl (i2_OrgName conf) (i2_BucketName conf)) (\<lambda>_. ic_Close cl)"

section \<open>Properties\<close>

lemma put_fold_get:
  "gomap_get (fold (\<lambda>k m. gomap_set m k (g k)) ks m) k = (if k \<in> set ks then Some (g k) else gomap_get m k)"
  by (induction ks arbitrary: m) (auto simp: update_conv')

text \<open>A point has exactly the tags and fields of the configuration; a name that is no field of a record is \<open>null\<close>.\<close>

lemma influx_tags_get:
  "gomap_get (influx_tags marshal ts m) t =
     (if t \<in> set ts then Some (case marshal (mapping_value m t) of None \<Rightarrow> [] | Some b \<Rightarrow> trim_quotes b) else None)"
  unfolding influx_tags_def by (subst put_fold_get [where g = "\<lambda>t. case marshal (mapping_value m t) of None \<Rightarrow> [] | Some b \<Rightarrow> trim_quotes b"]) simp

lemma influx_fields_get: "gomap_get (influx_fields fs m) f = (if f \<in> set fs then Some (mapping_value m f) else None)"
  unfolding influx_fields_def by (simp add: put_fold_get)

lemma influx_points_run:
  "influx_points marshal NewPoint conf (map ItemRecord rs) =
     Inr (List.map_filter (\<lambda>r. NewPoint (influx_tags marshal (ix_Tags conf) (influx_mapping r)) (influx_fields (ix_Fields conf) (influx_mapping r))) rs)"
  by (induction rs) (auto simp: List.map_filter_def split: option.splits)

text \<open>
  C40. A client that cannot be made at the first attempt is never used: the attempts go on until one
  succeeds, and then the write panics on the nil client of the first attempt, with nothing written.
\<close>

theorem influx_second_attempt_panics:
  assumes "NewHTTPClient s = (Inl (GoErr e), s')" and "influx_connect NewHTTPClient s' = Some (Inr c, s'')"
  shows "influx_WriteData NewHTTPClient marshal NewPoint clientWrite clientClose conf data s =
    Some (Inl (GoPanic ''nil pointer dereference''), s'')"
proof -
  have "influx_connect NewHTTPClient s = Some (Inr None, s'')"
    by (subst influx_connect.simps) (simp add: assms)
  then show ?thesis by (simp add: influx_WriteData_def)
qed

text \<open>
  With a client at the first attempt, a write hands over one batch with the points of all records the
  client accepts, in order, closes the client and returns no error whatever the write returns.
\<close>

theorem influx_WriteData_points:
  assumes "NewHTTPClient s = (Inr c, s')"
    and "\<And>ps. clientWrite c (ix_DatabaseName conf) ps s' = (if fails then Inl (GoErr err) else Inr (), sent ps)"
  shows "influx_WriteData NewHTTPClient marshal NewPoint clientWrite clientClose conf (map ItemRecord rs) s =
    Some (Inr (), clientClose c (sent (List.map_filter (\<lambda>r. NewPoint (influx_tags marshal (ix_Tags conf) (influx_mapping r))
      (influx_fields (ix_Fields conf) (influx_mapping r))) rs)))"
proof -
  let ?ps = "List.map_filter (\<lambda>r. NewPoint (influx_tags marshal (ix_Tags conf) (influx_mapping r))
    (influx_fields (ix_Fields conf) (influx_mapping r))) rs"
  have "influx_connect NewHTTPClient s = Some (Inr (Some c), s')"
    by (subst influx_connect.simps) (simp add: assms(1))
  moreover have "io_log (clientWrite c (ix_DatabaseName conf) ?ps) s' = (Inr (), sent ?ps)"
    by (cases fails) (simp_all add: io_log_run assms(2))
  ultimately show ?thesis by (simp add: influx_WriteData_def influx_points_run)
qed

lemma wrap_err_Inr: "wrap_err msg m s = (Inr x, t) \<longleftrightarrow> m s = (Inr x, t)"
  by (cases "m s" rule: prod.exhaust, rename_tac r t', case_tac r)
     (auto simp: wrap_err_def io_bind_def io_try_def split: go_error.splits)

lemma deref_Inr: "io_res (deref v) s = (Inr x, t) \<longleftrightarrow> v = Some x \<and> t = s"
  by (auto simp: deref_def io_res_def split: option.splits)

lemma io_try_bucket: "io_try m s = (Inr (Inr b), t) \<Longrightarrow> m s = (Inr b, t)"
  by (cases "m s" rule: prod.exhaust, rename_tac r t', case_tac r) (auto simp: io_try_def split: go_error.splits)

text \<open>
  If the second pump has started, the server was ready, the organisation was found and has an id, and
  the bucket was created or found; the first call that fails ends the start with its error.
\<close>

theorem influx2_Init_checked:
  assumes "influx2_Init cl conf s = (Inr (), t)"
  shows "\<exists>s1 s2 orgId. ic_Ready cl s = (Inr (Some ''ready''), s1) \<and>
    ic_FindOrganizationByName cl (i2_OrgName conf) s1 = (Inr (Some orgId), s2) \<and>
    (if (\<exists>b. i2_CreateMissingBucket conf \<and> influx2_createBucket cl conf orgId s2 = (Inr (Some b), t)) then True
     else (\<exists>s3. ic_FindBucketByName cl (i2_BucketName conf) s3 = (Inr (), t)))"
proof -
  from assms obtain ready s1 where 1: "ic_Ready cl s = (Inr (Some ready), s1)"
    and after: "(if ready \<noteq> ''ready'' then io_fail (GoErr (''InfluxDB2 server is not ready: '' @ ready))
       else
         io_bind (wrap_err ''error looking up InfluxDB2 organization: '' (ic_FindOrganizationByName cl (i2_OrgName conf))) (\<lambda>org.
         io_bind (io_res (deref org)) (\<lambda>orgId.
         io_bind (if i2_CreateMissingBucket conf
                  then io_bind (io_try (influx2_createBucket cl conf orgId)) (\<lambda>r. io_ret (case r of Inl e \<Rightarrow> None | Inr b \<Rightarrow> b))
                  else io_ret None) (\<lambda>bucket.
           (if bucket = None then wrap_err ''error looking up InfluxDB2 bucket: '' (ic_FindBucketByName cl (i2_BucketName conf))
            else io_ret ()))))) s1 = (Inr (), t)"
    by (auto simp: influx2_Init_def io_bind_Inr deref_Inr)
  then have ready: "ready = ''ready''" by (auto split: if_splits)
  with after obtain orgId s2 where 2: "ic_FindOrganizationByName cl (i2_OrgName conf) s1 = (Inr (Some orgId), s2)"
    and bucket: "io_bind (if i2_CreateMissingBucket conf
                  then io_bind (io_try (influx2_createBucket cl conf orgId)) (\<lambda>r. io_ret (case r of Inl e \<Rightarrow> None | Inr b \<Rightarrow> b))
                  else io_ret None) (\<lambda>bucket.
           (if bucket = None then wrap_err ''error looking up InfluxDB2 bucket: '' (ic_FindBucketByName cl (i2_BucketName conf))
            else io_ret ())) s2 = (Inr (), t)"
    by (auto simp: io_bind_Inr deref_Inr wrap_err_Inr)
  then obtain b s3 where b: "(if i2_CreateMissingBucket conf
                  then io_bind (io_try (influx2_createBucket cl conf orgId)) (\<lambda>r. io_ret (case r of Inl e \<Rightarrow> None | Inr b \<Rightarrow> b))
                  else io_ret None) s2 = (Inr b, s3)"
    and f: "(if b = None then wrap_err ''error looking up InfluxDB2 bucket: '' (ic_FindBucketByName cl (i2_BucketName conf)) else io_ret ()) s3 = (Inr (), t)"
    unfolding io_bind_Inr by blast
  show ?thesis
  proof (cases b)
    case None
    with f have "ic_FindBucketByName cl (i2_BucketName conf) s3 = (Inr (), t)" by (simp add: wrap_err_Inr)
    then have "\<exists>s3. ic_FindBucketByName cl (i2_BucketName conf) s3 = (Inr (), t)" by blast
    with 1 2 ready show ?thesis by (intro exI [of _ s1] exI [of _ s2] exI [of _ orgId]) (simp only: if_cancel if_True simp_thms split: if_split)
  next
    case (Some x)
    with f have "s3 = t" by simp
    have "i2_CreateMissingBucket conf"
    proof (rule ccontr)
      assume "\<not> i2_CreateMissingBucket conf"
      with b Some show False by simp
    qed
    have "io_bind (io_try (influx2_createBucket cl conf orgId)) (\<lambda>r. io_ret (case r of Inl e \<Rightarrow> None | Inr b \<Rightarrow> b)) s2 = (Inr (Some x), t)"
      using b unfolding Some if_P [OF \<open>i2_CreateMissingBucket conf\<close>] \<open>s3 = t\<close> .
    then obtain r where r: "io_try (influx2_createBucket cl conf orgId) s2 = (Inr r, t)"
      "(case r of Inl e \<Rightarrow> None | Inr b \<Rightarrow> b) = Some x" unfolding io_bind_Inr by (auto simp: io_ret_def)
    from r(2) have q: "r = Inr (Some x)" by (cases r) auto
    have made: "influx2_createBucket cl conf orgId s2 = (Inr (Some x), t)" by (rule io_try_bucket) (use r(1) q in simp)
    have P: "\<exists>b. i2_CreateMissingBucket conf \<and> influx2_createBucket cl conf orgId s2 = (Inr (Some b), t)"
      by (rule exI [of _ x], rule conjI, fact, rule made)
    show ?thesis
      by (rule exI [of _ s1], rule exI [of _ s2], rule exI [of _ orgId], unfold if_P [OF P]) (use 1 2 ready in simp)
  qed
qed

text \<open>The points of the second pump are written one by one, in order, and sent at once if the configuration says so.\<close>

lemma influx2_WriteData_points:
  assumes "\<And>p s. ic_WritePoint cl (i2_OrgName conf) (i2_BucketName conf) p s = (Inr (), s @ [p])"
    and "\<And>s. ic_Flush cl (i2_OrgName conf) (i2_BucketName conf) s = (Inr (), flushed s)"
  shows "influx2_WriteData cl marshal NewPoint conf (map ItemRecord rs) s =
    (let sent = s @ map (\<lambda>ar. NewPoint (influx_tags marshal (i2_Tags conf) (influx2_mapping ar)) (influx_fields (i2_Fields conf) (influx2_mapping ar))) rs
     in (Inr (), if i2_Flush conf then flushed sent else sent))"
proof -
  let ?p = "\<lambda>ar. NewPoint (influx_tags marshal (i2_Tags conf) (influx2_mapping ar)) (influx_fields (i2_Fields conf) (influx2_mapping ar))"
  have "io_for (map ItemRecord rs) (\<lambda>v. io_bind (io_res (assert_record v)) (\<lambda>ar.
      ic_WritePoint cl (i2_OrgName conf) (i2_BucketName conf) (?p ar))) s = (Inr (), s @ map ?p rs)"
    by (induction rs arbitrary: s) (simp_all add: io_bind_def assms(1))
  then show ?thesis by (simp add: influx2_WriteData_def io_bind_ok assms(2) Let_def)
qed

section \<open>Witnesses\<close>

definition flaky_client :: "(nat, nat) io" where
  "flaky_client n = (if n = 0 then Inl (GoErr ''no route'') else Inr n, Suc n)"

definition sample_influx_conf :: influx_conf where
  "sample_influx_conf = \<lparr>ix_EnvPrefix = [], ix_DatabaseName = ''tyk'', ix_Addr = [], ix_Username = [], ix_Password = [],
     ix_Fields = [''path''], ix_Tags = []\<rparr>"

theorem influx_second_attempt_panics_witness:
  "influx_WriteData flaky_client (\<lambda>_. None) (\<lambda>_ _. Some ()) (\<lambda>_ _ _. io_ret ()) (\<lambda>_ s. s) sample_influx_conf [ItemRecord record_zero] 0 =
     Some (Inl (GoPanic ''nil pointer dereference''), Suc (Suc 0))"
proof (rule influx_second_attempt_panics)
  show "flaky_client 0 = (Inl (GoErr ''no route''), Suc 0)" by (simp add: flaky_client_def)
  show "influx_connect flaky_client (Suc 0) = Some (Inr (Some (Suc 0)), Suc (Suc 0))"
    by (subst influx_connect.simps) (simp add: flaky_client_def)
qed

theorem influx_WriteData_points_witness:
  "influx_WriteData flaky_client (\<lambda>_. None) (\<lambda>_ _. Some ()) (\<lambda>_ _ ps s. (Inl (GoErr ''down''), s + length ps)) (\<lambda>_ s. s) sample_influx_conf
     (map ItemRecord [record_zero, record_zero]) 5 = Some (Inr (), 6 + length [(), ()])"
  using influx_WriteData_points [of flaky_client 5 5 6 "\<lambda>_ _ ps s. (Inl (GoErr ''down''), s + length ps)" sample_influx_conf True "''down''"
      "\<lambda>ps. 6 + length ps" "\<lambda>_. None" "\<lambda>_ _. Some ()" "\<lambda>_ s. s" "[record_zero, record_zero]"]
  by (simp add: flaky_client_def List.map_filter_def)

definition sample_influx2_client :: "(nat, unit) influx2_client" where
  "sample_influx2_client = \<lparr>ic_Ready = (\<lambda>s. (Inr (Some ''ready''), s)), ic_FindOrganizationByName = (\<lambda>o' s. (Inr (Some ''id''), s)),
     ic_CreateBucket = (\<lambda>b s. (Inl (GoErr ''exists''), s)), ic_FindBucketByName = (\<lambda>b s. (Inr (), s)),
     ic_WritePoint = (\<lambda>o' b p s. (Inr (), Suc s)), ic_Flush = (\<lambda>o' b s. (Inr (), s)), ic_Close = (\<lambda>s. (Inr (), s))\<rparr>"

definition sample_influx2_conf :: influx2_conf where
  "sample_influx2_conf = \<lparr>i2_EnvPrefix = [], i2_BucketName = ''b'', i2_OrgName = ''o'', i2_Addr = [], i2_Token = [], i2_Fields = [],
     i2_Tags = [], i2_Flush = True, i2_CreateMissingBucket = True, i2_NewBucketConfig = \<lparr>nb_Description = [], nb_RetentionRules = []\<rparr>\<rparr>"

theorem influx2_Init_checked_witness:
  "\<exists>s3. ic_FindBucketByName sample_influx2_client ''b'' s3 = (Inr (), 0)"
proof -
  have run: "influx2_Init sample_influx2_client sample_influx2_conf 0 = (Inr (), 0)" by code_simp
  from influx2_Init_checked [OF run] show ?thesis
    by (auto simp: sample_influx2_client_def sample_influx2_conf_def influx2_createBucket_def split: if_splits)
qed

end
