(* ===== verification/Instrumentation.thy ===== *)
theory Instrumentation
  imports GoText GoFloat
begin

text \<open>
  The instrumentation of the process, \<open>src/instrumentation_statsd_sink.go\<close> and
  \<open>src/instrumentation_helpers.go\<close>: the metrics of an event, the buffers that are kept for each key,
  the packets, and the loop of the sink over its channel of commands as a step relation. The network, the
  printing of floats and the health library are parameters. The lemmas: the kept buffers make no
  difference, every metric goes out whole, in order and in a packet within the limit, a drain sends
  everything, and a command to stop can be lost.
\<close>

section \<open>Metrics\<close>

definition sanitizeKey :: "string \<Rightarrow> string" where
  "sanitizeKey s = map (\<lambda>c. let n = (of_char c :: nat)
     in if 65 \<le> n \<and> n \<le> 90 \<or> 97 \<le> n \<and> n \<le> 122 \<or> 48 \<le> n \<and> n \<le> 57 \<or> c \<in> set ''_.-'' then c else CHR ''$'') s"

record sink_options =
  so_Prefix :: string
  so_SanitizationFunc :: "string \<Rightarrow> string"
  so_SkipNestedEvents :: bool
  so_SkipTopLevelEvents :: bool

text \<open>The options of a sink: those given, with the default for the function, or all defaults.\<close>

definition sink_options_of :: "(string \<times> (string \<Rightarrow> string) option \<times> bool \<times> bool) option \<Rightarrow> sink_options" where
  "sink_options_of opts = (case opts of
       None \<Rightarrow> \<lparr>so_Prefix = [], so_SanitizationFunc = sanitizeKey, so_SkipNestedEvents = False, so_SkipTopLevelEvents = False\<rparr>
     | Some (p, f, sn, st) \<Rightarrow> \<lparr>so_Prefix = p, so_SanitizationFunc = (case f of None \<Rightarrow> sanitizeKey | Some g \<Rightarrow> g),
         so_SkipNestedEvents = sn, so_SkipTopLevelEvents = st\<rparr>)"

datatype sink_cmd = CmdEvent string string | CmdEventErr string string | CmdTiming string string i64
  | CmdGauge string string f64 | CmdComplete string string i64 | CmdFlush | CmdDrain | CmdStop

text \<open>A key is a job, an event and a suffix; a kept buffer is its bytes and the length of its prefix.\<close>

type_synonym event_key = "string \<times> string \<times> string"

record sink =
  sk_udpBuf :: string
  sk_packets :: "string list"
  sk_prefixBuffers :: "(event_key, string \<times> nat) gomap"

fun writeSanitizedKeys :: "(string \<Rightarrow> string) \<Rightarrow> bool \<Rightarrow> string list \<Rightarrow> string" where
  "writeSanitizedKeys san needDot [] = []"
| "writeSanitizedKeys san needDot (k # ks) =
     (if k \<noteq> [] then (if needDot then ''.'' else []) @ san k @ writeSanitizedKeys san True ks
      else writeSanitizedKeys san needDot ks)"

definition key_prefix :: "sink_options \<Rightarrow> event_key \<Rightarrow> string" where
  "key_prefix opts key = (case key of (job, event, suffix) \<Rightarrow>
     writeSanitizedKeys (so_SanitizationFunc opts) False [so_Prefix opts, job, event, suffix] @ '':'')"

definition getPrefixBuffer :: "sink_options \<Rightarrow> event_key \<Rightarrow> sink \<Rightarrow> (string \<times> nat) \<times> sink" where
  "getPrefixBuffer opts key s =
     (let pb = (case gomap_get (sk_prefixBuffers s) key of
            None \<Rightarrow> (key_prefix opts key, length (key_prefix opts key))
          | Some (b, prefixLen) \<Rightarrow> (take prefixLen b, prefixLen))
      in (pb, s\<lparr>sk_prefixBuffers := gomap_set (sk_prefixBuffers s) key pb\<rparr>))"

definition writeStatsDMetric :: "string \<Rightarrow> sink \<Rightarrow> sink" where
  "writeStatsDMetric b s =
     (if length b = 0 \<or> length b > 1440 then s
      else if length b + length (sk_udpBuf s) > 1440
      then s\<lparr>sk_packets := sk_packets s @ [sk_udpBuf s], sk_udpBuf := b\<rparr>
      else s\<lparr>sk_udpBuf := sk_udpBuf s @ b\<rparr>)"

definition sink_flush :: "sink \<Rightarrow> sink" where
  "sink_flush s = (if length (sk_udpBuf s) > 0 then s\<lparr>sk_packets := sk_packets s @ [sk_udpBuf s], sk_udpBuf := []\<rparr> else s)"

text \<open>The writes to the buffer of a key change the buffer that is kept.\<close>

definition send_metric :: "sink_options \<Rightarrow> event_key \<Rightarrow> string \<Rightarrow> sink \<Rightarrow> sink" where
  "send_metric opts key rest s =
     (case getPrefixBuffer opts key s of ((b, prefixLen), s) \<Rightarrow>
        writeStatsDMetric (b @ rest) (s\<lparr>sk_prefixBuffers := gomap_set (sk_prefixBuffers s) key (b @ rest, prefixLen)\<rparr>))"

definition send_event :: "sink_options \<Rightarrow> string \<Rightarrow> string \<Rightarrow> string \<Rightarrow> string \<Rightarrow> sink \<Rightarrow> sink" where
  "send_event opts job event suffix rest s =
     (let s = (if \<not> so_SkipTopLevelEvents opts then send_metric opts ([], event, suffix) rest s else s)
      in if \<not> so_SkipNestedEvents opts then send_metric opts (job, event, suffix) rest s else s)"

definition nl :: string where
  "nl = [CHR 0x0A]"

text \<open>Ten milliseconds and more are printed as whole milliseconds; \<open>fmt x p\<close> prints with \<open>p\<close> digits.\<close>

definition timing_text :: "(f64 \<Rightarrow> int \<Rightarrow> string) \<Rightarrow> i64 \<Rightarrow> string" where
  "timing_text fmt nanos =
     (if sint nanos \<ge> 10000000 then dec_int (sint nanos div 1000000)
      else fmt (f_div (f_of_int nanos) (f_of_int 1000000)) 2)"

definition f_between :: "rat \<Rightarrow> f64 \<Rightarrow> rat \<Rightarrow> bool" where
  "f_between lo v hi = (case v of Fin x \<Rightarrow> lo < x \<and> x < hi | _ \<Rightarrow> False)"

definition gauge_text :: "(f64 \<Rightarrow> int \<Rightarrow> string) \<Rightarrow> f64 \<Rightarrow> string" where
  "gauge_text fmt v = fmt v (if f_between (- fl (1 / 10)) v (fl (1 / 10)) then - 1 else 2)"

definition processCmd :: "(f64 \<Rightarrow> int \<Rightarrow> string) \<Rightarrow> sink_options \<Rightarrow> sink_cmd \<Rightarrow> sink \<Rightarrow> sink" where
  "processCmd fmt opts cmd s = (case cmd of
       CmdEvent job event \<Rightarrow> send_event opts job event [] (''1|c'' @ nl) s
     | CmdEventErr job event \<Rightarrow> send_event opts job event ''error'' (''1|c'' @ nl) s
     | CmdTiming job event nanos \<Rightarrow> send_event opts job event [] (timing_text fmt nanos @ ''|ms'' @ nl) s
     | CmdGauge job event v \<Rightarrow> send_event opts job event [] (gauge_text fmt v @ ''|g'' @ nl) s
     | CmdComplete job status nanos \<Rightarrow> send_metric opts (job, [], status) (timing_text fmt nanos @ ''|ms'' @ nl) s
     | _ \<Rightarrow> s)"

section \<open>The loop\<close>

datatype sink_mode = Looping | Draining | Stopped

text \<open>
  The channel holds 8192 commands. \<open>sx_history\<close> holds the commands that were processed; the two counters
  the handshakes with callers of \<open>Drain\<close> and \<open>Stop\<close>.
\<close>

record sink_state =
  sx_queue :: "sink_cmd list"
  sx_mode :: sink_mode
  sx_sink :: sink
  sx_history :: "sink_cmd list"
  sx_drained :: nat
  sx_stopped :: nat

definition sink_init :: sink_state where
  "sink_init = \<lparr>sx_queue = [], sx_mode = Looping, sx_sink = \<lparr>sk_udpBuf = [], sk_packets = [], sk_prefixBuffers = []\<rparr>,
     sx_history = [], sx_drained = 0, sx_stopped = 0\<rparr>"

definition process_in :: "(f64 \<Rightarrow> int \<Rightarrow> string) \<Rightarrow> sink_options \<Rightarrow> sink_cmd \<Rightarrow> sink_state \<Rightarrow> sink_state" where
  "process_in fmt opts c s = s\<lparr>sx_sink := processCmd fmt opts c (sx_sink s), sx_history := sx_history s @ [c]\<rparr>"

definition take_cmd :: "(f64 \<Rightarrow> int \<Rightarrow> string) \<Rightarrow> sink_options \<Rightarrow> sink_cmd \<Rightarrow> sink_state \<Rightarrow> sink_state" where
  "take_cmd fmt opts c s = (case c of
       CmdDrain \<Rightarrow> s\<lparr>sx_mode := Draining\<rparr>
     | CmdStop \<Rightarrow> s\<lparr>sx_mode := Stopped, sx_stopped := Suc (sx_stopped s)\<rparr>
     | CmdFlush \<Rightarrow> s\<lparr>sx_sink := sink_flush (sx_sink s)\<rparr>
     | _ \<Rightarrow> process_in fmt opts c s)"

inductive sink_step :: "(f64 \<Rightarrow> int \<Rightarrow> string) \<Rightarrow> sink_options \<Rightarrow> sink_state \<Rightarrow> sink_state \<Rightarrow> bool" for fmt opts where
  emit: "length (sx_queue s) < 8192 \<Longrightarrow> sink_step fmt opts s (s\<lparr>sx_queue := sx_queue s @ [c]\<rparr>)"
| take: "sx_mode s = Looping \<Longrightarrow> sx_queue s = c # cs \<Longrightarrow> sink_step fmt opts s (take_cmd fmt opts c (s\<lparr>sx_queue := cs\<rparr>))"
| drain: "sx_mode s = Draining \<Longrightarrow> sx_queue s = c # cs \<Longrightarrow> sink_step fmt opts s (process_in fmt opts c (s\<lparr>sx_queue := cs\<rparr>))"
| drained: "sx_mode s = Draining \<Longrightarrow> sx_queue s = [] \<Longrightarrow>
    sink_step fmt opts s (s\<lparr>sx_mode := Looping, sx_sink := sink_flush (sx_sink s), sx_drained := Suc (sx_drained s)\<rparr>)"

inductive_cases sink_stepE: "sink_step fmt opts s t"

section \<open>The application monitor\<close>

text \<open>
  \<open>SetupInstrumentation\<close>: nothing without the variable or the address; a sink that cannot be made ends
  the process. The monitor sends the quantiles of the pauses, of which there are five, every five seconds.
\<close>

definition SetupInstrumentation :: "(string \<Rightarrow> string) \<Rightarrow> (string \<Rightarrow> string \<Rightarrow> 'k res) \<Rightarrow> string \<Rightarrow> string \<Rightarrow> 'k option res" where
  "SetupInstrumentation getenv newSink connection prefix =
     (if getenv ''TYK_INSTRUMENTATION'' \<noteq> ''1'' \<or> connection = [] then Inr None
      else (case newSink connection prefix of
          Inl (GoErr e) \<Rightarrow> Inl (GoPanic (''exit: Failed to start StatsD check: '' @ e))
        | Inl (GoPanic p) \<Rightarrow> Inl (GoPanic p)
        | Inr k \<Rightarrow> Inr (Some k)))"

definition monitor_gauges :: "i64 list \<Rightarrow> sink_cmd list" where
  "monitor_gauges quantiles =
     map (\<lambda>(name, q). CmdGauge ''GCActivity'' name (f_of_int q))
       (zip [''pauses_quantile_min'', ''pauses_quantile_25'', ''pauses_quantile_50'', ''pauses_quantile_75'', ''pauses_quantile_max''] quantiles)"

section \<open>Properties\<close>

text \<open>What a command has to send: its metrics made from scratch.\<close>

definition metric_line :: "sink_options \<Rightarrow> event_key \<Rightarrow> string \<Rightarrow> string" where
  "metric_line opts key rest = key_prefix opts key @ rest"

definition event_metrics :: "sink_options \<Rightarrow> string \<Rightarrow> string \<Rightarrow> string \<Rightarrow> string \<Rightarrow> string list" where
  "event_metrics opts job event suffix rest =
     (if so_SkipTopLevelEvents opts then [] else [metric_line opts ([], event, suffix) rest]) @
     (if so_SkipNestedEvents opts then [] else [metric_line opts (job, event, suffix) rest])"

definition cmd_metrics :: "(f64 \<Rightarrow> int \<Rightarrow> string) \<Rightarrow> sink_options \<Rightarrow> sink_cmd \<Rightarrow> string list" where
  "cmd_metrics fmt opts cmd = (case cmd of
       CmdEvent job event \<Rightarrow> event_metrics opts job event [] (''1|c'' @ nl)
     | CmdEventErr job event \<Rightarrow> event_metrics opts job event ''error'' (''1|c'' @ nl)
     | CmdTiming job event nanos \<Rightarrow> event_metrics opts job event [] (timing_text fmt nanos @ ''|ms'' @ nl)
     | CmdGauge job event v \<Rightarrow> event_metrics opts job event [] (gauge_text fmt v @ ''|g'' @ nl)
     | CmdComplete job status nanos \<Rightarrow> [metric_line opts (job, [], status) (timing_text fmt nanos @ ''|ms'' @ nl)]
     | _ \<Rightarrow> [])"

text \<open>Every kept buffer still begins with the prefix of its key.\<close>

definition buffers_ok :: "sink_options \<Rightarrow> sink \<Rightarrow> bool" where
  "buffers_ok opts s = (\<forall>key b n. gomap_get (sk_prefixBuffers s) key = Some (b, n) \<longrightarrow>
     take n b = key_prefix opts key \<and> n = length (key_prefix opts key))"

lemma writeStatsDMetric_buffers [simp]: "sk_prefixBuffers (writeStatsDMetric b s) = sk_prefixBuffers s"
  by (simp add: writeStatsDMetric_def)

text \<open>The packets and the open buffer, which is all that the network sees.\<close>

definition sink_out :: "sink \<Rightarrow> string list \<times> string" where
  "sink_out s = (sk_packets s, sk_udpBuf s)"

definition put_out :: "string \<Rightarrow> string list \<times> string \<Rightarrow> string list \<times> string" where
  "put_out b p = (case p of (ps, u) \<Rightarrow>
     if length b = 0 \<or> length b > 1440 then (ps, u) else if length b + length u > 1440 then (ps @ [u], b) else (ps, u @ b))"

lemma sink_out_write: "sink_out (writeStatsDMetric b s) = put_out b (sink_out s)"
  by (simp add: sink_out_def writeStatsDMetric_def put_out_def)

lemma sink_out_buffers [simp]: "sink_out (s\<lparr>sk_prefixBuffers := m\<rparr>) = sink_out s"
  by (simp add: sink_out_def)

lemma getPrefixBuffer_ok:
  assumes "buffers_ok opts s"
  shows "getPrefixBuffer opts key s = ((key_prefix opts key, length (key_prefix opts key)),
    s\<lparr>sk_prefixBuffers := gomap_set (sk_prefixBuffers s) key (key_prefix opts key, length (key_prefix opts key))\<rparr>)"
proof (cases "gomap_get (sk_prefixBuffers s) key")
  case None
  then show ?thesis by (simp add: getPrefixBuffer_def Let_def)
next
  case (Some p)
  then obtain b n where p: "gomap_get (sk_prefixBuffers s) key = Some (b, n)" by (cases p) simp
  with assms have "take n b = key_prefix opts key" "n = length (key_prefix opts key)" unfolding buffers_ok_def by blast+
  with p show ?thesis by (simp add: getPrefixBuffer_def Let_def)
qed

lemma send_metric_ok:
  assumes "buffers_ok opts s"
  shows "buffers_ok opts (send_metric opts key rest s)" and "sink_out (send_metric opts key rest s) = put_out (metric_line opts key rest) (sink_out s)"
proof -
  note pb = getPrefixBuffer_ok [OF assms, of key]
  show "sink_out (send_metric opts key rest s) = put_out (metric_line opts key rest) (sink_out s)"
    by (simp add: send_metric_def pb sink_out_write metric_line_def)
  show "buffers_ok opts (send_metric opts key rest s)"
    unfolding buffers_ok_def send_metric_def pb
  proof (intro allI impI)
    fix k b n
    assume k: "gomap_get (sk_prefixBuffers (case ((key_prefix opts key, length (key_prefix opts key)),
        s\<lparr>sk_prefixBuffers := gomap_set (sk_prefixBuffers s) key (key_prefix opts key, length (key_prefix opts key))\<rparr>) of
      ((b, prefixLen), s) \<Rightarrow> writeStatsDMetric (b @ rest) (s\<lparr>sk_prefixBuffers := gomap_set (sk_prefixBuffers s) key (b @ rest, prefixLen)\<rparr>))) k = Some (b, n)"
    show "take n b = key_prefix opts k \<and> n = length (key_prefix opts k)"
    proof (cases "k = key")
      case True
      with k show ?thesis by (auto simp: update_conv')
    next
      case False
      with k have "gomap_get (sk_prefixBuffers s) k = Some (b, n)" by (simp add: update_conv')
      with assms show ?thesis unfolding buffers_ok_def by blast
    qed
  qed
qed

lemma send_event_ok:
  assumes "buffers_ok opts s"
  shows "buffers_ok opts (send_event opts job event suffix rest s)"
    and "sink_out (send_event opts job event suffix rest s) = fold put_out (event_metrics opts job event suffix rest) (sink_out s)"
  using assms by (auto simp: send_event_def Let_def send_metric_ok event_metrics_def)

text \<open>The kept buffers make no difference.\<close>

lemma processCmd_ok:
  assumes "buffers_ok opts s"
  shows "buffers_ok opts (processCmd fmt opts c s)" and "sink_out (processCmd fmt opts c s) = fold put_out (cmd_metrics fmt opts c) (sink_out s)"
  using assms by (cases c; simp add: processCmd_def cmd_metrics_def send_event_ok send_metric_ok)+

text \<open>Whole metrics in packets within the limit, none of them empty.\<close>

definition packed :: "string list \<Rightarrow> string list \<times> string \<Rightarrow> bool" where
  "packed ms p = (case p of (ps, u) \<Rightarrow> list_all (\<lambda>q. q \<noteq> [] \<and> length q \<le> 1440) ps \<and> length u \<le> 1440 \<and>
     (\<exists>parts. map concat parts = ps @ [u] \<and> concat parts = filter (\<lambda>m. 0 < length m \<and> length m \<le> 1440) ms))"

lemma packed_put: "packed ms p \<Longrightarrow> packed (ms @ [b]) (put_out b p)"
proof -
  assume ok: "packed ms p"
  obtain ps u where p: "p = (ps, u)" by (metis prod.exhaust)
  with ok obtain parts where parts: "map concat parts = ps @ [u]" "concat parts = filter (\<lambda>m. 0 < length m \<and> length m \<le> 1440) ms"
    by (auto simp: packed_def)
  then obtain qs q where q: "parts = qs @ [q]" "map concat qs = ps" "concat q = u" by (auto simp: map_eq_append_conv)
  show ?thesis
  proof (cases "length b = 0 \<or> length b > 1440")
    case True
    then show ?thesis using ok by (auto simp: packed_def put_out_def p)
  next
    case False
    show ?thesis
    proof (cases "length b + length u > 1440")
      case True
      with False have "put_out b p = (ps @ [u], b)" "u \<noteq> []" by (auto simp: put_out_def p)
      moreover have "map concat (parts @ [[b]]) = (ps @ [u]) @ [b]"
        "concat (parts @ [[b]]) = filter (\<lambda>m. 0 < length m \<and> length m \<le> 1440) (ms @ [b])" using parts False by auto
      ultimately show ?thesis using ok False unfolding packed_def p by (auto intro: exI [of _ "parts @ [[b]]"])
    next
      case fits: False
      with False have "put_out b p = (ps, u @ b)" by (auto simp: put_out_def p)
      moreover have "map concat (qs @ [q @ [b]]) = ps @ [u @ b]"
        "concat (qs @ [q @ [b]]) = filter (\<lambda>m. 0 < length m \<and> length m \<le> 1440) (ms @ [b])" using parts q False by auto
      ultimately show ?thesis using ok fits unfolding packed_def p by (auto intro: exI [of _ "qs @ [q @ [b]]"])
    qed
  qed
qed

lemma packed_fold: "packed ms p \<Longrightarrow> packed (ms @ bs) (fold put_out bs p)"
proof (induction bs arbitrary: ms p)
  case (Cons b bs)
  from Cons.IH [OF packed_put [OF Cons.prems, of b]] show ?case by simp
qed simp

lemma packed_flush: "packed ms (sink_out s) \<Longrightarrow> packed ms (sink_out (sink_flush s))"
proof -
  assume ok: "packed ms (sink_out s)"
  then obtain parts where parts: "map concat parts = sk_packets s @ [sk_udpBuf s]" "concat parts = filter (\<lambda>m. 0 < length m \<and> length m \<le> 1440) ms"
    by (auto simp: packed_def sink_out_def)
  then have "map concat (parts @ [[]]) = (sk_packets s @ [sk_udpBuf s]) @ [[]]"
    "concat (parts @ [[]]) = filter (\<lambda>m. 0 < length m \<and> length m \<le> 1440) ms" by auto
  then show ?thesis using ok unfolding packed_def sink_out_def sink_flush_def by (auto intro: exI [of _ "parts @ [[]]"])
qed

definition sent_metrics :: "(f64 \<Rightarrow> int \<Rightarrow> string) \<Rightarrow> sink_options \<Rightarrow> sink_cmd list \<Rightarrow> string list" where
  "sent_metrics fmt opts cs = concat (map (cmd_metrics fmt opts) cs)"

definition sink_inv :: "(f64 \<Rightarrow> int \<Rightarrow> string) \<Rightarrow> sink_options \<Rightarrow> sink_state \<Rightarrow> bool" where
  "sink_inv fmt opts s = (buffers_ok opts (sx_sink s) \<and> packed (sent_metrics fmt opts (sx_history s)) (sink_out (sx_sink s)))"

lemma sink_inv_process: "sink_inv fmt opts s \<Longrightarrow> sink_inv fmt opts (process_in fmt opts c s)"
  by (simp add: sink_inv_def process_in_def processCmd_ok sent_metrics_def packed_fold)

lemma sink_inv_flush: "sink_inv fmt opts s \<Longrightarrow> sink_inv fmt opts (s\<lparr>sx_sink := sink_flush (sx_sink s)\<rparr>)"
  by (auto simp: sink_inv_def packed_flush) (simp add: buffers_ok_def sink_flush_def)

lemma sink_inv_only: "sink_inv fmt opts (s\<lparr>sx_queue := q\<rparr>) = sink_inv fmt opts s"
  "sink_inv fmt opts (s\<lparr>sx_mode := m\<rparr>) = sink_inv fmt opts s" "sink_inv fmt opts (s\<lparr>sx_drained := n\<rparr>) = sink_inv fmt opts s"
  "sink_inv fmt opts (s\<lparr>sx_stopped := n\<rparr>) = sink_inv fmt opts s"
  by (simp_all add: sink_inv_def)

lemma sink_inv_step: "sink_step fmt opts s t \<Longrightarrow> sink_inv fmt opts s \<Longrightarrow> sink_inv fmt opts t"
proof (induction rule: sink_step.induct)
  case (take s c cs)
  then have "sink_inv fmt opts (s\<lparr>sx_queue := cs\<rparr>)" by (simp add: sink_inv_only)
  then show ?case unfolding take_cmd_def
    using sink_inv_flush [of fmt opts "s\<lparr>sx_queue := cs\<rparr>"] by (cases c) (simp_all add: sink_inv_only sink_inv_process)
next
  case (drained s)
  then have "sink_inv fmt opts (s\<lparr>sx_sink := sink_flush (sx_sink s)\<rparr>)" by (intro sink_inv_flush)
  then show ?case by (simp add: sink_inv_def)
qed (simp_all add: sink_inv_only sink_inv_process)

lemma sink_inv_reach: "(sink_step fmt opts)\<^sup>*\<^sup>* sink_init s \<Longrightarrow> sink_inv fmt opts s"
proof (induction rule: rtranclp_induct)
  case base
  show ?case by (auto simp: sink_inv_def sink_init_def buffers_ok_def packed_def sink_out_def sent_metrics_def intro: exI [of _ "[[]]"])
qed (rule sink_inv_step)

text \<open>
  C39. However commands arrive, the packets the sink has sent are within 1440 bytes and not empty, and
  together with the open buffer they hold, whole and in order, exactly the metrics of the commands it has
  processed that fit into a packet.
\<close>

theorem sink_packets:
  assumes "(sink_step fmt opts)\<^sup>*\<^sup>* sink_init s"
  shows "list_all (\<lambda>q. q \<noteq> [] \<and> length q \<le> 1440) (sk_packets (sx_sink s)) \<and>
    (\<exists>parts. map concat parts = sk_packets (sx_sink s) @ [sk_udpBuf (sx_sink s)] \<and>
       concat parts = filter (\<lambda>m. 0 < length m \<and> length m \<le> 1440) (concat (map (cmd_metrics fmt opts) (sx_history s))))"
  using sink_inv_reach [OF assms] by (auto simp: sink_inv_def packed_def sink_out_def sent_metrics_def)

text \<open>When a drain is over, the channel was empty and everything that was processed has been sent.\<close>

lemma drain_sends_all:
  assumes "(sink_step fmt opts)\<^sup>*\<^sup>* sink_init s" and "sink_step fmt opts s t" and "sx_drained t \<noteq> sx_drained s"
  shows "sx_queue t = [] \<and> sk_udpBuf (sx_sink t) = [] \<and>
    concat (sk_packets (sx_sink t)) = concat (filter (\<lambda>m. 0 < length m \<and> length m \<le> 1440) (sent_metrics fmt opts (sx_history t)))"
proof -
  have t: "sx_queue t = []" "sk_udpBuf (sx_sink t) = []"
    using assms(2,3) by (auto elim!: sink_stepE simp: take_cmd_def process_in_def sink_flush_def split: sink_cmd.splits)
  from sink_inv_step [OF assms(2) sink_inv_reach [OF assms(1)]] obtain parts where
    p: "map concat parts = sk_packets (sx_sink t) @ [[]]" "concat parts = filter (\<lambda>m. 0 < length m \<and> length m \<le> 1440) (sent_metrics fmt opts (sx_history t))"
    by (auto simp: sink_inv_def packed_def sink_out_def t)
  have "concat (concat parts) = concat (map concat parts)" by (induction parts) simp_all
  with p t show ?thesis by simp
qed

text \<open>A command to stop that arrives during a drain is taken and ignored: nobody answers its caller.\<close>

lemma stop_lost_in_drain:
  "\<exists>s. (sink_step fmt opts)\<^sup>*\<^sup>* sink_init s \<and> CmdStop \<in> set (sx_history s) \<and> sx_queue s = [] \<and> sx_mode s = Looping \<and> sx_stopped s = 0"
proof -
  let ?s = "\<lambda>q m h d. sink_init\<lparr>sx_queue := q, sx_mode := m, sx_history := h, sx_drained := d\<rparr>"
  have id: "sink_flush (sx_sink sink_init) = sx_sink sink_init" by (simp add: sink_flush_def sink_init_def)
  have "sink_step fmt opts sink_init (?s [CmdDrain] Looping [] 0)"
    using sink_step.emit [of sink_init fmt opts CmdDrain] by (simp add: sink_init_def)
  moreover have "sink_step fmt opts (?s [CmdDrain] Looping [] 0) (?s [] Draining [] 0)"
    using sink_step.take [of "?s [CmdDrain] Looping [] 0" CmdDrain "[]" fmt opts] by (simp add: sink_init_def take_cmd_def)
  moreover have "sink_step fmt opts (?s [] Draining [] 0) (?s [CmdStop] Draining [] 0)"
    using sink_step.emit [of "?s [] Draining [] 0" fmt opts CmdStop] by (simp add: sink_init_def)
  moreover have "sink_step fmt opts (?s [CmdStop] Draining [] 0) (?s [] Draining [CmdStop] 0)"
    using sink_step.drain [of "?s [CmdStop] Draining [] 0" CmdStop "[]" fmt opts] by (simp add: sink_init_def process_in_def processCmd_def)
  moreover have "sink_step fmt opts (?s [] Draining [CmdStop] 0) (?s [] Looping [CmdStop] 1)"
    using sink_step.drained [of "?s [] Draining [CmdStop] 0" fmt opts] id by (simp add: sink_init_def)
  ultimately have "(sink_step fmt opts)\<^sup>*\<^sup>* sink_init (?s [] Looping [CmdStop] 1)"
    by (meson rtranclp.rtrancl_refl rtranclp.rtrancl_into_rtrancl)
  then show ?thesis by (intro exI [of _ "?s [] Looping [CmdStop] 1"]) (simp add: sink_init_def)
qed

text \<open>A sanitized key cannot end a line or start a value.\<close>

lemma sanitizeKey_plain: "set (sanitizeKey s) \<inter> {CHR '':'', CHR ''|'', CHR 0x0A} = {}"
  by (auto simp: sanitizeKey_def Let_def split: if_splits)

section \<open>Witnesses\<close>

definition sample_options :: sink_options where
  "sample_options = sink_options_of None"

theorem sink_packets_witness:
  "let s = sink_init\<lparr>sx_queue := [CmdEvent ''job'' ''tick'']\<rparr>
   in list_all (\<lambda>q. q \<noteq> [] \<and> length q \<le> 1440) (sk_packets (sx_sink s)) \<and> (sink_step (\<lambda>_ _. ''0'') sample_options)\<^sup>*\<^sup>* sink_init s"
proof -
  let ?s = "sink_init\<lparr>sx_queue := [CmdEvent ''job'' ''tick'']\<rparr>"
  have "sink_step (\<lambda>_ _. ''0'') sample_options sink_init ?s"
    using sink_step.emit [of sink_init "\<lambda>_ _. ''0''" sample_options "CmdEvent ''job'' ''tick''"] by (simp add: sink_init_def)
  then have run: "(sink_step (\<lambda>_ _. ''0'') sample_options)\<^sup>*\<^sup>* sink_init ?s" by (rule r_into_rtranclp)
  show ?thesis unfolding Let_def using sink_packets [OF run] run by simp
qed

end
