(* ===== verification/Demo_Data.thy ===== *)
theory Demo_Data
  imports Analytics_Record GoIO
begin

text \<open>
  The demo data, \<open>src/analytics/demo/demo.go\<close>: random records, one batch for each hour of a
  number of days, handed to the pumps. The random source, the clock and the generator of UUIDs are
  functions over a state of the outside; the package variables are the rest of the state. The lemma: the
  batches follow each other hour by hour without a gap, each full, with every record inside its hour.
\<close>

record 'w demo =
  dm_apiKeys :: "string list"
  dm_apiID :: string
  dm_apiVersion :: string
  dm_world :: 'w

text \<open>\<open>dl_Intn n\<close> draws a number below \<open>n\<close> and panics unless \<open>n\<close> is positive.\<close>

record 'w demo_lib =
  dl_Seed :: "i64 \<Rightarrow> ('w, unit) io"
  dl_Intn :: "int \<Rightarrow> ('w, int) io"
  dl_Now :: "('w, gotime) io"
  dl_Uuid :: "('w, string) io"

definition in_world :: "('w, 'a) io \<Rightarrow> ('w demo, 'a) io" where
  "in_world m = io_on dm_world (\<lambda>w s. s\<lparr>dm_world := w\<rparr>) m"

section \<open>Random values\<close>

definition randomInRange :: "'w demo_lib \<Rightarrow> int \<Rightarrow> int \<Rightarrow> ('w demo, int) io" where
  "randomInRange lib mn mx = io_bind (in_world (dl_Now lib)) (\<lambda>t.
     io_bind (in_world (dl_Seed lib (of_int (t_sec t * 1000000000 + t_nsec t)))) (\<lambda>_.
     io_bind (in_world (dl_Intn lib (mx - mn))) (\<lambda>k. io_ret (k + mn))))"

text \<open>\<open>xs[rand.Intn(len(xs))]\<close>.\<close>

definition rand_pick :: "'w demo_lib \<Rightarrow> 'a list \<Rightarrow> ('w demo, 'a) io" where
  "rand_pick lib xs = io_bind (in_world (dl_Intn lib (int (length xs)))) (\<lambda>k.
     if 0 \<le> k \<and> k < int (length xs) then io_ret (xs ! nat k) else io_fail (GoPanic ''index out of range''))"

definition randomMethod :: "'w demo_lib \<Rightarrow> ('w demo, string) io" where
  "randomMethod lib = io_bind (in_world (dl_Now lib)) (\<lambda>t. io_bind (in_world (dl_Seed lib (time_unix t))) (\<lambda>_.
     rand_pick lib [''GET'', ''PUT'', ''POST'', ''DELETE'', ''OPTIONS'', ''HEAD'']))"

definition wordset :: "string list" where
  "wordset = [''unconvergent'', ''choragic'', ''umbellate'', ''redischarging'', ''quebrada'', ''contextured'',
     ''prerequest'', ''neckless'', ''billhook'', ''cobaltammine'', ''diaphototropism'', ''paraiba'',
     ''unsesquipedalian'', ''labyrinth'', ''interesterification'', ''dahlonega'', ''countryfiedness'', ''cayuga'',
     ''kernelled'', ''unprophesied'']"

fun add_words :: "'w demo_lib \<Rightarrow> nat \<Rightarrow> string \<Rightarrow> ('w demo, string) io" where
  "add_words lib 0 path = io_ret path"
| "add_words lib (Suc n) path = io_bind (rand_pick lib wordset) (\<lambda>word. add_words lib n (path @ ''/'' @ word))"

definition randomPath :: "'w demo_lib \<Rightarrow> ('w demo, string) io" where
  "randomPath lib = io_bind (randomInRange lib 1 3) (\<lambda>depth.
     io_bind (rand_pick lib [''/widget'', ''/foo'', ''/beep'', ''/boop'']) (\<lambda>path. add_words lib (nat depth) path))"

definition randomAPI :: "'w demo_lib \<Rightarrow> ('w demo, string \<times> string) io" where
  "randomAPI lib = io_bind (io_get dm_apiID) (\<lambda>apiID.
     if apiID \<noteq> [] then io_ret (''Foo Bar'', apiID)
     else rand_pick lib [(''Foo Bar Baz API'', ''de6e4d9ddde34d1657a6d93fab835abd''),
       (''Wibble Wobble API'', ''de6e4d9ddde34d1657a6d92fab935aba''), (''Wonky Ponky API'', ''de6e4d9ddde34d1657a6d91fab836abb'')])"

definition getUA :: "'w demo_lib \<Rightarrow> ('w demo, string) io" where
  "getUA lib = rand_pick lib
     [''Mozilla/5.0 (Windows NT 10.0; Win64; x64) AppleWebKit/537.36 (KHTML, like Gecko) Chrome/56.0.2924.87 Safari/537.36'',
      ''Mozilla/5.0 (Windows NT 6.1; WOW64) AppleWebKit/537.36 (KHTML, like Gecko) Chrome/56.0.2924.87 Safari/537.36'',
      ''Mozilla/5.0 (Windows NT 10.0; WOW64) AppleWebKit/537.36 (KHTML, like Gecko) Chrome/56.0.2924.87 Safari/537.36'',
      ''Mozilla/5.0 (Macintosh; Intel Mac OS X 10_12_3) AppleWebKit/537.36 (KHTML, like Gecko) Chrome/56.0.2924.87 Safari/537.36'',
      ''Mozilla/5.0 (Macintosh; Intel Mac OS X 10_12_3) AppleWebKit/602.4.8 (KHTML, like Gecko) Version/10.0.3 Safari/602.4.8'',
      ''Mozilla/5.0 (Windows NT 6.1; Win64; x64) AppleWebKit/537.36 (KHTML, like Gecko) Chrome/56.0.2924.87 Safari/537.36'',
      ''Mozilla/5.0 (Windows NT 10.0; WOW64; rv:51.0) Gecko/20100101 Firefox/51.0'',
      ''Mozilla/5.0 (Windows NT 10.0; WOW64; Trident/7.0; rv:11.0) like Gecko'']"

definition responseCode :: "'w demo_lib \<Rightarrow> ('w demo, i64) io" where
  "responseCode lib = rand_pick lib [200, 200, 200, 403, 200, 500, 200, 200, 200, 200]"

definition country :: "'w demo_lib \<Rightarrow> ('w demo, string) io" where
  "country lib = rand_pick lib [''RU'', ''US'', ''UK'']"

text \<open>A UUID that cannot be made is only logged; the zero UUID takes its place.\<close>

definition generateAPIKey :: "'w demo_lib \<Rightarrow> string \<Rightarrow> ('w demo, string) io" where
  "generateAPIKey lib orgId = io_bind (io_try (in_world (dl_Uuid lib))) (\<lambda>u.
     let u1 = (case u of Inl e \<Rightarrow> ''00000000-0000-0000-0000-000000000000'' | Inr x \<Rightarrow> x)
     in io_ret (orgId @ replace_char (CHR ''-'') [] u1))"

fun generate_keys :: "'w demo_lib \<Rightarrow> string \<Rightarrow> nat \<Rightarrow> ('w demo, string list) io" where
  "generate_keys lib orgId 0 = io_ret []"
| "generate_keys lib orgId (Suc n) = io_bind (generateAPIKey lib orgId) (\<lambda>k.
     io_bind (generate_keys lib orgId n) (\<lambda>ks. io_ret (k # ks)))"

definition GenerateAPIKeys :: "'w demo_lib \<Rightarrow> string \<Rightarrow> ('w demo, unit) io" where
  "GenerateAPIKeys lib orgId = io_bind (generate_keys lib orgId 50) (\<lambda>ks. io_upd (\<lambda>s. s\<lparr>dm_apiKeys := ks\<rparr>))"

definition getRandomKey :: "'w demo_lib \<Rightarrow> string \<Rightarrow> ('w demo, string) io" where
  "getRandomKey lib orgId = io_bind (io_get dm_apiKeys) (\<lambda>keys.
     io_bind (if keys = [] then GenerateAPIKeys lib orgId else io_ret ()) (\<lambda>_.
     io_bind (io_get dm_apiKeys) (\<lambda>keys. rand_pick lib keys)))"

definition DemoInit :: "'w demo_lib \<Rightarrow> string \<Rightarrow> string \<Rightarrow> string \<Rightarrow> ('w demo, unit) io" where
  "DemoInit lib orgId apiId version = io_bind (io_upd (\<lambda>s. s\<lparr>dm_apiID := apiId\<rparr>)) (\<lambda>_.
     io_bind (GenerateAPIKeys lib orgId) (\<lambda>_.
     io_upd (\<lambda>s. s\<lparr>dm_apiVersion := if version = [] then ''Default'' else version\<rparr>)))"

section \<open>Records\<close>

definition GenerateRandomAnalyticRecord :: "'w demo_lib \<Rightarrow> string \<Rightarrow> bool \<Rightarrow> ('w demo, analytics_record) io" where
  "GenerateRandomAnalyticRecord lib orgID trackPath =
     io_bind (randomPath lib) (\<lambda>p.
     io_bind (randomAPI lib) (\<lambda>(api, apiID).
     io_bind (in_world (dl_Now lib)) (\<lambda>ts.
     io_bind (randomMethod lib) (\<lambda>meth.
     io_bind (randomInRange lib 0 999) (\<lambda>len.
     io_bind (getUA lib) (\<lambda>ua.
     io_bind (responseCode lib) (\<lambda>code.
     io_bind (getRandomKey lib orgID) (\<lambda>key.
     io_bind (io_get dm_apiVersion) (\<lambda>version.
     io_bind (randomInRange lib 0 10) (\<lambda>reqTime.
     io_bind (in_world (dl_Now lib)) (\<lambda>now.
     io_bind (country lib) (\<lambda>c.
     io_ret (record_zero\<lparr>r_Method := meth, r_Path := p, r_RawPath := p, r_ContentLength := of_int len, r_UserAgent := ua,
       r_Day := of_int (time_day ts), r_Month := of_nat (time_month ts), r_Year := of_int (time_year ts),
       r_Hour := of_int (time_hour ts), r_ResponseCode := code, r_APIKey := key, r_TimeStamp := ts,
       r_APIVersion := version, r_APIName := api, r_APIID := apiID, r_OrgID := orgID, r_RequestTime := of_int reqTime,
       r_RawRequest := ''Qk9EWSBEQVRB'', r_RawResponse := ''UkVTUE9OU0UgREFUQQ=='', r_IPAddress := ''118.93.55.103'',
       r_Tags := [''orgid-'' @ orgID, ''apiid-'' @ apiID], r_TrackPath := trackPath,
       r_ExpireAt := time_add now (dur_hour * 8760), r_Geo := geo_zero\<lparr>geo_Country := c\<rparr>\<rparr>)))))))))))))"

fun demo_records :: "'w demo_lib \<Rightarrow> string \<Rightarrow> bool \<Rightarrow> int \<Rightarrow> nat \<Rightarrow> gotime \<Rightarrow> ('w demo, item list) io" where
  "demo_records lib orgID trackPath timeDifference 0 nextTimestamp = io_ret []"
| "demo_records lib orgID trackPath timeDifference (Suc n) nextTimestamp =
     io_bind (GenerateRandomAnalyticRecord lib orgID trackPath) (\<lambda>r.
       let r = r\<lparr>r_Day := of_int (time_day nextTimestamp), r_Month := of_nat (time_month nextTimestamp),
             r_Year := of_int (time_year nextTimestamp), r_Hour := of_int (time_hour nextTimestamp), r_TimeStamp := nextTimestamp\<rparr>
       in io_bind (demo_records lib orgID trackPath timeDifference n (time_add nextTimestamp (dur_second * of_int timeDifference)))
            (\<lambda>rs. io_ret (ItemRecord r # rs)))"

text \<open>\<open>Time.AddDate(0, 0, d)\<close>.\<close>

definition add_days :: "gotime \<Rightarrow> int \<Rightarrow> gotime" where
  "add_days t d = time_date (time_year t) (time_month t) (time_day t + d) (time_hour t) (time_minute t) (time_second t) (t_nsec t) (t_zone t) (t_off t)"

definition WriteDemoData ::
  "'w demo_lib \<Rightarrow> (item list \<Rightarrow> ('w, unit) io) \<Rightarrow> gotime \<Rightarrow> int \<Rightarrow> nat \<Rightarrow> int \<Rightarrow> string \<Rightarrow> bool \<Rightarrow> ('w demo, unit) io" where
  "WriteDemoData lib writer start d h recordsPerHour orgID trackPath =
     (let ts = time_add (add_days start d) (of_nat h * dur_hour)
      in io_bind (if 0 < recordsPerHour then io_ret recordsPerHour else randomInRange lib 300 500) (\<lambda>volume.
         io_bind (demo_records lib orgID trackPath (3600 div volume) (nat volume) ts) (\<lambda>batch.
         io_bind (in_world (dl_Now lib)) (\<lambda>_. in_world (writer batch)))))"

definition GenerateDemoData ::
  "'w demo_lib \<Rightarrow> (item list \<Rightarrow> ('w, unit) io) \<Rightarrow> int \<Rightarrow> int \<Rightarrow> string \<Rightarrow> bool \<Rightarrow> bool \<Rightarrow> ('w demo, unit) io" where
  "GenerateDemoData lib writer days recordsPerHour orgID demoFutureData trackPath =
     io_bind (in_world (dl_Now lib)) (\<lambda>t.
       let start = time_date (time_year t) (time_month t) (time_day t) 0 0 0 0 ''UTC'' 0
       in io_for (if demoFutureData then map int [0..<nat days] else map (\<lambda>d. - int d) (rev [1..<Suc (nat days)])) (\<lambda>d.
            io_for [0..<24] (\<lambda>h. WriteDemoData lib writer start d h recordsPerHour orgID trackPath)))"

section \<open>Every hour is full\<close>

text \<open>Calls that succeed, with a result of a kind, and leave a part of the state alone.\<close>

definition gives :: "('s \<Rightarrow> 'x) \<Rightarrow> ('a \<Rightarrow> bool) \<Rightarrow> ('s, 'a) io \<Rightarrow> bool" where
  "gives f P m \<longleftrightarrow> (\<forall>s. \<exists>x t. m s = (Inr x, t) \<and> f t = f s \<and> P x)"

named_theorems gives_intros

lemma gives_ret [gives_intros]: "P x \<Longrightarrow> gives f P (io_ret x)"
  by (simp add: gives_def)

lemma gives_get [gives_intros]: "(\<And>s. P (g s)) \<Longrightarrow> gives f P (io_get g)"
  by (simp add: gives_def)

lemma gives_upd [gives_intros]: "(\<And>s. f (g s) = f s) \<Longrightarrow> P () \<Longrightarrow> gives f P (io_upd g)"
  by (simp add: gives_def)

lemma gives_bind:
  assumes "gives f P m" and "\<And>x. P x \<Longrightarrow> gives f Q (g x)"
  shows "gives f Q (io_bind m g)"
  unfolding gives_def
proof
  fix s
  from assms(1) obtain x t where m: "m s = (Inr x, t)" "f t = f s" "P x" unfolding gives_def by blast
  from assms(2) [OF m(3)] obtain y u where "g x t = (Inr y, u)" "f u = f t" "Q y" unfolding gives_def by blast
  with m show "\<exists>y u. io_bind m g s = (Inr y, u) \<and> f u = f s \<and> Q y" by (simp add: io_bind_ok)
qed

lemma gives_any [gives_intros]: "gives f (\<lambda>_. True) m \<Longrightarrow> (\<And>x. gives f Q (g x)) \<Longrightarrow> gives f Q (io_bind m g)"
  by (rule gives_bind)

text \<open>What the outside promises: draws in range, and nothing that touches what the pumps have received.\<close>

definition demo_law :: "'w demo_lib \<Rightarrow> ('w \<Rightarrow> 'x) \<Rightarrow> bool" where
  "demo_law lib seen \<longleftrightarrow> (\<forall>k. gives seen (\<lambda>_. True) (dl_Seed lib k)) \<and> gives seen (\<lambda>_. True) (dl_Now lib) \<and>
     (\<forall>n>0. gives seen (\<lambda>k. 0 \<le> k \<and> k < n) (dl_Intn lib n)) \<and>
     (\<forall>w. \<exists>r w'. dl_Uuid lib w = (r, w') \<and> seen w' = seen w \<and> (\<forall>p. r \<noteq> Inl (GoPanic p)))"

lemma gives_world [gives_intros]: "gives seen P m \<Longrightarrow> gives (\<lambda>s. seen (dm_world s)) P (in_world m)"
  unfolding gives_def in_world_def io_on_def by (auto split: prod.splits) (metis Pair_inject)

abbreviation draws :: "('w \<Rightarrow> 'x) \<Rightarrow> ('w demo, 'a) io \<Rightarrow> bool" where
  "draws seen \<equiv> gives (\<lambda>s. seen (dm_world s)) (\<lambda>_. True)"

lemma draw_outside:
  assumes "demo_law lib seen"
  shows "draws seen (in_world (dl_Now lib))" and "draws seen (in_world (dl_Seed lib k))"
    and "0 < n \<Longrightarrow> gives (\<lambda>s. seen (dm_world s)) (\<lambda>k. 0 \<le> k \<and> k < n) (in_world (dl_Intn lib n))"
  using assms unfolding demo_law_def by (auto intro!: gives_world)

lemma draw_range: "demo_law lib seen \<Longrightarrow> mn < mx \<Longrightarrow> gives (\<lambda>s. seen (dm_world s)) (\<lambda>k. mn \<le> k \<and> k < mx) (randomInRange lib mn mx)"
  unfolding randomInRange_def
  by (intro gives_any draw_outside gives_bind [OF draw_outside(3)] gives_ret) auto

lemma draw_pick: "demo_law lib seen \<Longrightarrow> xs \<noteq> [] \<Longrightarrow> draws seen (rand_pick lib xs)"
  unfolding rand_pick_def by (rule gives_bind [OF draw_outside(3)]) (auto simp: gives_def)

lemma draw_words:
  assumes "demo_law lib seen"
  shows "draws seen (add_words lib n path)"
proof (induction n arbitrary: path)
  case 0
  show ?case unfolding add_words.simps by (rule gives_ret) simp
next
  case (Suc n)
  show ?case unfolding add_words.simps
    by (rule gives_any [OF draw_pick [OF assms]]) (simp add: wordset_def, rule Suc.IH)
qed

lemma draw_keys:
  fixes lib :: "'w demo_lib"
  assumes "demo_law lib seen"
  shows "gives (\<lambda>s. seen (dm_world s)) (\<lambda>ks. length ks = n) (generate_keys lib orgId n)"
proof (induction n)
  case (Suc n)
  have u: "draws seen (io_try (in_world (dl_Uuid lib)))"
    unfolding gives_def
  proof
    fix s :: "'w demo"
    from assms obtain r w' where r: "dl_Uuid lib (dm_world s) = (r, w')" "seen w' = seen (dm_world s)" "\<forall>p. r \<noteq> Inl (GoPanic p)"
      unfolding demo_law_def by blast
    then have "in_world (dl_Uuid lib) s = (r, s\<lparr>dm_world := w'\<rparr>)" by (simp add: in_world_def io_on_def)
    with r show "\<exists>x t. io_try (in_world (dl_Uuid lib)) s = (Inr x, t) \<and> seen (dm_world t) = seen (dm_world s) \<and> True"
      by (cases r; cases "projl r") (auto simp: io_try_def)
  qed
  have "draws seen (generateAPIKey lib orgId)"
    unfolding generateAPIKey_def Let_def by (rule gives_any [OF u]) (rule gives_ret, simp)
  then show ?case
    unfolding generate_keys.simps by (rule gives_any) (rule gives_bind [OF Suc], rule gives_ret, simp)
next
  case 0
  show ?case unfolding generate_keys.simps by (rule gives_ret) simp
qed

lemma draw_record:
  assumes "demo_law lib seen"
  shows "gives (\<lambda>s. seen (dm_world s)) (\<lambda>r. r_OrgID r = orgID) (GenerateRandomAnalyticRecord lib orgID trackPath)"
proof -
  note outside = draw_outside(1,2) [OF assms] draw_pick [OF assms] draw_words [OF assms]
  have r: "draws seen (randomInRange lib mn mx)" if "mn < mx" for mn mx
    using draw_range [OF assms that] unfolding gives_def by blast
  have keys: "draws seen (GenerateAPIKeys lib orgID)"
    unfolding GenerateAPIKeys_def by (rule gives_bind [OF draw_keys [OF assms]]) (rule gives_upd, simp_all)
  have key: "draws seen (getRandomKey lib orgID)"
  proof -
    have run: "\<exists>x t. getRandomKey lib orgID s = (Inr x, t) \<and> seen (dm_world t) = seen (dm_world s)" for s
    proof (cases "dm_apiKeys s = []")
      case False
      with draw_pick [OF assms False] show ?thesis by (simp add: getRandomKey_def gives_def)
    next
      case True
      from draw_keys [OF assms, of 50 orgID] obtain ks t where ks: "generate_keys lib orgID 50 s = (Inr ks, t)"
        "seen (dm_world t) = seen (dm_world s)" "length ks = 50" unfolding gives_def by blast
      then have "ks \<noteq> []" by auto
      from draw_pick [OF assms this] ks True show ?thesis
        by (simp add: getRandomKey_def GenerateAPIKeys_def gives_def io_bind_def)
          (metis demo.simps(4) demo.simps(8) demo.surjective demo.update_convs(1))
    qed
    then show ?thesis by (simp add: gives_def)
  qed
  have api: "draws seen (randomAPI lib)"
    unfolding randomAPI_def by (rule gives_any) (auto intro!: gives_get gives_ret outside)
  have path: "draws seen (randomPath lib)"
    unfolding randomPath_def by (intro gives_any r outside) simp_all
  have meth: "draws seen (randomMethod lib)"
    unfolding randomMethod_def by (intro gives_any outside) simp_all
  have rest: "draws seen (getUA lib)" "draws seen (responseCode lib)" "draws seen (country lib)"
    unfolding getUA_def responseCode_def country_def by (intro outside; simp)+
  show ?thesis unfolding GenerateRandomAnalyticRecord_def case_prod_unfold
    by (intro gives_any path api meth rest key r outside gives_get gives_ret) simp_all
qed

definition seconds_later :: "gotime \<Rightarrow> int \<Rightarrow> gotime" where
  "seconds_later t k = t\<lparr>t_sec := t_sec t + k\<rparr>"

lemma time_add_seconds:
  assumes "0 \<le> k" and "k \<le> 86400" and "time_ok t"
  shows "time_add t (dur_second * of_int k) = seconds_later t k"
proof -
  have "sint (of_int (1000000000 * k) :: i64) = 1000000000 * k" by (rule sint_of_int64) (use assms in simp_all)
  then have "sint (dur_second * of_int k) = k * 1000000000" by (simp add: dur_second_def)
  moreover have "(t_nsec t + k * 1000000000) div 1000000000 = k" "(t_nsec t + k * 1000000000) mod 1000000000 = t_nsec t"
    using assms(3) by (simp_all add: time_ok_def)
  ultimately show ?thesis by (simp add: time_add_def seconds_later_def Let_def)
qed

lemma seconds_later_simps [simp]:
  "seconds_later (seconds_later t j) k = seconds_later t (j + k)" "time_ok (seconds_later t k) = time_ok t" "seconds_later t 0 = t"
  by (simp_all add: seconds_later_def time_ok_def)

definition in_steps :: "string \<Rightarrow> gotime \<Rightarrow> int \<Rightarrow> nat \<Rightarrow> item list \<Rightarrow> bool" where
  "in_steps orgID ts k n rs \<longleftrightarrow> length rs = n \<and>
     (\<forall>i<n. \<exists>r. rs ! i = ItemRecord r \<and> r_OrgID r = orgID \<and> r_TimeStamp r = seconds_later ts (int i * k) \<and>
        r_Hour r = of_int (time_hour (seconds_later ts (int i * k))))"

lemma demo_records_steps:
  assumes "demo_law lib seen" and "0 \<le> k" and "k \<le> 86400" and "time_ok ts"
  shows "gives (\<lambda>s. seen (dm_world s)) (in_steps orgID ts k n) (demo_records lib orgID trackPath k n ts)"
  using assms(4)
proof (induction n arbitrary: ts)
  case 0
  show ?case unfolding demo_records.simps by (rule gives_ret) (simp add: in_steps_def)
next
  case (Suc n)
  show ?case unfolding demo_records.simps Let_def
  proof (rule gives_bind [OF draw_record [OF assms(1)]])
    fix r :: analytics_record
    assume r: "r_OrgID r = orgID"
    have later: "time_add ts (dur_second * of_int k) = seconds_later ts k"
      by (rule time_add_seconds) (use assms Suc.prems in auto)
    from Suc.IH [of "seconds_later ts k"] Suc.prems
    have "gives (\<lambda>s. seen (dm_world s)) (in_steps orgID (seconds_later ts k) k n) (demo_records lib orgID trackPath k n (seconds_later ts k))"
      by simp
    then show "gives (\<lambda>s. seen (dm_world s)) (in_steps orgID ts k (Suc n))
      (io_bind (demo_records lib orgID trackPath k n (time_add ts (dur_second * of_int k)))
        (\<lambda>rs. io_ret (ItemRecord (r\<lparr>r_Day := of_int (time_day ts), r_Month := of_nat (time_month ts),
             r_Year := of_int (time_year ts), r_Hour := of_int (time_hour ts), r_TimeStamp := ts\<rparr>) # rs)))"
      unfolding later
      by (rule gives_bind) (rule gives_ret, auto simp: in_steps_def r nth_Cons algebra_simps split: nat.split)
  qed
qed

text \<open>Days and hours of the start, which is a midnight of UTC.\<close>

definition midnight :: "int \<Rightarrow> gotime" where
  "midnight d = \<lparr>t_sec = 86400 * d, t_nsec = 0, t_zone = ''UTC'', t_off = 0\<rparr>"

lemma start_midnight: "\<exists>d. time_date y m d' 0 0 0 0 ''UTC'' 0 = midnight d"
  by (rule exI [of _ "days_before_year y + days_before_month (is_leap y) m + (d' - 1) - unix_to_days"]) (simp add: time_date_def midnight_def Let_def)

lemma add_days_midnight: "add_days (midnight d) k = midnight (d + k)"
proof -
  have "time_date (time_year t) (time_month t) (time_day t + k) h mi s ns z off =
    seconds_later (time_date (time_year t) (time_month t) (time_day t) h mi s ns z off) (86400 * k)" for t h mi s ns z off
    by (simp add: time_date_def seconds_later_def Let_def algebra_simps)
  moreover have "time_hour (midnight d) = 0" "time_minute (midnight d) = 0" "time_second (midnight d) = 0"
    by (simp_all add: midnight_def time_hour_def time_minute_def time_second_def day_sec_def)
  moreover have "trunc_hour (midnight d) = midnight d" by (simp add: midnight_def trunc_hour_def day_sec_def)
  ultimately show ?thesis using date_hour [of "midnight d"]
    by (simp add: add_days_def midnight_def seconds_later_def)
qed

lemma add_hours: "h < 24 \<Longrightarrow> time_add (midnight d) (of_nat h * dur_hour) = seconds_later (midnight d) (3600 * int h)"
  using time_add_seconds [of "3600 * int h" "midnight d"]
  by (simp add: midnight_def time_ok_def dur_hour_def dur_second_def mult.commute)

text \<open>
  With a positive number of records an hour: one batch for each hour, in order and without a gap, and in
  each batch that number of records, in even steps that stay inside the hour.
\<close>

definition hour_start :: "int \<Rightarrow> nat \<Rightarrow> gotime" where
  "hour_start d h = seconds_later (midnight d) (3600 * int h)"

lemma step_bounds: "0 \<le> 3600 div int n" "3600 div int n \<le> 3600"
proof -
  have "3600 div int n = int (3600 div n)" by (simp add: zdiv_int)
  moreover have "3600 div n \<le> 3600" by (rule div_le_dividend)
  ultimately show "0 \<le> 3600 div int n" "3600 div int n \<le> 3600" by linarith+
qed

lemma inside_hour:
  assumes "0 < n" and "i < n" and "h < 24"
  shows "time_hour (seconds_later (hour_start d h) (int i * (3600 div int n))) = int h"
proof -
  define x where "x = int i * (3600 div int n)"
  have "int i * (3600 div int n) \<le> (int n - 1) * (3600 div int n)" using assms by (intro mult_right_mono step_bounds) auto
  also have "\<dots> = int n * (3600 div int n) - 3600 div int n" by (simp add: algebra_simps)
  also have "\<dots> < 3600"
  proof -
    have "int n * (3600 div int n) = int (n * (3600 div n))" by (simp add: zdiv_int)
    also have "\<dots> \<le> 3600" by (metis of_nat_le_iff of_nat_numeral times_div_less_eq_dividend)
    finally show ?thesis using step_bounds(1) [of n] by (cases "3600 div int n = 0") auto
  qed
  finally have "x < 3600" by (simp add: x_def)
  moreover have "0 \<le> x" unfolding x_def by (intro mult_nonneg_nonneg step_bounds) simp
  ultimately have x: "0 \<le> x" "x < 3600" by simp_all
  have "(86400 * d + 3600 * int h + x) mod 86400 = (3600 * int h + x) mod 86400"
    by (metis add.assoc add.commute mod_mult_self2)
  also have "\<dots> = 3600 * int h + x" using x assms(3) by (simp add: mod_pos_pos_trivial)
  finally have "(86400 * d + 3600 * int h + x) mod 86400 = 3600 * int h + x" .
  then show ?thesis using x unfolding x_def [symmetric]
    by (simp add: hour_start_def midnight_def seconds_later_def time_hour_def day_sec_def)
qed

definition full_hour :: "string \<Rightarrow> nat \<Rightarrow> gotime \<Rightarrow> item list \<Rightarrow> bool" where
  "full_hour orgID n ts rs \<longleftrightarrow> in_steps orgID ts (3600 div int n) n rs \<and>
     (\<forall>i<n. \<exists>r. rs ! i = ItemRecord r \<and> r_Hour r = of_int (time_hour ts))"

lemma in_steps_full:
  assumes "in_steps orgID (hour_start d h) (3600 div int n) n rs" and "0 < n" and "h < 24"
  shows "full_hour orgID n (hour_start d h) rs"
proof -
  have "time_hour (hour_start d h) = int h" using inside_hour [of 1 0 h d] assms(3) by simp
  with assms show ?thesis by (auto simp: full_hour_def in_steps_def inside_hour)
qed

text \<open>The pumps receive what the writer is given.\<close>

definition writer_law :: "(item list \<Rightarrow> ('w, unit) io) \<Rightarrow> ('w \<Rightarrow> item list list) \<Rightarrow> bool" where
  "writer_law writer seen \<longleftrightarrow> (\<forall>rs w. \<exists>w'. writer rs w = (Inr (), w') \<and> seen w' = seen w @ [rs])"

definition sends :: "('w \<Rightarrow> item list list) \<Rightarrow> (item list list \<Rightarrow> bool) \<Rightarrow> ('w demo, unit) io \<Rightarrow> bool" where
  "sends seen P m \<longleftrightarrow> (\<forall>s. \<exists>t bs. m s = (Inr (), t) \<and> seen (dm_world t) = seen (dm_world s) @ bs \<and> P bs)"

lemma sends_after: "draws seen m \<Longrightarrow> (\<And>x. sends seen P (g x)) \<Longrightarrow> sends seen P (io_bind m g)"
  unfolding sends_def gives_def by (metis io_bind_ok)

lemma WriteDemoData_sends:
  fixes lib :: "'w demo_lib"
  assumes "demo_law lib seen" and "writer_law writer seen" and "0 < n" and "h < 24"
  shows "sends seen (\<lambda>bs. \<exists>rs. bs = [rs] \<and> full_hour orgID n (hour_start (d + k) h) rs)
    (WriteDemoData lib writer (midnight d) k h (int n) orgID trackPath)"
  unfolding sends_def
proof
  fix s :: "'w demo"
  have steps: "0 \<le> 3600 div int n" "3600 div int n \<le> 86400"
    using step_bounds [of n] by linarith+
  have "time_ok (hour_start (d + k) h)" by (simp add: hour_start_def midnight_def time_ok_def seconds_later_def)
  from demo_records_steps [OF assms(1) steps this, of orgID n trackPath] obtain rs t where
    rs: "demo_records lib orgID trackPath (3600 div int n) n (hour_start (d + k) h) s = (Inr rs, t)"
    "seen (dm_world t) = seen (dm_world s)" "in_steps orgID (hour_start (d + k) h) (3600 div int n) n rs"
    unfolding gives_def by blast
  from draw_outside(1) [OF assms(1)] obtain now u where now: "in_world (dl_Now lib) t = (Inr now, u)" "seen (dm_world u) = seen (dm_world t)"
    unfolding gives_def by blast
  from assms(2) obtain w' where w: "writer rs (dm_world u) = (Inr (), w')" "seen w' = seen (dm_world u) @ [rs]" unfolding writer_law_def by blast
  then have "in_world (writer rs) u = (Inr (), u\<lparr>dm_world := w'\<rparr>)" by (simp add: in_world_def io_on_def)
  with rs now have "WriteDemoData lib writer (midnight d) k h (int n) orgID trackPath s = (Inr (), u\<lparr>dm_world := w'\<rparr>)"
    using assms(3,4) by (simp add: WriteDemoData_def add_days_midnight add_hours hour_start_def io_bind_ok)
  with w rs now in_steps_full [OF rs(3) assms(3,4)] show "\<exists>t bs. WriteDemoData lib writer (midnight d) k h (int n) orgID trackPath s = (Inr (), t) \<and>
    seen (dm_world t) = seen (dm_world s) @ bs \<and> (\<exists>rs. bs = [rs] \<and> full_hour orgID n (hour_start (d + k) h) rs)"
    by auto
qed

lemma sends_for:
  fixes m :: "'b \<Rightarrow> ('w demo, unit) io"
  assumes "\<And>x. x \<in> set xs \<Longrightarrow> sends seen (\<lambda>bs. list_all2 R (f x) bs) (m x)"
  shows "sends seen (list_all2 R (concat (map f xs))) (io_for xs m)"
  using assms
proof (induction xs)
  case Nil
  show ?case by (simp add: sends_def)
next
  case (Cons x xs)
  show ?case unfolding sends_def
  proof
    fix s :: "'w demo"
    from Cons.prems have "sends seen (\<lambda>bs. list_all2 R (f x) bs) (m x)" by simp
    then obtain t bs where t: "m x s = (Inr (), t)" "seen (dm_world t) = seen (dm_world s) @ bs" "list_all2 R (f x) bs"
      unfolding sends_def by blast
    from Cons.IH Cons.prems obtain u cs where u: "io_for xs m t = (Inr (), u)" "seen (dm_world u) = seen (dm_world t) @ cs"
      "list_all2 R (concat (map f xs)) cs" unfolding sends_def by (metis list.set_intros(2))
    from t u show "\<exists>t bs. io_for (x # xs) m s = (Inr (), t) \<and> seen (dm_world t) = seen (dm_world s) @ bs \<and>
      list_all2 R (concat (map f (x # xs))) bs" by (auto simp: io_bind_ok list_all2_appendI)
  qed
qed

text \<open>
  The demo data: for each day, from the first past day to yesterday or from today on, the 24 hours.
\<close>

lemma GenerateDemoData_sends:
  assumes "demo_law lib seen" and "writer_law writer seen" and "0 < n"
  shows "\<exists>d t bs. GenerateDemoData lib writer days (int n) orgID future trackPath s = (Inr (), t) \<and>
    seen (dm_world t) = seen (dm_world s) @ bs \<and>
    list_all2 (full_hour orgID n)
      (concat (map (\<lambda>k. map (hour_start (d + k)) [0..<24]) (if future then map int [0..<nat days] else map (\<lambda>k. - int k) (rev [1..<Suc (nat days)])))) bs"
proof -
  from draw_outside(1) [OF assms(1)] obtain now u where now: "in_world (dl_Now lib) s = (Inr now, u)" "seen (dm_world u) = seen (dm_world s)"
    unfolding gives_def by blast
  obtain d where d: "time_date (time_year now) (time_month now) (time_day now) 0 0 0 0 ''UTC'' 0 = midnight d" using start_midnight by blast
  have hour: "sends seen (\<lambda>bs. list_all2 (full_hour orgID n) [hour_start (d + k) h] bs) (WriteDemoData lib writer (midnight d) k h (int n) orgID trackPath)"
    if "h \<in> set [0..<24]" for h k
    using WriteDemoData_sends [OF assms, of h orgID d k trackPath] that by (auto simp: sends_def) blast
  have day: "sends seen (\<lambda>bs. list_all2 (full_hour orgID n) (map (hour_start (d + k)) [0..<24]) bs)
    (io_for [0..<24] (\<lambda>h. WriteDemoData lib writer (midnight d) k h (int n) orgID trackPath))" for k
  proof -
    have "concat (map (\<lambda>h. [hour_start (d + k) h]) [0..<24]) = map (hour_start (d + k)) [0..<24]" by (rule concat_map_singleton)
    with sends_for [OF hour, where xs = "[0..<24]"] show ?thesis by simp
  qed
  let ?days = "if future then map int [0..<nat days] else map (\<lambda>k. - int k) (rev [1..<Suc (nat days)])"
  have "sends seen (list_all2 (full_hour orgID n) (concat (map (\<lambda>k. map (hour_start (d + k)) [0..<24]) ?days)))
    (io_for ?days (\<lambda>k. io_for [0..<24] (\<lambda>h. WriteDemoData lib writer (midnight d) k h (int n) orgID trackPath)))"
    by (rule sends_for) (rule day)
  then obtain t bs where
    "io_for ?days (\<lambda>k. io_for [0..<24] (\<lambda>h. WriteDemoData lib writer (midnight d) k h (int n) orgID trackPath)) u = (Inr (), t)"
    "seen (dm_world t) = seen (dm_world u) @ bs" "list_all2 (full_hour orgID n) (concat (map (\<lambda>k. map (hour_start (d + k)) [0..<24]) ?days)) bs"
    unfolding sends_def by blast
  with now d show ?thesis
    by (intro exI [of _ d] exI [of _ t] exI [of _ bs]) (simp add: GenerateDemoData_def io_bind_ok Let_def)
qed

end
