(* ===== verification/Process_Services.thy ===== *)
theory Process_Services
  imports Startup Instrumentation Demo_Data
begin

text \<open>
  What serves the process around the purge loop: the logger (\<open>src/logger/init.go\<close>), the health
  check (\<open>src/server/server.go\<close>) and the demo mode of \<open>src/main.go\<close>. The HTTP server and
  the library that formats an entry are parameters or left out. The lemmas: which formatter wins, which
  level, and what the server answers.
\<close>

section \<open>Logger\<close>

datatype log_level = ErrorLevel | WarnLevel | InfoLevel | DebugLevel

definition level :: "string \<Rightarrow> log_level" where
  "level s = (let l = to_lower s
     in if l = ''error'' then ErrorLevel else if l = ''warn'' then WarnLevel else if l = ''debug'' then DebugLevel else InfoLevel)"

record text_formatter =
  tf_FieldMap :: "(string \<times> string) list"
  tf_TimestampFormat :: string
  tf_FullTimestamp :: bool
  tf_DisableColors :: bool

datatype formatter = TextFormatter text_formatter | JSONFormatter "(string \<times> string) list" string

definition fieldMapperDefault :: "(string \<times> string) list" where
  "fieldMapperDefault = [(''msg'', ''message'')]"

definition TimeFormatLegacy :: string where
  "TimeFormatLegacy = ''Jan 02 15:04:05''"

definition TimeFormatRFC3339 :: string where
  "TimeFormatRFC3339 = ''2006-01-02T15:04:05Z07:00''"

definition newFormatter :: "string \<Rightarrow> formatter" where
  "newFormatter fmt =
     (if fmt = ''legacy'' then TextFormatter \<lparr>tf_FieldMap = [], tf_TimestampFormat = TimeFormatLegacy, tf_FullTimestamp = True, tf_DisableColors = True\<rparr>
      else if fmt = ''json'' then JSONFormatter fieldMapperDefault TimeFormatRFC3339
      else TextFormatter \<lparr>tf_FieldMap = fieldMapperDefault, tf_TimestampFormat = TimeFormatRFC3339, tf_FullTimestamp = True, tf_DisableColors = True\<rparr>)"

text \<open>The logger of the project and the standard logger of the library, which other packages log with.\<close>

record loggers =
  lg_Level :: log_level
  lg_Formatter :: formatter
  lg_StandardFormatter :: "formatter option"

definition logger_init :: "environ \<Rightarrow> loggers" where
  "logger_init env = \<lparr>lg_Level = level (getenv env ''TYK_LOGLEVEL''), lg_Formatter = newFormatter ''text'', lg_StandardFormatter = None\<rparr>"

fun resolve_format :: "environ \<Rightarrow> string \<Rightarrow> string list \<Rightarrow> string" where
  "resolve_format env fmt [] = fmt"
| "resolve_format env fmt (v # vs) = (if getenv env v \<noteq> [] then getenv env v else resolve_format env fmt vs)"

definition SetupFormatter :: "environ \<Rightarrow> string \<Rightarrow> string list \<Rightarrow> loggers \<Rightarrow> loggers" where
  "SetupFormatter env fmt envVars lg =
     (let resolved = resolve_format env fmt envVars; f = newFormatter resolved; lg = lg\<lparr>lg_Formatter := f\<rparr>
      in if resolved = ''legacy'' then lg else lg\<lparr>lg_StandardFormatter := Some f\<rparr>)"

text \<open>The loggers after \<open>Init\<close>: the level of the configuration, if any, replaces the first one.\<close>

definition setup_loggers :: "environ \<Rightarrow> bool \<Rightarrow> string \<Rightarrow> string \<Rightarrow> loggers res" where
  "setup_loggers env debugMode logFormat logLevel =
     rbind (init_log_level env debugMode logLevel) (\<lambda>l.
       let lg = SetupFormatter env logFormat [''TYK_LOGFORMAT''] (logger_init env)
       in Inr (case l of None \<Rightarrow> lg | Some l \<Rightarrow> lg\<lparr>lg_Level := level l\<rparr>))"

lemma resolve_format_first:
  assumes "getenv env v \<noteq> []" and "\<forall>u \<in> set us. getenv env u = []"
  shows "resolve_format env fmt (us @ v # vs) = getenv env v"
  using assms by (induction us) simp_all

lemma resolve_format_none: "\<forall>u \<in> set us. getenv env u = [] \<Longrightarrow> resolve_format env fmt us = fmt"
  by (induction us) simp_all

lemma level_names [simp]: "level ''error'' = ErrorLevel" "level ''warn'' = WarnLevel" "level ''debug'' = DebugLevel"
  "level ''info'' = InfoLevel" "level [] = InfoLevel"
  by code_simp+

lemma init_log_level_cases:
  "init_log_level env debugMode l =
     (if getenv env ''TYK_LOGLEVEL'' = [] \<and> to_lower l \<notin> {[], ''info'', ''error'', ''warn'', ''debug''}
      then Inl (GoPanic ''exit: Invalid log level specified in config, must be error, warn, debug or info. '')
      else Inr (if debugMode then Some ''debug''
        else if getenv env ''TYK_LOGLEVEL'' \<noteq> [] \<or> to_lower l \<in> {[], ''info''} then None else Some (to_lower l)))"
  by (simp add: init_log_level_def Let_def rbind_def)

lemma logger_init_level: "lg_Level (SetupFormatter env fmt vs (logger_init env)) = level (getenv env ''TYK_LOGLEVEL'')"
  by (simp add: SetupFormatter_def logger_init_def Let_def)

text \<open>A level of the environment that is not known means \<open>info\<close>; in the configuration it ends the process.\<close>

lemma setup_level:
  assumes "setup_loggers env debugMode logFormat l = Inr lg"
  shows "lg_Level lg = (if debugMode then DebugLevel
       else if getenv env ''TYK_LOGLEVEL'' \<noteq> [] then level (getenv env ''TYK_LOGLEVEL'') else level (to_lower l))"
proof (cases "getenv env ''TYK_LOGLEVEL'' = [] \<and> to_lower l \<notin> {[], ''info'', ''error'', ''warn'', ''debug''}")
  case True
  with assms show ?thesis by (simp add: setup_loggers_def init_log_level_cases rbind_def)
next
  case False
  have lg: "lg = (case (if debugMode then Some ''debug''
      else if getenv env ''TYK_LOGLEVEL'' \<noteq> [] \<or> to_lower l \<in> {[], ''info''} then None else Some (to_lower l)) of
    None \<Rightarrow> SetupFormatter env logFormat [''TYK_LOGFORMAT''] (logger_init env)
  | Some l \<Rightarrow> (SetupFormatter env logFormat [''TYK_LOGFORMAT''] (logger_init env))\<lparr>lg_Level := level l\<rparr>)"
    using assms False unfolding setup_loggers_def init_log_level_cases by (simp only: if_False rbind_def sum.case Let_def sum.inject)
  consider "debugMode" | "\<not> debugMode" "getenv env ''TYK_LOGLEVEL'' \<noteq> []" | "\<not> debugMode" "getenv env ''TYK_LOGLEVEL'' = []" "to_lower l \<in> {[], ''info''}"
    | "\<not> debugMode" "getenv env ''TYK_LOGLEVEL'' = []" "to_lower l \<notin> {[], ''info''}" by blast
  then show ?thesis by cases (simp_all only: lg if_True if_False option.case logger_init_level, auto simp: logger_init_level)
qed

lemma setup_loggers_fails:
  "(\<exists>e. setup_loggers env debugMode logFormat l = Inl e) \<longleftrightarrow>
     getenv env ''TYK_LOGLEVEL'' = [] \<and> to_lower l \<notin> {[], ''info'', ''error'', ''warn'', ''debug''}"
  by (simp add: setup_loggers_def init_log_level_cases rbind_def)

section \<open>Health check\<close>

datatype route = HealthRoute string | ProfileRoute string

record http_response =
  hr_ContentType :: string
  hr_Status :: nat
  hr_Body :: string

definition Healthcheck :: http_response where
  "Healthcheck = \<lparr>hr_ContentType = ''application/json'', hr_Status = 200, hr_Body = ''{\"status\": \"ok\"}''\<rparr>"

definition health_routes :: "string \<Rightarrow> bool \<Rightarrow> route list" where
  "health_routes configHealthEndpoint enableProfiling =
     (let healthEndpoint = (if configHealthEndpoint = [] then ''health'' else configHealthEndpoint)
      in HealthRoute (''/'' @ healthEndpoint) #
         (if enableProfiling then [ProfileRoute ''/debug/pprof/profile'', ProfileRoute ''/debug/pprof/{_:.*}''] else []))"

definition ServeHealthCheck :: "(string \<Rightarrow> route list \<Rightarrow> ('s, unit) io) \<Rightarrow> string \<Rightarrow> i64 \<Rightarrow> bool \<Rightarrow> ('s, unit) io" where
  "ServeHealthCheck listen configHealthEndpoint configHealthPort enableProfiling =
     (let healthPort = (if configHealthPort = 0 then 8083 else configHealthPort)
      in io_bind (io_try (listen ('':'' @ itoa healthPort) (health_routes configHealthEndpoint enableProfiling))) (\<lambda>r.
           case r of Inl e \<Rightarrow> io_fail (GoPanic (''exit: Error serving health check endpoint'' @ e)) | Inr u \<Rightarrow> io_ret ()))"

text \<open>What a GET of a path gets: the routes are matched in order.\<close>

definition health_get :: "string \<Rightarrow> bool \<Rightarrow> string \<Rightarrow> http_response option" where
  "health_get endpoint profiling path =
     (case find (\<lambda>r. r = HealthRoute path) (health_routes endpoint profiling) of None \<Rightarrow> None | Some r \<Rightarrow> Some Healthcheck)"

lemma health_get_ok:
  "health_get endpoint profiling path = Some r \<longleftrightarrow>
     path = ''/'' @ (if endpoint = [] then ''health'' else endpoint) \<and> r = Healthcheck"
  by (auto simp: health_get_def health_routes_def Let_def split: if_splits)

section \<open>Demo mode\<close>

text \<open>The organisation of the demo data: the variable before the flag.\<close>

definition demo_mode :: "environ \<Rightarrow> string \<Rightarrow> string" where
  "demo_mode env flag = (let envDemo = getenv env ''TYK_PMP_BUILDDEMODATA'' in if envDemo \<noteq> [] then envDemo else flag)"

record demo_flags =
  df_Org :: string
  df_Api :: string
  df_ApiVersion :: string
  df_TrackPath :: bool
  df_Days :: int
  df_RecordsPerHour :: int
  df_FutureData :: bool

text \<open>The end of \<open>main\<close> in the demo mode; without it the purge loop is started.\<close>

definition main_demo ::
  "'w demo_lib \<Rightarrow> (item list \<Rightarrow> ('w, unit) io) \<Rightarrow> environ \<Rightarrow> demo_flags \<Rightarrow> ('w demo, unit) io option" where
  "main_demo lib writer env flags =
     (let org = demo_mode env (df_Org flags)
      in if org \<noteq> []
         then Some (io_bind (DemoInit lib org (df_Api flags) (df_ApiVersion flags)) (\<lambda>_.
           GenerateDemoData lib writer (df_Days flags) (df_RecordsPerHour flags) org (df_FutureData flags) (df_TrackPath flags)))
         else None)"

text \<open>The demo mode fills every hour of the days it is asked for, for the organisation it is asked for.\<close>

lemma main_demo_sends:
  assumes "demo_law lib seen" and "writer_law writer seen" and "0 < n" and "df_RecordsPerHour flags = int n"
    and "main_demo lib writer env flags = Some run"
  shows "\<exists>d t bs. run s = (Inr (), t) \<and> seen (dm_world t) = seen (dm_world s) @ bs \<and>
    list_all2 (full_hour (demo_mode env (df_Org flags)) n)
      (concat (map (\<lambda>k. map (hour_start (d + k)) [0..<24])
        (if df_FutureData flags then map int [0..<nat (df_Days flags)] else map (\<lambda>k. - int k) (rev [1..<Suc (nat (df_Days flags))])))) bs"
proof -
  let ?org = "demo_mode env (df_Org flags)"
  have "draws seen (GenerateAPIKeys lib ?org)"
    unfolding GenerateAPIKeys_def by (rule gives_bind [OF draw_keys [OF assms(1)]]) (rule gives_upd, simp_all)
  then have "draws seen (DemoInit lib ?org (df_Api flags) (df_ApiVersion flags))"
    unfolding DemoInit_def by (intro gives_any gives_upd) simp_all
  then obtain u where u: "DemoInit lib ?org (df_Api flags) (df_ApiVersion flags) s = (Inr (), u)" "seen (dm_world u) = seen (dm_world s)"
    unfolding gives_def by (metis (full_types) old.unit.exhaust)
  from assms(5) have run: "run = io_bind (DemoInit lib ?org (df_Api flags) (df_ApiVersion flags)) (\<lambda>_.
      GenerateDemoData lib writer (df_Days flags) (int n) ?org (df_FutureData flags) (df_TrackPath flags))"
    by (auto simp: main_demo_def Let_def assms(4) split: if_splits)
  from GenerateDemoData_sends [OF assms(1-3), of "df_Days flags" ?org "df_FutureData flags" "df_TrackPath flags" u] u
  show ?thesis by (simp add: run io_bind_ok)
qed

end
