(* ===== verification/Spec2Isabelle.thy ===== *)
theory Spec2Isabelle
  imports Startup Purge_Loop Pump_Writes Serializer SQL_Aggregates Mongo_Aggregate Elasticsearch Splunk AWS_Pumps Prometheus Hybrid Moesif
    Text_Sinks Statsd_Pumps Timestream Resurface Kafka Log_Pumps Influx Process_Services
begin

text \<open>
  A verification development for Tyk Pump, the process that moves the analytics records of the Tyk
  gateway from a temporal storage (Redis) to any number of back ends, the pumps.

  \<^bold>\<open>The program.\<close> \<open>main\<close> reads the configuration from a file and the environment, replaces
  references to key-value stores, opens the storages, starts the pumps and then runs the purge loop. A tick
  of the loop drains the lists of records (\<open>GetAndDeleteSet\<close>), decodes each value with the
  serializer of its list, and hands every batch to all pumps at once (\<open>writeToPumps\<close>); a pump first filters
  the batch by its own settings (\<open>filterData\<close>) and then writes it (\<open>WriteData\<close>). Pumps that aggregate
  call \<open>src/analytics\<close>, which turns a batch into one aggregate for each organisation or API, and
  merge it into a database by an upsert of rows or of documents. The uptime reports of the host checker
  go the same way to one pump of their own.

  \<^bold>\<open>Conventions.\<close> Go strings are byte strings (\<open>string\<close>). \<open>int\<close> and \<open>int64\<close> values that come
  with the records are \<open>64 word\<close> (\<open>i64\<close>), so that counters wrap around as in Go; sizes and numbers of
  the configuration are \<open>int\<close> or \<open>nat\<close>. \<open>float64\<close> is \<open>f64\<close>: the rational it denotes with
  rounding to even, infinities and NaN. A time is an instant with a zone of a fixed offset. A Go map is an
  association list, and a \<open>range\<close> over it follows the list. A call that may fail gives \<open>res\<close>: a value,
  a \<open>GoErr\<close> that the caller sees, or a \<open>GoPanic\<close> that nobody catches; \<open>log.Fatal\<close> is the panic
  \<open>exit: ...\<close>. Code with a state is a function \<open>('s, 'a) io\<close>. Items of a batch are \<open>ItemRecord r\<close>, or
  \<open>ItemNil\<close> for a value that could not be decoded.

  \<^bold>\<open>Prelude.\<close>
  \<^item> \<open>GoBase\<close>: errors and results, 64-bit arithmetic, maps, and the locale \<open>group_loop\<close>, the
    contract of the loops that keep one accumulator for each key. It is interpreted as \<open>rest\<close>
    (\<open>Aggregate_Groups\<close>), \<open>graph\<close>, \<open>mcp\<close>, \<open>upt\<close> (\<open>Uptime\<close>) and \<open>prom\<close> (\<open>Prometheus\<close>).
  \<^item> \<open>GoIO\<close>: calls with a state, loops that return at the first error, calls whose error is only logged.
  \<^item> \<open>GoText\<close>, \<open>GoFloat\<close>, \<open>GoTime\<close>, \<open>HTTP_Headers\<close>: what the code uses of \<open>strings\<close>, \<open>strconv\<close>,
    \<open>base64\<close>, \<open>float64\<close>, \<open>time\<close> and \<open>http.Header\<close>.
  \<^item> \<open>Batching\<close>: slices of a batch and the locale \<open>batching\<close>, interpreted for index loops (\<open>slices\<close>)
    and for Kinesis' way to cut (\<open>kinesis\<close>). \<open>Event_Values\<close>: the values pumps send.

  \<^bold>\<open>Records and aggregates\<close> (\<open>src/analytics\<close>).
  \<^item> \<open>Analytics_Record\<close>: \<open>analytics.go\<close>, \<open>graph_record.go\<close>, \<open>mcp_record.go\<close>, \<open>analytics_filters.go\<close>.
    Records, their trimming, ignored fields and filters.
  \<^item> \<open>Aggregate\<close>, \<open>Aggregate_Groups\<close>: \<open>AggregateData\<close> of \<open>aggregate.go\<close>. \<open>incrementAggregate\<close>
    is the whole increment of one record; the lemmas show totals and units as counts over the batch, when
    the function returns, and when it panics.
  \<^item> \<open>Aggregate_Graph\<close>, \<open>Aggregate_MCP\<close>, \<open>Uptime\<close>: the other three aggregations.
  \<^item> \<open>Aggregate_SQL\<close>, \<open>Aggregate_Docs\<close>: an aggregate as rows (\<open>Dimensions\<close>, row ids, the upsert) and
    as an update document (\<open>AsChange\<close>, \<open>AsTimeUpdate\<close>). The lemmas: aggregates are well formed, row ids are
    distinct, the upsert is the merge of counters, a document holds every counter.

  \<^bold>\<open>The process\<close> (\<open>src/main.go\<close> and what it calls).
  \<^item> \<open>Startup\<close>: \<open>config.go\<close>, \<open>kv.go\<close>, \<open>pumps/pump.go\<close>, \<open>pumps/init.go\<close>. \<open>LoadConfig\<close>,
    \<open>initialisePumps\<close> and \<open>main_start\<close>; which pumps run, and that no reference reaches a pump unresolved.
  \<^item> \<open>Temporal_Storage\<close>: \<open>src/storage\<close>. The shared connection and \<open>GetAndDeleteSet\<close> as functions over a
    record with the connection and the world; a drain hands over the head of a list, in order.
  \<^item> \<open>Main_Loop\<close>, \<open>Purge_Loop\<close>: settings of a pump, \<open>filterData\<close>, one tick (\<open>purge_tick\<close>), shutdown.
  \<^item> \<open>Pump_Writes\<close>: \<open>writeToPumps\<close> and \<open>execPumpWriting\<close> as the step relations \<open>sys_step\<close> and
    \<open>exec_step\<close>; the wait group, the buffered channel, and that every run ends.
  \<^item> \<open>Serializer\<close>: the protobuf serializer and its round trip.
  \<^item> \<open>HTTP_Retry\<close>: \<open>src/retry/http-retry.go\<close>, shared by pumps that send HTTP requests.
  \<^item> \<open>Instrumentation\<close>: the StatsD sink of the process, its loop as the step relation \<open>sink_step\<close>.
  \<^item> \<open>Demo_Data\<close>, \<open>Process_Services\<close>: demo records, the logger, the health check, the demo mode.

  \<^bold>\<open>The pumps\<close> (\<open>src/pumps\<close>). For each: the configuration, \<open>Init\<close> once the configuration is decoded,
  the whole \<open>WriteData\<close>, and what else changes its state.
  \<^item> \<open>SQL_Common\<close>, \<open>SQL_Pumps\<close>, \<open>SQL_Aggregates\<close>: \<open>sql.go\<close>, \<open>graph_sql.go\<close>, \<open>mcp_sql.go\<close>,
    \<open>sql_aggregate.go\<close>, \<open>graph_sql_aggregate.go\<close>, \<open>mcp_sql_aggregate.go\<close>. Tables for each day, batches, upserts.
  \<^item> \<open>Mongo_Pumps\<close>, \<open>Mongo_Aggregate\<close>: \<open>mongo.go\<close>, \<open>mongo_selective.go\<close>, \<open>graph_mongo.go\<close>,
    \<open>mcp_mongo.go\<close>, \<open>mongo_aggregate.go\<close>, \<open>mcp_mongo_aggregate.go\<close>. The locale \<open>accumulator\<close> is the cutting of
    a batch into sets of limited size, interpreted for both families (\<open>mongo\<close>, \<open>selective\<close>); the
    concurrent inserts report on a channel; self-healing halves the aggregation time.
  \<^item> \<open>Elasticsearch\<close>, \<open>Splunk\<close>, \<open>AWS_Pumps\<close> (Kinesis, SQS), \<open>Timestream\<close>, \<open>Kafka\<close>, \<open>Influx\<close>,
    \<open>Prometheus\<close>, \<open>Statsd_Pumps\<close>, \<open>Hybrid\<close>, \<open>Moesif\<close>, \<open>Resurface\<close>, \<open>Log_Pumps\<close> (syslog, Graylog,
    Logz.io, Segment, dummy), \<open>Text_Sinks\<close> (CSV, stdout). The worker of Resurface and its
    overlapping writes and flushes are step relations.

  \<^bold>\<open>Bounds, termination and fuel.\<close> No definition uses fuel. Loops that may not end are
  \<open>partial_function (option)\<close>, where \<open>None\<close> is a run that does not return: the batches of Kinesis
  and SQS (they do not return for a size of 0), the retries of connections that call themselves
  (Elasticsearch, InfluxDB, StatsD), and the restarts of self-healing, which is proved to return. All
  else is total by structural recursion. The constants are the code's: 22 lists in a tick (11 keys, two
  serializers), chunks of at most 100 Timestream records and of 2048 bytes of a response, packets
  of 1440 bytes and 8192 waiting commands of the sink, 4096 buffered bytes of the CSV writer, 5 batches
  in Resurface's channel, three retries of a login. Where a length goes through \<open>float64\<close>, as in the
  number of chunks, the result is proved exact below \<open>2 ^ 53\<close>.

  \<^bold>\<open>Parameters.\<close> Client libraries, databases, codecs, the network, clocks, random numbers and the
  environment are arguments: functions, or records of functions over a state of the outside (\<open>..._lib\<close>).
  What a property needs of them is a hypothesis that states their documented behaviour, for instance that a
  list of the storage is read from its head; the witness of each such property instantiates them with a
  concrete function.

  \<^bold>\<open>What the theorems show.\<close> The properties, each marked with its number where it is stated,
  follow a record through the process: drained once and in order, decoded, filtered exactly by the settings,
  handed to every pump, written once, in order and within the limits of the back end, or counted
  exactly once in each unit of its aggregate; upserts merge counters; masked and filtered data does not
  reach a back end; writes end. Others show what the code does where it fails: panics on nil maps, empty
  requests that are repeated for ever, a restart that counts twice, clients that are thrown away.

  \<^bold>\<open>Not modelled, and why.\<close> Decoding of configurations (mapstructure, envconfig and JSON are libraries; the
  models start from decoded values, and the order of the steps around them is in \<open>Startup\<close>); the
  command line (a library); generated protobuf code; log entries, unless they are the purpose of the code; the
  listener of the Prometheus pump and the profiling handlers of the health check (libraries); transport
  settings of the Timestream client; parsing of private keys and the blurred URL of the Mongo log; the
  creation of record indexes of SQL tables in the background, which only tests ask for; the lookup of
  places in a GeoIP database; time zones whose offset changes during the year. Goroutines are modelled
  where their order matters (writes, inserts, Resurface, the sink) and run in place elsewhere.
\<close>

end
